(* ===== verification/Prelude.thy ===== *)
theory Prelude
  imports Main "HOL-Library.AList" "HOL-Library.List_Lexorder" "HOL-Library.Char_ord"
    "HOL-Library.Sublist" "HOL-Library.Word"
begin

text \<open>
  What every component shares: the JavaScript strings and string methods the sources use,
  the insertion-ordered \<open>Map\<close> of JavaScript as an association list, and generic list lemmas.

  A JavaScript string is modelled as a HOL \<open>string\<close>, a list of code units below 256.
  Comparison with \<open><\<close> is the lexicographic order on code units, as in JavaScript
  (\<open>HOL-Library.List_Lexorder\<close> over \<open>HOL-Library.Char_ord\<close>).
\<close>

named_theorems jsmap_simps \<open>laws of the JavaScript map operations\<close>
named_theorems jsstr_simps \<open>laws of the JavaScript string operations\<close>

section \<open>Strings\<close>

abbreviation LF :: char where "LF \<equiv> CHR 0x0A"
abbreviation CR :: char where "CR \<equiv> CHR 0x0D"

text \<open>\<open>js_space\<close> is the class \<open>\s\<close> of a regular expression and what \<open>trim()\<close> removes.\<close>

definition js_space :: "char \<Rightarrow> bool" where
  "js_space c \<longleftrightarrow> c \<in> {CHR 0x09, LF, CHR 0x0B, CHR 0x0C, CR, CHR '' '', CHR 0xA0}"

text \<open>A range \<open>a-z\<close> of a character class.\<close>

definition char_range :: "char \<Rightarrow> char \<Rightarrow> char \<Rightarrow> bool" where
  "char_range lo hi c \<longleftrightarrow> lo \<le> c \<and> c \<le> hi"

definition js_digit :: "char \<Rightarrow> bool" where
  "js_digit c = char_range (CHR ''0'') (CHR ''9'') c"

text \<open>\<open>js_word\<close> is the class \<open>\w\<close>, the one a \<open>\b\<close> boundary is about.\<close>

definition js_word :: "char \<Rightarrow> bool" where
  "js_word c \<longleftrightarrow> char_range (CHR ''A'') (CHR ''Z'') c \<or> char_range (CHR ''a'') (CHR ''z'') c
     \<or> js_digit c \<or> c = CHR ''_''"

text \<open>\<open>toLowerCase()\<close> and \<open>toUpperCase()\<close> on the ASCII letters.\<close>

definition lower_char :: "char \<Rightarrow> char" where
  "lower_char c =
     (if char_range (CHR ''A'') (CHR ''Z'') c then char_of (of_char c + (32::nat)) else c)"

definition upper_char :: "char \<Rightarrow> char" where
  "upper_char c =
     (if char_range (CHR ''a'') (CHR ''z'') c then char_of (of_char c - (32::nat)) else c)"

definition js_lower :: "string \<Rightarrow> string" where
  "js_lower s = map lower_char s"

definition js_upper :: "string \<Rightarrow> string" where
  "js_upper s = map upper_char s"

definition js_trim :: "string \<Rightarrow> string" where
  "js_trim s = rev (dropWhile js_space (rev (dropWhile js_space s)))"

fun js_starts :: "string \<Rightarrow> string \<Rightarrow> bool" where
  "js_starts s [] = True"
| "js_starts [] (p # ps) = False"
| "js_starts (c # cs) (p # ps) = (c = p \<and> js_starts cs ps)"

fun js_includes :: "string \<Rightarrow> string \<Rightarrow> bool" where
  "js_includes [] p = (p = [])"
| "js_includes (c # cs) p = (js_starts (c # cs) p \<or> js_includes cs p)"

lemma js_starts_iff: "js_starts s p \<longleftrightarrow> (\<exists>t. s = p @ t)"
  by (induction s p rule: js_starts.induct) auto

lemma js_starts_append [simp]: "js_starts (p @ s) p"
  by (simp add: js_starts_iff)

lemma length_js_lower [simp]: "length (js_lower s) = length s"
  by (simp add: js_lower_def)

lemma js_lower_append: "js_lower (s @ t) = js_lower s @ js_lower t"
  by (simp add: js_lower_def)

lemma js_lower_Nil [simp]: "js_lower [] = []"
  by (simp add: js_lower_def)

lemma js_lower_Nil_iff [simp]: "js_lower s = [] \<longleftrightarrow> s = []" "[] = js_lower s \<longleftrightarrow> s = []"
  by (simp_all add: js_lower_def)

section \<open>Byte arrays\<close>

text \<open>A \<open>Uint8Array\<close> is a list of 8-bit words.\<close>

type_synonym byte = "8 word"
type_synonym bytes = "byte list"

section \<open>Numbers in strings\<close>

text \<open>What a template literal prints for an integer-valued number.\<close>

definition dec_digit :: "nat \<Rightarrow> char" where
  "dec_digit d = char_of (48 + d)"

fun show_nat :: "nat \<Rightarrow> string" where
  "show_nat n = (if n < 10 then [dec_digit n] else show_nat (n div 10) @ [dec_digit (n mod 10)])"

declare show_nat.simps [simp del]

definition show_int :: "int \<Rightarrow> string" where
  "show_int z = (if z < 0 then CHR ''-'' # show_nat (nat (- z)) else show_nat (nat z))"

definition read_digit :: "char \<Rightarrow> nat" where
  "read_digit c = of_char c - 48"

definition read_nat :: "string \<Rightarrow> nat" where
  "read_nat s = foldl (\<lambda>n c. 10 * n + read_digit c) 0 s"

definition read_int :: "string \<Rightarrow> int" where
  "read_int s = (case s of [] \<Rightarrow> 0
     | c # cs \<Rightarrow> if c = CHR ''-'' then - int (read_nat cs) else int (read_nat (c # cs)))"

lemma of_char_dec_digit: "d < 10 \<Longrightarrow> of_char (dec_digit d) = (48 + d :: nat)"
  by (simp add: dec_digit_def)

lemma read_dec_digit [simp]: "d < 10 \<Longrightarrow> read_digit (dec_digit d) = d"
  by (simp add: read_digit_def of_char_dec_digit)

lemma dec_digit_eq_iff: "d < 10 \<Longrightarrow> e < 10 \<Longrightarrow> dec_digit d = dec_digit e \<longleftrightarrow> d = e"
  by (metis read_dec_digit)

lemma js_digit_dec_digit: "d < 10 \<Longrightarrow> js_digit (dec_digit d)"
  by (simp add: js_digit_def char_range_def less_eq_char_def of_char_dec_digit)

lemma show_nat_digits: "c \<in> set (show_nat n) \<Longrightarrow> js_digit c"
proof (induction n rule: show_nat.induct)
  case (1 n)
  then show ?case
    by (subst (asm) (2) show_nat.simps) (auto simp: js_digit_dec_digit split: if_splits)
qed

lemma show_nat_not_Nil [simp]: "show_nat n \<noteq> []"
  by (subst show_nat.simps) simp

lemma read_show_nat [simp]: "read_nat (show_nat n) = n"
proof (induction n rule: show_nat.induct)
  case (1 n)
  then show ?case
    by (subst show_nat.simps) (auto simp: read_nat_def)
qed

lemma read_show_int [simp]: "read_int (show_int z) = z"
proof (cases "z < 0")
  case True
  then show ?thesis by (simp add: show_int_def read_int_def)
next
  case False
  have "hd (show_nat (nat z)) \<noteq> CHR ''-''"
    using show_nat_digits [of "hd (show_nat (nat z))" "nat z"]
    by (auto simp: js_digit_def char_range_def less_eq_char_def)
  moreover obtain c cs where cs: "show_nat (nat z) = c # cs"
    by (cases "show_nat (nat z)") auto
  ultimately have "read_int (show_nat (nat z)) = int (read_nat (show_nat (nat z)))"
    by (simp add: read_int_def del: read_show_nat)
  with False show ?thesis
    by (simp add: show_int_def)
qed

lemma show_int_inject: "show_int y = show_int z \<longleftrightarrow> y = z"
  by (metis read_show_int)

section \<open>Lists\<close>

text \<open>\<open>xs.find(P)\<close>.\<close>

definition js_find :: "('a \<Rightarrow> bool) \<Rightarrow> 'a list \<Rightarrow> 'a option" where
  "js_find P xs = List.find P xs"

lemma js_find_Some_iff: "js_find P xs = Some x \<Longrightarrow> x \<in> set xs \<and> P x"
  by (auto simp: js_find_def find_Some_iff)

lemma js_find_None_iff: "js_find P xs = None \<longleftrightarrow> (\<forall>x \<in> set xs. \<not> P x)"
  by (auto simp: js_find_def find_None_iff)

text \<open>A separator that occurs in neither left part splits a string in one way only.\<close>

lemma append_sep_inject:
  "c \<notin> set xs \<Longrightarrow> c \<notin> set xs' \<Longrightarrow>
     xs @ c # ys = xs' @ c # ys' \<longleftrightarrow> xs = xs' \<and> ys = ys'"
  by (induction xs arbitrary: xs') (force simp: Cons_eq_append_conv)+

text \<open>The running maximum of a loop \<open>m = Math.max(m, f(x))\<close>.\<close>

definition loop_max :: "('a \<Rightarrow> int) \<Rightarrow> 'a list \<Rightarrow> int \<Rightarrow> int" where
  "loop_max f xs m = fold (\<lambda>x m. max m (f x)) xs m"

lemma loop_max_ge_start: "m \<le> loop_max f xs m"
proof (induction xs arbitrary: m)
  case Nil
  then show ?case by (simp add: loop_max_def)
next
  case (Cons x xs)
  show ?case
    using Cons.IH [of "max m (f x)"] by (simp add: loop_max_def)
qed

lemma loop_max_ge: "x \<in> set xs \<Longrightarrow> f x \<le> loop_max f xs m"
proof (induction xs arbitrary: m)
  case Nil
  then show ?case by simp
next
  case (Cons y ys)
  then show ?case
    using loop_max_ge_start [of "max m (f y)" f ys] by (auto simp: loop_max_def)
qed

lemma loop_max_le:
  "loop_max f xs m \<le> b \<longleftrightarrow> m \<le> b \<and> (\<forall>x \<in> set xs. f x \<le> b)"
  unfolding loop_max_def by (induction xs arbitrary: m) auto

section \<open>Trimming and substrings\<close>

definition trimmed :: "string \<Rightarrow> bool" where
  "trimmed s \<longleftrightarrow> s = [] \<or> \<not> js_space (hd s) \<and> \<not> js_space (last s)"

lemma trimmed_Nil [simp]: "trimmed []"
  by (simp add: trimmed_def)

lemma trimmed_js_trim [simp]: "trimmed (js_trim s)"
proof (cases "js_trim s = []")
  case False
  let ?t = "dropWhile js_space s"
  have ne: "dropWhile js_space (rev ?t) \<noteq> []"
    using False by (simp add: js_trim_def)
  then have last: "\<not> js_space (last (js_trim s))"
    using hd_dropWhile [of js_space "rev ?t"] by (auto simp: js_trim_def last_rev dropWhile_eq_Nil_conv)
  obtain u where u: "?t = js_trim s @ u"
  proof -
    have "rev ?t = takeWhile js_space (rev ?t) @ dropWhile js_space (rev ?t)" by simp
    then have "?t = rev (dropWhile js_space (rev ?t)) @ rev (takeWhile js_space (rev ?t))"
      by (metis rev_append rev_rev_ident)
    then show ?thesis by (intro that [of "rev (takeWhile js_space (rev ?t))"]) (simp add: js_trim_def)
  qed
  then have "hd ?t = hd (js_trim s)" "?t \<noteq> []"
    using False by (cases "js_trim s"; simp)+
  then have "\<not> js_space (hd (js_trim s))"
    using hd_dropWhile [of js_space s] by (auto simp: dropWhile_eq_Nil_conv)
  with last show ?thesis by (simp add: trimmed_def)
qed (simp add: trimmed_def)

lemma js_trim_trimmed: "trimmed s \<Longrightarrow> js_trim s = s"
proof (cases "s = []")
  case False
  have keep: "dropWhile js_space t = t" if "t \<noteq> []" "\<not> js_space (hd t)" for t
    using that by (cases t) auto
  assume "trimmed s"
  with False have "dropWhile js_space s = s" "dropWhile js_space (rev s) = rev s"
    by (auto simp: trimmed_def hd_rev intro!: keep)
  then show ?thesis by (simp add: js_trim_def)
qed (simp add: js_trim_def)

lemma js_trim_idem [simp]: "js_trim (js_trim s) = js_trim s"
  by (simp add: js_trim_trimmed)

lemma trimmed_append: "trimmed s \<Longrightarrow> trimmed t \<Longrightarrow> trimmed (s @ t)"
  by (cases "s = []"; cases "t = []") (auto simp: trimmed_def hd_append last_append)

lemma js_includes_iff: "js_includes s p \<longleftrightarrow> (\<exists>a b. s = a @ p @ b)"
proof (induction s)
  case (Cons c s)
  show ?case
    unfolding js_includes.simps Cons.IH
    by (auto simp: js_starts_iff Cons_eq_append_conv)
qed simp

lemma js_includes_append: "js_includes s p \<or> js_includes t p \<Longrightarrow> js_includes (s @ t) p"
  unfolding js_includes_iff by (metis append_assoc)

lemma js_starts_append2: "js_starts s p \<Longrightarrow> js_starts (s @ t) p"
  by (auto simp: js_starts_iff)

lemma js_starts_prefix: "js_starts s p \<longleftrightarrow> prefix p s"
  by (auto simp: js_starts_iff prefix_def)

end
