(* ===== verification/JsMap.thy ===== *)
theory JsMap
  imports Prelude
begin

text \<open>
  The JavaScript \<open>Map\<close>: insertion order, \<open>set\<close> on a present key keeps its place,
  \<open>delete\<close> removes it. The locale \<open>js_map\<close> is the contract the components rely on; the
  association lists of \<open>HOL-Library.AList\<close> are its implementation.
\<close>

type_synonym ('k, 'v) jsmap = "('k \<times> 'v) list"

definition jget :: "('k, 'v) jsmap \<Rightarrow> 'k \<Rightarrow> 'v option" where
  "jget m k = map_of m k"

definition jset :: "'k \<Rightarrow> 'v \<Rightarrow> ('k, 'v) jsmap \<Rightarrow> ('k, 'v) jsmap" where
  "jset k v m = AList.update k v m"

definition jdel :: "'k \<Rightarrow> ('k, 'v) jsmap \<Rightarrow> ('k, 'v) jsmap" where
  "jdel k m = AList.delete k m"

definition jvals :: "('k, 'v) jsmap \<Rightarrow> 'v list" where
  "jvals m = map snd m"

abbreviation jhas :: "('k, 'v) jsmap \<Rightarrow> 'k \<Rightarrow> bool" where
  "jhas m k \<equiv> jget m k \<noteq> None"

abbreviation jkeys :: "('k, 'v) jsmap \<Rightarrow> 'k list" where
  "jkeys m \<equiv> map fst m"

definition jmap_ok :: "('k, 'v) jsmap \<Rightarrow> bool" where
  "jmap_ok m \<longleftrightarrow> distinct (jkeys m)"

text \<open>
  \<open>for (const [k, v] of [...m]) if (P(k, v)) m.delete(k)\<close>: the loop runs over a copy of the
  entries and deletes from the map.
\<close>

definition jsweep :: "('k \<Rightarrow> 'v \<Rightarrow> bool) \<Rightarrow> ('k, 'v) jsmap \<Rightarrow> ('k, 'v) jsmap" where
  "jsweep P m = fold (\<lambda>(k, v) acc. if P k v then jdel k acc else acc) m m"

section \<open>The contract\<close>

locale js_map =
  fixes get :: "'m \<Rightarrow> 'k \<Rightarrow> 'v option"
    and put :: "'k \<Rightarrow> 'v \<Rightarrow> 'm \<Rightarrow> 'm"
    and del :: "'k \<Rightarrow> 'm \<Rightarrow> 'm"
    and entries :: "'m \<Rightarrow> ('k \<times> 'v) list"
    and ok :: "'m \<Rightarrow> bool"
  assumes get_put: "get (put k v m) = (get m)(k := Some v)"
    and get_del: "get (del k m) = (get m)(k := None)"
    and entries_get: "ok m \<Longrightarrow> (k, v) \<in> set (entries m) \<longleftrightarrow> get m k = Some v"
    and ok_put: "ok m \<Longrightarrow> ok (put k v m)"
    and ok_del: "ok m \<Longrightarrow> ok (del k m)"
begin

lemma get_put_same: "get (put k v m) k = Some v"
  by (simp add: get_put)

lemma get_put_other: "k' \<noteq> k \<Longrightarrow> get (put k v m) k' = get m k'"
  by (simp add: get_put)

lemma get_sweep_loop:
  "get (fold (\<lambda>(k, v) acc. if P k v then del k acc else acc) es m) k =
     (if \<exists>v. (k, v) \<in> set es \<and> P k v then None else get m k)"
  by (induction es arbitrary: m) (auto simp: get_del split: if_splits)

lemma ok_sweep_loop:
  "ok m \<Longrightarrow> ok (fold (\<lambda>(k, v) acc. if P k v then del k acc else acc) es m)"
  by (induction es arbitrary: m) (auto simp: ok_del)

lemma get_sweep:
  assumes "ok m"
  shows "get (fold (\<lambda>(k, v) acc. if P k v then del k acc else acc) (entries m) m) k =
     (case get m k of None \<Rightarrow> None | Some v \<Rightarrow> if P k v then None else Some v)"
  using assms by (auto simp: get_sweep_loop entries_get split: option.splits)

lemma entries_put:
  assumes "ok m"
  shows "(k', v') \<in> set (entries (put k v m)) \<longleftrightarrow>
     (if k' = k then v' = v else (k', v') \<in> set (entries m))"
  using assms by (auto simp: entries_get ok_put get_put)

end

interpretation jm: js_map "jget" "jset" "jdel" "\<lambda>m. m" "jmap_ok"
proof unfold_locales
  fix m :: "('a, 'b) jsmap" and k v
  show "jget (jset k v m) = (jget m)(k := Some v)"
    by (simp add: fun_eq_iff jget_def jset_def update_conv)
  show "jget (jdel k m) = (jget m)(k := None)"
    by (simp add: fun_eq_iff jget_def jdel_def delete_conv)
  show "jmap_ok m \<Longrightarrow> (k, v) \<in> set m \<longleftrightarrow> jget m k = Some v"
    by (auto simp: jmap_ok_def jget_def map_of_eq_Some_iff)
  show "jmap_ok m \<Longrightarrow> jmap_ok (jset k v m)"
    by (auto simp: jmap_ok_def jset_def distinct_update)
  show "jmap_ok m \<Longrightarrow> jmap_ok (jdel k m)"
    by (auto simp: jmap_ok_def jdel_def distinct_delete)
qed

lemmas jmap_laws [jsmap_simps] = jm.get_put jm.get_del jm.ok_put jm.ok_del

lemma jmap_ok_Nil [simp, jsmap_simps]: "jmap_ok []"
  by (simp add: jmap_ok_def)

lemma jget_Nil [simp, jsmap_simps]: "jget [] k = None"
  by (simp add: jget_def)

lemma jget_jsweep [jsmap_simps]:
  "jmap_ok m \<Longrightarrow> jget (jsweep P m) k =
     (case jget m k of None \<Rightarrow> None | Some v \<Rightarrow> if P k v then None else Some v)"
  unfolding jsweep_def by (rule jm.get_sweep)

lemma jmap_ok_jsweep [jsmap_simps]: "jmap_ok m \<Longrightarrow> jmap_ok (jsweep P m)"
  unfolding jsweep_def by (rule jm.ok_sweep_loop)

text \<open>The loop is a filter that keeps the order of the entries.\<close>

lemma jdel_eq_filter: "jdel k m = filter (\<lambda>e. fst e \<noteq> k) m"
  by (auto simp: jdel_def AList.delete_eq case_prod_unfold intro!: filter_cong)

lemma jsweep_loop_filter:
  "fold (\<lambda>(k, v) acc. if P k v then jdel k acc else acc) es m =
     filter (\<lambda>e. \<not> (\<exists>v. (fst e, v) \<in> set es \<and> P (fst e) v)) m"
proof (induction es arbitrary: m)
  case Nil
  then show ?case by simp
next
  case (Cons e es)
  obtain k v where e: "e = (k, v)" by (cases e)
  show ?case
    by (cases "P k v") (auto simp: e Cons.IH jdel_eq_filter intro!: filter_cong)
qed

lemma jsweep_filter:
  assumes "jmap_ok m"
  shows "jsweep P m = filter (\<lambda>(k, v). \<not> P k v) m"
  unfolding jsweep_def jsweep_loop_filter
  using assms by (intro filter_cong) (auto simp: jm.entries_get)

lemma in_jvals: "v \<in> set (jvals m) \<longleftrightarrow> (\<exists>k. (k, v) \<in> set m)"
  by (force simp: jvals_def)

lemma set_jvals_iff:
  "jmap_ok m \<Longrightarrow> v \<in> set (jvals m) \<longleftrightarrow> (\<exists>k. jget m k = Some v)"
  by (force simp: jvals_def jm.entries_get [symmetric])

lemma jvals_jset: "x \<in> set (jvals (jset k v m)) \<Longrightarrow> x = v \<or> x \<in> set (jvals m)"
  unfolding in_jvals jset_def
proof -
  assume "\<exists>k'. (k', x) \<in> set (AList.update k v m)"
  then show "x = v \<or> (\<exists>k. (k, x) \<in> set m)"
    by (induction m) (auto split: if_splits)
qed

lemma in_jset: "p \<in> set (jset k v m) \<Longrightarrow> p = (k, v) \<or> p \<in> set m"
  unfolding jset_def by (induction m) (auto split: if_splits)

lemma jvals_jsweep_subset: "jmap_ok m \<Longrightarrow> set (jvals (jsweep P m)) \<subseteq> set (jvals m)"
  by (auto simp: jsweep_filter jvals_def)

end
