(* ===== verification/Contracts.thy ===== *)
theory Contracts
  imports JsMap "HOL-Library.Product_Lexorder"
begin

text \<open>
  The contracts several components share. \<open>event_machine\<close>: a step function that keeps an
  invariant, run over a list of events. \<open>lww_store\<close>: a store of last-writer-wins registers,
  one per key, whose writes carry a stamp; writes of distinct stamps commute, so two replicas
  that saw the same writes agree.
\<close>

section \<open>Machines that keep an invariant\<close>

locale event_machine =
  fixes step :: "'s \<Rightarrow> 'e \<Rightarrow> 's"
    and inv :: "'s \<Rightarrow> bool"
  assumes inv_step: "inv s \<Longrightarrow> inv (step s e)"
begin

lemma inv_run: "inv s \<Longrightarrow> inv (foldl step s es)"
  by (induction es arbitrary: s) (auto simp: inv_step)

end

text \<open>A machine one of whose quantities never goes down.\<close>

locale monotone_machine = event_machine step inv
  for step :: "'s \<Rightarrow> 'e \<Rightarrow> 's" and inv :: "'s \<Rightarrow> bool" +
  fixes level :: "'s \<Rightarrow> int"
  assumes level_step: "inv s \<Longrightarrow> level s \<le> level (step s e)"
begin

lemma level_run: "inv s \<Longrightarrow> level s \<le> level (foldl step s es)"
proof (induction es arbitrary: s)
  case Nil
  then show ?case by simp
next
  case (Cons e es)
  have "level s \<le> level (step s e)"
    using Cons.prems by (rule level_step)
  also have "\<dots> \<le> level (foldl step (step s e) es)"
    using Cons.prems by (intro Cons.IH inv_step)
  finally show ?case by simp
qed

end

section \<open>Last-writer-wins registers\<close>

locale lww_store =
  fixes get :: "'s \<Rightarrow> 'k \<Rightarrow> 'v option"
    and upsert :: "'v \<Rightarrow> 's \<Rightarrow> 's"
    and key :: "'v \<Rightarrow> 'k"
    and stamp :: "'v \<Rightarrow> 't::linorder"
  assumes get_upsert:
    "get (upsert v s) k =
       (if k = key v
        then (case get s k of None \<Rightarrow> Some v
              | Some c \<Rightarrow> if stamp c \<le> stamp v then Some v else Some c)
        else get s k)"
begin

lemma upsert_mono:
  "get s k = Some c \<Longrightarrow> \<exists>c'. get (upsert v s) k = Some c' \<and> stamp c \<le> stamp c'"
  by (auto simp: get_upsert)

lemma upserts_mono:
  "get s k = Some c \<Longrightarrow> \<exists>c'. get (fold upsert vs s) k = Some c' \<and> stamp c \<le> stamp c'"
proof (induction vs arbitrary: s c)
  case Nil
  then show ?case by simp
next
  case (Cons v vs)
  from upsert_mono [OF Cons.prems] obtain c1
    where c1: "get (upsert v s) k = Some c1" "stamp c \<le> stamp c1" by blast
  from Cons.IH [OF c1(1)] c1(2) show ?case by (auto intro: order_trans)
qed

lemma upserts_other:
  "\<forall>v \<in> set vs. key v \<noteq> k \<Longrightarrow> get (fold upsert vs s) k = get s k"
  by (induction vs arbitrary: s) (auto simp: get_upsert)

text \<open>What a register holds after a run of writes was written, or was there before.\<close>

lemma upserts_origin:
  "get (fold upsert vs s) k = Some r \<Longrightarrow>
     get s k = Some r \<or> (r \<in> set vs \<and> key r = k)"
  by (induction vs arbitrary: s) (fastforce simp: get_upsert split: if_splits option.splits)+

lemma upsert_newest:
  "\<exists>r. get (upsert v s) (key v) = Some r \<and> stamp v \<le> stamp r"
  by (auto simp: get_upsert split: option.splits)

lemma upserts_newest:
  assumes "v \<in> set vs" "key v = k"
  shows "\<exists>r. get (fold upsert vs s) k = Some r \<and> stamp v \<le> stamp r"
  using assms
proof (induction vs arbitrary: s)
  case Nil
  then show ?case by simp
next
  case (Cons w vs)
  show ?case
  proof (cases "v = w")
    case True
    with Cons.prems upsert_newest [of w s]
    obtain c where "get (upsert w s) k = Some c" "stamp v \<le> stamp c" by auto
    with upserts_mono [of "upsert w s" k c vs] show ?thesis by (auto intro: order_trans)
  next
    case False
    with Cons show ?thesis by simp
  qed
qed

text \<open>Two runs over the same set of writes, in any order and multiplicity, agree.\<close>

lemma upserts_converge:
  assumes same: "set vs = set ws"
    and tie: "\<And>v w. v \<in> set vs \<union> {c. get s k = Some c} \<Longrightarrow>
      w \<in> set vs \<union> {c. get s k = Some c} \<Longrightarrow> key v = k \<or> get s k = Some v \<Longrightarrow>
      key w = k \<or> get s k = Some w \<Longrightarrow> stamp v = stamp w \<Longrightarrow> v = w"
  shows "get (fold upsert vs s) k = get (fold upsert ws s) k"
proof (cases "\<exists>v \<in> set vs. key v = k")
  case False
  with same show ?thesis by (simp add: upserts_other)
next
  case True
  then obtain v where v: "v \<in> set vs" "key v = k" by blast
  obtain r where r: "get (fold upsert vs s) k = Some r" "stamp v \<le> stamp r"
    using upserts_newest [OF v] by blast
  obtain q where q: "get (fold upsert ws s) k = Some q" "stamp v \<le> stamp q"
    using upserts_newest v same by blast
  have r_le: "stamp r \<le> stamp q"
    using upserts_origin [OF r(1)] q(1) upserts_mono [of s k r ws]
      upserts_newest [of r ws k s] same by auto
  have q_le: "stamp q \<le> stamp r"
    using upserts_origin [OF q(1)] r(1) upserts_mono [of s k q vs]
      upserts_newest [of q vs k s] same by auto
  have "r = q"
    using upserts_origin [OF r(1)] upserts_origin [OF q(1)] same r_le q_le
    by (intro tie) auto
  with r q show ?thesis by simp
qed

end

section \<open>Filters that never leave the client with nothing\<close>

locale fail_open =
  fixes pick :: "'a list \<Rightarrow> 'a list"
  assumes pick_subset: "set (pick xs) \<subseteq> set xs"
    and pick_nonempty: "xs \<noteq> [] \<Longrightarrow> pick xs \<noteq> []"
begin

lemma pick_Nil_iff: "pick xs = [] \<longleftrightarrow> xs = []"
  using pick_subset [of "[]"] pick_nonempty [of xs] by auto

lemma pick_all: "list_all P xs \<Longrightarrow> list_all P (pick xs)"
  using pick_subset [of xs] by (auto simp: list_all_iff)

lemma pick_some: "xs \<noteq> [] \<Longrightarrow> \<exists>x. x \<in> set (pick xs) \<and> x \<in> set xs"
  using pick_nonempty [of xs] pick_subset [of xs] by (cases "pick xs") auto

end

text \<open>A filter that falls back to the whole list when nothing passes is one.\<close>

lemma filter_or_all: "fail_open (\<lambda>xs. if filter P xs \<noteq> [] then filter P xs else xs)"
  by unfold_locales auto

end
