(* ===== verification/Lobby.thy ===== *)
theory Lobby
  imports Contracts
begin

text \<open>
  The waiting pool of \<open>ui/protocol.js\<close> (class \<open>Lobby\<close>): offers, claims and leave marks in
  three JavaScript maps, the last-writer-wins updates of them, the mutual-match test and the
  sweep of stale entries. Times are integer milliseconds.
\<close>

record offer =
  ofPeerId :: string
  ofVersion :: int
  ofHeartbeatMs :: int
  ofSessionSeed :: bytes

record claim =
  clClaimer :: string
  clTarget :: string
  clSessionId :: string
  clCreatedMs :: int

record leave =
  lvPeerId :: string
  lvVersion :: int
  lvLeftMs :: int

record lobby_config =
  offerTtlMs :: int
  claimTtlMs :: int
  epochMs :: int
  maxOffers :: int

record lobby =
  config :: lobby_config
  offers :: "(string, offer) jsmap"
  claims :: "(string, claim) jsmap"
  leaves :: "(string, leave) jsmap"

definition default_config :: lobby_config where
  "default_config = \<lparr>offerTtlMs = 15000, claimTtlMs = 20000, epochMs = 15000, maxOffers = 256\<rparr>"

definition new_lobby :: lobby where
  "new_lobby = \<lparr>config = default_config, offers = [], claims = [], leaves = []\<rparr>"

definition networkNow :: "lobby \<Rightarrow> int" where
  "networkNow L =
     (let n1 = loop_max ofHeartbeatMs (jvals (offers L)) 0;
          n2 = loop_max clCreatedMs (jvals (claims L)) n1
      in loop_max lvLeftMs (jvals (leaves L)) n2)"

definition isLeft :: "lobby \<Rightarrow> string \<Rightarrow> int \<Rightarrow> bool" where
  "isLeft L p v = (case jget (leaves L) p of None \<Rightarrow> False | Some l \<Rightarrow> lvVersion l \<ge> v)"

definition liveOffers :: "lobby \<Rightarrow> int \<Rightarrow> offer list" where
  "liveOffers L now =
     filter (\<lambda>b. \<not> isLeft L (ofPeerId b) (ofVersion b)
               \<and> \<not> now - ofHeartbeatMs b > offerTtlMs (config L)) (jvals (offers L))"

definition upsertOffer :: "offer \<Rightarrow> lobby \<Rightarrow> lobby" where
  "upsertOffer b L =
     (let write = L\<lparr>offers := jset (ofPeerId b) b (offers L)\<rparr>
      in case jget (offers L) (ofPeerId b) of
           None \<Rightarrow> write
         | Some cur \<Rightarrow>
             if ofVersion b > ofVersion cur
                \<or> (ofVersion b = ofVersion cur \<and> ofHeartbeatMs b \<ge> ofHeartbeatMs cur)
             then write else L)"

definition claim_key :: "claim \<Rightarrow> string" where
  "claim_key c = clClaimer c @ ''|'' @ clTarget c @ ''|'' @ clSessionId c @ ''|''
     @ show_int (clCreatedMs c)"

definition insertClaim :: "claim \<Rightarrow> lobby \<Rightarrow> lobby" where
  "insertClaim c L =
     (if jhas (claims L) (claim_key c) then L
      else L\<lparr>claims := jset (claim_key c) c (claims L)\<rparr>)"

definition upsertLeave :: "leave \<Rightarrow> lobby \<Rightarrow> lobby" where
  "upsertLeave l L =
     (let write = L\<lparr>leaves := jset (lvPeerId l) l (leaves L)\<rparr>
      in case jget (leaves L) (lvPeerId l) of
           None \<Rightarrow> write
         | Some cur \<Rightarrow> if lvVersion l \<ge> lvVersion cur then write else L)"

text \<open>The loop of \<open>mutualMatch\<close> keeps the last claim of each direction it meets.\<close>

definition scan_claim ::
  "string \<Rightarrow> string \<Rightarrow> claim \<Rightarrow> claim option \<times> claim option \<Rightarrow> claim option \<times> claim option" where
  "scan_claim a b c r =
     (if clClaimer c = a \<and> clTarget c = b then Some c else fst r,
      if clClaimer c = b \<and> clTarget c = a then Some c else snd r)"

definition mutual_scan ::
  "string \<Rightarrow> string \<Rightarrow> claim list \<Rightarrow> claim option \<times> claim option" where
  "mutual_scan a b cs = fold (scan_claim a b) cs (None, None)"

definition mutualMatch :: "lobby \<Rightarrow> string \<Rightarrow> string \<Rightarrow> string option" where
  "mutualMatch L a b =
     (case mutual_scan a b (jvals (claims L)) of
        (Some ab, Some ba) \<Rightarrow>
          if clSessionId ab = clSessionId ba then Some (clSessionId ab) else None
      | _ \<Rightarrow> None)"

text \<open>A session id is tested for truth: the empty string counts as no match.\<close>

abbreviation truthy :: "string option \<Rightarrow> bool" where
  "truthy r \<equiv> (case r of None \<Rightarrow> False | Some s \<Rightarrow> s \<noteq> '''')"

definition matchedPeers :: "lobby \<Rightarrow> string set" where
  "matchedPeers L =
     fold (\<lambda>c acc. if truthy (mutualMatch L (clClaimer c) (clTarget c))
                   then insert (clTarget c) (insert (clClaimer c) acc) else acc)
       (jvals (claims L)) {}"

definition cleanup :: "lobby \<Rightarrow> lobby" where
  "cleanup L =
     (let now = networkNow L;
          L1 = L\<lparr>offers := jsweep (\<lambda>p b. isLeft L p (ofVersion b)
                      \<or> now - ofHeartbeatMs b > offerTtlMs (config L)) (offers L)\<rparr>;
          live = set (map ofPeerId (liveOffers L1 now))
      in L1\<lparr>claims := jsweep (\<lambda>k c. now - clCreatedMs c > claimTtlMs (config L)
                      \<or> clClaimer c \<notin> live \<or> clTarget c \<notin> live) (claims L1)\<rparr>)"

section \<open>Well-formed lobbies\<close>

text \<open>Each map has one entry per key, and every entry is stored under its own key.\<close>

definition lobby_ok :: "lobby \<Rightarrow> bool" where
  "lobby_ok L \<longleftrightarrow>
     jmap_ok (offers L) \<and> jmap_ok (claims L) \<and> jmap_ok (leaves L)
     \<and> (\<forall>(p, b) \<in> set (offers L). ofPeerId b = p)
     \<and> (\<forall>(k, c) \<in> set (claims L). claim_key c = k)
     \<and> (\<forall>(p, l) \<in> set (leaves L). lvPeerId l = p)"

datatype lobby_op = UpsertOffer offer | InsertClaim claim | UpsertLeave leave | Cleanup

fun lobby_step :: "lobby \<Rightarrow> lobby_op \<Rightarrow> lobby" where
  "lobby_step L (UpsertOffer b) = upsertOffer b L"
| "lobby_step L (InsertClaim c) = insertClaim c L"
| "lobby_step L (UpsertLeave l) = upsertLeave l L"
| "lobby_step L Cleanup = cleanup L"

lemma lobby_ok_new [simp]: "lobby_ok new_lobby"
  by (simp add: lobby_ok_def new_lobby_def)

lemma lobby_ok_upsertOffer: "lobby_ok L \<Longrightarrow> lobby_ok (upsertOffer b L)"
  by (auto simp: lobby_ok_def upsertOffer_def Let_def jm.entries_put jm.ok_put
      split: option.splits if_splits)

lemma lobby_ok_insertClaim: "lobby_ok L \<Longrightarrow> lobby_ok (insertClaim c L)"
  by (auto simp: lobby_ok_def insertClaim_def Let_def jm.entries_put jm.ok_put
      split: option.splits if_splits)

lemma lobby_ok_upsertLeave: "lobby_ok L \<Longrightarrow> lobby_ok (upsertLeave l L)"
  by (auto simp: lobby_ok_def upsertLeave_def Let_def jm.entries_put jm.ok_put
      split: option.splits if_splits)

lemma set_jsweep: "jmap_ok m \<Longrightarrow> (k, v) \<in> set (jsweep P m) \<longleftrightarrow> (k, v) \<in> set m \<and> \<not> P k v"
  by (auto simp: jsweep_filter)

lemma lobby_ok_cleanup: "lobby_ok L \<Longrightarrow> lobby_ok (cleanup L)"
  by (auto simp: lobby_ok_def cleanup_def Let_def set_jsweep jmap_ok_jsweep)

lemma lobby_ok_step: "lobby_ok L \<Longrightarrow> lobby_ok (lobby_step L e)"
  by (cases e) (auto simp: lobby_ok_upsertOffer lobby_ok_insertClaim lobby_ok_upsertLeave
      lobby_ok_cleanup)

interpretation lobby_machine: event_machine lobby_step lobby_ok
  by unfold_locales (rule lobby_ok_step)

section \<open>Offers and leave marks are last-writer-wins registers\<close>

interpretation offer_lww: lww_store "\<lambda>L. jget (offers L)" upsertOffer ofPeerId
  "\<lambda>b. (ofVersion b, ofHeartbeatMs b)"
  by unfold_locales (auto simp: upsertOffer_def Let_def jm.get_put less_eq_prod_def
      split: option.splits)

interpretation leave_lww: lww_store "\<lambda>L. jget (leaves L)" upsertLeave lvPeerId lvVersion
  by unfold_locales (auto simp: upsertLeave_def Let_def jm.get_put split: option.splits)

text \<open>Frames: what each operation leaves alone.\<close>

lemma upsertOffer_frame [simp]:
  "claims (upsertOffer b L) = claims L" "leaves (upsertOffer b L) = leaves L"
  "config (upsertOffer b L) = config L"
  by (auto simp: upsertOffer_def Let_def split: option.splits)

lemma insertClaim_frame [simp]:
  "offers (insertClaim c L) = offers L" "leaves (insertClaim c L) = leaves L"
  "config (insertClaim c L) = config L"
  by (auto simp: insertClaim_def)

lemma upsertLeave_frame [simp]:
  "offers (upsertLeave l L) = offers L" "claims (upsertLeave l L) = claims L"
  "config (upsertLeave l L) = config L"
  by (auto simp: upsertLeave_def Let_def split: option.splits)

lemma cleanup_frame [simp]:
  "leaves (cleanup L) = leaves L" "config (cleanup L) = config L"
  by (simp_all add: cleanup_def Let_def)

lemma config_step [simp]: "config (lobby_step L e) = config L"
  by (cases e) auto

lemma config_run: "config (foldl lobby_step L es) = config L"
  by (induction es arbitrary: L) auto

lemma isLeft_step: "isLeft L p v \<Longrightarrow> isLeft (lobby_step L e) p v"
proof (cases e)
  case (UpsertLeave l)
  assume "isLeft L p v"
  then obtain m where m: "jget (leaves L) p = Some m" "v \<le> lvVersion m"
    by (auto simp: isLeft_def split: option.splits)
  from leave_lww.upsert_mono [of L p m l] m obtain m' where
    "jget (leaves (upsertLeave l L)) p = Some m'" "lvVersion m \<le> lvVersion m'" by blast
  with m UpsertLeave show ?thesis by (simp add: isLeft_def)
qed (simp_all add: isLeft_def)

lemma isLeft_run: "isLeft L p v \<Longrightarrow> isLeft (foldl lobby_step L es) p v"
  by (induction es arbitrary: L) (auto simp: isLeft_step)

section \<open>Mutual matches\<close>

lemma scan_claim_swap: "scan_claim b a c (prod.swap r) = prod.swap (scan_claim a b c r)"
  by (simp only: scan_claim_def prod.swap_def fst_conv snd_conv)

lemma mutual_scan_swap: "mutual_scan b a cs = prod.swap (mutual_scan a b cs)"
proof -
  have "fold (scan_claim b a) cs (prod.swap r) = prod.swap (fold (scan_claim a b) cs r)" for r
    by (induction cs arbitrary: r) (simp_all add: scan_claim_swap)
  from this [of "(None, None)"] show ?thesis by (simp add: mutual_scan_def)
qed

lemma mutual_scan_snoc:
  "mutual_scan a b (cs @ [c]) = scan_claim a b c (mutual_scan a b cs)"
  by (simp add: mutual_scan_def)

lemma mutual_scan_Nil [simp]: "mutual_scan a b [] = (None, None)"
  by (simp add: mutual_scan_def)

lemma mutual_scan_fst:
  "fst (mutual_scan a b cs) = Some c \<Longrightarrow> c \<in> set cs \<and> clClaimer c = a \<and> clTarget c = b"
  by (induction cs rule: rev_induct) (auto simp: mutual_scan_snoc scan_claim_def split: if_splits)

lemma mutual_scan_snd:
  "snd (mutual_scan a b cs) = Some c \<Longrightarrow> c \<in> set cs \<and> clClaimer c = b \<and> clTarget c = a"
  using mutual_scan_fst [of b a cs c] by (simp add: mutual_scan_swap [of b a])

lemma mutualMatch_claims:
  assumes "mutualMatch L a b = Some s"
  shows "\<exists>c \<in> set (jvals (claims L)). \<exists>d \<in> set (jvals (claims L)).
     clClaimer c = a \<and> clTarget c = b \<and> clClaimer d = b \<and> clTarget d = a
     \<and> clSessionId c = s \<and> clSessionId d = s"
proof -
  from assms obtain c d where scan: "mutual_scan a b (jvals (claims L)) = (Some c, Some d)"
    and s: "clSessionId c = s" "clSessionId d = s"
    by (auto simp: mutualMatch_def split: prod.splits option.splits if_splits)
  have c: "c \<in> set (jvals (claims L)) \<and> clClaimer c = a \<and> clTarget c = b"
    by (rule mutual_scan_fst) (simp add: scan)
  have d: "d \<in> set (jvals (claims L)) \<and> clClaimer d = b \<and> clTarget d = a"
    by (rule mutual_scan_snd) (simp add: scan)
  show ?thesis
    using c d s by blast
qed

lemma mutualMatch_sym: "mutualMatch L a b = mutualMatch L b a"
  by (simp add: mutualMatch_def mutual_scan_swap [of b a] prod.case_eq_if split: option.splits)

section \<open>The sweep\<close>

lemma networkNow_le:
  "networkNow L \<le> m \<longleftrightarrow> 0 \<le> m \<and> (\<forall>b \<in> set (jvals (offers L)). ofHeartbeatMs b \<le> m)
     \<and> (\<forall>c \<in> set (jvals (claims L)). clCreatedMs c \<le> m)
     \<and> (\<forall>l \<in> set (jvals (leaves L)). lvLeftMs l \<le> m)"
  by (simp add: networkNow_def Let_def loop_max_le conj_assoc)

lemma networkNow_ge:
  "b \<in> set (jvals (offers L)) \<Longrightarrow> ofHeartbeatMs b \<le> networkNow L"
  "c \<in> set (jvals (claims L)) \<Longrightarrow> clCreatedMs c \<le> networkNow L"
  "l \<in> set (jvals (leaves L)) \<Longrightarrow> lvLeftMs l \<le> networkNow L"
  "0 \<le> networkNow L"
  using networkNow_le [of L "networkNow L"] by simp_all

definition fresh_offer :: "lobby \<Rightarrow> int \<Rightarrow> offer \<Rightarrow> bool" where
  "fresh_offer L now b \<longleftrightarrow>
     \<not> isLeft L (ofPeerId b) (ofVersion b) \<and> now - ofHeartbeatMs b \<le> offerTtlMs (config L)"

lemma offers_cleanup:
  "lobby_ok L \<Longrightarrow> offers (cleanup L) = filter (\<lambda>(p, b). fresh_offer L (networkNow L) b) (offers L)"
  by (auto simp: lobby_ok_def cleanup_def Let_def jsweep_filter fresh_offer_def intro!: filter_cong)

definition live_ids :: "lobby \<Rightarrow> int \<Rightarrow> string set" where
  "live_ids L now = ofPeerId ` {b \<in> set (jvals (offers L)). fresh_offer L now b}"

lemma liveOffers_fresh: "liveOffers L now = filter (fresh_offer L now) (jvals (offers L))"
  by (auto simp: liveOffers_def fresh_offer_def intro!: filter_cong)

lemma live_after_sweep:
  assumes "lobby_ok L"
  shows "set (map ofPeerId (liveOffers (L\<lparr>offers := jsweep (\<lambda>p b. isLeft L p (ofVersion b)
    \<or> now - ofHeartbeatMs b > offerTtlMs (config L)) (offers L)\<rparr>) now)) = live_ids L now"
proof -
  have ok: "jmap_ok (offers L)" and own: "\<And>p b. (p, b) \<in> set (offers L) \<Longrightarrow> ofPeerId b = p"
    using assms by (auto simp: lobby_ok_def)
  have left: "isLeft (L\<lparr>offers := m\<rparr>) p v = isLeft L p v" for m p v
    by (simp add: isLeft_def)
  show ?thesis
    by (auto simp: liveOffers_def left live_ids_def fresh_offer_def jvals_def
        jsweep_filter [OF ok] dest: own intro!: image_eqI)
qed

lemma claims_cleanup:
  assumes "lobby_ok L"
  shows "claims (cleanup L) =
    filter (\<lambda>(k, c). networkNow L - clCreatedMs c \<le> claimTtlMs (config L)
      \<and> clClaimer c \<in> live_ids L (networkNow L) \<and> clTarget c \<in> live_ids L (networkNow L)) (claims L)"
proof -
  let ?now = "networkNow L"
  let ?L1 = "L\<lparr>offers := jsweep (\<lambda>p b. isLeft L p (ofVersion b)
    \<or> ?now - ofHeartbeatMs b > offerTtlMs (config L)) (offers L)\<rparr>"
  have live: "set (map ofPeerId (liveOffers ?L1 ?now)) = live_ids L ?now"
    using assms by (rule live_after_sweep)
  have ok: "jmap_ok (claims L)"
    using assms by (simp add: lobby_ok_def)
  show ?thesis
    unfolding cleanup_def Let_def live
    by (auto simp: jsweep_filter [OF ok] not_less intro!: filter_cong)
qed

lemma networkNow_cleanup:
  assumes "lobby_ok L"
  shows "networkNow (cleanup L) \<le> networkNow L"
proof -
  have "b \<in> set (jvals (offers (cleanup L))) \<Longrightarrow> b \<in> set (jvals (offers L))" for b
    using assms by (auto simp: offers_cleanup jvals_def)
  moreover have "c \<in> set (jvals (claims (cleanup L))) \<Longrightarrow> c \<in> set (jvals (claims L))" for c
    using assms by (auto simp: claims_cleanup jvals_def)
  ultimately show ?thesis
    unfolding networkNow_le by (auto intro: networkNow_ge)
qed

text \<open>Claims whose ids hold no separator are never confused in the claim map.\<close>

lemma claim_key_inject:
  assumes "CHR ''|'' \<notin> set (clClaimer c)" "CHR ''|'' \<notin> set (clTarget c)"
    "CHR ''|'' \<notin> set (clSessionId c)" "CHR ''|'' \<notin> set (clClaimer d)"
    "CHR ''|'' \<notin> set (clTarget d)" "CHR ''|'' \<notin> set (clSessionId d)"
    and eq: "claim_key c = claim_key d"
  shows "c = d"
proof -
  have "clClaimer c = clClaimer d \<and> clTarget c = clTarget d \<and> clSessionId c = clSessionId d
     \<and> clCreatedMs c = clCreatedMs d"
    using eq assms by (simp add: claim_key_def append_sep_inject show_int_inject)
  then show ?thesis by simp
qed

section \<open>Properties\<close>

text \<open>Every lobby built by the operations is well-formed: one entry per key, each stored
  under its own key.\<close>

theorem lobby_run_ok: "lobby_ok (foldl lobby_step new_lobby es)"
  by (rule lobby_machine.inv_run) simp

text \<open>A peer that left at a version stays left for that version under every later operation.\<close>

theorem left_stays_left:
  assumes "isLeft L p v"
  shows "isLeft (foldl lobby_step L es) p v"
  using assms by (rule isLeft_run)

text \<open>With \<open>>=\<close> on the heartbeat the later of two tied offers wins, so replicas that see a tie in
  different orders differ; convergence needs its condition.\<close>

lemma tied_offers_diverge:
  assumes "ofPeerId b' = ofPeerId b" "ofVersion b' = ofVersion b" "ofHeartbeatMs b' = ofHeartbeatMs b"
  shows "jget (offers (fold upsertOffer [b, b'] new_lobby)) (ofPeerId b) = Some b'"
    "jget (offers (fold upsertOffer [b', b] new_lobby)) (ofPeerId b) = Some b"
  using assms by (simp_all add: upsertOffer_def Let_def new_lobby_def jm.get_put)

text \<open>C4: Two replicas that applied the same offers, in any order, hold the same offer for every
  peer, when no two different offers of one peer share version and heartbeat.\<close>

theorem offers_converge:
  assumes "set bs = set bs'"
    and "\<And>b b'. b \<in> set bs \<Longrightarrow> b' \<in> set bs \<Longrightarrow> ofPeerId b = ofPeerId b' \<Longrightarrow>
      ofVersion b = ofVersion b' \<Longrightarrow> ofHeartbeatMs b = ofHeartbeatMs b' \<Longrightarrow> b = b'"
  shows "jget (offers (fold upsertOffer bs new_lobby)) p =
     jget (offers (fold upsertOffer bs' new_lobby)) p"
  using assms by (intro offer_lww.upserts_converge) (auto simp: new_lobby_def)

text \<open>The sweep is idempotent.\<close>

theorem cleanup_idempotent:
  assumes ok: "lobby_ok L"
  shows "cleanup (cleanup L) = cleanup L"
proof -
  let ?M = "cleanup L"
  have le: "networkNow ?M \<le> networkNow L"
    using ok by (rule networkNow_cleanup)
  have okM: "lobby_ok ?M"
    using ok by (rule lobby_ok_cleanup)
  have left: "isLeft ?M q v = isLeft L q v" for q v
    by (simp add: isLeft_def)
  have fresh: "fresh_offer ?M (networkNow ?M) b" if "b \<in> set (jvals (offers ?M))" for b
    using that ok le by (auto simp: offers_cleanup in_jvals fresh_offer_def left)
  have offs: "offers (cleanup ?M) = offers ?M"
    unfolding offers_cleanup [OF okM] using fresh by (auto simp: in_jvals intro!: filter_True)
  have live: "live_ids ?M (networkNow ?M) = live_ids L (networkNow L)"
    using fresh ok by (fastforce simp: live_ids_def offers_cleanup in_jvals image_iff)
  have clms: "claims (cleanup ?M) = claims ?M"
    unfolding claims_cleanup [OF okM] live using ok le
    by (auto simp: claims_cleanup intro!: filter_cong)
  show ?thesis
    using offs clms by simp
qed

text \<open>The sweep keeps exactly the fresh offers of peers that have not left, and the fresh claims
  between two such peers.\<close>

theorem cleanup_exact:
  assumes "lobby_ok L"
  shows "(b \<in> set (jvals (offers (cleanup L))) \<longleftrightarrow>
      b \<in> set (jvals (offers L)) \<and> \<not> isLeft L (ofPeerId b) (ofVersion b)
      \<and> networkNow L - ofHeartbeatMs b \<le> offerTtlMs (config L))
    \<and> (c \<in> set (jvals (claims (cleanup L))) \<longleftrightarrow>
      c \<in> set (jvals (claims L)) \<and> networkNow L - clCreatedMs c \<le> claimTtlMs (config L)
      \<and> (\<exists>b \<in> set (jvals (offers (cleanup L))). ofPeerId b = clClaimer c)
      \<and> (\<exists>b \<in> set (jvals (offers (cleanup L))). ofPeerId b = clTarget c))"
proof -
  have offs: "x \<in> set (jvals (offers (cleanup L))) \<longleftrightarrow>
      x \<in> set (jvals (offers L)) \<and> fresh_offer L (networkNow L) x" for x
    using assms by (auto simp: offers_cleanup in_jvals)
  have ids: "p \<in> live_ids L (networkNow L) \<longleftrightarrow>
      (\<exists>x \<in> set (jvals (offers (cleanup L))). ofPeerId x = p)" for p
    by (auto simp: live_ids_def offs)
  have clms: "c \<in> set (jvals (claims (cleanup L))) \<longleftrightarrow>
      c \<in> set (jvals (claims L)) \<and> networkNow L - clCreatedMs c \<le> claimTtlMs (config L)
      \<and> clClaimer c \<in> live_ids L (networkNow L) \<and> clTarget c \<in> live_ids L (networkNow L)"
    using assms by (auto simp: claims_cleanup in_jvals)
  show ?thesis
    unfolding clms ids by (simp add: offs fresh_offer_def)
qed

text \<open>A mutual match is symmetric and rests on two opposite claims of the same session.\<close>

theorem mutualMatch_agree:
  "mutualMatch L a b = mutualMatch L b a \<and>
   (case mutualMatch L a b of None \<Rightarrow> True | Some s \<Rightarrow>
     \<exists>c \<in> set (jvals (claims L)). \<exists>d \<in> set (jvals (claims L)).
        clClaimer c = a \<and> clTarget c = b \<and> clClaimer d = b \<and> clTarget d = a
        \<and> clSessionId c = s \<and> clSessionId d = s)"
  using mutualMatch_sym [of L a b] mutualMatch_claims [of L a b] by (auto split: option.split)

section \<open>Witnesses\<close>

definition ex_offer :: "string \<Rightarrow> int \<Rightarrow> offer" where
  "ex_offer p t = \<lparr>ofPeerId = p, ofVersion = 1, ofHeartbeatMs = t, ofSessionSeed = []\<rparr>"

definition ex_lobby0 :: lobby where
  "ex_lobby0 = foldl lobby_step new_lobby [UpsertOffer (ex_offer ''p'' 0),
     UpsertOffer (ex_offer ''q'' 20000),
     UpsertLeave \<lparr>lvPeerId = ''r'', lvVersion = 3, lvLeftMs = 10\<rparr>,
     InsertClaim \<lparr>clClaimer = ''p'', clTarget = ''q'', clSessionId = ''s'', clCreatedMs = 5\<rparr>]"

lemma ex_lobby0_ok: "lobby_ok ex_lobby0"
  unfolding ex_lobby0_def by (rule lobby_machine.inv_run) simp

theorem left_stays_left_witness: "isLeft (foldl lobby_step ex_lobby0 [Cleanup]) ''r'' 2"
proof -
  have "isLeft ex_lobby0 ''r'' 2" by code_simp
  then show ?thesis by (rule left_stays_left)
qed

theorem offers_converge_witness:
  "jget (offers (fold upsertOffer [ex_offer ''p'' 1, ex_offer ''p'' 2] new_lobby)) ''p'' =
   jget (offers (fold upsertOffer [ex_offer ''p'' 2, ex_offer ''p'' 1] new_lobby)) ''p''"
  by (rule offers_converge) (auto simp: ex_offer_def)

theorem cleanup_idempotent_witness: "cleanup (cleanup ex_lobby0) = cleanup ex_lobby0"
  by (rule cleanup_idempotent [OF ex_lobby0_ok])

theorem cleanup_exact_witness:
  "ex_offer ''p'' 0 \<notin> set (jvals (offers (cleanup ex_lobby0)))"
proof -
  have "\<not> networkNow ex_lobby0 - ofHeartbeatMs (ex_offer ''p'' 0) \<le> offerTtlMs (config ex_lobby0)"
    by code_simp
  then show ?thesis
    using cleanup_exact [OF ex_lobby0_ok, of "ex_offer ''p'' 0"] by simp
qed

text \<open>\<open>maxOffers\<close> bounds nothing: no operation reads it, so the lobby may hold any number of
  offers.\<close>

definition crowd :: "nat \<Rightarrow> offer list" where
  "crowd n = map (\<lambda>i. ex_offer (show_nat i) 0) [0..<n]"

lemma show_nat_inject: "show_nat m = show_nat n \<longleftrightarrow> m = n"
  by (metis read_show_nat)

lemma upsert_new: "ofPeerId b \<notin> set (jkeys (offers L)) \<Longrightarrow>
    upsertOffer b L = L\<lparr>offers := offers L @ [(ofPeerId b, b)]\<rparr>"
proof -
  assume new: "ofPeerId b \<notin> set (jkeys (offers L))"
  then have "jget (offers L) (ofPeerId b) = None"
    by (simp add: jget_def map_of_eq_None_iff)
  moreover have "k \<notin> set (map fst m) \<Longrightarrow> AList.update k v m = m @ [(k, v)]" for k v and m :: "(string \<times> offer) list"
    by (induction m) auto
  ultimately show ?thesis
    using new by (simp add: upsertOffer_def Let_def jset_def)
qed

lemma crowd_offers:
  "fold upsertOffer (crowd n) new_lobby = new_lobby\<lparr>offers := map (\<lambda>b. (ofPeerId b, b)) (crowd n)\<rparr>"
proof (induction n)
  case 0
  then show ?case by (simp add: crowd_def new_lobby_def)
next
  case (Suc n)
  have crowd: "crowd (Suc n) = crowd n @ [ex_offer (show_nat n) 0]"
    by (simp add: crowd_def)
  have "show_nat n \<notin> ofPeerId ` set (crowd n)"
    by (auto simp: crowd_def ex_offer_def show_nat_inject)
  then show ?case
    unfolding crowd fold_append o_apply Suc.IH
    by (simp add: upsert_new ex_offer_def image_image)
qed

text \<open>The bound \<open>maxOffers\<close> of the configuration is not enforced: with \<open>n\<close> live offers, for
  any \<open>n\<close>, the sweep keeps all \<open>n\<close>.\<close>

theorem maxOffers_not_enforced:
  "length (offers (cleanup (fold upsertOffer (crowd n) new_lobby))) = n
   \<and> maxOffers (config (fold upsertOffer (crowd n) new_lobby)) = 256"
proof -
  let ?L = "fold upsertOffer (crowd n) new_lobby"
  have ok: "lobby_ok ?L"
  proof -
    have "fold upsertOffer bs L = foldl lobby_step L (map UpsertOffer bs)" for bs L
      by (induction bs arbitrary: L) auto
    then show ?thesis by (simp add: lobby_machine.inv_run)
  qed
  have offs: "offers ?L = map (\<lambda>b. (ofPeerId b, b)) (crowd n)"
    "leaves ?L = []" "claims ?L = []" "config ?L = default_config"
    unfolding crowd_offers by (simp_all add: new_lobby_def)
  have zero: "ofHeartbeatMs b = 0" if "b \<in> set (crowd n)" for b
    using that by (auto simp: crowd_def ex_offer_def)
  have "networkNow ?L \<le> 0"
    unfolding networkNow_le by (auto simp: offs jvals_def zero)
  then have "offers (cleanup ?L) = offers ?L"
    unfolding offers_cleanup [OF ok]
    by (intro filter_True) (auto simp: offs fresh_offer_def isLeft_def zero default_config_def)
  moreover have "length (crowd n) = n"
    by (simp add: crowd_def)
  ultimately show ?thesis
    by (simp add: offs default_config_def)
qed

end
