(* ===== verification/Pairing.thy ===== *)
theory Pairing
  imports Lobby
begin

text \<open>
  The pairing rule of \<open>ui/protocol.js\<close>: the byte encodings, the symmetric pair score, the
  choice of a partner and the session id. SHA-256 is the browser's \<open>crypto.subtle.digest\<close>;
  it is the parameter \<open>sha\<close>, a function from bytes to bytes of which nothing is assumed here.
\<close>

section \<open>Encodings\<close>

definition hex_digit :: "nat \<Rightarrow> char" where
  "hex_digit n = (if n < 10 then char_of (48 + n) else char_of (87 + n))"

definition hex :: "bytes \<Rightarrow> string" where
  "hex bs = concat (map (\<lambda>b. [hex_digit (unat b div 16), hex_digit (unat b mod 16)]) bs)"

text \<open>\<open>randomId\<close> and \<open>randomSeed\<close> draw 16 and 32 random bytes; the bytes are the argument.\<close>

definition randomId :: "bytes \<Rightarrow> string" where
  "randomId rnd = hex rnd"

definition sha256Bytes :: "(bytes \<Rightarrow> bytes) \<Rightarrow> bytes list \<Rightarrow> bytes" where
  "sha256Bytes sha parts = sha (concat parts)"

definition utf8 :: "string \<Rightarrow> bytes" where
  "utf8 s = concat (map (\<lambda>c. let n = of_char c :: nat in
      if n < 128 then [of_nat n] else [of_nat (192 + n div 64), of_nat (128 + n mod 64)]) s)"

definition u64le :: "int \<Rightarrow> bytes" where
  "u64le n = map (\<lambda>i. word_of_int (n div 2 ^ (8 * i))) [0..<8]"

definition compareHex :: "string \<Rightarrow> string \<Rightarrow> int" where
  "compareHex a b = (if a < b then -1 else if a > b then 1 else 0)"

section \<open>Pair score, partner and session\<close>

definition pairScore :: "(bytes \<Rightarrow> bytes) \<Rightarrow> string \<Rightarrow> string \<Rightarrow> int \<Rightarrow> bytes" where
  "pairScore sha p q epochBucket =
     (let (a, b) = (if compareHex p q \<le> 0 then (p, q) else (q, p))
      in sha256Bytes sha [utf8 ''match/v1'', utf8 a, utf8 b, u64le epochBucket])"

text \<open>The loop's \<open>best\<close> and \<open>bestScore\<close> are null together, so they are one option.\<close>

definition select_step ::
  "(bytes \<Rightarrow> bytes) \<Rightarrow> string \<Rightarrow> int \<Rightarrow> string set \<Rightarrow> offer \<Rightarrow> (string \<times> string) option
     \<Rightarrow> (string \<times> string) option" where
  "select_step sha me epochBucket matched other acc =
     (if ofPeerId other = me then acc
      else if ofPeerId other \<in> matched then acc
      else let scoreHex = hex (pairScore sha me (ofPeerId other) epochBucket)
           in case acc of
                None \<Rightarrow> Some (ofPeerId other, scoreHex)
              | Some (best, bestScore) \<Rightarrow>
                  if scoreHex < bestScore \<or> (scoreHex = bestScore \<and> ofPeerId other < best)
                  then Some (ofPeerId other, scoreHex) else acc)"

definition selectPartner ::
  "(bytes \<Rightarrow> bytes) \<Rightarrow> string \<Rightarrow> offer list \<Rightarrow> int \<Rightarrow> string set \<Rightarrow> string option" where
  "selectPartner sha me live epochBucket matched =
     map_option fst (fold (select_step sha me epochBucket matched) live None)"

definition sessionIdFor ::
  "(bytes \<Rightarrow> bytes) \<Rightarrow> string \<Rightarrow> string \<Rightarrow> bytes \<Rightarrow> bytes \<Rightarrow> string" where
  "sessionIdFor sha a b seedA seedB =
     (let (p1, s1, p2, s2) =
        (if compareHex a b \<le> 0 then (a, seedA, b, seedB) else (b, seedB, a, seedA))
      in hex (sha256Bytes sha [utf8 ''session/v1'', utf8 p1, utf8 p2, s1, s2]))"

section \<open>Choices by a symmetric rank\<close>

text \<open>
  What \<open>selectPartner\<close> promises: among the eligible peers \<open>P\<close> it picks the one of least
  (score, id). The locale says what follows from a symmetric score alone.
\<close>

definition rank_choice ::
  "('p::linorder \<Rightarrow> 'p \<Rightarrow> 's::linorder) \<Rightarrow> 'p set \<Rightarrow> 'p \<Rightarrow> 'p \<Rightarrow> bool" where
  "rank_choice score P a c \<longleftrightarrow>
     c \<in> P \<and> c \<noteq> a \<and> (\<forall>d \<in> P. d \<noteq> a \<longrightarrow> (score a c, c) \<le> (score a d, d))"

lemma rank_choice_unique: "rank_choice score P a c \<Longrightarrow> rank_choice score P a d \<Longrightarrow> c = d"
  unfolding rank_choice_def by (metis order_antisym prod.inject)

locale symmetric_rank =
  fixes score :: "'p::linorder \<Rightarrow> 'p \<Rightarrow> 's::linorder"
  assumes score_sym: "score p q = score q p"
begin

text \<open>The least triple (score, a, b) over the pairs of \<open>P\<close> is a pair that choose each other.\<close>

lemma mutual_choice_exists:
  assumes fin: "finite P" and two: "x \<in> P" "y \<in> P" "x \<noteq> y"
  shows "\<exists>a \<in> P. \<exists>b \<in> P. a \<noteq> b \<and> rank_choice score P a b \<and> rank_choice score P b a"
proof -
  let ?T = "(\<lambda>(a, b). (score a b, a, b)) ` {(a, b). a \<in> P \<and> b \<in> P \<and> a \<noteq> b}"
  have fT: "finite ?T"
    by (rule finite_imageI, rule finite_subset [of _ "P \<times> P"]) (auto simp: fin)
  have "?T \<noteq> {}"
    using two by auto
  with fT have "Min ?T \<in> ?T" by (rule Min_in)
  then obtain a b where ab: "a \<in> P" "b \<in> P" "a \<noteq> b" and m: "Min ?T = (score a b, a, b)"
    by auto
  have least: "(score a b, a, b) \<le> (score c d, c, d)" if "c \<in> P" "d \<in> P" "c \<noteq> d" for c d
  proof -
    have "(score c d, c, d) \<in> ?T" using that by force
    then have "Min ?T \<le> (score c d, c, d)" by (rule Min_le [OF fT])
    then show ?thesis by (simp only: m)
  qed
  have "rank_choice score P a b"
    unfolding rank_choice_def
  proof (intro conjI ballI impI)
    fix d assume d: "d \<in> P" "d \<noteq> a"
    then have "(score a b, a, b) \<le> (score a d, a, d)"
      using ab by (intro least) auto
    then show "(score a b, b) \<le> (score a d, d)"
      by (auto simp: less_eq_prod_def)
  qed (use ab in auto)
  moreover have "rank_choice score P b a"
    unfolding rank_choice_def
  proof (intro conjI ballI impI)
    fix d assume d: "d \<in> P" "d \<noteq> b"
    then have "(score a b, a, b) \<le> (score d b, d, b)"
      using ab by (intro least) auto
    then show "(score b a, a) \<le> (score b d, d)"
      by (auto simp: score_sym [of b] less_eq_prod_def)
  qed (use ab in auto)
  ultimately show ?thesis
    using ab by blast
qed

end

section \<open>The choice of a partner\<close>

lemma compareHex_le: "compareHex a b \<le> 0 \<longleftrightarrow> a \<le> b"
  by (auto simp: compareHex_def not_less)

lemma pairScore_sym: "pairScore sha p q e = pairScore sha q p e"
  by (cases "p = q") (auto simp: pairScore_def compareHex_le Let_def)

definition scoreHex :: "(bytes \<Rightarrow> bytes) \<Rightarrow> int \<Rightarrow> string \<Rightarrow> string \<Rightarrow> string" where
  "scoreHex sha e p q = hex (pairScore sha p q e)"

interpretation rank: symmetric_rank "scoreHex sha e" for sha e
  by unfold_locales (simp add: scoreHex_def pairScore_sym)

definition eligible :: "offer list \<Rightarrow> string set \<Rightarrow> string set" where
  "eligible live matched = ofPeerId ` set live - matched"

text \<open>The loop's state is the least (score, id) of the eligible peers met so far.\<close>

definition best_ok ::
  "(bytes \<Rightarrow> bytes) \<Rightarrow> int \<Rightarrow> string set \<Rightarrow> string \<Rightarrow> (string \<times> string) option \<Rightarrow> bool" where
  "best_ok sha e P me r =
     (case r of
        None \<Rightarrow> P - {me} = {}
      | Some (c, s) \<Rightarrow> s = scoreHex sha e me c \<and> rank_choice (scoreHex sha e) P me c)"

lemma rank_choice_insert:
  "c \<noteq> me \<Longrightarrow> rank_choice sc P me c \<Longrightarrow> (sc me c, c) \<le> (sc me p, p) \<or> p = me \<Longrightarrow>
     rank_choice sc (insert p P) me c"
  by (auto simp: rank_choice_def)

lemma rank_choice_new:
  "p \<noteq> me \<Longrightarrow> P - {me} = {} \<or> (rank_choice sc P me c \<and> (sc me p, p) \<le> (sc me c, c)) \<Longrightarrow>
     rank_choice sc (insert p P) me p"
  unfolding rank_choice_def by (blast intro: order_trans)

lemma select_step_ok:
  assumes "best_ok sha e P me acc"
  shows "best_ok sha e (if ofPeerId b \<in> matched then P else insert (ofPeerId b) P) me
     (select_step sha me e matched b acc)"
proof (cases "ofPeerId b = me \<or> ofPeerId b \<in> matched")
  case True
  with assms show ?thesis
    by (cases acc) (auto simp: select_step_def best_ok_def intro: rank_choice_insert
        simp: rank_choice_def)
next
  case new: False
  let ?p = "ofPeerId b"
  show ?thesis
  proof (cases acc)
    case None
    with new assms show ?thesis
      by (simp add: select_step_def best_ok_def Let_def scoreHex_def rank_choice_new)
  next
    case (Some cs)
    then obtain c where acc: "acc = Some (c, scoreHex sha e me c)"
      and c: "rank_choice (scoreHex sha e) P me c"
      using assms by (cases cs) (auto simp: best_ok_def)
    have step: "select_step sha me e matched b acc =
       (if (scoreHex sha e me ?p, ?p) < (scoreHex sha e me c, c)
        then Some (?p, scoreHex sha e me ?p) else acc)"
      using new by (auto simp: select_step_def acc Let_def scoreHex_def less_prod_def order_le_less)
    show ?thesis
    proof (cases "(scoreHex sha e me ?p, ?p) < (scoreHex sha e me c, c)")
      case True
      with new c have "rank_choice (scoreHex sha e) (insert ?p P) me ?p"
        by (intro rank_choice_new) (auto intro: order_less_imp_le)
      with new True show ?thesis by (simp add: step best_ok_def)
    next
      case False
      moreover have "c \<noteq> me" using c by (simp add: rank_choice_def)
      ultimately have "rank_choice (scoreHex sha e) (insert ?p P) me c"
        using c by (intro rank_choice_insert) (auto simp: not_less)
      moreover have "select_step sha me e matched b acc = acc"
        unfolding step using False by (simp only: if_False)
      ultimately show ?thesis using new by (simp add: best_ok_def acc)
    qed
  qed
qed

lemma select_fold:
  "best_ok sha e (eligible live matched) me (fold (select_step sha me e matched) live None)"
proof (induction live rule: rev_induct)
  case Nil
  then show ?case by (simp add: eligible_def best_ok_def)
next
  case (snoc b live)
  have "eligible (live @ [b]) matched =
      (if ofPeerId b \<in> matched then eligible live matched
       else insert (ofPeerId b) (eligible live matched))"
    by (auto simp: eligible_def)
  with select_step_ok [OF snoc.IH, of b matched] show ?case by simp
qed

lemma selectPartner_Some:
  "selectPartner sha me live e matched = Some c \<longleftrightarrow>
     rank_choice (scoreHex sha e) (eligible live matched) me c"
  using select_fold [of sha e live matched me]
  by (auto simp: selectPartner_def best_ok_def dest: rank_choice_unique
      split: option.splits prod.splits) (auto simp: rank_choice_def)

lemma selectPartner_None:
  "selectPartner sha me live e matched = None \<longleftrightarrow> eligible live matched - {me} = {}"
  using select_fold [of sha e live matched me]
  by (auto simp: selectPartner_def best_ok_def rank_choice_def split: option.splits prod.splits)

section \<open>Encodings are faithful\<close>

lemma hex_digit_code: "n < 16 \<Longrightarrow> of_char (hex_digit n) = (if n < 10 then 48 + n else 87 + n :: nat)"
  by (auto simp: hex_digit_def)

lemma hex_digit_less: "m < 16 \<Longrightarrow> n < 16 \<Longrightarrow> hex_digit m < hex_digit n \<longleftrightarrow> m < n"
  by (auto simp: less_char_def hex_digit_code)

lemma hex_digit_eq: "m < 16 \<Longrightarrow> n < 16 \<Longrightarrow> hex_digit m = hex_digit n \<longleftrightarrow> m = n"
  using hex_digit_less [of m n] hex_digit_less [of n m] by (metis less_irrefl nat_neq_iff)

lemma byte_bound: "unat (b :: byte) < 256"
  using unsigned_less [of b] by simp

lemma hex_Nil [simp]: "hex [] = []"
  by (simp add: hex_def)

lemma hex_Cons:
  "hex (b # bs) = hex_digit (unat b div 16) # hex_digit (unat b mod 16) # hex bs"
  by (simp add: hex_def)

lemma length_hex [simp]: "length (hex bs) = 2 * length bs"
  by (induction bs) (auto simp: hex_Cons)

lemma hex_eq_Nil [simp]: "hex bs = [] \<longleftrightarrow> bs = []"
  by (cases bs) (auto simp: hex_Cons)

lemma hex_parts_less:
  "(m::nat) < n \<longleftrightarrow> m div 16 < n div 16 \<or> m div 16 = n div 16 \<and> m mod 16 < n mod 16"
proof -
  obtain a b c d where m: "m = 16 * a + b" "b < 16" and n: "n = 16 * c + d" "d < 16"
    by (metis mod_less_divisor mult_div_mod_eq zero_less_numeral)
  show ?thesis unfolding m(1) n(1) using m(2) n(2) by auto
qed

lemma hex_parts_eq: "(m::nat) = n \<longleftrightarrow> m div 16 = n div 16 \<and> m mod 16 = n mod 16"
  by (metis mult_div_mod_eq)

lemma hex_less: "hex bs < hex cs \<longleftrightarrow> bs < cs"
proof (induction bs cs rule: list_induct2')
  case (4 b bs c cs)
  have lt: "unat b div 16 < 16" "unat c div 16 < 16" "unat b mod 16 < 16" "unat c mod 16 < 16"
    using byte_bound [of b] byte_bound [of c] by auto
  have ord: "b < c \<longleftrightarrow> unat b div 16 < unat c div 16
      \<or> unat b div 16 = unat c div 16 \<and> unat b mod 16 < unat c mod 16"
    unfolding word_less_nat_alt by (rule hex_parts_less)
  have eq: "b = c \<longleftrightarrow> unat b div 16 = unat c div 16 \<and> unat b mod 16 = unat c mod 16"
    unfolding word_unat_eq_iff by (rule hex_parts_eq)
  show ?case
    unfolding hex_Cons Cons_less_Cons hex_digit_less [OF lt(1,2)] hex_digit_less [OF lt(3,4)]
      hex_digit_eq [OF lt(1,2)] hex_digit_eq [OF lt(3,4)] ord eq "4.IH" by blast
qed (auto simp: hex_Cons)

definition le_bytes_value :: "bytes \<Rightarrow> int" where
  "le_bytes_value bs = foldr (\<lambda>b n. uint b + 256 * n) bs 0"

lemma le_bytes_digits:
  "le_bytes_value (map (\<lambda>i. word_of_int (n div 2 ^ (8 * i))) [0..<k]) = n mod 2 ^ (8 * k)"
proof (induction k arbitrary: n)
  case 0
  then show ?case by (simp add: le_bytes_value_def)
next
  case (Suc k)
  have shift: "n div 2 ^ (8 * Suc i) = n div 256 div 2 ^ (8 * i)" for i
    by (simp add: power_add zdiv_zmult2_eq)
  have "map (\<lambda>i. word_of_int (n div 2 ^ (8 * i)) :: byte) [0..<Suc k] =
      word_of_int n # map (\<lambda>i. word_of_int (n div 256 div 2 ^ (8 * i))) [0..<k]"
    by (simp add: upt_conv_Cons map_Suc_upt [symmetric] o_def shift del: upt_Suc mult_Suc_right)
  then have "le_bytes_value (map (\<lambda>i. word_of_int (n div 2 ^ (8 * i))) [0..<Suc k]) =
      n mod 256 + 256 * (n div 256 mod 2 ^ (8 * k))"
    using Suc.IH [of "n div 256"] by (simp add: le_bytes_value_def uint_word_of_int)
  also have "\<dots> = n mod (256 * 2 ^ (8 * k))"
    by (simp add: zmod_zmult2_eq)
  finally show ?case by (simp add: power_add)
qed

lemma u64le_value: "le_bytes_value (u64le n) = n mod 2 ^ 64"
  unfolding u64le_def le_bytes_digits by simp

section \<open>Properties\<close>

text \<open>The partner chosen is the eligible peer with the least (score, id), and none is chosen
  only when no other peer is eligible.\<close>

theorem selectPartner_least:
  "(selectPartner sha me live e matched = Some c \<longleftrightarrow>
      rank_choice (\<lambda>p q. hex (pairScore sha p q e)) (ofPeerId ` set live - matched) me c)
   \<and> (selectPartner sha me live e matched = None \<longleftrightarrow>
      ofPeerId ` set live - matched \<subseteq> {me})"
proof -
  have "(\<lambda>p q. hex (pairScore sha p q e)) = scoreHex sha e"
    by (simp add: fun_eq_iff scoreHex_def)
  then show ?thesis
    using selectPartner_Some [of sha me live e matched c] selectPartner_None [of sha me live e matched]
    by (auto simp: eligible_def)
qed

text \<open>C7: Whenever two peers are eligible, some two eligible peers choose each other, whatever the
  hash.\<close>

theorem pairing_progress:
  assumes "p \<in> ofPeerId ` set live - matched" "q \<in> ofPeerId ` set live - matched" "p \<noteq> q"
  shows "\<exists>a b. a \<noteq> b \<and> a \<in> ofPeerId ` set live - matched \<and> b \<in> ofPeerId ` set live - matched
     \<and> selectPartner sha a live e matched = Some b
     \<and> selectPartner sha b live e matched = Some a"
  using rank.mutual_choice_exists [of "eligible live matched" p q sha e] assms
  by (auto simp: selectPartner_Some) (auto simp: eligible_def)

definition two_offers :: "offer list" where
  "two_offers = map (\<lambda>p. \<lparr>ofPeerId = p, ofVersion = 1, ofHeartbeatMs = 0, ofSessionSeed = []\<rparr>)
     [''p'', ''q'']"

theorem pairing_progress_witness:
  "\<exists>a b. a \<noteq> b \<and> selectPartner (\<lambda>bs. bs) a two_offers 0 {} = Some b
     \<and> selectPartner (\<lambda>bs. bs) b two_offers 0 {} = Some a"
proof -
  have "''p'' \<in> ofPeerId ` set two_offers - {}" "''q'' \<in> ofPeerId ` set two_offers - {}"
    by (simp_all add: two_offers_def)
  from pairing_progress [OF this, of "\<lambda>bs. bs" 0] show ?thesis by auto
qed

text \<open>The choice depends on the set of live peers, the epoch and the matched set only, not on
  the order in which the replica lists the offers.\<close>

theorem selectPartner_order_free:
  assumes "ofPeerId ` set live = ofPeerId ` set live'"
  shows "selectPartner sha me live e matched = selectPartner sha me live' e matched"
proof -
  have el: "eligible live matched = eligible live' matched"
    using assms by (simp add: eligible_def)
  show ?thesis
  proof (cases "selectPartner sha me live' e matched")
    case None
    then have "selectPartner sha me live e matched = None"
      unfolding selectPartner_None el .
    with None show ?thesis by simp
  next
    case (Some c)
    then have "selectPartner sha me live e matched = Some c"
      unfolding selectPartner_Some el .
    with Some show ?thesis by simp
  qed
qed

theorem selectPartner_order_free_witness:
  "selectPartner (\<lambda>bs. bs) ''p'' two_offers 0 {} = selectPartner (\<lambda>bs. bs) ''p'' (rev two_offers) 0 {}"
  by (rule selectPartner_order_free) simp

text \<open>Both ends compute the same session id from the two ids and seeds.\<close>

theorem sessionIdFor_sym:
  assumes "a \<noteq> b"
  shows "sessionIdFor sha a b seedA seedB = sessionIdFor sha b a seedB seedA"
  using assms by (auto simp: sessionIdFor_def compareHex_le Let_def)

theorem sessionIdFor_sym_witness:
  "sessionIdFor (\<lambda>bs. bs) ''p'' ''q'' [1] [2] = sessionIdFor (\<lambda>bs. bs) ''q'' ''p'' [2] [1]"
  by (rule sessionIdFor_sym) simp

text \<open>Comparing the hex strings of two digests compares the digests as byte strings.\<close>

theorem hex_order: "hex bs < hex cs \<longleftrightarrow> bs < cs"
  by (rule hex_less)

end
