(* ===== verification/Peers.thy ===== *)
theory Peers
  imports Pairing
begin

text \<open>
  The peer state machine of \<open>ui/protocol.js\<close> (class \<open>Peer\<close>) and the two-pane demo that drives
  it, \<open>ui/app.js\<close>. Message arrays are shared between a peer and the session table, so they
  live in a store and the peers hold addresses of it. \<open>await\<close> inside \<open>tick\<close> only waits for the
  digest, and the demo awaits each tick before the next one, so a tick is one step.
\<close>

record message =
  msAuthor :: string
  msSeq :: int
  msSentMs :: int
  msBody :: string

datatype phase = Idle | Waiting | Claiming | Matched

record peer =
  prLabel :: string
  prPeerId :: string
  prSessionSeed :: bytes
  prVersion :: int
  prPhase :: phase
  prTarget :: "string option"
  prSessionId :: "string option"
  prMessages :: nat
  prMsgSeq :: int
  prNowMs :: int
  prLog :: "string list"

record world =
  wLobby :: lobby
  wArrays :: "message list list"
  wSessions :: "(string, nat) jsmap"

definition new_array :: "world \<Rightarrow> nat \<times> world" where
  "new_array w = (length (wArrays w), w\<lparr>wArrays := wArrays w @ [[]]\<rparr>)"

definition push_message :: "nat \<Rightarrow> message \<Rightarrow> world \<Rightarrow> world" where
  "push_message a m w = w\<lparr>wArrays := (wArrays w)[a := wArrays w ! a @ [m]]\<rparr>"

text \<open>\<open>new Peer(label)\<close>; the random id and seed bytes are arguments.\<close>

definition new_peer :: "string \<Rightarrow> bytes \<Rightarrow> bytes \<Rightarrow> world \<Rightarrow> peer \<times> world" where
  "new_peer label rndId rndSeed w =
     (let (a, w1) = new_array w
      in (\<lparr>prLabel = label, prPeerId = randomId rndId, prSessionSeed = rndSeed, prVersion = 0,
           prPhase = Idle, prTarget = None, prSessionId = None, prMessages = a, prMsgSeq = 0,
           prNowMs = 0, prLog = []\<rparr>, w1))"

definition resetIdentity :: "bytes \<Rightarrow> bytes \<Rightarrow> peer \<Rightarrow> peer" where
  "resetIdentity rndId rndSeed p =
     p\<lparr>prPeerId := randomId rndId, prSessionSeed := rndSeed, prVersion := 0\<rparr>"

definition peer_offer :: "peer \<Rightarrow> offer" where
  "peer_offer p = \<lparr>ofPeerId = prPeerId p, ofVersion = prVersion p, ofHeartbeatMs = prNowMs p,
     ofSessionSeed = prSessionSeed p\<rparr>"

definition spin :: "bytes \<Rightarrow> int \<Rightarrow> peer \<Rightarrow> world \<Rightarrow> peer \<times> world" where
  "spin rndSeed now p w =
     (let (a, w1) = new_array w;
          p1 = p\<lparr>prNowMs := now, prSessionSeed := rndSeed, prVersion := prVersion p + 1,
                 prPhase := Waiting, prTarget := None, prSessionId := None, prMessages := a,
                 prMsgSeq := 0, prLog := prLog p @ [''spun into lobby'']\<rparr>
      in (p1, w1\<lparr>wLobby := upsertOffer (peer_offer p1) (wLobby w1)\<rparr>))"

definition peer_next :: "bytes \<Rightarrow> bytes \<Rightarrow> int \<Rightarrow> peer \<Rightarrow> world \<Rightarrow> peer \<times> world" where
  "peer_next rndId rndSeed now p w =
     (let p1 = p\<lparr>prNowMs := now\<rparr>;
          w1 = (if prPhase p1 \<noteq> Idle
                then w\<lparr>wLobby := upsertLeave \<lparr>lvPeerId = prPeerId p1, lvVersion = prVersion p1,
                         lvLeftMs = now\<rparr> (wLobby w)\<rparr>
                else w);
          (a, w2) = new_array w1;
          p2 = p1\<lparr>prPhase := Idle, prTarget := None, prSessionId := None, prMessages := a,
                  prLog := prLog p1 @ [''left (next)'']\<rparr>
      in (resetIdentity rndId rndSeed p2, w2))"

text \<open>
  The two halves of \<open>tick\<close> after the peer's own offer is published: claim the mutual choice, then
  look for a mutual match. \<open>live.find\<close> of the chosen partner always succeeds, since the choice
  is from \<open>live\<close>.
\<close>

definition tick_claim ::
  "(bytes \<Rightarrow> bytes) \<Rightarrow> int \<Rightarrow> offer list \<Rightarrow> string set \<Rightarrow> peer \<Rightarrow> lobby \<Rightarrow> peer \<times> lobby" where
  "tick_claim sha epochBucket live matched p L =
     (case selectPartner sha (prPeerId p) live epochBucket matched of
        None \<Rightarrow> (p, L)
      | Some partner \<Rightarrow>
          if partner = '''' then (p, L)
          else case js_find (\<lambda>b. ofPeerId b = partner) live of
                 None \<Rightarrow> (p, L)
               | Some their \<Rightarrow>
                   if selectPartner sha partner live epochBucket matched = Some (prPeerId p)
                   then let sid = sessionIdFor sha (prPeerId p) partner (prSessionSeed p)
                                    (ofSessionSeed their)
                        in (p\<lparr>prPhase := Claiming, prTarget := Some partner,
                              prSessionId := Some sid,
                              prLog := prLog p @ [''claiming '' @ take 8 partner]\<rparr>,
                            insertClaim \<lparr>clClaimer = prPeerId p, clTarget = partner,
                              clSessionId = sid, clCreatedMs = prNowMs p\<rparr> L)
                   else (p, L))"

definition tick_detect :: "offer list \<Rightarrow> peer \<Rightarrow> lobby \<Rightarrow> peer \<times> lobby" where
  "tick_detect live p L =
     (case js_find (\<lambda>b. ofPeerId b \<noteq> prPeerId p
                     \<and> truthy (mutualMatch L (prPeerId p) (ofPeerId b))) live of
        None \<Rightarrow> (p, L)
      | Some b \<Rightarrow>
          (p\<lparr>prPhase := Matched, prTarget := Some (ofPeerId b),
             prSessionId := mutualMatch L (prPeerId p) (ofPeerId b),
             prLog := prLog p @ [''matched '' @ take 8 (ofPeerId b)]\<rparr>,
           upsertLeave \<lparr>lvPeerId = prPeerId p, lvVersion = prVersion p, lvLeftMs = prNowMs p\<rparr> L))"

definition tick_live :: "offer \<Rightarrow> offer list \<Rightarrow> offer list" where
  "tick_live own live =
     (case js_find (\<lambda>b. ofPeerId b = ofPeerId own) live of
        None \<Rightarrow> live @ [own]
      | Some _ \<Rightarrow> map (\<lambda>b. if ofPeerId b = ofPeerId own then own else b) live)"

definition tick :: "(bytes \<Rightarrow> bytes) \<Rightarrow> int \<Rightarrow> peer \<Rightarrow> lobby \<Rightarrow> peer \<times> lobby" where
  "tick sha now p0 L0 =
     (let p = p0\<lparr>prNowMs := max (prNowMs p0) now\<rparr>
      in if prPhase p \<noteq> Waiting \<and> prPhase p \<noteq> Claiming then (p, L0)
         else let p1 = p\<lparr>prVersion := prVersion p + 1\<rparr>;
                  own = peer_offer p1;
                  L1 = upsertOffer own L0;
                  t = max (networkNow L1) (prNowMs p1);
                  epochBucket = t div epochMs (config L1);
                  live = tick_live own (liveOffers L1 t);
                  matched = matchedPeers L1;
                  (p2, L2) = tick_claim sha epochBucket live matched p1 L1;
                  (p3, L3) = tick_detect live p2 L2
              in (p3, cleanup L3))"

definition peer_send :: "string \<Rightarrow> peer \<Rightarrow> world \<Rightarrow> peer \<times> world \<times> message option" where
  "peer_send body p w =
     (case prSessionId p of
        None \<Rightarrow> (p, w, None)
      | Some key \<Rightarrow>
          if prPhase p \<noteq> Matched \<or> key = '''' then (p, w, None)
          else let p1 = p\<lparr>prMsgSeq := prMsgSeq p + 1\<rparr>;
                   msg = \<lparr>msAuthor = prPeerId p1, msSeq = prMsgSeq p1, msSentMs = prNowMs p1,
                          msBody = body\<rparr>;
                   w1 = push_message (prMessages p1) msg w;
                   w2 = (if jhas (wSessions w1) key then w1
                         else let (a, w') = new_array w1
                              in w'\<lparr>wSessions := jset key a (wSessions w')\<rparr>)
               in case jget (wSessions w2) key of
                    None \<Rightarrow> (p1, w2, Some msg)
                  | Some a \<Rightarrow> (p1, push_message a msg w2, Some msg))"

section \<open>The two-pane demo\<close>

record app =
  apPeers :: "peer list"
  apWorld :: world
  apNowMs :: int

definition app_spin :: "bytes \<Rightarrow> nat \<Rightarrow> app \<Rightarrow> app" where
  "app_spin rndSeed i s =
     (let now = apNowMs s + 100; (p, w) = spin rndSeed now (apPeers s ! i) (apWorld s)
      in s\<lparr>apNowMs := now, apPeers := (apPeers s)[i := p], apWorld := w\<rparr>)"

definition app_next :: "bytes \<Rightarrow> bytes \<Rightarrow> nat \<Rightarrow> app \<Rightarrow> app" where
  "app_next rndId rndSeed i s =
     (let now = apNowMs s + 100; (p, w) = peer_next rndId rndSeed now (apPeers s ! i) (apWorld s)
      in s\<lparr>apNowMs := now, apPeers := (apPeers s)[i := p], apWorld := w\<rparr>)"

definition tick_one :: "(bytes \<Rightarrow> bytes) \<Rightarrow> nat \<Rightarrow> app \<Rightarrow> app" where
  "tick_one sha i s =
     (let (p, L) = tick sha (apNowMs s) (apPeers s ! i) (wLobby (apWorld s))
      in s\<lparr>apPeers := (apPeers s)[i := p], apWorld := (apWorld s)\<lparr>wLobby := L\<rparr>\<rparr>)"

text \<open>\<open>if (p.sessionId && sessions.has(p.sessionId)) p.messages = sessions.get(p.sessionId)\<close>.\<close>

definition share_messages :: "world \<Rightarrow> peer \<Rightarrow> peer" where
  "share_messages w p =
     (case prSessionId p of
        None \<Rightarrow> p
      | Some sid \<Rightarrow>
          if sid = '''' then p
          else case jget (wSessions w) sid of None \<Rightarrow> p | Some a \<Rightarrow> p\<lparr>prMessages := a\<rparr>)"

definition app_tick :: "(bytes \<Rightarrow> bytes) \<Rightarrow> app \<Rightarrow> app \<times> bool" where
  "app_tick sha s0 =
     (let s1 = s0\<lparr>apNowMs := apNowMs s0 + 500\<rparr>;
          s2 = tick_one sha 1 (tick_one sha 0 (tick_one sha 1 (tick_one sha 0 s1)));
          s3 = s2\<lparr>apPeers := map (share_messages (apWorld s2)) (apPeers s2)\<rparr>;
          matched = length (filter (\<lambda>p. prPhase p = Matched) (apPeers s3))
      in (s3, matched = 2))"

text \<open>The loop of \<open>autoMatch\<close>: at most \<open>n\<close> ticks, leaving at the first that returns true.\<close>

fun auto_loop :: "(bytes \<Rightarrow> bytes) \<Rightarrow> nat \<Rightarrow> app \<Rightarrow> app \<times> bool" where
  "auto_loop sha 0 s = (s, False)"
| "auto_loop sha (Suc n) s =
     (let (s', ok) = app_tick sha s in if ok then (s', True) else auto_loop sha n s')"

definition autoMatch :: "(bytes \<Rightarrow> bytes) \<Rightarrow> bytes \<Rightarrow> bytes \<Rightarrow> app \<Rightarrow> app \<times> bool" where
  "autoMatch sha seed0 seed1 s =
     (let s1 = (if prPhase (apPeers s ! 0) = Idle then app_spin seed0 0 s else s);
          s2 = (if prPhase (apPeers s1 ! 1) = Idle then app_spin seed1 1 s1 else s1)
      in auto_loop sha 25 s2)"

text \<open>The submit handler of the compose forms.\<close>

definition app_submit :: "nat \<Rightarrow> string \<Rightarrow> app \<Rightarrow> app" where
  "app_submit i input s =
     (let body = js_trim input
      in if body = '''' then s
         else let now = apNowMs s + 10;
                  (p, w, msg) = peer_send body ((apPeers s ! i)\<lparr>prNowMs := now\<rparr>) (apWorld s);
                  ps = (apPeers s)[i := p];
                  ps' = (case (msg, prSessionId p) of
                           (Some _, Some sid) \<Rightarrow>
                             if sid = '''' then ps
                             else map (\<lambda>q. if prSessionId q = Some sid
                                           then share_messages w q else q) ps
                         | _ \<Rightarrow> ps)
              in s\<lparr>apNowMs := now, apPeers := ps', apWorld := w\<rparr>)"

text \<open>The page as it loads.\<close>

definition new_app :: "bytes \<Rightarrow> bytes \<Rightarrow> bytes \<Rightarrow> bytes \<Rightarrow> app" where
  "new_app id0 seed0 id1 seed1 =
     (let w0 = \<lparr>wLobby = new_lobby, wArrays = [], wSessions = []\<rparr>;
          (p0, w1) = new_peer ''you'' id0 seed0 w0;
          (p1, w2) = new_peer ''stranger'' id1 seed1 w1
      in \<lparr>apPeers = [p0, p1], apWorld = w2, apNowMs = 1000\<rparr>)"

section \<open>One tick\<close>

lemma tick_idle: "prPhase p \<noteq> Waiting \<Longrightarrow> prPhase p \<noteq> Claiming \<Longrightarrow>
    tick sha now p L = (p\<lparr>prNowMs := max (prNowMs p) now\<rparr>, L)"
  by (simp add: tick_def)

lemma lobby_ok_tick_claim: "lobby_ok L \<Longrightarrow> lobby_ok (snd (tick_claim sha e live m p L))"
  by (auto simp: tick_claim_def Let_def lobby_ok_insertClaim split: option.splits)

lemma lobby_ok_tick_detect: "lobby_ok L \<Longrightarrow> lobby_ok (snd (tick_detect live p L))"
  by (auto simp: tick_detect_def lobby_ok_upsertLeave split: option.splits)

lemma tick_claim_peer:
  "prPeerId (fst (tick_claim sha e live m p L)) = prPeerId p"
  "prVersion (fst (tick_claim sha e live m p L)) = prVersion p"
  "prNowMs (fst (tick_claim sha e live m p L)) = prNowMs p"
  "prSessionSeed (fst (tick_claim sha e live m p L)) = prSessionSeed p"
  "offers (snd (tick_claim sha e live m p L)) = offers L"
  "leaves (snd (tick_claim sha e live m p L)) = leaves L"
  by (auto simp: tick_claim_def Let_def split: option.splits)

lemma tick_detect_peer:
  "prPeerId (fst (tick_detect live p L)) = prPeerId p"
  "prVersion (fst (tick_detect live p L)) = prVersion p"
  "prNowMs (fst (tick_detect live p L)) = prNowMs p"
  "prSessionSeed (fst (tick_detect live p L)) = prSessionSeed p"
  "offers (snd (tick_detect live p L)) = offers L"
  "claims (snd (tick_detect live p L)) = claims L"
  by (auto simp: tick_detect_def split: option.splits)

text \<open>What a tick of a searching peer is made of.\<close>

definition tick_own :: "int \<Rightarrow> peer \<Rightarrow> peer" where
  "tick_own now p = p\<lparr>prNowMs := max (prNowMs p) now, prVersion := prVersion p + 1\<rparr>"

definition tick_epoch :: "peer \<Rightarrow> lobby \<Rightarrow> int" where
  "tick_epoch p L = max (networkNow L) (prNowMs p) div epochMs (config L)"

definition tick_view :: "peer \<Rightarrow> lobby \<Rightarrow> offer list" where
  "tick_view p L = tick_live (peer_offer p) (liveOffers L (max (networkNow L) (prNowMs p)))"

lemma tick_search:
  assumes "prPhase p = Waiting \<or> prPhase p = Claiming"
  shows "tick sha now p L =
    (let p1 = tick_own now p; L1 = upsertOffer (peer_offer p1) L;
         r2 = tick_claim sha (tick_epoch p1 L1) (tick_view p1 L1) (matchedPeers L1) p1 L1;
         r3 = tick_detect (tick_view p1 L1) (fst r2) (snd r2)
     in (fst r3, cleanup (snd r3)))"
  using assms
  by (auto simp: tick_def tick_own_def tick_epoch_def tick_view_def Let_def case_prod_unfold)

lemma tick_idle_cases: "prPhase p = Waiting \<or> prPhase p = Claiming
    \<or> tick sha now p L = (p\<lparr>prNowMs := max (prNowMs p) now\<rparr>, L)"
  using tick_idle by blast

lemma lobby_ok_tick: "lobby_ok L \<Longrightarrow> lobby_ok (snd (tick sha now p L))"
  using tick_idle_cases [of p sha now L]
  by (auto simp: tick_search Let_def intro!: lobby_ok_cleanup lobby_ok_tick_detect
      lobby_ok_tick_claim lobby_ok_upsertOffer)

lemma tick_claim_phase: "prPhase p \<noteq> Matched \<Longrightarrow> prPhase (fst (tick_claim sha e live m p L)) \<noteq> Matched"
  by (auto simp: tick_claim_def Let_def split: option.splits)

lemma tick_detect_Matched:
  assumes "prPhase p \<noteq> Matched" "prPhase (fst (tick_detect live p L)) = Matched"
  shows "\<exists>b \<in> set live. \<exists>s. ofPeerId b \<noteq> prPeerId p \<and> s \<noteq> []
    \<and> mutualMatch L (prPeerId p) (ofPeerId b) = Some s
    \<and> prTarget (fst (tick_detect live p L)) = Some (ofPeerId b)
    \<and> prSessionId (fst (tick_detect live p L)) = Some s
    \<and> snd (tick_detect live p L) = upsertLeave \<lparr>lvPeerId = prPeerId p, lvVersion = prVersion p,
        lvLeftMs = prNowMs p\<rparr> L"
proof -
  obtain b where find: "js_find (\<lambda>b. ofPeerId b \<noteq> prPeerId p
      \<and> truthy (mutualMatch L (prPeerId p) (ofPeerId b))) live = Some b"
    using assms by (auto simp: tick_detect_def split: option.splits)
  from js_find_Some_iff [OF find] obtain s where
    "b \<in> set live" "ofPeerId b \<noteq> prPeerId p" "s \<noteq> []"
    "mutualMatch L (prPeerId p) (ofPeerId b) = Some s"
    by (auto split: option.splits)
  with find show ?thesis
    by (intro bexI [of _ b] exI [of _ s]) (simp_all add: tick_detect_def)
qed

lemma isLeft_upsertLeave: "isLeft (upsertLeave \<lparr>lvPeerId = p, lvVersion = v, lvLeftMs = t\<rparr> L) p v"
  using leave_lww.upsert_newest [of "\<lparr>lvPeerId = p, lvVersion = v, lvLeftMs = t\<rparr>" L]
  by (auto simp: isLeft_def)

text \<open>A peer that left at the newest version the lobby holds for it is swept away.\<close>

lemma left_swept:
  assumes ok: "lobby_ok L" and own: "\<And>b. jget (offers L) p = Some b \<Longrightarrow> ofVersion b \<le> v"
    and left: "isLeft L p v" and b: "b \<in> set (jvals (offers (cleanup L)))"
  shows "ofPeerId b \<noteq> p"
proof
  assume p: "ofPeerId b = p"
  from b ok have mem: "(p, b) \<in> set (offers L)" and nl: "\<not> isLeft L p (ofVersion b)"
    using p by (auto simp: offers_cleanup in_jvals fresh_offer_def lobby_ok_def)
  from mem ok have "jget (offers L) p = Some b"
    by (simp add: lobby_ok_def jm.entries_get)
  then have "ofVersion b \<le> v" by (rule own)
  with left nl show False
    by (auto simp: isLeft_def split: option.splits)
qed

section \<open>Matching\<close>

lemma offers_tick_claim_own:
  assumes "jget (offers (upsertOffer (peer_offer p) L)) (prPeerId p) = Some b"
    "case jget (offers L) (prPeerId p) of None \<Rightarrow> True | Some c \<Rightarrow> ofVersion c < prVersion p"
  shows "ofVersion b \<le> prVersion p"
  using assms by (auto simp: offer_lww.get_upsert peer_offer_def split: option.splits if_splits)

lemma claims_tick_claim:
  "d \<in> set (jvals (claims (snd (tick_claim sha e live m p L)))) \<Longrightarrow>
     d \<in> set (jvals (claims L)) \<or> clClaimer d = prPeerId p"
  by (auto simp: tick_claim_def insertClaim_def Let_def dest!: jvals_jset
      split: option.splits if_splits)

text \<open>C3: A peer that matches has found the claim of its partner on it in the lobby it was handed,
  with the session it enters; it never matches itself.\<close>

theorem tick_match_sound:
  assumes "prPhase p \<noteq> Matched" "prPhase (fst (tick sha now p L)) = Matched"
  shows "\<exists>q s. \<exists>d \<in> set (jvals (claims L)). q \<noteq> prPeerId p \<and> s \<noteq> ''''
    \<and> prTarget (fst (tick sha now p L)) = Some q
    \<and> prSessionId (fst (tick sha now p L)) = Some s
    \<and> clClaimer d = q \<and> clTarget d = prPeerId p \<and> clSessionId d = s"
proof -
  from assms have search: "prPhase p = Waiting \<or> prPhase p = Claiming"
    by (cases "prPhase p") (auto simp: tick_idle)
  let ?p1 = "tick_own now p"
  let ?L1 = "upsertOffer (peer_offer ?p1) L"
  let ?live = "tick_view ?p1 ?L1"
  define r2 where "r2 = tick_claim sha (tick_epoch ?p1 ?L1) ?live (matchedPeers ?L1) ?p1 ?L1"
  have fst3: "fst (tick sha now p L) = fst (tick_detect ?live (fst r2) (snd r2))"
    using search by (simp add: tick_search Let_def r2_def)
  have id: "prPeerId (fst r2) = prPeerId p"
    by (simp add: r2_def tick_claim_peer tick_own_def)
  have "prPhase (fst r2) \<noteq> Matched"
    using assms(1) by (simp add: r2_def tick_claim_phase tick_own_def)
  from tick_detect_Matched [OF this, of ?live "snd r2"] assms(2) obtain b :: offer and s where
    b: "ofPeerId b \<noteq> prPeerId p" "s \<noteq> []" "mutualMatch (snd r2) (prPeerId p) (ofPeerId b) = Some s"
    and out: "prTarget (fst (tick_detect ?live (fst r2) (snd r2))) = Some (ofPeerId b)"
      "prSessionId (fst (tick_detect ?live (fst r2) (snd r2))) = Some s"
    unfolding fst3 id by blast
  from mutualMatch_claims [OF b(3)] obtain d where d: "d \<in> set (jvals (claims (snd r2)))"
    "clClaimer d = ofPeerId b" "clTarget d = prPeerId p" "clSessionId d = s" by blast
  have "d \<in> set (jvals (claims ?L1)) \<or> clClaimer d = prPeerId ?p1"
    using d(1) unfolding r2_def by (rule claims_tick_claim)
  with d b(1) have "d \<in> set (jvals (claims L))"
    by (simp add: tick_own_def)
  with b d out show ?thesis unfolding fst3 by blast
qed

lemma match_erases:
  assumes ok: "lobby_ok L" and search: "prPhase p = Waiting \<or> prPhase p = Claiming"
    and match: "prPhase (fst (tick sha now p L)) = Matched"
    and own: "case jget (offers L) (prPeerId p) of None \<Rightarrow> True | Some b \<Rightarrow> ofVersion b \<le> prVersion p"
  shows "(\<forall>b \<in> set (jvals (offers (snd (tick sha now p L)))). ofPeerId b \<noteq> prPeerId p)
    \<and> (\<forall>c \<in> set (jvals (claims (snd (tick sha now p L)))).
         clClaimer c \<noteq> prPeerId p \<and> clTarget c \<noteq> prPeerId p)
    \<and> mutualMatch (snd (tick sha now p L)) q (prPeerId p) = None"
proof -
  let ?p1 = "tick_own now p"
  let ?L1 = "upsertOffer (peer_offer ?p1) L"
  let ?live = "tick_view ?p1 ?L1"
  define r2 where "r2 = tick_claim sha (tick_epoch ?p1 ?L1) ?live (matchedPeers ?L1) ?p1 ?L1"
  define L3 where "L3 = snd (tick_detect ?live (fst r2) (snd r2))"
  have tick: "fst (tick sha now p L) = fst (tick_detect ?live (fst r2) (snd r2))"
    "snd (tick sha now p L) = cleanup L3"
    using search by (simp_all add: tick_search Let_def r2_def L3_def)
  have okL3: "lobby_ok L3"
    unfolding L3_def r2_def
    by (intro lobby_ok_tick_detect lobby_ok_tick_claim lobby_ok_upsertOffer ok)
  have id: "prPeerId (fst r2) = prPeerId p" "prVersion (fst r2) = prVersion ?p1"
    by (simp_all add: r2_def tick_claim_peer tick_own_def)
  have "prPhase (fst r2) \<noteq> Matched"
    using search unfolding r2_def by (intro tick_claim_phase) (auto simp: tick_own_def)
  from tick_detect_Matched [OF this] match
  have "L3 = upsertLeave \<lparr>lvPeerId = prPeerId p, lvVersion = prVersion ?p1,
      lvLeftMs = prNowMs (fst r2)\<rparr> (snd r2)"
    by (fastforce simp: tick(1) L3_def id)
  then have left: "isLeft L3 (prPeerId p) (prVersion ?p1)"
    by (simp add: isLeft_upsertLeave)
  have offs: "offers L3 = offers ?L1"
    by (simp add: L3_def r2_def tick_detect_peer tick_claim_peer)
  have newest: "ofVersion b \<le> prVersion ?p1" if "jget (offers L3) (prPeerId p) = Some b" for b
    using that own unfolding offs
    by (intro offers_tick_claim_own [of ?p1 L]) (auto simp: tick_own_def split: option.splits)
  have gone: "ofPeerId b \<noteq> prPeerId p" if "b \<in> set (jvals (offers (cleanup L3)))" for b
    using okL3 newest left that by (rule left_swept)
  have claims_gone: "clClaimer c \<noteq> prPeerId p \<and> clTarget c \<noteq> prPeerId p"
    if "c \<in> set (jvals (claims (cleanup L3)))" for c
    using that okL3 gone
    by (fastforce simp: claims_cleanup in_jvals live_ids_def offers_cleanup)
  have "mutualMatch (cleanup L3) q (prPeerId p) = None"
    using mutualMatch_claims [of "cleanup L3" q "prPeerId p"] claims_gone
    by (cases "mutualMatch (cleanup L3) q (prPeerId p)") auto
  with gone claims_gone show ?thesis by (simp add: tick(2))
qed

text \<open>The tick in which a peer matches erases it: its offer and every claim from or to it are
  gone from the lobby, so no peer can detect the same match afterwards.\<close>

theorem tick_match_erases:
  assumes ok: "lobby_ok L" and search: "prPhase p = Waiting \<or> prPhase p = Claiming"
    and match: "prPhase (fst (tick sha now p L)) = Matched"
    and own: "case jget (offers L) (prPeerId p) of None \<Rightarrow> True | Some b \<Rightarrow> ofVersion b \<le> prVersion p"
  shows "(\<forall>b \<in> set (jvals (offers (snd (tick sha now p L)))). ofPeerId b \<noteq> prPeerId p)
    \<and> (\<forall>c \<in> set (jvals (claims (snd (tick sha now p L)))).
         clClaimer c \<noteq> prPeerId p \<and> clTarget c \<noteq> prPeerId p)
    \<and> mutualMatch (snd (tick sha now p L)) q (prPeerId p) = None"
  using assms by (rule match_erases)

section \<open>Sending\<close>

definition in_session :: "string \<Rightarrow> peer \<Rightarrow> bool" where
  "in_session sid p \<longleftrightarrow> prPhase p = Matched \<and> prSessionId p = Some sid \<and> sid \<noteq> ''''"

definition world_ok :: "world \<Rightarrow> bool" where
  "world_ok w \<longleftrightarrow> (\<forall>a \<in> set (jvals (wSessions w)). a < length (wArrays w))"

definition session_log :: "world \<Rightarrow> string \<Rightarrow> message list" where
  "session_log w sid = (case jget (wSessions w) sid of None \<Rightarrow> [] | Some a \<Rightarrow> wArrays w ! a)"

definition next_message :: "string \<Rightarrow> peer \<Rightarrow> message" where
  "next_message body p = \<lparr>msAuthor = prPeerId p, msSeq = prMsgSeq p + 1, msSentMs = prNowMs p,
     msBody = body\<rparr>"

lemma world_ok_jget: "world_ok w \<Longrightarrow> jget (wSessions w) k = Some a \<Longrightarrow> a < length (wArrays w)"
  by (force simp: world_ok_def jget_def in_jvals dest: map_of_SomeD)

text \<open>One send by a peer whose own array is the session's, and by one whose array is its own.\<close>

lemma send_shared:
  assumes "in_session sid p" "jget (wSessions w) sid = Some (prMessages p)" "world_ok w"
  shows "session_log (fst (snd (peer_send body p w))) sid =
    session_log w sid @ [next_message body p, next_message body p]"
  using assms world_ok_jget [of w sid "prMessages p"]
  by (simp add: peer_send_def in_session_def session_log_def push_message_def Let_def
      next_message_def)

lemma send_apart:
  assumes "in_session sid p" "jget (wSessions w) sid \<noteq> Some (prMessages p)" "world_ok w"
    "prMessages p < length (wArrays w)"
  shows "session_log (fst (snd (peer_send body p w))) sid =
    session_log w sid @ [next_message body p]"
  using assms world_ok_jget [of w sid]
  by (cases "jget (wSessions w) sid")
    (auto simp: peer_send_def in_session_def session_log_def push_message_def new_array_def
      Let_def next_message_def jm.get_put nth_append)

lemma send_session:
  assumes "in_session sid p" "world_ok w"
  shows "world_ok (fst (snd (peer_send body p w)))
    \<and> jhas (wSessions (fst (snd (peer_send body p w)))) sid
    \<and> in_session sid (fst (peer_send body p w))
    \<and> snd (snd (peer_send body p w)) = Some (next_message body p)"
  using assms
  by (auto simp: peer_send_def in_session_def push_message_def new_array_def Let_def
      next_message_def jm.get_put world_ok_def dest!: jvals_jset
      split: option.splits prod.splits)

lemma app_submit_send:
  assumes "i < length (apPeers s)" "in_session sid (apPeers s ! i)" "world_ok (apWorld s)"
    "js_trim t \<noteq> []"
  defines "p \<equiv> (apPeers s ! i)\<lparr>prNowMs := apNowMs s + 10\<rparr>"
  shows "apWorld (app_submit i t s) = fst (snd (peer_send (js_trim t) p (apWorld s)))"
    "length (apPeers (app_submit i t s)) = length (apPeers s)"
    "apPeers (app_submit i t s) ! i =
       share_messages (apWorld (app_submit i t s)) (fst (peer_send (js_trim t) p (apWorld s)))"
proof -
  have p: "in_session sid p"
    using assms(2) by (simp add: p_def in_session_def)
  obtain q w m where r: "peer_send (js_trim t) p (apWorld s) = (q, w, m)"
    by (cases "peer_send (js_trim t) p (apWorld s)")
  from send_session [OF p assms(3), of "js_trim t"] r
  have q: "in_session sid q" and m: "m = Some (next_message (js_trim t) p)" by auto
  from q have sid: "prSessionId q = Some sid" "sid \<noteq> ''''"
    by (auto simp: in_session_def)
  show "apWorld (app_submit i t s) = fst (snd (peer_send (js_trim t) p (apWorld s)))"
    "length (apPeers (app_submit i t s)) = length (apPeers s)"
    "apPeers (app_submit i t s) ! i =
       share_messages (apWorld (app_submit i t s)) (fst (peer_send (js_trim t) p (apWorld s)))"
    using assms(1,4) r m sid by (simp_all add: app_submit_def Let_def p_def)
qed

lemma share_session:
  assumes "in_session sid p" "jhas (wSessions w) sid"
  shows "in_session sid (share_messages w p)"
    "jget (wSessions w) sid = Some (prMessages (share_messages w p))"
  using assms by (auto simp: in_session_def share_messages_def)

text \<open>The first message a matched peer submits is appended once to the session's log; from then
  on the peer's array is the session's array, and each later message is appended twice.\<close>

theorem submit_duplicates:
  assumes i: "i < length (apPeers s)" and p: "in_session sid (apPeers s ! i)"
    and w: "world_ok (apWorld s)" and t1: "js_trim t1 \<noteq> []" and t2: "js_trim t2 \<noteq> []"
    and apart: "prMessages (apPeers s ! i) < length (wArrays (apWorld s))"
      "jget (wSessions (apWorld s)) sid \<noteq> Some (prMessages (apPeers s ! i))"
  shows "\<exists>m1 m2. msBody m1 = js_trim t1 \<and> msBody m2 = js_trim t2
    \<and> session_log (apWorld (app_submit i t1 s)) sid = session_log (apWorld s) sid @ [m1]
    \<and> session_log (apWorld (app_submit i t2 (app_submit i t1 s))) sid =
        session_log (apWorld s) sid @ [m1, m2, m2]"
proof -
  let ?p = "(apPeers s ! i)\<lparr>prNowMs := apNowMs s + 10\<rparr>"
  let ?s1 = "app_submit i t1 s"
  let ?q = "(apPeers ?s1 ! i)\<lparr>prNowMs := apNowMs ?s1 + 10\<rparr>"
  have pp: "in_session sid ?p"
    using p by (simp add: in_session_def)
  note s1 = app_submit_send [OF i p w t1]
  have first: "session_log (apWorld ?s1) sid =
      session_log (apWorld s) sid @ [next_message (js_trim t1) ?p]"
    unfolding s1(1) by (rule send_apart) (use pp w apart in simp_all)
  have w1: "world_ok (apWorld ?s1)" and has: "jhas (wSessions (apWorld ?s1)) sid"
    and fst_p: "in_session sid (fst (peer_send (js_trim t1) ?p (apWorld s)))"
    unfolding s1(1) using send_session [OF pp w, of "js_trim t1"] by simp_all
  have q: "in_session sid (apPeers ?s1 ! i)"
    and addr: "jget (wSessions (apWorld ?s1)) sid = Some (prMessages (apPeers ?s1 ! i))"
    unfolding s1(3) using share_session [OF fst_p has] by simp_all
  have i1: "i < length (apPeers ?s1)"
    using i by (simp add: s1(2))
  have "session_log (apWorld (app_submit i t2 ?s1)) sid = session_log (apWorld ?s1) sid
      @ [next_message (js_trim t2) ?q, next_message (js_trim t2) ?q]"
    unfolding app_submit_send(1) [OF i1 q w1 t2]
    by (rule send_shared) (use q addr w1 in \<open>simp_all add: in_session_def\<close>)
  with first show ?thesis
    by (intro exI [of _ "next_message (js_trim t1) ?p"] exI [of _ "next_message (js_trim t2) ?q"])
      (simp add: next_message_def)
qed

section \<open>Two panes never both match\<close>

lemma jvals_upsertOffer:
  "x \<in> set (jvals (offers (upsertOffer b L))) \<Longrightarrow> x = b \<or> x \<in> set (jvals (offers L))"
  by (auto simp: upsertOffer_def Let_def dest: jvals_jset split: option.splits if_splits)

lemma tick_view_ids:
  assumes "\<forall>b \<in> set (jvals (offers L)). ofPeerId b = prPeerId p" "b \<in> set (tick_view p L)"
  shows "ofPeerId b = prPeerId p"
  using assms
  by (auto simp: tick_view_def tick_live_def peer_offer_def liveOffers_def
      split: option.splits if_splits)

lemma tick_detect_alone:
  "\<forall>b \<in> set live. ofPeerId b = prPeerId p \<Longrightarrow> tick_detect live p L = (p, L)"
  by (auto simp: tick_detect_def dest: js_find_Some_iff split: option.splits)

lemma tick_claim_alone:
  assumes "\<forall>b \<in> set live. ofPeerId b = prPeerId p"
  shows "tick_claim sha e live m p L = (p, L)"
proof -
  have "selectPartner sha (prPeerId p) live e m = None"
    using assms by (auto simp: selectPartner_None eligible_def)
  then show ?thesis by (simp add: tick_claim_def)
qed

definition lone :: "string \<Rightarrow> lobby \<Rightarrow> bool" where
  "lone a L \<longleftrightarrow> lobby_ok L \<and> claims L = [] \<and> (\<forall>b \<in> set (jvals (offers L)). ofPeerId b = a)"

text \<open>A searching peer alone in the lobby goes on searching.\<close>

lemma tick_lone:
  assumes lone: "lone (prPeerId p) L" and search: "prPhase p = Waiting \<or> prPhase p = Claiming"
  shows "fst (tick sha now p L) = tick_own now p \<and> lone (prPeerId p) (snd (tick sha now p L))"
proof -
  let ?p1 = "tick_own now p"
  let ?L1 = "upsertOffer (peer_offer ?p1) L"
  have id: "prPeerId ?p1 = prPeerId p"
    by (simp add: tick_own_def)
  have ok: "lobby_ok ?L1"
    using lone by (simp add: lone_def lobby_ok_upsertOffer)
  have ids: "\<forall>b \<in> set (jvals (offers ?L1)). ofPeerId b = prPeerId ?p1"
    using lone by (auto simp: lone_def tick_own_def peer_offer_def dest!: jvals_upsertOffer)
  have view: "\<forall>b \<in> set (tick_view ?p1 ?L1). ofPeerId b = prPeerId ?p1"
    using tick_view_ids [OF ids] by blast
  have tick: "tick sha now p L = (?p1, cleanup ?L1)"
    unfolding tick_search [OF search] Let_def tick_claim_alone [OF view] fst_conv snd_conv
      tick_detect_alone [OF view] ..
  have "claims ?L1 = []"
    using lone by (simp add: lone_def)
  with ok ids show ?thesis
    by (auto simp: tick lone_def id lobby_ok_cleanup claims_cleanup offers_cleanup in_jvals)
qed

text \<open>The two panes once one has matched and the other is left behind.\<close>

definition stranded :: "app \<Rightarrow> bool" where
  "stranded s \<longleftrightarrow> (\<exists>p0 p1. apPeers s = [p0, p1] \<and> prPhase p0 = Claiming \<and> prPhase p1 = Matched
     \<and> lone (prPeerId p0) (wLobby (apWorld s)))"

lemma stranded_tick_0: "stranded s \<Longrightarrow> stranded (tick_one sha 0 s)"
  unfolding stranded_def
proof (elim exE conjE)
  fix p0 p1
  assume s: "apPeers s = [p0, p1]" "prPhase p0 = Claiming" "prPhase p1 = Matched"
    "lone (prPeerId p0) (wLobby (apWorld s))"
  from tick_lone [OF s(4), of sha "apNowMs s"] s(2)
  have "fst (tick sha (apNowMs s) p0 (wLobby (apWorld s))) = tick_own (apNowMs s) p0"
    "lone (prPeerId p0) (snd (tick sha (apNowMs s) p0 (wLobby (apWorld s))))" by simp_all
  with s show "\<exists>p0 p1. apPeers (tick_one sha 0 s) = [p0, p1] \<and> prPhase p0 = Claiming
      \<and> prPhase p1 = Matched \<and> lone (prPeerId p0) (wLobby (apWorld (tick_one sha 0 s)))"
    by (simp add: tick_one_def case_prod_unfold tick_own_def)
qed

lemma stranded_tick_1: "stranded s \<Longrightarrow> stranded (tick_one sha 1 s)"
  by (auto simp: stranded_def tick_one_def tick_idle)

lemma share_messages_frame [simp]:
  "prPhase (share_messages w p) = prPhase p" "prPeerId (share_messages w p) = prPeerId p"
  by (auto simp: share_messages_def split: option.splits)

lemma stranded_share:
  "stranded s \<Longrightarrow> stranded (s\<lparr>apPeers := map (share_messages (apWorld s)) (apPeers s)\<rparr>)"
  by (auto simp: stranded_def)

lemma stranded_count:
  "stranded s \<Longrightarrow> length (filter (\<lambda>p. prPhase p = Matched) (apPeers s)) = 1"
  by (auto simp: stranded_def)

text \<open>The last two ticks of a step keep the strand, so the step reports no match.\<close>

lemma app_tick_stranded:
  assumes "stranded (tick_one sha 1 (tick_one sha 0 (s\<lparr>apNowMs := apNowMs s + 500\<rparr>)))"
  shows "stranded (fst (app_tick sha s)) \<and> \<not> snd (app_tick sha s)"
proof -
  let ?s2 = "tick_one sha 1 (tick_one sha 0 (tick_one sha 1 (tick_one sha 0
    (s\<lparr>apNowMs := apNowMs s + 500\<rparr>))))"
  have "stranded (?s2\<lparr>apPeers := map (share_messages (apWorld ?s2)) (apPeers ?s2)\<rparr>)"
    by (rule stranded_share, rule stranded_tick_1, rule stranded_tick_0, rule assms)
  from this stranded_count [OF this] show ?thesis
    by (simp only: app_tick_def Let_def fst_conv snd_conv) simp
qed

lemma stranded_time: "stranded s \<Longrightarrow> stranded (s\<lparr>apNowMs := t\<rparr>)"
  by (simp add: stranded_def)

lemma auto_loop_stranded:
  "stranded s \<Longrightarrow> stranded (fst (auto_loop sha n s)) \<and> \<not> snd (auto_loop sha n s)"
proof (induction n arbitrary: s)
  case 0
  then show ?case by simp
next
  case (Suc n)
  have "stranded (fst (app_tick sha s)) \<and> \<not> snd (app_tick sha s)"
    by (intro app_tick_stranded stranded_tick_1 stranded_tick_0 stranded_time Suc.prems)
  with Suc.IH [of "fst (app_tick sha s)"] show ?case
    by (simp add: case_prod_unfold Let_def)
qed

definition duo :: "offer \<Rightarrow> offer \<Rightarrow> (string, claim) jsmap \<Rightarrow> lobby" where
  "duo x y cs = \<lparr>config = default_config, offers = [(ofPeerId x, x), (ofPeerId y, y)],
     claims = cs, leaves = []\<rparr>"

definition fresh_pair :: "offer \<Rightarrow> offer \<Rightarrow> bool" where
  "fresh_pair x y \<longleftrightarrow> ofPeerId x \<noteq> ofPeerId y \<and> ofPeerId x \<noteq> '''' \<and> ofPeerId y \<noteq> ''''
     \<and> CHR ''|'' \<notin> set (ofPeerId x) \<and> CHR ''|'' \<notin> set (ofPeerId y)
     \<and> 0 \<le> ofHeartbeatMs x \<and> 0 \<le> ofHeartbeatMs y \<and> \<bar>ofHeartbeatMs x - ofHeartbeatMs y\<bar> \<le> 15000"

lemma duo_upsert:
  assumes "ofPeerId x \<noteq> ofPeerId y" "ofPeerId z = ofPeerId x" "ofVersion x < ofVersion z"
  shows "upsertOffer z (duo x y cs) = duo z y cs"
  using assms by (simp add: upsertOffer_def duo_def jget_def jset_def)

lemma duo_upsert2:
  assumes "ofPeerId x \<noteq> ofPeerId y" "ofPeerId z = ofPeerId y" "ofVersion y < ofVersion z"
  shows "upsertOffer z (duo x y cs) = duo x z cs"
  using assms by (simp add: upsertOffer_def duo_def jget_def jset_def)

lemma duo_select:
  assumes "fresh_pair x y"
  shows "selectPartner sha (ofPeerId x) [x, y] e {} = Some (ofPeerId y)"
    "selectPartner sha (ofPeerId y) [x, y] e {} = Some (ofPeerId x)"
  using assms by (auto simp: selectPartner_def select_step_def Let_def fresh_pair_def)

lemma duo_sel [simp]: "offers (duo x y cs) = [(ofPeerId x, x), (ofPeerId y, y)]"
  "claims (duo x y cs) = cs" "leaves (duo x y cs) = []" "config (duo x y cs) = default_config"
  by (simp_all add: duo_def)

lemma duo_isLeft [simp]: "\<not> isLeft (duo x y cs) p v"
  by (simp add: isLeft_def)

lemma duo_now:
  assumes "fresh_pair x y" "\<forall>c \<in> set (jvals cs). clCreatedMs c \<le> max (ofHeartbeatMs x) (ofHeartbeatMs y)"
  shows "networkNow (duo x y cs) = max (ofHeartbeatMs x) (ofHeartbeatMs y)"
proof (rule order_antisym)
  show "networkNow (duo x y cs) \<le> max (ofHeartbeatMs x) (ofHeartbeatMs y)"
    using assms by (auto simp: networkNow_le jvals_def fresh_pair_def)
  show "max (ofHeartbeatMs x) (ofHeartbeatMs y) \<le> networkNow (duo x y cs)"
    by (auto intro!: networkNow_ge(1) simp: jvals_def)
qed

lemma duo_live:
  assumes "fresh_pair x y" "t \<le> max (ofHeartbeatMs x) (ofHeartbeatMs y)"
  shows "liveOffers (duo x y cs) t = [x, y]"
  using assms by (auto simp: liveOffers_def jvals_def fresh_pair_def default_config_def)

lemma duo_view:
  assumes "fresh_pair x y" "\<forall>c \<in> set (jvals cs). clCreatedMs c \<le> max (ofHeartbeatMs x) (ofHeartbeatMs y)"
    "peer_offer p = x \<or> peer_offer p = y"
  shows "tick_view p (duo x y cs) = [x, y]"
proof -
  have "prNowMs p = ofHeartbeatMs (peer_offer p)"
    by (simp add: peer_offer_def)
  then have "max (networkNow (duo x y cs)) (prNowMs p) = max (ofHeartbeatMs x) (ofHeartbeatMs y)"
    using assms(3) by (auto simp: duo_now [OF assms(1,2)])
  with assms show ?thesis
    by (auto simp: tick_view_def duo_live tick_live_def js_find_def fresh_pair_def)
qed

lemma duo_claim:
  assumes "fresh_pair x y" "peer_offer p = x"
  shows "tick_claim sha e [x, y] {} p (duo x y cs) =
     (let sid = sessionIdFor sha (ofPeerId x) (ofPeerId y) (ofSessionSeed x) (ofSessionSeed y)
      in (p\<lparr>prPhase := Claiming, prTarget := Some (ofPeerId y), prSessionId := Some sid,
            prLog := prLog p @ [''claiming '' @ take 8 (ofPeerId y)]\<rparr>,
          insertClaim \<lparr>clClaimer = ofPeerId x, clTarget = ofPeerId y, clSessionId = sid,
            clCreatedMs = ofHeartbeatMs x\<rparr> (duo x y cs)))"
proof -
  have "ofPeerId x = prPeerId p" "ofSessionSeed x = prSessionSeed p" "ofHeartbeatMs x = prNowMs p"
    using assms(2) by (auto simp: peer_offer_def)
  with assms(1) duo_select [OF assms(1)] show ?thesis
    by (simp add: tick_claim_def js_find_def Let_def fresh_pair_def)
qed

lemma duo_claim2:
  assumes "fresh_pair x y" "peer_offer p = y"
  shows "tick_claim sha e [x, y] {} p (duo x y cs) =
     (let sid = sessionIdFor sha (ofPeerId y) (ofPeerId x) (ofSessionSeed y) (ofSessionSeed x)
      in (p\<lparr>prPhase := Claiming, prTarget := Some (ofPeerId x), prSessionId := Some sid,
            prLog := prLog p @ [''claiming '' @ take 8 (ofPeerId x)]\<rparr>,
          insertClaim \<lparr>clClaimer = ofPeerId y, clTarget = ofPeerId x, clSessionId = sid,
            clCreatedMs = ofHeartbeatMs y\<rparr> (duo x y cs)))"
proof -
  have "ofPeerId y = prPeerId p" "ofSessionSeed y = prSessionSeed p" "ofHeartbeatMs y = prNowMs p"
    using assms(2) by (auto simp: peer_offer_def)
  with assms(1) duo_select [OF assms(1)] show ?thesis
    by (simp add: tick_claim_def js_find_def Let_def fresh_pair_def)
qed

lemma matchedPeers_few: "length cs \<le> 1 \<Longrightarrow> fresh_pair x y \<Longrightarrow>
  \<forall>c \<in> set (jvals cs). clClaimer c \<noteq> clTarget c \<Longrightarrow> matchedPeers (duo x y cs) = {}"
  by (cases cs) (auto simp: matchedPeers_def jvals_def mutualMatch_def mutual_scan_def scan_claim_def)

lemma one_claim: "a \<noteq> b \<Longrightarrow> mutualMatch (duo x y [(k, c)]) a b = None"
  by (auto simp: mutualMatch_def jvals_def mutual_scan_def scan_claim_def)

lemma duo_ok: "ofPeerId x \<noteq> ofPeerId y \<Longrightarrow> lobby_ok (duo x y [(claim_key c, c)])"
  by (simp add: lobby_ok_def jmap_ok_def)

lemma duo_sweep:
  assumes pair: "fresh_pair x y"
    and c: "{clClaimer c, clTarget c} = {ofPeerId x, ofPeerId y}" "clCreatedMs c = ofHeartbeatMs x"
  shows "cleanup (duo x y [(claim_key c, c)]) = duo x y [(claim_key c, c)]"
proof -
  let ?D = "duo x y [(claim_key c, c)]"
  have now: "networkNow ?D = max (ofHeartbeatMs x) (ofHeartbeatMs y)"
    by (rule duo_now [OF pair]) (simp add: jvals_def c)
  have ok: "lobby_ok ?D"
    using pair by (intro duo_ok) (simp add: fresh_pair_def)
  have fresh: "fresh_offer ?D (networkNow ?D) b" if "b = x \<or> b = y" for b
    using pair that by (auto simp: fresh_offer_def now fresh_pair_def default_config_def)
  have ids: "live_ids ?D (networkNow ?D) = {ofPeerId x, ofPeerId y}"
    using fresh by (auto simp: live_ids_def jvals_def)
  have young: "networkNow ?D - clCreatedMs c \<le> claimTtlMs (config ?D)"
    using pair by (auto simp: now c default_config_def fresh_pair_def)
  have "offers (cleanup ?D) = offers ?D"
    using fresh unfolding offers_cleanup [OF ok] by (auto intro: filter_True)
  moreover have "claims (cleanup ?D) = claims ?D"
    using c(1) young unfolding claims_cleanup [OF ok] ids by auto
  ultimately show ?thesis by simp
qed

lemma claim_key_claimer:
  "CHR ''|'' \<notin> set (clClaimer c) \<Longrightarrow> CHR ''|'' \<notin> set (clClaimer d) \<Longrightarrow>
     claim_key c = claim_key d \<Longrightarrow> clClaimer c = clClaimer d"
  by (simp add: claim_key_def append_sep_inject)

text \<open>The first pane claims, and its claim survives the sweep.\<close>

lemma duo_first_tick:
  assumes pair: "fresh_pair x' y" and x: "x' = peer_offer (tick_own now p)" "ofPeerId x = prPeerId p" "ofVersion x = prVersion p"
    and search: "prPhase p = Waiting \<or> prPhase p = Claiming"
  shows "\<exists>c k. snd (tick sha now p (duo x y [])) = duo x' y [(k, c)] \<and> k = claim_key c \<and> clClaimer c = ofPeerId x'
     \<and> clTarget c = ofPeerId y \<and> clCreatedMs c = ofHeartbeatMs x'
     \<and> clSessionId c = sessionIdFor sha (ofPeerId x') (ofPeerId y) (ofSessionSeed x') (ofSessionSeed y)
     \<and> prPhase (fst (tick sha now p (duo x y []))) = Claiming
     \<and> prPeerId (fst (tick sha now p (duo x y []))) = prPeerId p
     \<and> prNowMs (fst (tick sha now p (duo x y []))) = prNowMs (tick_own now p)"
proof -
  let ?p1 = "tick_own now p"
  let ?sid = "sessionIdFor sha (ofPeerId x') (ofPeerId y) (ofSessionSeed x') (ofSessionSeed y)"
  define c where "c = \<lparr>clClaimer = ofPeerId x', clTarget = ofPeerId y, clSessionId = ?sid,
            clCreatedMs = ofHeartbeatMs x'\<rparr>"
  have up: "upsertOffer x' (duo x y []) = duo x' y []"
    by (rule duo_upsert) (use pair x in \<open>auto simp: peer_offer_def tick_own_def fresh_pair_def\<close>)
  have view: "tick_view ?p1 (duo x' y []) = [x', y]"
    by (rule duo_view) (use pair x in \<open>auto simp: jvals_def\<close>)
  have matched: "matchedPeers (duo x' y []) = {}"
    using pair by (intro matchedPeers_few) (auto simp: jvals_def)
  define q where "q = ?p1\<lparr>prPhase := Claiming, prTarget := Some (ofPeerId y), prSessionId := Some ?sid,
            prLog := prLog ?p1 @ [''claiming '' @ take 8 (ofPeerId y)]\<rparr>"
  have ins: "insertClaim c (duo x' y []) = duo x' y [(claim_key c, c)]"
    by (simp add: insertClaim_def jget_def jset_def duo_def)
  have claim: "tick_claim sha e [x', y] {} ?p1 (duo x' y []) = (q, duo x' y [(claim_key c, c)])" for e
    using duo_claim [OF pair x(1) [symmetric], of sha e "[]"]
    by (simp add: ins c_def [symmetric] Let_def q_def)
  have "\<not> truthy (mutualMatch (duo x' y [(claim_key c, c)]) (prPeerId q) (ofPeerId b))"
    if "b \<in> {x', y}" "ofPeerId b \<noteq> prPeerId q" for b
    using that(2) by (simp add: one_claim)
  then have det: "tick_detect [x', y] q (duo x' y [(claim_key c, c)]) = (q, duo x' y [(claim_key c, c)])"
    by (auto simp: tick_detect_def js_find_def)
  have cl: "cleanup (duo x' y [(claim_key c, c)]) = duo x' y [(claim_key c, c)]"
    by (rule duo_sweep) (use pair in \<open>simp_all add: c_def\<close>)
  have tick: "tick sha now p (duo x y []) = (q, duo x' y [(claim_key c, c)])"
    unfolding tick_search [OF search] Let_def x(1) [symmetric] up view matched claim fst_conv snd_conv det cl ..
  show ?thesis unfolding tick fst_conv snd_conv
    by (intro exI [of _ c] exI [of _ "claim_key c"]) (simp add: c_def q_def tick_own_def)
qed

lemma sessionIdFor_Nil: "\<forall>bs. sha bs \<noteq> [] \<Longrightarrow> sessionIdFor sha a b x y \<noteq> []"
  by (simp add: sessionIdFor_def sha256Bytes_def Let_def split: prod.split)

text \<open>The second pane finds both claims, matches, and leaves the first alone in the lobby.\<close>

lemma duo_second_tick:
  assumes sha: "\<forall>bs. sha bs \<noteq> []" and pair: "fresh_pair x y'"
    and y: "y' = peer_offer (tick_own now p)" "ofPeerId y = prPeerId p" "ofVersion y = prVersion p"
    and search: "prPhase p = Waiting \<or> prPhase p = Claiming"
    and c: "clClaimer c = ofPeerId x" "clTarget c = ofPeerId y'" "clCreatedMs c = ofHeartbeatMs x"
      "clSessionId c = sessionIdFor sha (ofPeerId x) (ofPeerId y') (ofSessionSeed x) (ofSessionSeed y')"
  shows "prPhase (fst (tick sha now p (duo x y [(claim_key c, c)]))) = Matched
    \<and> lone (ofPeerId x) (snd (tick sha now p (duo x y [(claim_key c, c)])))"
proof -
  let ?p1 = "tick_own now p"
  let ?sid = "clSessionId c"
  let ?D = "duo x y [(claim_key c, c)]"
  define d where "d = \<lparr>clClaimer = ofPeerId y', clTarget = ofPeerId x, clSessionId = ?sid,
            clCreatedMs = ofHeartbeatMs y'\<rparr>"
  have ids: "ofPeerId y' = prPeerId p" "ofPeerId x \<noteq> ofPeerId y'"
    using pair by (auto simp: fresh_pair_def y(1) peer_offer_def tick_own_def)
  have ok: "lobby_ok ?D"
    using ids y by (intro duo_ok) simp
  have up: "upsertOffer y' ?D = duo x y' [(claim_key c, c)]"
    by (rule duo_upsert2) (use ids y in \<open>auto simp: peer_offer_def tick_own_def\<close>)
  have view: "tick_view ?p1 (duo x y' [(claim_key c, c)]) = [x, y']"
    by (rule duo_view) (use pair y c in \<open>auto simp: jvals_def\<close>)
  have matched: "matchedPeers (duo x y' [(claim_key c, c)]) = {}"
    using pair ids c by (intro matchedPeers_few) (auto simp: jvals_def)
  have sym: "sessionIdFor sha (ofPeerId y') (ofPeerId x) (ofSessionSeed y') (ofSessionSeed x) = ?sid"
    unfolding c(4) using ids(2) by (auto simp: sessionIdFor_def compareHex_le Let_def)
  have "CHR ''|'' \<notin> set (clClaimer d)" "CHR ''|'' \<notin> set (clClaimer c)"
    using pair by (simp_all add: d_def c fresh_pair_def)
  then have "claim_key d = claim_key c \<Longrightarrow> clClaimer d = clClaimer c"
    by (rule claim_key_claimer)
  then have "claim_key d \<noteq> claim_key c"
    using ids(2) by (auto simp: d_def c(1))
  then have ins: "insertClaim d (duo x y' [(claim_key c, c)])
      = duo x y' [(claim_key c, c), (claim_key d, d)]"
    by (simp add: insertClaim_def jget_def jset_def duo_def)
  let ?L2 = "duo x y' [(claim_key c, c), (claim_key d, d)]"
  obtain q where claim: "tick_claim sha e [x, y'] {} ?p1 (duo x y' [(claim_key c, c)]) = (q, ?L2)"
    and q: "prPeerId q = prPeerId p" for e
    using duo_claim2 [OF pair y(1) [symmetric], of sha _ "[(claim_key c, c)]"]
    by (simp add: sym ins d_def [symmetric] Let_def tick_own_def)
  have "mutualMatch ?L2 (prPeerId q) (ofPeerId x) = Some ?sid"
    using ids by (simp add: mutualMatch_def mutual_scan_def scan_claim_def jvals_def c d_def q)
  moreover have "?sid \<noteq> []"
    unfolding c(4) by (rule sessionIdFor_Nil [OF sha])
  ultimately have det: "prPhase (fst (tick_detect [x, y'] q ?L2)) = Matched"
    using ids by (simp add: tick_detect_def js_find_def q)
  have split: "tick sha now p ?D = (fst (tick_detect [x, y'] q ?L2),
      cleanup (snd (tick_detect [x, y'] q ?L2)))"
    unfolding tick_search [OF search] Let_def y(1) [symmetric] up view matched claim fst_conv
      snd_conv ..
  have m: "prPhase (fst (tick sha now p ?D)) = Matched"
    by (simp add: split det)
  have own: "case jget (offers ?D) (prPeerId p) of None \<Rightarrow> True | Some b \<Rightarrow> ofVersion b \<le> prVersion p"
    using y ids by (simp add: jget_def)
  note gone = match_erases [OF ok search m own, of undefined]
  have okL3: "lobby_ok (snd (tick_detect [x, y'] q ?L2))"
    using lobby_ok_upsertOffer lobby_ok_insertClaim lobby_ok_tick_detect ok ins up by metis
  have sub: "set (jvals (offers (snd (tick sha now p ?D)))) \<subseteq> {x, y'}"
    "set (jvals (claims (snd (tick sha now p ?D)))) \<subseteq> {c, d}"
    by (auto simp: split offers_cleanup [OF okL3] claims_cleanup [OF okL3] tick_detect_peer in_jvals)
  have "clTarget c = prPeerId p" "clClaimer d = prPeerId p"
    by (simp_all add: c(2) d_def ids(1))
  then have "z \<notin> set (jvals (claims (snd (tick sha now p ?D))))" for z
    using gone subsetD [OF sub(2), of z] by (cases "z = c") auto
  then have "set (jvals (claims (snd (tick sha now p ?D)))) = {}"
    by (intro equals0I) simp
  then have "claims (snd (tick sha now p ?D)) = []"
    by (simp add: jvals_def)
  moreover have "\<forall>b \<in> set (jvals (offers (snd (tick sha now p ?D)))). ofPeerId b = ofPeerId x"
    using gone sub(1) ids(1) by auto
  ultimately show ?thesis
    using m lobby_ok_tick [OF ok] by (simp add: lone_def)
qed

lemma hex_no_bar: "CHR ''|'' \<notin> set (hex bs)"
proof -
  have "CHR ''|'' \<noteq> hex_digit n" if "n < 16" for n
  proof
    assume "CHR ''|'' = hex_digit n"
    then have "of_char (hex_digit n) = (of_char (CHR ''|'') :: nat)"
      by simp
    then have "of_char (hex_digit n) = (124 :: nat)"
      by simp
    with hex_digit_code [OF that] that show False by (simp split: if_splits)
  qed
  moreover have "unat b div 16 < 16" "unat b mod 16 < 16" for b :: byte
    using byte_bound [of b] by auto
  ultimately show ?thesis by (auto simp: hex_def)
qed

text \<open>The page once both panes have been spun.\<close>

lemma autoMatch_spun:
  assumes "randomId id0 \<noteq> randomId id1"
  shows "\<exists>p0 p1 w. autoMatch sha s0 s1 (new_app id0 seed0 id1 seed1) =
      auto_loop sha 25 \<lparr>apPeers = [p0, p1], apWorld = w, apNowMs = 1200\<rparr>
    \<and> prPeerId p0 = randomId id0 \<and> prPeerId p1 = randomId id1
    \<and> prVersion p0 = 1 \<and> prVersion p1 = 1 \<and> prPhase p0 = Waiting \<and> prPhase p1 = Waiting
    \<and> prNowMs p0 = 1100 \<and> prNowMs p1 = 1200 \<and> prSessionSeed p0 = s0 \<and> prSessionSeed p1 = s1
    \<and> wLobby w = duo (peer_offer p0) (peer_offer p1) []"
  by (rule exI [of _ "\<lparr>prLabel = ''you'', prPeerId = randomId id0, prSessionSeed = s0,
        prVersion = 1, prPhase = Waiting, prTarget = None, prSessionId = None, prMessages = 2,
        prMsgSeq = 0, prNowMs = 1100, prLog = [''spun into lobby'']\<rparr>"],
      rule exI [of _ "\<lparr>prLabel = ''stranger'', prPeerId = randomId id1, prSessionSeed = s1,
        prVersion = 1, prPhase = Waiting, prTarget = None, prSessionId = None, prMessages = 3,
        prMsgSeq = 0, prNowMs = 1200, prLog = [''spun into lobby'']\<rparr>"],
      rule exI [of _ "\<lparr>wLobby = duo \<lparr>ofPeerId = randomId id0, ofVersion = 1,
          ofHeartbeatMs = 1100, ofSessionSeed = s0\<rparr> \<lparr>ofPeerId = randomId id1, ofVersion = 1,
          ofHeartbeatMs = 1200, ofSessionSeed = s1\<rparr> [], wArrays = [[], [], [], []], wSessions = []\<rparr>"])
    (use assms in \<open>simp add: autoMatch_def new_app_def new_peer_def new_array_def app_spin_def spin_def Let_def
      upsertOffer_def jget_def jset_def peer_offer_def duo_def new_lobby_def
      numeral_2_eq_2 numeral_3_eq_3\<close>)

text \<open>Auto-match on a freshly loaded page never reports a match: whatever the hash, as long
  as digests are not empty and the two random ids differ, one pane ends matched and the other is
  left claiming, after every one of the 25 steps.\<close>

theorem autoMatch_strands:
  assumes sha: "\<forall>bs. sha bs \<noteq> []"
    and ids: "randomId id0 \<noteq> randomId id1" "id0 \<noteq> []" "id1 \<noteq> []"
  shows "\<not> snd (autoMatch sha s0 s1 (new_app id0 seed0 id1 seed1))
    \<and> map prPhase (apPeers (fst (autoMatch sha s0 s1 (new_app id0 seed0 id1 seed1))))
        = [Claiming, Matched]"
proof -
  obtain p0 p1 :: peer and w :: world where
    auto: "autoMatch sha s0 s1 (new_app id0 seed0 id1 seed1) =
      auto_loop sha 25 \<lparr>apPeers = [p0, p1], apWorld = w, apNowMs = 1200\<rparr>"
    and p: "prPeerId p0 = randomId id0" "prPeerId p1 = randomId id1" "prPhase p0 = Waiting"
      "prPhase p1 = Waiting" "prNowMs p0 = 1100" "prNowMs p1 = 1200"
    and w: "wLobby w = duo (peer_offer p0) (peer_offer p1) []"
    using autoMatch_spun [OF ids(1), of sha s0 s1 seed0 seed1] by auto
  let ?s = "\<lparr>apPeers = [p0, p1], apWorld = w, apNowMs = 1700\<rparr>"
  have bars: "CHR ''|'' \<notin> set (randomId bs)" for bs
    by (simp add: randomId_def hex_no_bar)
  have nonempty: "randomId id0 \<noteq> []" "randomId id1 \<noteq> []"
    using ids by (simp_all add: randomId_def)
  define x y where "x = peer_offer (tick_own 1700 p0)" and "y = peer_offer p1"
  define y' where "y' = peer_offer (tick_own 1700 p1)"
  have pair: "fresh_pair x y" "fresh_pair x y'"
    using ids(1) nonempty bars p
    by (simp_all add: fresh_pair_def x_def y_def y'_def peer_offer_def tick_own_def)
  obtain c :: claim where first: "snd (tick sha 1700 p0 (wLobby w)) = duo x y [(claim_key c, c)]"
    and c: "clClaimer c = ofPeerId x" "clTarget c = ofPeerId y" "clCreatedMs c = ofHeartbeatMs x"
      "clSessionId c = sessionIdFor sha (ofPeerId x) (ofPeerId y) (ofSessionSeed x) (ofSessionSeed y)"
    and q0: "prPhase (fst (tick sha 1700 p0 (wLobby w))) = Claiming"
      "prPeerId (fst (tick sha 1700 p0 (wLobby w))) = prPeerId p0"
    using duo_first_tick [OF pair(1) x_def, of "peer_offer p0" sha] p
    unfolding w y_def [symmetric] by (auto simp: peer_offer_def)
  have y: "ofPeerId y = ofPeerId y'" "ofSessionSeed y = ofSessionSeed y'"
    by (simp_all add: y_def y'_def peer_offer_def tick_own_def)
  have second: "prPhase (fst (tick sha 1700 p1 (duo x y [(claim_key c, c)]))) = Matched
      \<and> lone (ofPeerId x) (snd (tick sha 1700 p1 (duo x y [(claim_key c, c)])))"
    using c by (intro duo_second_tick [OF sha pair(2) y'_def])
      (simp_all add: p y_def peer_offer_def y'_def tick_own_def)
  have "stranded (tick_one sha 1 (tick_one sha 0 ?s))"
    using first second q0
    by (simp add: stranded_def tick_one_def case_prod_unfold Let_def x_def peer_offer_def tick_own_def)
  then have step: "stranded (fst (app_tick sha \<lparr>apPeers = [p0, p1], apWorld = w, apNowMs = 1200\<rparr>))
      \<and> \<not> snd (app_tick sha \<lparr>apPeers = [p0, p1], apWorld = w, apNowMs = 1200\<rparr>)"
    by (intro app_tick_stranded) simp
  have "25 = Suc 24" by simp
  then have "stranded (fst (autoMatch sha s0 s1 (new_app id0 seed0 id1 seed1)))
      \<and> \<not> snd (autoMatch sha s0 s1 (new_app id0 seed0 id1 seed1))"
    unfolding auto using step auto_loop_stranded
    by (simp only: auto_loop.simps Let_def case_prod_unfold) simp
  then show ?thesis by (auto simp: stranded_def)
qed

section \<open>Witnesses\<close>

definition ex_peer :: "string \<Rightarrow> peer" where
  "ex_peer a = \<lparr>prLabel = ''you'', prPeerId = a, prSessionSeed = [], prVersion = 1,
     prPhase = Waiting, prTarget = None, prSessionId = None, prMessages = 0, prMsgSeq = 0,
     prNowMs = 1000, prLog = []\<rparr>"

text \<open>The lobby in which \<open>p\<close> has claimed \<open>q\<close>.\<close>

definition ex_lobby :: lobby where
  "ex_lobby = snd (tick (\<lambda>bs. [7]) 1000 (ex_peer ''p'')
     (upsertOffer (peer_offer (ex_peer ''q'')) new_lobby))"

lemma ex_tick: "prPhase (fst (tick (\<lambda>bs. [7]) 1000 (ex_peer ''q'') ex_lobby)) = Matched"
  by code_simp

lemma ex_lobby_ok: "lobby_ok ex_lobby"
  by code_simp

theorem tick_match_sound_witness:
  "\<exists>q s. \<exists>d \<in> set (jvals (claims ex_lobby)). q \<noteq> ''q'' \<and> clClaimer d = q \<and> clSessionId d = s"
proof -
  have "prPhase (ex_peer ''q'') \<noteq> Matched" by (simp add: ex_peer_def)
  from tick_match_sound [OF this ex_tick] show ?thesis by (auto simp: ex_peer_def)
qed

theorem tick_match_erases_witness:
  "''q'' \<notin> ofPeerId ` set (jvals (offers (snd (tick (\<lambda>bs. [7]) 1000 (ex_peer ''q'') ex_lobby))))"
proof -
  have "prPhase (ex_peer ''q'') = Waiting \<or> prPhase (ex_peer ''q'') = Claiming"
    by (simp add: ex_peer_def)
  moreover have "case jget (offers ex_lobby) (prPeerId (ex_peer ''q'')) of None \<Rightarrow> True
      | Some b \<Rightarrow> ofVersion b \<le> prVersion (ex_peer ''q'')"
    by code_simp
  ultimately show ?thesis
    using tick_match_erases [OF ex_lobby_ok _ ex_tick, of undefined] by (auto simp: ex_peer_def)
qed

definition ex_app :: app where
  "ex_app = \<lparr>apPeers = [(ex_peer ''p'')\<lparr>prPhase := Matched, prSessionId := Some ''s''\<rparr>],
     apWorld = \<lparr>wLobby = new_lobby, wArrays = [[]], wSessions = []\<rparr>, apNowMs = 0\<rparr>"

theorem submit_duplicates_witness:
  "length (session_log (apWorld (app_submit 0 ''b'' (app_submit 0 ''a'' ex_app))) ''s'') = 3"
proof -
  have "in_session ''s'' (apPeers ex_app ! 0)" "world_ok (apWorld ex_app)"
    "session_log (apWorld ex_app) ''s'' = []"
    by (simp_all add: ex_app_def in_session_def world_ok_def session_log_def jvals_def)
  moreover have "js_trim ''a'' \<noteq> []" "js_trim ''b'' \<noteq> []" by code_simp+
  ultimately show ?thesis
    using submit_duplicates [of 0 ex_app "''s''" "''a''" "''b''"]
    by (auto simp: ex_app_def ex_peer_def)
qed

theorem autoMatch_strands_witness:
  "\<not> snd (autoMatch (\<lambda>bs. 0 # bs) [] [] (new_app [1] [] [2] []))"
proof -
  have "randomId [1] \<noteq> randomId [2]" by code_simp
  then show ?thesis
    using autoMatch_strands [of "\<lambda>bs. 0 # bs" "[1]" "[2]" "[]" "[]" "[]" "[]"] by simp
qed

end
