(* ===== verification/IceServers.thy ===== *)
theory IceServers
  imports Contracts
begin

text \<open>
  The lists of ICE servers of \<open>ui/webrtc.js\<close>: normalisation of what \<open>/config.json\<close> serves, the
  filters by kind, the pinning of TURN URLs to UDP, the order of the URLs and the rungs of the
  relay ladder. An entry's \<open>urls\<close> is absent, one string or an array of strings; user name and
  credential are optional.
\<close>

datatype js_urls = NoUrls | OneUrl string | ManyUrls "string list"

record ice_server =
  isUrls :: js_urls
  isUsername :: "string option"
  isCredential :: "string option"

datatype ice_mode = ModeStun | ModeTurn

text \<open>\<open>Array.isArray(s.urls) ? s.urls : s.urls ? [s.urls] : []\<close>\<close>

definition urls_of :: "ice_server \<Rightarrow> string list" where
  "urls_of s = (case isUrls s of NoUrls \<Rightarrow> [] | OneUrl u \<Rightarrow> if u = '''' then [] else [u]
     | ManyUrls us \<Rightarrow> us)"

text \<open>\<open>String(Array.isArray(s.urls) ? s.urls[0] : s.urls || "").toLowerCase()\<close>\<close>

definition first_url :: "ice_server \<Rightarrow> string" where
  "first_url s = js_lower (case isUrls s of NoUrls \<Rightarrow> '''' | OneUrl u \<Rightarrow> u
     | ManyUrls us \<Rightarrow> (case us of [] \<Rightarrow> ''undefined'' | u # _ \<Rightarrow> u))"

text \<open>\<open>{ urls: us.length === 1 ? us[0] : us }\<close>\<close>

definition pack_urls :: "string list \<Rightarrow> js_urls" where
  "pack_urls us = (case us of [u] \<Rightarrow> OneUrl u | _ \<Rightarrow> ManyUrls us)"

text \<open>\<open>if (s.username) entry.username = s.username\<close>\<close>

definition copy_truthy :: "string option \<Rightarrow> string option" where
  "copy_truthy x = (case x of None \<Rightarrow> None | Some v \<Rightarrow> if v = '''' then None else Some v)"

definition with_urls :: "js_urls \<Rightarrow> ice_server \<Rightarrow> ice_server" where
  "with_urls us s = \<lparr>isUrls = us, isUsername = copy_truthy (isUsername s),
     isCredential = copy_truthy (isCredential s)\<rparr>"

definition default_ice_servers :: "ice_server list" where
  "default_ice_servers =
     [\<lparr>isUrls = OneUrl ''stun:stun.l.google.com:19302'', isUsername = None, isCredential = None\<rparr>,
      \<lparr>isUrls = OneUrl ''stun:stun1.l.google.com:19302'', isUsername = None, isCredential = None\<rparr>]"

definition normalizeTurnUrl :: "string \<Rightarrow> string" where
  "normalizeTurnUrl u = js_trim u"

text \<open>The argument is \<open>None\<close> when it is not an array.\<close>

definition normalizeIceServers :: "ice_server list option \<Rightarrow> ice_server list" where
  "normalizeIceServers servers =
     (case servers of
        None \<Rightarrow> default_ice_servers
      | Some ss \<Rightarrow>
          let out = concat (map (\<lambda>s. concat (map (\<lambda>u. let nu = normalizeTurnUrl u
                      in if nu = '''' then [] else [with_urls (OneUrl nu) s]) (urls_of s))) ss)
          in if out = [] then default_ice_servers else out)"

definition turn_url :: "string \<Rightarrow> bool" where
  "turn_url u = (let x = js_lower u in js_starts x ''turn:'' \<or> js_starts x ''turns:'')"

definition mode_keeps :: "ice_mode \<Rightarrow> string \<Rightarrow> bool" where
  "mode_keeps mode u = (let x = js_lower u
     in case mode of
          ModeTurn \<Rightarrow> js_starts x ''turn:'' \<or> js_starts x ''turns:''
        | ModeStun \<Rightarrow> js_starts x ''stun:'' \<or> \<not> js_starts x ''turn:'' \<and> \<not> js_starts x ''turns:'')"

definition filterIceServersByMode :: "ice_server list \<Rightarrow> ice_mode \<Rightarrow> ice_server list" where
  "filterIceServersByMode raw mode =
     concat (map (\<lambda>s. let kept = filter (mode_keeps mode) (urls_of s)
                      in if kept = [] then [] else [with_urls (pack_urls kept) s]) raw)"

definition udp_turn_entry :: "ice_server \<Rightarrow> bool" where
  "udp_turn_entry s = (let u = first_url s
     in if \<not> (js_starts u ''turn:'' \<or> js_starts u ''turns:'') then False
        else if js_starts u ''turns:'' then True
        else \<not> js_includes u ''transport=tcp'')"

definition udpTurnOnly :: "ice_server list \<Rightarrow> ice_server list" where
  "udpTurnOnly servers = (let keep = filter udp_turn_entry servers
     in if keep \<noteq> [] then keep else servers)"

datatype first_kind = NoKind | TurnsKind | UdpKind

text \<open>The loop of \<open>keepUdpPlusTurns\<close> over (udp, turns, firstKind).\<close>

definition keep_step :: "ice_server \<Rightarrow> ice_server option \<times> ice_server option \<times> first_kind
    \<Rightarrow> ice_server option \<times> ice_server option \<times> first_kind" where
  "keep_step s acc = (case acc of (udp, turns, firstKind) \<Rightarrow>
     let u = first_url s
     in if js_starts u ''turns:'' \<and> turns = None
        then (udp, Some s, if firstKind = NoKind then TurnsKind else firstKind)
        else if js_starts u ''turn:'' \<and> \<not> js_includes u ''transport=tcp'' \<and> udp = None
        then (Some s, turns, if firstKind = NoKind then UdpKind else firstKind)
        else (udp, turns, firstKind))"

definition keepUdpPlusTurns :: "ice_server list \<Rightarrow> ice_server list" where
  "keepUdpPlusTurns servers =
     (case fold keep_step servers (None, None, NoKind) of (udp, turns, firstKind) \<Rightarrow>
        let one = (\<lambda>x. case x of None \<Rightarrow> [] | Some s \<Rightarrow> [s]);
            out = (if firstKind = TurnsKind then one turns @ one udp else one udp @ one turns)
        in if out \<noteq> [] then out else take 1 servers)"

definition pinTurnUrlToUdp :: "string \<Rightarrow> string" where
  "pinTurnUrlToUdp u =
     (let raw = js_trim u; lower = js_lower raw
      in if raw = '''' then raw
         else if js_starts lower ''turns:'' then raw
         else if \<not> js_starts lower ''turn:'' then raw
         else if js_includes lower ''transport=tcp'' then raw
         else if js_includes lower ''transport=udp'' then raw
         else if js_includes raw ''?'' then raw @ ''&transport=udp'' else raw @ ''?transport=udp'')"

definition pinTurnUrlsToUdp :: "ice_server list \<Rightarrow> ice_server list" where
  "pinTurnUrlsToUdp servers =
     map (\<lambda>s. with_urls (pack_urls (map pinTurnUrlToUdp (urls_of s))) s) servers"

definition url_score :: "string \<Rightarrow> nat" where
  "url_score u = (let x = js_lower u
     in if js_starts x ''turns:'' then 1
        else if js_starts x ''turn:'' \<and> \<not> js_includes x ''transport=tcp'' then 0
        else if js_starts x ''turn:'' \<and> js_includes x ''transport=tcp'' then 2
        else 3)"

definition preferFastTurnFirst :: "ice_server list \<Rightarrow> ice_server list" where
  "preferFastTurnFirst servers =
     map (\<lambda>s. let urls = urls_of s
              in if length urls < 2 then s
                 else with_urls (pack_urls (sort_key url_score urls)) s) servers"

section \<open>The relay ladder\<close>

datatype rung = AllRelays | Turns443 | TurnUdp

definition RELAY_RETRY_RUNGS :: "rung list" where
  "RELAY_RETRY_RUNGS = [AllRelays, Turns443, TurnUdp]"

definition filterIceServersForRung :: "ice_server list \<Rightarrow> rung \<Rightarrow> ice_server list" where
  "filterIceServersForRung list rung =
     (case rung of
        AllRelays \<Rightarrow>
          let keep = filter (\<lambda>s. let u = first_url s in js_starts u ''turn:'' \<or> js_starts u ''turns:'') list
          in if keep \<noteq> [] then keep else list
      | Turns443 \<Rightarrow>
          let keep = filter (\<lambda>s. let u = first_url s in js_starts u ''turns:'' \<and> js_includes u '':443'') list
          in if keep \<noteq> [] then keep
             else let anyTurns = filter (\<lambda>s. js_starts (first_url s) ''turns:'') list
                  in if anyTurns \<noteq> [] then anyTurns else list
      | TurnUdp \<Rightarrow>
          let keep = filter (\<lambda>s. let u = first_url s
                in if \<not> js_starts u ''turn:'' \<or> js_starts u ''turns:'' then False
                   else if js_includes u ''transport=tcp'' then False
                   else js_includes u '':3478'' \<or> js_includes u '':443'') list
          in if keep \<noteq> [] then keep
             else filter (\<lambda>s. let u = first_url s in js_starts u ''turn:'' \<and> \<not> js_starts u ''turns:''
                     \<and> \<not> js_includes u ''transport=tcp'') list)"

text \<open>\<open>RELAY_RETRY_RUNGS.indexOf\<close>, with -1 for \<open>None\<close>.\<close>

definition nextRelayRetryRung :: "rung option \<Rightarrow> rung option" where
  "nextRelayRetryRung prev =
     (case prev of
        None \<Rightarrow> Some (RELAY_RETRY_RUNGS ! 0)
      | Some r \<Rightarrow> let i = length (takeWhile (\<lambda>x. x \<noteq> r) RELAY_RETRY_RUNGS)
                 in if i + 1 \<ge> length RELAY_RETRY_RUNGS then None
                    else Some (RELAY_RETRY_RUNGS ! (i + 1)))"

section \<open>The path of the selected pair\<close>

datatype ice_path = PHost | PSrflx | PPrflx | PRelayUdp | PRelayTcp | PRelayTls | PUnknown

definition classifyIcePathLabel :: "string \<Rightarrow> string \<Rightarrow> string \<Rightarrow> ice_path" where
  "classifyIcePathLabel candType protocol urlOrRelay =
     (let t = js_lower candType; p = js_lower protocol; u = js_lower urlOrRelay
      in if t = ''host'' then PHost
         else if t = ''srflx'' then PSrflx
         else if t = ''prflx'' then PPrflx
         else if t = ''relay'' then
           (if js_starts u ''turns:'' \<or> p = ''tls'' \<or> js_includes u ''transport=tls'' then PRelayTls
            else if p = ''tcp'' \<or> js_includes u ''transport=tcp'' then PRelayTcp
            else PRelayUdp)
         else PUnknown)"

record stats_pair =
  spSelected :: bool
  spSucceeded :: bool
  spNominated :: bool
  spLocalCandidateId :: "string option"

record stats_local =
  slCandidateType :: string
  slProtocol :: string
  slUrl :: string

record path_detail =
  pdPath :: ice_path
  pdProtocol :: string
  pdUrl :: string

text \<open>
  \<open>getIcePathDetail\<close> on the statistics report: its candidate pairs in order and its local
  candidates by id. \<open>None\<close> for the report stands for \<open>getStats\<close> raising.
\<close>

definition selected_pair :: "stats_pair list \<Rightarrow> stats_pair option" where
  "selected_pair pairs = fold (\<lambda>r sel.
     if (spSelected r \<or> spSucceeded r) \<and> (spNominated r \<or> spSelected r \<or> sel = None)
     then Some r else sel) pairs None"

definition no_path :: path_detail where
  "no_path = \<lparr>pdPath = PUnknown, pdProtocol = '''', pdUrl = ''''\<rparr>"

definition getIcePathDetail ::
  "(stats_pair list \<times> (string \<Rightarrow> stats_local option)) option \<Rightarrow> path_detail" where
  "getIcePathDetail report =
     (case report of None \<Rightarrow> no_path
      | Some (pairs, locals) \<Rightarrow>
          (case selected_pair pairs of None \<Rightarrow> no_path
           | Some sel \<Rightarrow>
               (case spLocalCandidateId sel of None \<Rightarrow> no_path
                | Some i \<Rightarrow> if i = '''' then no_path else
                    (case locals i of None \<Rightarrow> no_path
                     | Some l \<Rightarrow>
                         let t = js_lower (slCandidateType l); protocol = js_lower (slProtocol l)
                         in \<lparr>pdPath = classifyIcePathLabel t protocol (slUrl l),
                             pdProtocol = protocol, pdUrl = slUrl l\<rparr>))))"

datatype path_kind = KDirect | KRelay | KUnknown

definition getIcePathKind ::
  "(stats_pair list \<times> (string \<Rightarrow> stats_local option)) option \<Rightarrow> path_kind" where
  "getIcePathKind report =
     (let p = pdPath (getIcePathDetail report)
      in if p = PHost \<or> p = PSrflx \<or> p = PPrflx then KDirect
         else if p = PRelayUdp \<or> p = PRelayTcp \<or> p = PRelayTls then KRelay else KUnknown)"

section \<open>Normalised servers\<close>

text \<open>One URL per entry, trimmed and not empty; credentials present only when not empty.\<close>

definition clean_entry :: "ice_server \<Rightarrow> bool" where
  "clean_entry s \<longleftrightarrow> (\<exists>u. isUrls s = OneUrl u \<and> u \<noteq> '''' \<and> trimmed u)
     \<and> isUsername s \<noteq> Some '''' \<and> isCredential s \<noteq> Some ''''"

lemma copy_truthy_not_empty [simp]: "copy_truthy x \<noteq> Some ''''"
  by (auto simp: copy_truthy_def split: option.splits)

lemma copy_truthy_id [simp]: "x \<noteq> Some '''' \<Longrightarrow> copy_truthy x = x"
  by (auto simp: copy_truthy_def split: option.splits)

lemma clean_default: "list_all clean_entry default_ice_servers"
  by (simp add: default_ice_servers_def clean_entry_def trimmed_def js_space_def)

lemma normalize_clean: "list_all clean_entry (normalizeIceServers x)"
  using clean_default
  by (auto simp: normalizeIceServers_def Let_def list_all_iff clean_entry_def with_urls_def
      normalizeTurnUrl_def split: option.splits if_splits)

lemma normalize_not_Nil: "normalizeIceServers x \<noteq> []"
  by (auto simp: normalizeIceServers_def default_ice_servers_def Let_def split: option.splits)

lemma urls_of_clean: "clean_entry s \<Longrightarrow> \<exists>u. urls_of s = [u] \<and> isUrls s = OneUrl u \<and> u \<noteq> '''' \<and> trimmed u"
  by (auto simp: clean_entry_def urls_of_def)

lemma with_urls_clean: "clean_entry s \<Longrightarrow> with_urls (isUrls s) s = s"
  by (auto simp: clean_entry_def with_urls_def)

lemma normalize_fixed:
  assumes "list_all clean_entry ss" "ss \<noteq> []"
  shows "normalizeIceServers (Some ss) = ss"
proof -
  have one: "concat (map (\<lambda>u. let nu = normalizeTurnUrl u
      in if nu = '''' then [] else [with_urls (OneUrl nu) s]) (urls_of s)) = [s]"
    if "s \<in> set ss" for s
  proof -
    have s: "clean_entry s"
      using that assms(1) by (simp add: list_all_iff)
    from urls_of_clean [OF this] with_urls_clean [OF this] show ?thesis
      by (auto simp: normalizeTurnUrl_def js_trim_trimmed Let_def)
  qed
  have "concat (map (\<lambda>s. concat (map (\<lambda>u. let nu = normalizeTurnUrl u
      in if nu = '''' then [] else [with_urls (OneUrl nu) s]) (urls_of s))) ss) = concat (map (\<lambda>s. [s]) ss)"
    using one by (metis (mono_tags, lifting) map_cong)
  with assms(2) show ?thesis by (simp add: normalizeIceServers_def)
qed

lemma preferFast_clean: "list_all clean_entry ss \<Longrightarrow> preferFastTurnFirst ss = ss"
  unfolding preferFastTurnFirst_def
  by (rule map_idI) (auto simp: list_all_iff dest!: urls_of_clean)

section \<open>URLs by kind\<close>

lemma mode_turn: "mode_keeps ModeTurn = turn_url"
  by (simp add: fun_eq_iff mode_keeps_def turn_url_def)

lemma turn_not_stun: "js_starts x ''turn:'' \<or> js_starts x ''turns:'' \<Longrightarrow> \<not> js_starts x ''stun:''"
  by (auto simp: js_starts_iff)

lemma mode_stun: "mode_keeps ModeStun u \<longleftrightarrow> \<not> turn_url u"
  using turn_not_stun [of "js_lower u"] by (auto simp: mode_keeps_def turn_url_def Let_def)

definition all_urls :: "ice_server list \<Rightarrow> string list" where
  "all_urls ss = concat (map urls_of ss)"

lemma urls_of_pack: "list_all (\<lambda>u. u \<noteq> '''') us \<Longrightarrow> urls_of (with_urls (pack_urls us) s) = us"
  by (auto simp: urls_of_def with_urls_def pack_urls_def split: list.splits)

lemma all_urls_filter:
  assumes "\<And>u. u \<in> set (all_urls raw) \<Longrightarrow> u \<noteq> ''''"
  shows "all_urls (filterIceServersByMode raw mode) = filter (mode_keeps mode) (all_urls raw)"
  using assms
proof (induction raw)
  case Nil
  then show ?case by (simp add: all_urls_def filterIceServersByMode_def)
next
  case (Cons s raw)
  have "list_all (\<lambda>u. u \<noteq> '''') (filter (mode_keeps mode) (urls_of s))"
    using Cons.prems by (auto simp: all_urls_def list_all_iff)
  with Cons show ?case
    by (auto simp: all_urls_def filterIceServersByMode_def Let_def urls_of_pack)
qed

lemma filterMode_clean:
  "list_all clean_entry raw \<Longrightarrow> filterIceServersByMode raw mode =
     filter (\<lambda>s. list_all (mode_keeps mode) (urls_of s)) raw"
proof (induction raw)
  case Nil
  then show ?case by (simp add: filterIceServersByMode_def)
next
  case (Cons s raw)
  from Cons.prems obtain u where u: "urls_of s = [u]" "isUrls s = OneUrl u"
    using urls_of_clean [of s] by auto
  have "with_urls (OneUrl u) s = s"
    using with_urls_clean [of s] u Cons.prems by simp
  with Cons u show ?case
    by (simp add: filterIceServersByMode_def Let_def pack_urls_def)
qed

section \<open>Fail-open picks\<close>

interpretation udp_turn: fail_open udpTurnOnly
  unfolding udpTurnOnly_def Let_def by (rule filter_or_all)

definition udp_plain :: "ice_server \<Rightarrow> bool" where
  "udp_plain s \<longleftrightarrow> js_starts (first_url s) ''turn:'' \<and> \<not> js_includes (first_url s) ''transport=tcp''"

definition tls_entry :: "ice_server \<Rightarrow> bool" where
  "tls_entry s \<longleftrightarrow> js_starts (first_url s) ''turns:''"

lemma tls_not_plain: "tls_entry s \<Longrightarrow> \<not> udp_plain s"
  by (auto simp: tls_entry_def udp_plain_def js_starts_iff)

text \<open>The loop's state: the first entry of each kind, and which kind came first.\<close>

lemma find_snoc: "List.find P (xs @ [x]) =
    (case List.find P xs of None \<Rightarrow> if P x then Some x else None | Some y \<Rightarrow> Some y)"
  by (induction xs) auto

lemma keep_step_eq:
  "keep_step s (udp, turns, k) =
     (if udp = None \<and> udp_plain s then Some s else udp,
      if turns = None \<and> tls_entry s then Some s else turns,
      if k = NoKind \<and> turns = None \<and> tls_entry s then TurnsKind
      else if k = NoKind \<and> udp = None \<and> udp_plain s then UdpKind else k)"
  using tls_not_plain [of s] by (auto simp: keep_step_def udp_plain_def tls_entry_def Let_def)

lemma keep_fold:
  "\<exists>k. fold keep_step ss (None, None, NoKind) = (List.find udp_plain ss, List.find tls_entry ss, k)"
proof (induction ss rule: rev_induct)
  case Nil
  then show ?case by simp
next
  case (snoc s ss)
  then obtain k where "fold keep_step ss (None, None, NoKind)
      = (List.find udp_plain ss, List.find tls_entry ss, k)" by blast
  then show ?case
    by (cases "List.find udp_plain ss"; cases "List.find tls_entry ss")
      (auto simp: keep_step_eq find_snoc)
qed

lemma keep_set:
  "set (keepUdpPlusTurns ss) =
     (if List.find udp_plain ss = None \<and> List.find tls_entry ss = None then set (take 1 ss)
      else set_option (List.find udp_plain ss) \<union> set_option (List.find tls_entry ss))"
proof -
  obtain k where "fold keep_step ss (None, None, NoKind)
      = (List.find udp_plain ss, List.find tls_entry ss, k)"
    using keep_fold by blast
  then show ?thesis
    by (cases "List.find udp_plain ss"; cases "List.find tls_entry ss")
      (auto simp: keepUdpPlusTurns_def Let_def)
qed

lemma keep_length: "length (keepUdpPlusTurns ss) \<le> 2"
  by (auto simp: keepUdpPlusTurns_def Let_def split: option.splits prod.splits)

interpretation keep_two: fail_open keepUdpPlusTurns
proof unfold_locales
  fix ss
  show "set (keepUdpPlusTurns ss) \<subseteq> set ss"
    by (auto simp: keep_set find_Some_iff dest: in_set_takeD)
  show "ss \<noteq> [] \<Longrightarrow> keepUdpPlusTurns ss \<noteq> []"
  proof
    assume ss: "ss \<noteq> []" and "keepUdpPlusTurns ss = []"
    then have "set (keepUdpPlusTurns ss) = {}" by simp
    with ss show False
      by (cases ss) (auto simp: keep_set split: if_splits)
  qed
qed

abbreviation all_relays_entry :: "ice_server \<Rightarrow> bool" where
  "all_relays_entry s \<equiv> js_starts (first_url s) ''turn:'' \<or> js_starts (first_url s) ''turns:''"

interpretation all_relays: fail_open "\<lambda>ss. filterIceServersForRung ss AllRelays"
  using filter_or_all [of all_relays_entry]
  by (simp add: filterIceServersForRung_def Let_def)

interpretation turns_443: fail_open "\<lambda>ss. filterIceServersForRung ss Turns443"
  by unfold_locales (auto simp: filterIceServersForRung_def Let_def)

section \<open>Pinned URLs\<close>

definition pinned_url :: "string \<Rightarrow> bool" where
  "pinned_url u \<longleftrightarrow> trimmed u \<and> (js_starts (js_lower u) ''turn:'' \<longrightarrow>
     js_includes (js_lower u) ''transport=tcp'' \<or> js_includes (js_lower u) ''transport=udp'')"

lemma lower_udp: "js_lower ''&transport=udp'' = ''&'' @ ''transport=udp''"
  "js_lower ''?transport=udp'' = ''?'' @ ''transport=udp''"
  by code_simp+

lemma pin_pinned: "pinned_url (pinTurnUrlToUdp u)"
proof -
  have suffix: "trimmed ''&transport=udp''" "trimmed ''?transport=udp''"
    by (simp_all add: trimmed_def js_space_def)
  have udp: "js_includes (js_lower (s @ ''&transport=udp'')) ''transport=udp''"
    "js_includes (js_lower (s @ ''?transport=udp'')) ''transport=udp''" for s
    unfolding js_lower_append lower_udp js_includes_iff by (metis append.assoc append_Nil2)+
  have "\<not> js_starts x ''turns:'' \<or> \<not> js_starts x ''turn:''" for x
    by (auto simp: js_starts_iff)
  with suffix udp trimmed_append [OF trimmed_js_trim] show ?thesis
    by (auto simp: pinTurnUrlToUdp_def pinned_url_def Let_def simp del: append.simps append_assoc)
qed

lemma pin_fixed: "pinned_url u \<Longrightarrow> pinTurnUrlToUdp u = u"
  by (auto simp: pinTurnUrlToUdp_def pinned_url_def Let_def js_trim_trimmed)

text \<open>Pinning keeps a trimmed URL's beginning, so a TURN URL stays one.\<close>

lemma pin_prefix: "\<exists>t. pinTurnUrlToUdp u = js_trim u @ t"
  by (auto simp: pinTurnUrlToUdp_def Let_def)

lemma pin_turn_url: "trimmed u \<Longrightarrow> turn_url u \<Longrightarrow> turn_url (pinTurnUrlToUdp u)"
  using pin_prefix [of u]
  by (auto simp: turn_url_def Let_def js_trim_trimmed js_lower_append intro: js_starts_append2)

lemma pin_not_Nil: "u \<noteq> '''' \<Longrightarrow> trimmed u \<Longrightarrow> pinTurnUrlToUdp u \<noteq> ''''"
  using pin_prefix [of u] by (auto simp: js_trim_trimmed)

lemma pin_clean: "list_all clean_entry ss \<Longrightarrow> list_all clean_entry (pinTurnUrlsToUdp ss)"
proof (induction ss)
  case Nil
  then show ?case by (simp add: pinTurnUrlsToUdp_def)
next
  case (Cons s ss)
  then obtain u where u: "urls_of s = [u]" "u \<noteq> ''''" "trimmed u"
    using urls_of_clean [of s] by auto
  with Cons pin_not_Nil [of u] pin_pinned [of u] show ?case
    by (simp add: pinTurnUrlsToUdp_def clean_entry_def with_urls_def pack_urls_def pinned_url_def)
qed

lemma pin_urls_clean:
  "list_all clean_entry ss \<Longrightarrow> all_urls (pinTurnUrlsToUdp ss) = map pinTurnUrlToUdp (all_urls ss)"
proof (induction ss)
  case Nil
  then show ?case by (simp add: pinTurnUrlsToUdp_def all_urls_def)
next
  case (Cons s ss)
  then obtain u where u: "urls_of s = [u]" "u \<noteq> ''''" "trimmed u"
    using urls_of_clean [of s] by auto
  with Cons pin_not_Nil [of u] show ?case
    by (simp add: pinTurnUrlsToUdp_def all_urls_def urls_of_pack [of "[pinTurnUrlToUdp u]"])
qed

section \<open>Properties\<close>

text \<open>What the client keeps of the served configuration is never empty, has one trimmed URL per
  entry and no empty credential; normalising it again changes nothing, and neither does the
  reordering meant to put UDP first, which only looks inside an entry.\<close>

theorem normalizeIceServers_clean:
  "normalizeIceServers x \<noteq> [] \<and> list_all clean_entry (normalizeIceServers x)
   \<and> normalizeIceServers (Some (normalizeIceServers x)) = normalizeIceServers x
   \<and> preferFastTurnFirst (normalizeIceServers x) = normalizeIceServers x"
  using normalize_not_Nil normalize_clean normalize_fixed preferFast_clean by blast

text \<open>The two modes of the filter split the URLs of a normalised list into the TURN URLs and the
  rest, in order.\<close>

theorem filterIceServersByMode_splits:
  "all_urls (filterIceServersByMode (normalizeIceServers x) ModeTurn) =
     filter turn_url (all_urls (normalizeIceServers x))
   \<and> all_urls (filterIceServersByMode (normalizeIceServers x) ModeStun) =
     filter (\<lambda>u. \<not> turn_url u) (all_urls (normalizeIceServers x))"
proof -
  have "u \<noteq> ''''" if "u \<in> set (all_urls (normalizeIceServers x))" for u
    using that normalize_clean [of x]
    by (auto simp: all_urls_def list_all_iff dest!: urls_of_clean bspec)
  then show ?thesis
    by (simp add: all_urls_filter mode_turn mode_stun cong: filter_cong)
qed

text \<open>Pinning a URL to UDP is idempotent and leaves no \<open>turn:\<close> URL without a transport.\<close>

theorem pinTurnUrlToUdp_pins:
  "pinTurnUrlToUdp (pinTurnUrlToUdp u) = pinTurnUrlToUdp u
   \<and> (if js_starts (js_lower (pinTurnUrlToUdp u)) ''turn:''
      then js_includes (js_lower (pinTurnUrlToUdp u)) ''transport=tcp''
        \<or> js_includes (js_lower (pinTurnUrlToUdp u)) ''transport=udp'' else True)"
  using pin_fixed [OF pin_pinned] pin_pinned [of u] by (auto simp: pinned_url_def)

text \<open>\<open>keepUdpPlusTurns\<close> keeps the first plain UDP TURN entry and the first TLS entry of the list,
  the first entry when there is neither, and so never empties a list.\<close>

theorem keepUdpPlusTurns_exact:
  "set (keepUdpPlusTurns ss) =
     (if List.find udp_plain ss = None \<and> List.find tls_entry ss = None then set (take 1 ss)
      else set_option (List.find udp_plain ss) \<union> set_option (List.find tls_entry ss))
   \<and> length (keepUdpPlusTurns ss) \<le> 2 \<and> (keepUdpPlusTurns ss = [] \<longleftrightarrow> ss = [])"
  using keep_set keep_length keep_two.pick_Nil_iff by blast

text \<open>A rung of the relay ladder picks from the list it is given; the first two never empty it,
  the third does exactly when the list has no plain UDP TURN entry.\<close>

theorem filterIceServersForRung_picks:
  "set (filterIceServersForRung ss r) \<subseteq> set ss
   \<and> (filterIceServersForRung ss r = [] \<longleftrightarrow>
        (if r = TurnUdp then list_all (\<lambda>s. \<not> udp_plain s) ss else ss = []))"
proof (cases r)
  case TurnUdp
  have plain: "udp_plain s \<longleftrightarrow> js_starts (first_url s) ''turn:'' \<and> \<not> js_starts (first_url s) ''turns:''
      \<and> \<not> js_includes (first_url s) ''transport=tcp''" for s
    using tls_not_plain [of s] by (auto simp: udp_plain_def tls_entry_def)
  show ?thesis
    by (auto simp: TurnUdp filterIceServersForRung_def Let_def plain list_all_iff filter_empty_conv)
qed (use all_relays.pick_subset all_relays.pick_Nil_iff turns_443.pick_subset turns_443.pick_Nil_iff
  in auto)

text \<open>From nothing the ladder visits the three rungs in order, each once, and then ends.\<close>

theorem nextRelayRetryRung_order:
  "nextRelayRetryRung None = Some AllRelays \<and> nextRelayRetryRung (Some AllRelays) = Some Turns443
   \<and> nextRelayRetryRung (Some Turns443) = Some TurnUdp \<and> nextRelayRetryRung (Some TurnUdp) = None"
  by (simp add: nextRelayRetryRung_def RELAY_RETRY_RUNGS_def)

end
