(* ===== verification/Lines.thy ===== *)
theory Lines
  imports Prelude
begin

text \<open>
  Text as \<open>ui/webrtc.js\<close> handles it: splitting at \<open>/\r?\n/\<close>, joining with CR LF, and the
  regular expressions of the candidate tests, each as a matcher tried at every position.
  \<open>line_filter\<close> is the contract of the functions that drop lines of a session description.
\<close>

section \<open>Splitting and joining\<close>

fun js_lines :: "string \<Rightarrow> string list" where
  "js_lines [] = [[]]"
| "js_lines (c # cs) =
     (if c = LF then [] # js_lines cs
      else if c = CR \<and> js_starts cs [LF] then js_lines cs
      else case js_lines cs of [] \<Rightarrow> [[c]] | l # ls \<Rightarrow> (c # l) # ls)"

fun crlf_join :: "string list \<Rightarrow> string" where
  "crlf_join [] = []"
| "crlf_join [l] = l"
| "crlf_join (l # l' # ls) = l @ [CR, LF] @ crlf_join (l' # ls)"

lemma js_lines_not_Nil [simp]: "js_lines s \<noteq> []"
  by (induction s) (auto split: list.splits)

lemma js_lines_no_LF: "l \<in> set (js_lines s) \<Longrightarrow> LF \<notin> set l"
  by (induction s arbitrary: l) (auto split: if_splits list.splits)

lemma js_lines_plain: "LF \<notin> set l \<Longrightarrow> js_lines l = [l]"
  by (induction l) (auto simp: js_starts_iff)

lemma js_lines_append:
  "LF \<notin> set l \<Longrightarrow> js_lines (l @ [CR, LF] @ s) = l # js_lines s"
proof (induction l)
  case Nil
  then show ?case by simp
next
  case (Cons c l)
  have "\<not> js_starts (l @ [CR, LF] @ s) [LF]"
    using Cons.prems by (cases l) auto
  with Cons show ?case by (auto simp del: js_starts.simps)
qed

lemma js_lines_join:
  "ls \<noteq> [] \<Longrightarrow> \<forall>l \<in> set ls. LF \<notin> set l \<Longrightarrow> js_lines (crlf_join ls) = ls"
proof (induction ls rule: crlf_join.induct)
  case (3 l l' ls)
  then show ?case
    by (simp only: crlf_join.simps) (simp add: js_lines_append del: append_Cons append.simps)
qed (auto simp: js_lines_plain)

text \<open>Joining the lines of a text only normalises its line ends.\<close>

lemma js_lines_normal: "js_lines (crlf_join (js_lines s)) = js_lines s"
  by (rule js_lines_join) (auto dest: js_lines_no_LF)

section \<open>Regular expressions\<close>

fun rx_search :: "(char option \<Rightarrow> string \<Rightarrow> bool) \<Rightarrow> char option \<Rightarrow> string \<Rightarrow> bool" where
  "rx_search m prev [] = m prev []"
| "rx_search m prev (c # cs) = (m prev (c # cs) \<or> rx_search m (Some c) cs)"

definition word_start :: "char option \<Rightarrow> bool" where
  "word_start prev = (case prev of None \<Rightarrow> True | Some c \<Rightarrow> \<not> js_word c)"

definition word_end :: "string \<Rightarrow> bool" where
  "word_end rest = (case rest of [] \<Rightarrow> True | c # _ \<Rightarrow> \<not> js_word c)"

abbreviation starts_i :: "string \<Rightarrow> string \<Rightarrow> bool" where
  "starts_i s p \<equiv> js_starts (js_lower s) p"

text \<open>\<open>/\btyp\s+KIND\b/i\<close>\<close>

definition typ_at :: "string \<Rightarrow> char option \<Rightarrow> string \<Rightarrow> bool" where
  "typ_at kind prev s \<longleftrightarrow> word_start prev \<and> starts_i s ''typ''
     \<and> (let r = drop 3 s; t = dropWhile js_space r
        in t \<noteq> r \<and> starts_i t kind \<and> word_end (drop (length kind) t))"

definition has_typ :: "string \<Rightarrow> string \<Rightarrow> bool" where
  "has_typ kind s = rx_search (typ_at kind) None s"

text \<open>\<open>/^a=candidate:/i\<close>\<close>

definition candidate_line :: "string \<Rightarrow> bool" where
  "candidate_line l = starts_i l ''a=candidate:''"

text \<open>\<open>/\.local\b/i\<close>\<close>

definition has_local :: "string \<Rightarrow> bool" where
  "has_local s = rx_search (\<lambda>_ r. starts_i r ''.local'' \<and> word_end (drop 6 r)) None s"

text \<open>\<open>/\btcptype\b/i\<close> and \<open>/\bcandidate:\S+\s+\d+\s+tcp\b/i\<close>\<close>

definition tcptype_at :: "char option \<Rightarrow> string \<Rightarrow> bool" where
  "tcptype_at prev s \<longleftrightarrow> word_start prev \<and> starts_i s ''tcptype'' \<and> word_end (drop 7 s)"

definition tcp_candidate_at :: "char option \<Rightarrow> string \<Rightarrow> bool" where
  "tcp_candidate_at prev s \<longleftrightarrow> word_start prev \<and> starts_i s ''candidate:''
     \<and> (let r1 = drop 10 s;
            r2 = dropWhile (\<lambda>c. \<not> js_space c) r1;
            r3 = dropWhile js_space r2;
            r4 = dropWhile js_digit r3;
            r5 = dropWhile js_space r4
        in r2 \<noteq> r1 \<and> r3 \<noteq> r2 \<and> r4 \<noteq> r3 \<and> r5 \<noteq> r4 \<and> starts_i r5 ''tcp'' \<and> word_end (drop 3 r5))"

lemma rx_search_iff:
  "rx_search m prev s \<longleftrightarrow>
     (\<exists>a b. s = a @ b \<and> m (if a = [] then prev else Some (last a)) b)"
proof (induction s arbitrary: prev)
  case Nil
  then show ?case by simp
next
  case (Cons c s)
  show ?case
    unfolding rx_search.simps Cons.IH
  proof (intro iffI)
    assume "m prev (c # s) \<or> (\<exists>a b. s = a @ b \<and> m (if a = [] then Some c else Some (last a)) b)"
    then show "\<exists>a b. c # s = a @ b \<and> m (if a = [] then prev else Some (last a)) b"
    proof
      assume "m prev (c # s)"
      then show ?thesis by (intro exI [of _ "[]"] exI [of _ "c # s"]) simp
    next
      assume "\<exists>a b. s = a @ b \<and> m (if a = [] then Some c else Some (last a)) b"
      then obtain a b where "s = a @ b" "m (if a = [] then Some c else Some (last a)) b" by blast
      then show ?thesis by (intro exI [of _ "c # a"] exI [of _ b]) (simp split: if_splits)
    qed
  next
    assume "\<exists>a b. c # s = a @ b \<and> m (if a = [] then prev else Some (last a)) b"
    then obtain a b where ab: "c # s = a @ b" "m (if a = [] then prev else Some (last a)) b" by blast
    then show "m prev (c # s) \<or> (\<exists>a b. s = a @ b \<and> m (if a = [] then Some c else Some (last a)) b)"
      by (cases a) (auto split: if_splits)
  qed
qed

text \<open>The pattern of a candidate type is found wherever the words stand alone.\<close>

lemma has_typ_middle:
  assumes "word_start (if a = [] then None else Some (last a))" "starts_i k kind" "word_end b"
    "length k = length kind" "\<not> js_space (hd k)" "k \<noteq> []"
  shows "has_typ kind (a @ ''typ '' @ k @ b)"
proof -
  have "dropWhile js_space (CHR '' '' # k @ b) = k @ b"
    using assms(5,6) by (cases k) (auto simp: js_space_def)
  moreover have "starts_i (k @ b) kind"
    using assms(2) by (auto simp: js_starts_iff js_lower_append)
  ultimately have "typ_at kind (if a = [] then None else Some (last a)) (''typ '' @ k @ b)"
    using assms by (simp add: typ_at_def Let_def js_lower_def lower_char_def char_range_def
        less_eq_char_def)
  then show ?thesis
    unfolding has_typ_def rx_search_iff by blast
qed

section \<open>Dropping lines of a session description\<close>

definition drop_lines :: "(string \<Rightarrow> bool) \<Rightarrow> string \<Rightarrow> string" where
  "drop_lines bad sdp = crlf_join (filter (\<lambda>l. \<not> bad l) (js_lines sdp))"

locale line_filter =
  fixes bad :: "string \<Rightarrow> bool"
  assumes keeps_blank: "\<not> bad ''''"
begin

lemma lines_of:
  "js_lines (drop_lines bad s) =
     (let ls = filter (\<lambda>l. \<not> bad l) (js_lines s) in if ls = [] then [''''] else ls)"
proof (cases "filter (\<lambda>l. \<not> bad l) (js_lines s) = []")
  case True
  then show ?thesis by (simp add: drop_lines_def)
next
  case False
  then show ?thesis
    unfolding drop_lines_def Let_def by (subst js_lines_join) (auto dest: js_lines_no_LF)
qed

lemma none_bad: "l \<in> set (js_lines (drop_lines bad s)) \<Longrightarrow> \<not> bad l"
  by (auto simp: lines_of Let_def keeps_blank split: if_splits)

lemma kept: "l \<in> set (js_lines s) \<Longrightarrow> \<not> bad l \<Longrightarrow> l \<in> set (js_lines (drop_lines bad s))"
  by (auto simp: lines_of Let_def filter_empty_conv)

text \<open>What is counted in the lines the filter keeps is counted the same before and after.\<close>

lemma select_kept:
  assumes "\<And>l. P l \<Longrightarrow> \<not> bad l" "\<not> P ''''"
  shows "filter P (js_lines (drop_lines bad s)) = filter P (js_lines s)"
proof (cases "filter (\<lambda>l. \<not> bad l) (js_lines s) = []")
  case True
  then have "\<forall>l \<in> set (js_lines s). \<not> P l"
    using assms(1) by (auto simp: filter_empty_conv)
  with True assms(2) show ?thesis by (simp add: lines_of)
next
  case False
  then have "filter P (js_lines (drop_lines bad s)) =
      filter P (filter (\<lambda>l. \<not> bad l) (js_lines s))"
    by (simp only: lines_of Let_def if_False)
  also have "\<dots> = filter P (js_lines s)"
    using assms(1) unfolding filter_filter by (intro filter_cong) auto
  finally show ?thesis .
qed

lemma idem: "drop_lines bad (drop_lines bad s) = drop_lines bad s"
proof -
  have all: "filter (\<lambda>l. \<not> bad l) (js_lines (drop_lines bad s)) = js_lines (drop_lines bad s)"
    by (rule filter_True) (auto dest: none_bad)
  show ?thesis
  proof (cases "filter (\<lambda>l. \<not> bad l) (js_lines s) = []")
    case True
    then show ?thesis by (simp add: drop_lines_def keeps_blank)
  next
    case False
    have "drop_lines bad (drop_lines bad s) = crlf_join (js_lines (drop_lines bad s))"
      using all by (simp add: drop_lines_def)
    also have "\<dots> = drop_lines bad s"
      using False by (simp add: lines_of Let_def) (simp add: drop_lines_def)
    finally show ?thesis .
  qed
qed

end

end
