(* ===== verification/SdpFilters.thy ===== *)
theory SdpFilters
  imports Lines
begin

text \<open>
  Candidates and session descriptions in \<open>ui/webrtc.js\<close>: the candidate tests, the functions that
  drop candidate lines, the alignment of an answer's directions with the local offer and the
  sanitising of a remote description. The two privacy flags \<open>hide\<close> (Hide IP) and \<open>force\<close>
  (session relay) are arguments here; \<open>IcePolicy\<close> holds their state.
\<close>

section \<open>Candidates\<close>

text \<open>A candidate is null, a string, or an object with a type and a candidate text.\<close>

datatype ice_candidate =
    NoCandidate
  | CandText string
  | CandObject "string option" "string option"

definition opt_text :: "string option \<Rightarrow> string" where
  "opt_text x = (case x of None \<Rightarrow> '''' | Some s \<Rightarrow> s)"

text \<open>\<open>/\btyp\s+relay\b/i.test(c) || / typ relay /i.test(c)\<close>\<close>

definition relay_text :: "string \<Rightarrow> bool" where
  "relay_text s \<longleftrightarrow> has_typ ''relay'' s \<or> js_includes (js_lower s) '' typ relay ''"

definition isRelayIceCandidate :: "ice_candidate \<Rightarrow> bool" where
  "isRelayIceCandidate c =
     (case c of
        NoCandidate \<Rightarrow> False
      | CandText s \<Rightarrow> relay_text s
      | CandObject typ cand \<Rightarrow>
          if js_lower (opt_text typ) = ''relay'' then True
          else if opt_text cand = '''' then False
          else relay_text (opt_text cand))"

definition iceCandidateText :: "ice_candidate \<Rightarrow> string" where
  "iceCandidateText c =
     (case c of NoCandidate \<Rightarrow> '''' | CandText s \<Rightarrow> s | CandObject typ cand \<Rightarrow> opt_text cand)"

definition candidateLooksTcp :: "string \<Rightarrow> bool" where
  "candidateLooksTcp s =
     (if s = '''' then False
      else if rx_search tcptype_at None s then True
      else rx_search tcp_candidate_at None s)"

definition isUdpRelayIceCandidate :: "ice_candidate \<Rightarrow> bool" where
  "isUdpRelayIceCandidate c =
     (if \<not> isRelayIceCandidate c then False else \<not> candidateLooksTcp (iceCandidateText c))"

definition isMdnsHostIceCandidate :: "ice_candidate \<Rightarrow> bool" where
  "isMdnsHostIceCandidate c =
     (let s = iceCandidateText c
      in if s = '''' then False else has_local s \<and> has_typ ''host'' s)"

definition isHostIceCandidate :: "ice_candidate \<Rightarrow> bool" where
  "isHostIceCandidate c =
     (case c of
        NoCandidate \<Rightarrow> False
      | CandText s \<Rightarrow> s \<noteq> '''' \<and> has_typ ''host'' s
      | CandObject typ cand \<Rightarrow>
          if js_lower (opt_text typ) = ''host'' then True
          else opt_text cand \<noteq> '''' \<and> has_typ ''host'' (opt_text cand))"

section \<open>Dropping candidate lines\<close>

definition countTypRelayInSdp :: "string \<Rightarrow> bool \<Rightarrow> nat" where
  "countTypRelayInSdp sdp udpOnly =
     length (filter (\<lambda>line. has_typ ''relay'' line \<and> \<not> (udpOnly \<and> candidateLooksTcp line))
       (js_lines sdp))"

definition tcp_relay_line :: "string \<Rightarrow> bool" where
  "tcp_relay_line l \<longleftrightarrow> candidate_line l \<and> has_typ ''relay'' l \<and> candidateLooksTcp l"

definition stripTcpRelayCandidatesFromSdp :: "string \<Rightarrow> string" where
  "stripTcpRelayCandidatesFromSdp sdp =
     (if sdp = '''' then sdp
      else if countTypRelayInSdp sdp True = 0 then sdp
      else drop_lines tcp_relay_line sdp)"

definition host_line :: "string \<Rightarrow> bool" where
  "host_line l \<longleftrightarrow> candidate_line l \<and> has_typ ''host'' l"

definition stripHostCandidatesFromSdp :: "string \<Rightarrow> string" where
  "stripHostCandidatesFromSdp sdp = (if sdp = '''' then sdp else drop_lines host_line sdp)"

definition mdns_line :: "string \<Rightarrow> bool" where
  "mdns_line l \<longleftrightarrow> candidate_line l \<and> has_local l \<and> has_typ ''host'' l"

definition stripMdnsHostCandidatesFromSdp :: "string \<Rightarrow> string" where
  "stripMdnsHostCandidatesFromSdp sdp = (if sdp = '''' then sdp else drop_lines mdns_line sdp)"

definition non_relay_line :: "string \<Rightarrow> bool" where
  "non_relay_line l \<longleftrightarrow> candidate_line l \<and> \<not> has_typ ''relay'' l"

definition stripNonRelayCandidatesFromSdp :: "string \<Rightarrow> string" where
  "stripNonRelayCandidatesFromSdp sdp =
     (if sdp = '''' then sdp
      else let lines = js_lines sdp;
               candN = length (filter candidate_line lines);
               relayN = length (filter (\<lambda>l. candidate_line l \<and> has_typ ''relay'' l) lines)
           in if relayN = 0 then sdp
              else if relayN = candN then sdp
              else drop_lines non_relay_line sdp)"

section \<open>Directions\<close>

text \<open>\<open>/^a=(sendrecv|recvonly|sendonly|inactive)\b/i\<close>: the group in lower case.\<close>

definition direction_of :: "string \<Rightarrow> string option" where
  "direction_of l =
     js_find (\<lambda>d. starts_i l (''a='' @ d) \<and> word_end (drop (2 + length d) l))
       [''sendrecv'', ''recvonly'', ''sendonly'', ''inactive'']"

definition m_line :: "string \<Rightarrow> bool" where
  "m_line l = starts_i l ''m=''"

definition direction_step :: "string list \<Rightarrow> string \<Rightarrow> string list" where
  "direction_step dirs line =
     (if m_line line then dirs @ [''sendrecv'']
      else case direction_of line of
             None \<Rightarrow> dirs
           | Some d \<Rightarrow> if dirs = [] then dirs else butlast dirs @ [d])"

definition sdpMlineDirections :: "string \<Rightarrow> string list" where
  "sdpMlineDirections sdp = foldl direction_step [] (js_lines sdp)"

text \<open>The answer's direction against the offer's.\<close>

definition align_dir :: "string \<Rightarrow> string \<Rightarrow> string" where
  "align_dir od ad =
     (if od = ''recvonly'' \<and> ad = ''sendrecv'' then ''sendonly''
      else if od = ''sendonly'' \<and> ad = ''sendrecv'' then ''recvonly'' else ad)"

text \<open>The loop over the answer's lines; \<open>mi\<close> is the index of the current section, from -1.\<close>

fun align_lines :: "string list \<Rightarrow> int \<Rightarrow> string list \<Rightarrow> string list" where
  "align_lines offerDirs mi [] = []"
| "align_lines offerDirs mi (line # lines) =
     (if m_line line then line # align_lines offerDirs (mi + 1) lines
      else case direction_of line of
             None \<Rightarrow> line # align_lines offerDirs mi lines
           | Some ad \<Rightarrow>
               if mi \<ge> 0 \<and> nat mi < length offerDirs
                  \<and> align_dir (offerDirs ! nat mi) ad \<noteq> ad
               then (''a='' @ align_dir (offerDirs ! nat mi) ad) # align_lines offerDirs mi lines
               else line # align_lines offerDirs mi lines)"

definition alignAnswerDirectionsToLocalOffer :: "string \<Rightarrow> string \<Rightarrow> string" where
  "alignAnswerDirectionsToLocalOffer offerSdp answerSdp =
     (if offerSdp = '''' \<or> answerSdp = '''' then answerSdp
      else let offerDirs = sdpMlineDirections offerSdp
           in if offerDirs = [] then answerSdp
              else crlf_join (align_lines offerDirs (-1) (js_lines answerSdp)))"

section \<open>Remote descriptions\<close>

record description =
  dsType :: string
  dsSdp :: "string option"

text \<open>\<open>shouldFilterToRelayCandidates\<close>, \<open>shouldPreferUdpRelay\<close> and \<open>shouldStripHostCandidates\<close> are
  the same test of the two flags.\<close>

definition sanitizeRemoteDescription :: "bool \<Rightarrow> bool \<Rightarrow> description option \<Rightarrow> description option" where
  "sanitizeRemoteDescription hide force desc =
     (case desc of
        None \<Rightarrow> None
      | Some d \<Rightarrow>
          (case dsSdp d of
             None \<Rightarrow> desc
           | Some sdp0 \<Rightarrow>
               if sdp0 = '''' then desc
               else let sdp1 = stripMdnsHostCandidatesFromSdp sdp0;
                        sdp = (if hide \<or> force
                               then let s = stripNonRelayCandidatesFromSdp sdp1
                                    in if hide \<or> force then stripTcpRelayCandidatesFromSdp s else s
                               else if hide \<or> force then stripHostCandidatesFromSdp sdp1
                               else sdp1)
                    in Some \<lparr>dsType = dsType d, dsSdp = Some sdp\<rparr>))"

section \<open>The filters keep everything else\<close>

lemma no_candidate_blank [simp]: "\<not> candidate_line ''''"
  by (simp add: candidate_line_def)

interpretation tcp_relay: line_filter tcp_relay_line
  by unfold_locales (simp add: tcp_relay_line_def)

interpretation host: line_filter host_line
  by unfold_locales (simp add: host_line_def)

interpretation mdns: line_filter mdns_line
  by unfold_locales (simp add: mdns_line_def)

interpretation non_relay: line_filter non_relay_line
  by unfold_locales (simp add: non_relay_line_def)

lemma has_typ_blank [simp]: "\<not> has_typ k ''''"
  by (simp add: has_typ_def typ_at_def)

lemma strip_non_relay_lines:
  "js_lines (stripNonRelayCandidatesFromSdp sdp) =
     (if filter (\<lambda>l. candidate_line l \<and> has_typ ''relay'' l) (js_lines sdp) = [] then js_lines sdp
      else filter (\<lambda>l. \<not> non_relay_line l) (js_lines sdp))"
proof -
  let ?R = "filter (\<lambda>l. candidate_line l \<and> has_typ ''relay'' l) (js_lines sdp)"
  let ?K = "filter (\<lambda>l. \<not> non_relay_line l) (js_lines sdp)"
  consider (none) "?R = []" | (pure) "?R \<noteq> []" "length ?R = length (filter candidate_line (js_lines sdp))"
    | (mixed) "?R \<noteq> []" "length ?R \<noteq> length (filter candidate_line (js_lines sdp))" by blast
  then show ?thesis
  proof cases
    case none
    then show ?thesis by (simp add: stripNonRelayCandidatesFromSdp_def)
  next
    case pure
    have sub: "?R = filter (has_typ ''relay'') (filter candidate_line (js_lines sdp))"
      by (simp add: conj_commute)
    have "\<forall>l \<in> set (filter candidate_line (js_lines sdp)). has_typ ''relay'' l"
      using pure(2) unfolding sub by (metis length_filter_less less_irrefl)
    then have "\<forall>l \<in> set (js_lines sdp). \<not> non_relay_line l"
      by (auto simp: non_relay_line_def)
    with pure show ?thesis
      by (simp add: stripNonRelayCandidatesFromSdp_def)
  next
    case mixed
    then have "?K \<noteq> []"
      by (auto simp: filter_empty_conv non_relay_line_def)
    moreover have "sdp \<noteq> ''''"
      using mixed by auto
    ultimately show ?thesis
      using mixed non_relay.lines_of [of sdp]
      by (simp add: stripNonRelayCandidatesFromSdp_def Let_def)
  qed
qed

lemma strip_mdns_lines:
  "js_lines (stripMdnsHostCandidatesFromSdp sdp) =
     (let ls = filter (\<lambda>l. \<not> mdns_line l) (js_lines sdp) in if ls = [] then [''''] else ls)"
  by (simp add: stripMdnsHostCandidatesFromSdp_def mdns.lines_of mdns_line_def)

lemma strip_tcp_lines:
  "js_lines (stripTcpRelayCandidatesFromSdp sdp) =
     (if countTypRelayInSdp sdp True = 0 then js_lines sdp
      else filter (\<lambda>l. \<not> tcp_relay_line l) (js_lines sdp))"
proof -
  have "filter (\<lambda>l. \<not> tcp_relay_line l) (js_lines sdp) \<noteq> []" if "countTypRelayInSdp sdp True \<noteq> 0"
    using that by (auto simp: countTypRelayInSdp_def tcp_relay_line_def filter_empty_conv)
  moreover have "sdp \<noteq> ''''" if "countTypRelayInSdp sdp True \<noteq> 0"
    using that by (auto simp: countTypRelayInSdp_def)
  ultimately show ?thesis
    by (auto simp: stripTcpRelayCandidatesFromSdp_def tcp_relay.lines_of Let_def)
qed

section \<open>Aligned directions\<close>

text \<open>The direction lines of a text, each with the index of its section.\<close>

fun section_dirs :: "int \<Rightarrow> string list \<Rightarrow> (int \<times> string) list" where
  "section_dirs mi [] = []"
| "section_dirs mi (l # ls) =
     (if m_line l then section_dirs (mi + 1) ls
      else case direction_of l of None \<Rightarrow> section_dirs mi ls
           | Some d \<Rightarrow> (mi, d) # section_dirs mi ls)"

definition aligned_in :: "string list \<Rightarrow> int \<Rightarrow> string \<Rightarrow> string" where
  "aligned_in ods i d = (if 0 \<le> i \<and> nat i < length ods then align_dir (ods ! nat i) d else d)"

lemma direction_of_words: "direction_of l = Some d \<Longrightarrow>
    d \<in> {''sendrecv'', ''recvonly'', ''sendonly'', ''inactive''}"
  by (auto simp: direction_of_def dest: js_find_Some_iff)

lemma align_dir_changed: "align_dir od ad \<noteq> ad \<Longrightarrow> align_dir od ad \<in> {''sendonly'', ''recvonly''}"
  by (auto simp: align_dir_def split: if_splits)

lemma direction_line:
  assumes "d \<in> {''sendonly'', ''recvonly''}"
  shows "direction_of (''a='' @ d) = Some d" "\<not> m_line (''a='' @ d)"
proof -
  have "direction_of ''a=sendonly'' = Some ''sendonly''"
    "direction_of ''a=recvonly'' = Some ''recvonly''"
    "\<not> m_line ''a=sendonly''" "\<not> m_line ''a=recvonly''"
    by code_simp+
  with assms show "direction_of (''a='' @ d) = Some d" "\<not> m_line (''a='' @ d)" by auto
qed

lemma section_dirs_align:
  "section_dirs mi (align_lines ods mi ls) =
     map (\<lambda>(i, d). (i, aligned_in ods i d)) (section_dirs mi ls)"
proof (induction ods mi ls rule: align_lines.induct)
  case (2 ods mi line lines)
  show ?case
  proof (cases "m_line line \<or> direction_of line = None")
    case True
    with 2 show ?thesis by auto
  next
    case False
    then obtain ad where ad: "direction_of line = Some ad" "\<not> m_line line" by auto

    show ?thesis
    proof (cases "0 \<le> mi \<and> nat mi < length ods \<and> align_dir (ods ! nat mi) ad \<noteq> ad")
      case True
      with direction_line [OF align_dir_changed] ad 2 show ?thesis
        by (auto simp: aligned_in_def simp del: append.simps)
    next
      case False
      with ad 2 show ?thesis by (auto simp: aligned_in_def)
    qed
  qed
qed simp

text \<open>What is not a direction line stays, in order.\<close>

definition other_line :: "string \<Rightarrow> bool" where
  "other_line l \<longleftrightarrow> m_line l \<or> direction_of l = None"

lemma other_lines_align: "filter other_line (align_lines ods mi ls) = filter other_line ls"
proof (induction ods mi ls rule: align_lines.induct)
  case (2 ods mi line lines)
  then show ?case
    using direction_line [OF align_dir_changed]
    by (auto simp: other_line_def simp del: append.simps split: option.splits)
qed simp

lemma align_no_LF:
  "\<forall>l \<in> set ls. LF \<notin> set l \<Longrightarrow> l \<in> set (align_lines ods mi ls) \<Longrightarrow> LF \<notin> set l"
proof (induction ods mi ls rule: align_lines.induct)
  case (2 ods mi line lines)
  have "LF \<notin> set (''a='' @ d)" if "d \<in> {''sendonly'', ''recvonly''}" for d
    using that by auto
  with 2 align_dir_changed show ?case
    by (fastforce split: if_splits option.splits)
qed simp

lemma align_lines_Nil_iff: "align_lines ods mi ls = [] \<longleftrightarrow> ls = []"
  by (cases ls) (auto split: option.splits)

lemma lines_of_align:
  assumes "offer \<noteq> ''''" "answer \<noteq> ''''" "sdpMlineDirections offer \<noteq> []"
  shows "js_lines (alignAnswerDirectionsToLocalOffer offer answer) =
    align_lines (sdpMlineDirections offer) (-1) (js_lines answer)"
  using assms
  by (simp add: alignAnswerDirectionsToLocalOffer_def)
    (rule js_lines_join, auto simp: align_lines_Nil_iff js_lines_no_LF dest!: align_no_LF [rotated])

lemma aligned_unset: "aligned_in [] i d = d"
  by (simp add: aligned_in_def)

section \<open>Properties\<close>

text \<open>C28: Stripping to relay never leaves a description without a path: when some candidate is a
  relay, exactly the other candidate lines go, and when none is, nothing changes.\<close>

theorem stripNonRelay_exact:
  "(if filter (\<lambda>l. candidate_line l \<and> has_typ ''relay'' l) (js_lines sdp) = []
    then stripNonRelayCandidatesFromSdp sdp = sdp
    else js_lines (stripNonRelayCandidatesFromSdp sdp) =
           filter (\<lambda>l. \<not> (candidate_line l \<and> \<not> has_typ ''relay'' l)) (js_lines sdp))"
  using strip_non_relay_lines [of sdp]
  by (simp only: non_relay_line_def split: if_split) (simp add: stripNonRelayCandidatesFromSdp_def)

text \<open>Dropping TCP relays keeps the number of UDP relays, drops every TCP relay candidate when a
  UDP relay remains, and changes nothing when none does.\<close>

theorem stripTcpRelay_keeps_udp:
  "countTypRelayInSdp (stripTcpRelayCandidatesFromSdp sdp) True = countTypRelayInSdp sdp True
   \<and> (if countTypRelayInSdp sdp True = 0 then stripTcpRelayCandidatesFromSdp sdp = sdp
      else filter tcp_relay_line (js_lines (stripTcpRelayCandidatesFromSdp sdp)) = [])"
proof -
  have udp: "filter (\<lambda>line. has_typ ''relay'' line \<and> \<not> candidateLooksTcp line)
      (filter (\<lambda>l. \<not> tcp_relay_line l) ls) =
      filter (\<lambda>line. has_typ ''relay'' line \<and> \<not> candidateLooksTcp line) ls" for ls
    unfolding filter_filter by (intro filter_cong) (auto simp: tcp_relay_line_def)
  have "countTypRelayInSdp (stripTcpRelayCandidatesFromSdp sdp) True = countTypRelayInSdp sdp True"
    unfolding countTypRelayInSdp_def [of "stripTcpRelayCandidatesFromSdp sdp"] strip_tcp_lines
    by (simp add: udp del: filter_filter) (simp add: countTypRelayInSdp_def)
  moreover have "stripTcpRelayCandidatesFromSdp sdp = sdp" if "countTypRelayInSdp sdp True = 0"
    using that by (simp add: stripTcpRelayCandidatesFromSdp_def)
  moreover have "filter tcp_relay_line (js_lines (stripTcpRelayCandidatesFromSdp sdp)) = []"
    if "countTypRelayInSdp sdp True \<noteq> 0"
    using that by (simp add: strip_tcp_lines)
  ultimately show ?thesis by simp
qed

text \<open>Under Hide IP or session relay, a remote description that has a relay candidate comes out
  with relay candidates only, at least one of them; without those flags only mDNS host
  candidates go.\<close>

theorem sanitizeRemoteDescription_pure:
  assumes sdp: "sdp \<noteq> ''''"
    and relay: "filter (\<lambda>l. candidate_line l \<and> has_typ ''relay'' l \<and> \<not> mdns_line l) (js_lines sdp) \<noteq> []"
    and plain: "filter (\<lambda>l. has_typ ''relay'' l \<and> \<not> candidate_line l) (js_lines sdp) = []"
  shows "\<exists>out. sanitizeRemoteDescription hide force (Some \<lparr>dsType = t, dsSdp = Some sdp\<rparr>)
      = Some \<lparr>dsType = t, dsSdp = Some out\<rparr>
    \<and> filter mdns_line (js_lines out) = []
    \<and> (if hide \<or> force
       then filter non_relay_line (js_lines out) = []
         \<and> filter (\<lambda>l. candidate_line l \<and> has_typ ''relay'' l) (js_lines out) \<noteq> []
       else js_lines out = filter (\<lambda>l. \<not> mdns_line l) (js_lines sdp))"
proof -
  let ?K = "filter (\<lambda>l. \<not> mdns_line l) (js_lines sdp)"
  let ?R = "\<lambda>l. candidate_line l \<and> has_typ ''relay'' l"
  define m where "m = stripMdnsHostCandidatesFromSdp sdp"
  define r where "r = stripNonRelayCandidatesFromSdp m"
  define t where "t = stripTcpRelayCandidatesFromSdp r"
  have mK: "js_lines m = ?K"
    using relay by (auto simp: m_def strip_mdns_lines filter_empty_conv)
  have some: "filter ?R ?K \<noteq> []"
    using relay by (simp add: conj_ac)
  then have rK: "js_lines r = filter (\<lambda>l. \<not> non_relay_line l) ?K"
    by (simp add: r_def strip_non_relay_lines mK)
  have tr: "js_lines t = (if countTypRelayInSdp r True = 0 then js_lines r
      else filter (\<lambda>l. \<not> tcp_relay_line l) (js_lines r))"
    by (simp add: t_def strip_tcp_lines)
  have someR: "filter ?R (js_lines r) \<noteq> []"
    using some unfolding rK by (auto simp: filter_empty_conv non_relay_line_def)
  have someT: "filter ?R (js_lines t) \<noteq> []"
  proof (cases "countTypRelayInSdp r True = 0")
    case True
    with someR tr show ?thesis by simp
  next
    case False
    then obtain l where l: "l \<in> set (js_lines r)" "has_typ ''relay'' l" "\<not> candidateLooksTcp l"
      by (auto simp: countTypRelayInSdp_def filter_empty_conv)
    moreover have "candidate_line l"
      using plain l by (auto simp: rK filter_empty_conv)
    ultimately show ?thesis
      using False by (auto simp: tr filter_empty_conv tcp_relay_line_def)
  qed
  have "filter non_relay_line (js_lines t) = []" "filter mdns_line (js_lines t) = []"
    "filter mdns_line (js_lines m) = []"
    by (simp_all add: tr rK mK filter_empty_conv)
  with someT mK show ?thesis
    using sdp by (simp add: sanitizeRemoteDescription_def Let_def m_def r_def t_def)
qed

text \<open>Aligning an answer to the local offer turns each direction line of a section into the
  compatible one and leaves every other line alone.\<close>

theorem alignAnswer_exact:
  assumes "offer \<noteq> ''''" "answer \<noteq> ''''" "sdpMlineDirections offer \<noteq> []"
  shows "section_dirs (-1) (js_lines (alignAnswerDirectionsToLocalOffer offer answer)) =
      map (\<lambda>(i, d). (i, if 0 \<le> i \<and> nat i < length (sdpMlineDirections offer)
                        then align_dir (sdpMlineDirections offer ! nat i) d else d))
        (section_dirs (-1) (js_lines answer))
    \<and> filter other_line (js_lines (alignAnswerDirectionsToLocalOffer offer answer)) =
      filter other_line (js_lines answer)"
  unfolding lines_of_align [OF assms] section_dirs_align other_lines_align
  by (simp add: aligned_in_def)

theorem alignAnswer_exact_witness:
  "section_dirs (-1) (js_lines (alignAnswerDirectionsToLocalOffer
     (crlf_join [''m=video'', ''a=recvonly'']) (crlf_join [''m=video'', ''a=sendrecv'']))) =
   [(0, ''sendonly'')]"
proof -
  have o: "sdpMlineDirections (crlf_join [''m=video'', ''a=recvonly'']) = [''recvonly'']"
    "section_dirs (-1) (js_lines (crlf_join [''m=video'', ''a=sendrecv''])) = [(0, ''sendrecv'')]"
    by code_simp+
  then show ?thesis
    using alignAnswer_exact [of "crlf_join [''m=video'', ''a=recvonly'']"
        "crlf_join [''m=video'', ''a=sendrecv'']"]
    by (simp add: align_dir_def)
qed

text \<open>An answer section without a direction line is send-receive by the code's own reading, and is
  not aligned with an offer that only receives.\<close>

lemma align_omitted:
  "sdpMlineDirections (alignAnswerDirectionsToLocalOffer
     (crlf_join [''m=video'', ''a=recvonly'']) ''m=video'') = [''sendrecv'']"
  by code_simp

definition ex_sdp :: string where
  "ex_sdp = crlf_join [''v=0'', ''a=candidate:1 1 udp 9 10.0.0.1 9 typ host'',
     ''a=candidate:2 1 udp 9 1.2.3.4 9 typ relay'']"

theorem sanitizeRemoteDescription_pure_witness:
  "\<exists>out. sanitizeRemoteDescription True False (Some \<lparr>dsType = ''offer'', dsSdp = Some ex_sdp\<rparr>)
      = Some \<lparr>dsType = ''offer'', dsSdp = Some out\<rparr>
    \<and> filter non_relay_line (js_lines out) = []"
proof -
  have "ex_sdp \<noteq> ''''"
    "filter (\<lambda>l. candidate_line l \<and> has_typ ''relay'' l \<and> \<not> mdns_line l) (js_lines ex_sdp) \<noteq> []"
    "filter (\<lambda>l. has_typ ''relay'' l \<and> \<not> candidate_line l) (js_lines ex_sdp) = []"
    by code_simp+
  from sanitizeRemoteDescription_pure [OF this, of True False "''offer''"] show ?thesis by auto
qed

end
