(* ===== verification/IcePolicy.thy ===== *)
theory IcePolicy
  imports IceServers SdpFilters
begin

text \<open>
  The module state of \<open>ui/webrtc.js\<close> that decides how calls connect: the privacy preferences, the
  session relay flag, the served ICE servers, the current \<open>RTCConfiguration\<close>, the loading of
  \<open>/config.json\<close> and the warm peer connection. Configurations are objects that callers keep
  references to, so they live in a store and \<open>iceConfig\<close> is an address of it; so do the warm
  peer connections.
\<close>

datatype ice_policy = PolicyAll | PolicyRelay

record rtc_config =
  rcServers :: "ice_server list"
  rcPoolSize :: int
  rcPolicy :: "ice_policy option"

record media_prefs =
  preferDirectOnly :: bool
  hideIpRelayOnly :: bool

datatype signaling = SigStable | SigHaveLocalOffer | SigClosed

record warm_pc =
  wpPolicy :: ice_policy
  wpSignaling :: signaling
  wpTaken :: bool
  wpPrimed :: bool
  wpSetLocal :: bool
  wpListening :: bool

record ice_state =
  icPrefs :: media_prefs
  sessionForceRelay :: bool
  lastRawIceServers :: "ice_server list"
  icConfigs :: "rtc_config list"
  iceConfig :: nat
  iceConfigFetchedAt :: int
  iceConfigInflight :: bool
  iceRefreshMs :: "int option"
  icPcs :: "warm_pc list"
  iceWarmPc :: "nat option"
  iceWarmPolicy :: "ice_policy option"
  iceWarmPrimed :: bool
  pendingWarmRelayPrimed :: bool

definition ICE_CANDIDATE_POOL_SIZE :: int where
  "ICE_CANDIDATE_POOL_SIZE = 0"

definition new_ice_state :: "media_prefs \<Rightarrow> ice_state" where
  "new_ice_state prefs =
     \<lparr>icPrefs = prefs, sessionForceRelay = False, lastRawIceServers = default_ice_servers,
      icConfigs = [\<lparr>rcServers = default_ice_servers, rcPoolSize = ICE_CANDIDATE_POOL_SIZE,
        rcPolicy = None\<rparr>],
      iceConfig = 0, iceConfigFetchedAt = 0, iceConfigInflight = False, iceRefreshMs = None,
      icPcs = [], iceWarmPc = None, iceWarmPolicy = None, iceWarmPrimed = False,
      pendingWarmRelayPrimed = False\<rparr>"

definition getIceConfig :: "ice_state \<Rightarrow> rtc_config" where
  "getIceConfig s = icConfigs s ! iceConfig s"

definition preferDirectOnlyEnabled :: "ice_state \<Rightarrow> bool" where
  "preferDirectOnlyEnabled s = preferDirectOnly (icPrefs s)"

definition hideIpRelayOnlyEnabled :: "ice_state \<Rightarrow> bool" where
  "hideIpRelayOnlyEnabled s = hideIpRelayOnly (icPrefs s)"

definition shouldPreferUdpRelay :: "ice_state \<Rightarrow> bool" where
  "shouldPreferUdpRelay s \<longleftrightarrow> hideIpRelayOnlyEnabled s \<or> sessionForceRelay s"

definition has_turn :: "ice_server list \<Rightarrow> bool" where
  "has_turn ss \<longleftrightarrow> list_ex (\<lambda>s. list_ex turn_url (urls_of s)) ss"

definition shouldWaitForFirstRelay :: "ice_state \<Rightarrow> bool" where
  "shouldWaitForFirstRelay s =
     (if preferDirectOnlyEnabled s then False
      else if hideIpRelayOnlyEnabled s \<or> sessionForceRelay s then True
      else has_turn (lastRawIceServers s))"

definition relayWaitBudgetMs :: "ice_state \<Rightarrow> int" where
  "relayWaitBudgetMs s = (if hideIpRelayOnlyEnabled s \<or> sessionForceRelay s then 480 else 300)"

definition isRelayMediaMode :: "ice_state \<Rightarrow> bool" where
  "isRelayMediaMode s =
     (if sessionForceRelay s then True
      else if hideIpRelayOnlyEnabled s then True else hideIpRelayOnly (icPrefs s))"

section \<open>The configuration in force\<close>

text \<open>The list of TURN servers for a relay-only policy, before pinning.\<close>

definition relay_pick :: "ice_server list \<Rightarrow> ice_server list" where
  "relay_pick turnOnly =
     (let turn = udpTurnOnly (preferFastTurnFirst turnOnly);
          turn' = (if turn = [] then preferFastTurnFirst turnOnly else turn)
      in keepUdpPlusTurns turn')"

definition direct_config :: "ice_state \<Rightarrow> rtc_config" where
  "direct_config s =
     (let raw = (if lastRawIceServers s \<noteq> [] then lastRawIceServers s else default_ice_servers);
          hideOnly = hideIpRelayOnlyEnabled s;
          forceRelay = sessionForceRelay s;
          directOnly = (\<not> hideOnly \<and> \<not> forceRelay \<and> preferDirectOnlyEnabled s)
      in if hideOnly then
           let turnOnly = filterIceServersByMode raw ModeTurn
           in if turnOnly \<noteq> []
              then \<lparr>rcServers = pinTurnUrlsToUdp (relay_pick turnOnly), rcPoolSize = 0,
                    rcPolicy = Some PolicyRelay\<rparr>
              else \<lparr>rcServers = preferFastTurnFirst raw, rcPoolSize = ICE_CANDIDATE_POOL_SIZE,
                    rcPolicy = Some PolicyAll\<rparr>
         else if forceRelay then
           let turn = relay_pick (filterIceServersByMode raw ModeTurn)
           in if turn \<noteq> []
              then \<lparr>rcServers = pinTurnUrlsToUdp turn, rcPoolSize = 0, rcPolicy = Some PolicyRelay\<rparr>
              else \<lparr>rcServers = preferFastTurnFirst raw, rcPoolSize = 0, rcPolicy = Some PolicyAll\<rparr>
         else if directOnly then
           let servers = filterIceServersByMode raw ModeStun
           in \<lparr>rcServers = (if servers = [] then default_ice_servers else servers),
               rcPoolSize = ICE_CANDIDATE_POOL_SIZE, rcPolicy = Some PolicyAll\<rparr>
         else \<lparr>rcServers = preferFastTurnFirst raw, rcPoolSize = 0, rcPolicy = Some PolicyAll\<rparr>)"

text \<open>A new object becomes the current configuration; older ones stay as their holders left them.\<close>

definition applyIceDirectPreference :: "ice_state \<Rightarrow> ice_state" where
  "applyIceDirectPreference s =
     s\<lparr>icConfigs := icConfigs s @ [direct_config s], iceConfig := length (icConfigs s)\<rparr>"

section \<open>The warm peer connection\<close>

definition upd_pc :: "nat \<Rightarrow> (warm_pc \<Rightarrow> warm_pc) \<Rightarrow> ice_state \<Rightarrow> ice_state" where
  "upd_pc i f s = (if i < length (icPcs s) then s\<lparr>icPcs := (icPcs s)[i := f (icPcs s ! i)]\<rparr> else s)"

definition close_pc :: "warm_pc \<Rightarrow> warm_pc" where
  "close_pc p = p\<lparr>wpSignaling := SigClosed, wpSetLocal := False\<rparr>"

definition reset_warm :: "ice_state \<Rightarrow> ice_state" where
  "reset_warm s = s\<lparr>iceWarmPc := None, iceWarmPolicy := None, iceWarmPrimed := False\<rparr>"

definition clearIceWarm :: "ice_state \<Rightarrow> ice_state" where
  "clearIceWarm s =
     (case iceWarmPc s of
        None \<Rightarrow> reset_warm s
      | Some i \<Rightarrow> reset_warm (upd_pc i (\<lambda>p. close_pc (p\<lparr>wpTaken := True\<rparr>)) s))"

definition warm_config :: "bool \<Rightarrow> ice_state \<Rightarrow> rtc_config" where
  "warm_config preferRelay s =
     (let cfg = getIceConfig s;
          raw = (if lastRawIceServers s \<noteq> [] then lastRawIceServers s else rcServers cfg);
          hide = hideIpRelayOnlyEnabled s; force = sessionForceRelay s;
          pureNow = (hide \<or> force \<or> (preferRelay \<and> (hide \<or> force)));
          turnOnly = filterIceServersByMode raw ModeTurn
      in if pureNow \<and> has_turn raw then
           (if turnOnly \<noteq> []
            then cfg\<lparr>rcServers := pinTurnUrlsToUdp (relay_pick turnOnly),
                     rcPolicy := Some PolicyRelay, rcPoolSize := 0\<rparr>
            else cfg)
         else if has_turn raw then
           cfg\<lparr>rcServers := preferFastTurnFirst (relay_pick turnOnly
                  @ filterIceServersByMode raw ModeStun @ raw),
               rcPolicy := Some PolicyAll, rcPoolSize := ICE_CANDIDATE_POOL_SIZE\<rparr>
         else cfg)"

text \<open>\<open>created\<close> tells whether the browser's constructor returned; when it raises, the pool is reset.\<close>

definition warmIcePool :: "bool \<Rightarrow> bool \<Rightarrow> bool \<Rightarrow> ice_state \<Rightarrow> ice_state" where
  "warmIcePool force preferRelay created s0 =
     (let s = applyIceDirectPreference s0
      in if rcServers (getIceConfig s) = [] then s
         else let cfg = warm_config preferRelay s;
                  policy = (if rcPolicy cfg = Some PolicyRelay then PolicyRelay else PolicyAll)
              in if iceWarmPc s \<noteq> None \<and> iceWarmPolicy s = Some policy \<and> \<not> force then s
                 else let s1 = clearIceWarm s
                      in if \<not> created then reset_warm s1
                         else s1\<lparr>icPcs := icPcs s1 @ [\<lparr>wpPolicy = policy, wpSignaling = SigStable,
                                   wpTaken = False, wpPrimed = False, wpSetLocal = False,
                                   wpListening = (policy = PolicyRelay)\<rparr>],
                                iceWarmPc := Some (length (icPcs s1)),
                                iceWarmPolicy := Some policy,
                                iceWarmPrimed := (policy \<noteq> PolicyRelay)\<rparr>)"

text \<open>
  The steps of the priming task, one per \<open>await\<close>, and the candidate event. Only a relay warm
  connection has the task; \<open>stillWarm\<close> guards each step.
\<close>

definition stillWarm :: "nat \<Rightarrow> ice_state \<Rightarrow> bool" where
  "stillWarm i s \<longleftrightarrow> iceWarmPc s = Some i \<and> i < length (icPcs s) \<and> \<not> wpTaken (icPcs s ! i)"

definition prime_offer_made :: "nat \<Rightarrow> ice_state \<Rightarrow> ice_state" where
  "prime_offer_made i s =
     (if stillWarm i s \<and> wpPolicy (icPcs s ! i) = PolicyRelay
      then upd_pc i (\<lambda>p. p\<lparr>wpSetLocal := True\<rparr>) s else s)"

text \<open>The browser finishes a \<open>setLocalDescription\<close> whoever holds the connection by then.\<close>

definition prime_set_local :: "nat \<Rightarrow> ice_state \<Rightarrow> ice_state" where
  "prime_set_local i s =
     upd_pc i (\<lambda>p. if wpSetLocal p \<and> wpSignaling p = SigStable
                   then p\<lparr>wpSetLocal := False, wpSignaling := SigHaveLocalOffer\<rparr> else p) s"

definition prime_gathered :: "nat \<Rightarrow> nat \<Rightarrow> ice_state \<Rightarrow> ice_state" where
  "prime_gathered i n s =
     (if \<not> stillWarm i s then s
      else let s1 = (if n > 0 then s\<lparr>iceWarmPrimed := True\<rparr> else s)
           in upd_pc i (\<lambda>p. if wpSignaling p = SigHaveLocalOffer
                            then p\<lparr>wpSignaling := SigStable\<rparr> else p) s1)"

definition prime_candidate :: "nat \<Rightarrow> string \<Rightarrow> ice_state \<Rightarrow> ice_state" where
  "prime_candidate i cand s =
     (if i < length (icPcs s) \<and> wpListening (icPcs s ! i) \<and> wpSignaling (icPcs s ! i) \<noteq> SigClosed
         \<and> \<not> iceWarmPrimed s \<and> cand \<noteq> '''' \<and> has_typ ''relay'' cand
      then s\<lparr>iceWarmPrimed := True\<rparr> else s)"

text \<open>\<open>multiFast\<close> is \<open>window.__ruletMultiPeerFast\<close>.\<close>

definition takeWarmPc :: "bool \<Rightarrow> ice_state \<Rightarrow> ice_state \<times> nat option" where
  "takeWarmPc multiFast s =
     (case iceWarmPc s of
        None \<Rightarrow> (s, None)
      | Some i \<Rightarrow>
          let wasPrimed = iceWarmPrimed s; policy = iceWarmPolicy s;
              s1 = upd_pc i (\<lambda>p. p\<lparr>wpTaken := True, wpListening := False\<rparr>) (reset_warm s);
              give = upd_pc i (\<lambda>p. p\<lparr>wpPrimed := wasPrimed\<rparr>) s1;
              drop = (upd_pc i close_pc s1)\<lparr>pendingWarmRelayPrimed := wasPrimed\<rparr>
          in if policy = Some PolicyRelay then
               (if multiFast \<and> wpSignaling (icPcs s1 ! i) = SigStable then (give, Some i)
                else (drop, None))
             else if wpSignaling (icPcs s1 ! i) \<noteq> SigStable then (drop, None)
             else (give, Some i))"

text \<open>\<open>pc.__ruletWarmPrimed\<close> of a fresh connection.\<close>

definition applyPendingWarmPrimed :: "ice_state \<Rightarrow> bool \<times> ice_state" where
  "applyPendingWarmPrimed s =
     (if \<not> pendingWarmRelayPrimed s then (False, s)
      else (True, s\<lparr>pendingWarmRelayPrimed := False\<rparr>))"

definition setSessionForceRelay :: "bool \<Rightarrow> bool \<Rightarrow> ice_state \<Rightarrow> ice_state" where
  "setSessionForceRelay created on s =
     (let was = sessionForceRelay s;
          s1 = s\<lparr>sessionForceRelay := on\<rparr>;
          s2 = (if on \<and> preferDirectOnly (icPrefs s1)
                then s1\<lparr>icPrefs := (icPrefs s1)\<lparr>preferDirectOnly := False\<rparr>\<rparr> else s1);
          s3 = applyIceDirectPreference s2
      in if was \<noteq> on then
           (if iceWarmPolicy s3 = Some (if on then PolicyRelay else PolicyAll) then s3
            else warmIcePool True on created (clearIceWarm s3))
         else s3)"

section \<open>Loading the configuration\<close>

record served_config =
  svIceServers :: "ice_server list option option"
  svTurnEphemeral :: bool
  svTurnTtlSecs :: int

text \<open>What \<open>loadRtcConfig\<close> decides: use the cache, with or without a refresh behind it, or fetch.\<close>

datatype load_decision = UseCache | UseCacheAndRefresh | Fetch

definition loadRtcConfig :: "bool \<Rightarrow> int \<Rightarrow> ice_state \<Rightarrow> load_decision" where
  "loadRtcConfig force now s =
     (if \<not> force \<and> iceConfigFetchedAt s \<noteq> 0 \<and> lastRawIceServers s \<noteq> []
         \<and> now - iceConfigFetchedAt s < 5 * 60 * 1000
      then (if now - iceConfigFetchedAt s > 90 * 1000 \<and> \<not> iceConfigInflight s
            then UseCacheAndRefresh else UseCache)
      else Fetch)"

text \<open>\<open>loadRtcConfigFresh\<close>: its start joins a fetch in flight; its end is a response or a failure.\<close>

definition fetch_start :: "ice_state \<Rightarrow> ice_state" where
  "fetch_start s = s\<lparr>iceConfigInflight := True\<rparr>"

definition fetch_ok :: "served_config \<Rightarrow> int \<Rightarrow> ice_state \<Rightarrow> ice_state" where
  "fetch_ok j now s =
     (let s1 = (case svIceServers j of
                  None \<Rightarrow> s
                | Some ss \<Rightarrow> applyIceDirectPreference (s\<lparr>lastRawIceServers := normalizeIceServers ss\<rparr>));
          s2 = s1\<lparr>iceConfigFetchedAt := now,
                  iceRefreshMs := (if svTurnEphemeral j \<and> svTurnTtlSecs j \<noteq> 0
                    then Some (max 60000 (svTurnTtlSecs j * 1000 div 2)) else None)\<rparr>
      in s2\<lparr>iceConfigInflight := False\<rparr>)"

definition fetch_failed :: "ice_state \<Rightarrow> ice_state" where
  "fetch_failed s =
     (let s1 = (if lastRawIceServers s = []
                then applyIceDirectPreference (s\<lparr>lastRawIceServers := default_ice_servers\<rparr>) else s)
      in s1\<lparr>iceConfigInflight := False\<rparr>)"

section \<open>Relay-only configurations\<close>

lemma in_filterMode_clean:
  assumes "list_all clean_entry raw" "s \<in> set (filterIceServersByMode raw mode)"
  shows "clean_entry s \<and> list_all (mode_keeps mode) (urls_of s)"
  using assms by (auto simp: filterMode_clean list_all_iff)

lemma filterMode_clean_entry: "list_all clean_entry raw \<Longrightarrow> list_all clean_entry (filterIceServersByMode raw mode)"
  using in_filterMode_clean by (auto simp: list_all_iff)

lemma has_turn_filter:
  assumes "list_all clean_entry raw"
  shows "has_turn raw \<longleftrightarrow> filterIceServersByMode raw ModeTurn \<noteq> []"
proof -
  have "list_ex turn_url (urls_of s) = list_all (mode_keeps ModeTurn) (urls_of s)" if "s \<in> set raw" for s
    using that assms urls_of_clean [of s] by (auto simp: list_all_iff mode_turn)
  then show ?thesis
    unfolding filterMode_clean [OF assms] has_turn_def
    by (auto simp: filter_empty_conv list_ex_iff [of _ raw])
qed

lemma relay_pick_clean:
  assumes "list_all clean_entry ts"
  shows "relay_pick ts = keepUdpPlusTurns (udpTurnOnly ts)"
  unfolding relay_pick_def Let_def preferFast_clean [OF assms]
  by (simp add: udp_turn.pick_Nil_iff) (simp add: udpTurnOnly_def)

lemma relay_pick_sub:
  assumes "list_all clean_entry ts"
  shows "set (relay_pick ts) \<subseteq> set ts" "relay_pick ts = [] \<longleftrightarrow> ts = []" "length (relay_pick ts) \<le> 2"
  using keep_two.pick_subset [of "udpTurnOnly ts"] udp_turn.pick_subset [of ts]
  by (auto simp: relay_pick_clean [OF assms] keep_two.pick_Nil_iff udp_turn.pick_Nil_iff keep_length)

text \<open>What a relay-only configuration promises.\<close>

definition relay_only :: "rtc_config \<Rightarrow> bool" where
  "relay_only c \<longleftrightarrow> rcPolicy c = Some PolicyRelay \<and> rcServers c \<noteq> [] \<and> length (rcServers c) \<le> 2
     \<and> rcPoolSize c = 0 \<and> list_all (\<lambda>u. turn_url u \<and> pinned_url u) (all_urls (rcServers c))"

lemma pin_servers_length [simp]: "length (pinTurnUrlsToUdp ss) = length ss"
  "pinTurnUrlsToUdp ss = [] \<longleftrightarrow> ss = []"
  by (simp_all add: pinTurnUrlsToUdp_def)

lemma relay_only_pick:
  assumes raw: "list_all clean_entry raw" and turn: "filterIceServersByMode raw ModeTurn \<noteq> []"
  shows "relay_only \<lparr>rcServers = pinTurnUrlsToUdp (relay_pick (filterIceServersByMode raw ModeTurn)),
     rcPoolSize = 0, rcPolicy = Some PolicyRelay\<rparr>"
proof -
  let ?ts = "filterIceServersByMode raw ModeTurn"
  note clean = filterMode_clean_entry [OF raw, of ModeTurn]
  note pick = relay_pick_sub [OF clean]
  have pc: "list_all clean_entry (relay_pick ?ts)"
    using clean pick(1) by (auto simp: list_all_iff)
  have "turn_url (pinTurnUrlToUdp u)" if "u \<in> set (all_urls (relay_pick ?ts))" for u
  proof -
    from that obtain s where s: "s \<in> set (relay_pick ?ts)" "u \<in> set (urls_of s)"
      by (auto simp: all_urls_def)
    with pick(1) have "s \<in> set ?ts" by blast
    from in_filterMode_clean [OF raw this] s urls_of_clean [of s] show ?thesis
      by (auto simp: list_all_iff mode_turn intro: pin_turn_url)
  qed
  with pick turn show ?thesis
    by (auto simp: relay_only_def pin_urls_clean [OF pc] list_all_iff pin_pinned)
qed

definition raw_ok :: "ice_state \<Rightarrow> bool" where
  "raw_ok s \<longleftrightarrow> list_all clean_entry (lastRawIceServers s) \<and> lastRawIceServers s \<noteq> []"

lemma direct_config_relay:
  assumes "raw_ok s" "has_turn (lastRawIceServers s)" "hideIpRelayOnlyEnabled s \<or> sessionForceRelay s"
  shows "relay_only (direct_config s)"
proof -
  have raw: "list_all clean_entry (lastRawIceServers s)" "lastRawIceServers s \<noteq> []"
    using assms(1) by (simp_all add: raw_ok_def)
  have turn: "filterIceServersByMode (lastRawIceServers s) ModeTurn \<noteq> []"
    using assms(2) has_turn_filter [OF raw(1)] by simp
  then have "relay_pick (filterIceServersByMode (lastRawIceServers s) ModeTurn) \<noteq> []"
    by (simp add: relay_pick_sub(2) filterMode_clean_entry raw)
  with relay_only_pick [OF raw(1) turn] raw turn assms(3) show ?thesis
    by (auto simp: direct_config_def Let_def)
qed

lemma direct_config_open:
  assumes "raw_ok s" "\<not> has_turn (lastRawIceServers s)" "hideIpRelayOnlyEnabled s \<or> sessionForceRelay s"
  shows "rcPolicy (direct_config s) = Some PolicyAll \<and> rcServers (direct_config s) = lastRawIceServers s"
proof -
  have raw: "list_all clean_entry (lastRawIceServers s)" "lastRawIceServers s \<noteq> []"
    using assms(1) by (simp_all add: raw_ok_def)
  have "filterIceServersByMode (lastRawIceServers s) ModeTurn = []"
    using assms(2) has_turn_filter [OF raw(1)] by simp
  moreover have "relay_pick [] = []"
    by (simp add: relay_pick_clean keep_two.pick_Nil_iff udp_turn.pick_Nil_iff)
  ultimately show ?thesis
    using raw assms(3) preferFast_clean [OF raw(1)] by (auto simp: direct_config_def Let_def)
qed

lemma direct_config_servers:
  assumes "raw_ok s"
  shows "rcServers (direct_config s) \<noteq> []"
proof -
  have raw: "list_all clean_entry (lastRawIceServers s)" "lastRawIceServers s \<noteq> []"
    using assms by (simp_all add: raw_ok_def)
  show ?thesis
    using raw preferFast_clean [OF raw(1)]
      relay_pick_sub(2) [OF filterMode_clean_entry [OF raw(1), of ModeTurn]]
    by (auto simp: direct_config_def Let_def default_ice_servers_def)
qed

lemma direct_config_stun:
  assumes "raw_ok s" "\<not> hideIpRelayOnlyEnabled s" "\<not> sessionForceRelay s" "preferDirectOnlyEnabled s"
  shows "list_all (\<lambda>u. \<not> turn_url u) (all_urls (rcServers (direct_config s)))"
proof -
  have raw: "list_all clean_entry (lastRawIceServers s)" "lastRawIceServers s \<noteq> []"
    using assms(1) by (simp_all add: raw_ok_def)
  have "list_all (\<lambda>u. \<not> turn_url u) (all_urls default_ice_servers)"
    by code_simp
  then show ?thesis
    using assms raw in_filterMode_clean [OF raw(1), of _ ModeStun]
    by (auto simp: direct_config_def Let_def all_urls_def list_all_iff mode_stun)
qed
section \<open>The invariant of the module\<close>

definition config_ok :: "ice_state \<Rightarrow> bool" where
  "config_ok s \<longleftrightarrow> raw_ok s \<and> iceConfig s < length (icConfigs s) \<and> rcServers (getIceConfig s) \<noteq> []
     \<and> (rcPolicy (getIceConfig s) = Some PolicyRelay \<longrightarrow> relay_only (getIceConfig s))"

definition pc_open :: "warm_pc \<Rightarrow> bool" where
  "pc_open p \<longleftrightarrow> wpSignaling p \<noteq> SigClosed"

definition pc_rule :: "warm_pc \<Rightarrow> bool" where
  "pc_rule p \<longleftrightarrow>
     (wpPolicy p = PolicyAll \<longrightarrow> \<not> wpSetLocal p \<and> wpSignaling p \<noteq> SigHaveLocalOffer \<and> \<not> wpListening p)
     \<and> (wpTaken p \<and> wpListening p \<longrightarrow> \<not> pc_open p)"

definition pc_free :: "warm_pc \<Rightarrow> bool" where
  "pc_free p \<longleftrightarrow> pc_open p \<and> \<not> wpTaken p"

text \<open>An open connection that is not marked as taken is the warm one. The mark says less than
  handed out: a connection the pool drops is marked too. What was handed out is \<open>handed\<close> below.\<close>

definition warm_slot :: "warm_pc list \<Rightarrow> nat option \<Rightarrow> ice_policy option \<Rightarrow> bool \<Rightarrow> bool" where
  "warm_slot ps w pol primed =
     (case w of
        None \<Rightarrow> pol = None \<and> \<not> primed
      | Some i \<Rightarrow> i < length ps \<and> pol = Some (wpPolicy (ps ! i)) \<and> pc_free (ps ! i))"

definition pool_inv :: "warm_pc list \<Rightarrow> nat option \<Rightarrow> ice_policy option \<Rightarrow> bool \<Rightarrow> bool" where
  "pool_inv ps w pol primed \<longleftrightarrow> warm_slot ps w pol primed
     \<and> (\<forall>j < length ps. pc_rule (ps ! j) \<and> (pc_free (ps ! j) \<longrightarrow> w = Some j))"

abbreviation pool_ok :: "ice_state \<Rightarrow> bool" where
  "pool_ok s \<equiv> pool_inv (icPcs s) (iceWarmPc s) (iceWarmPolicy s) (iceWarmPrimed s)"

lemma pool_update:
  assumes "pool_inv ps w pol primed" "i < length ps \<Longrightarrow> pc_rule p" "pc_free p = pc_free (ps ! i)"
    "wpPolicy p = wpPolicy (ps ! i)"
  shows "pool_inv (ps[i := p]) w pol primed"
proof (cases "i < length ps")
  case True
  have slot: "warm_slot ps w pol primed" and all: "\<forall>j < length ps. pc_rule (ps ! j) \<and> (pc_free (ps ! j) \<longrightarrow> w = Some j)"
    using assms(1) by (simp_all add: pool_inv_def)
  have "pc_free (ps[i := p] ! k) = pc_free (ps ! k) \<and> wpPolicy (ps[i := p] ! k) = wpPolicy (ps ! k)" for k
    using assms(3,4) True by (cases "k = i") simp_all
  with slot have "warm_slot (ps[i := p]) w pol primed"
    by (cases w) (simp_all add: warm_slot_def)
  moreover have "pc_rule (ps[i := p] ! j) \<and> (pc_free (ps[i := p] ! j) \<longrightarrow> w = Some j)"
    if "j < length ps" for j
    using all that assms(2,3) True by (cases "j = i") simp_all
  ultimately show ?thesis by (simp add: pool_inv_def)
next
  case False
  with assms(1) show ?thesis by (simp add: list_update_beyond)
qed

lemma pool_release:
  assumes "pool_inv ps (Some i) pol primed" "pc_rule p" "\<not> pc_free p"
  shows "pool_inv (ps[i := p]) None None False"
  using assms by (auto simp: pool_inv_def warm_slot_def nth_list_update)

lemma pool_new:
  assumes "pool_inv ps None None False" "pc_rule p" "pc_free p"
  shows "pool_inv (ps @ [p]) (Some (length ps)) (Some (wpPolicy p)) b"
  using assms by (auto simp: pool_inv_def warm_slot_def nth_append less_Suc_eq)

lemma pool_prime: "pool_inv ps (Some i) pol primed \<Longrightarrow> pool_inv ps (Some i) pol b"
  by (simp add: pool_inv_def warm_slot_def)

lemma pool_none: "pool_inv ps None pol primed \<Longrightarrow> pool_inv ps None None False"
  by (simp add: pool_inv_def warm_slot_def)

lemma pool_warm:
  assumes "pool_inv ps (Some i) pol primed"
  shows "i < length ps" "pol = Some (wpPolicy (ps ! i))" "pc_free (ps ! i)" "pc_rule (ps ! i)"
  using assms by (auto simp: pool_inv_def warm_slot_def)

lemma pool_rule: "pool_inv ps w pol primed \<Longrightarrow> j < length ps \<Longrightarrow> pc_rule (ps ! j)"
  by (simp add: pool_inv_def)

datatype ice_event =
    SetPrefs media_prefs
  | ApplyPreference
  | ForceRelay bool bool
  | WarmPool bool bool bool
  | ClearWarm
  | PrimeOffer nat
  | PrimeSetLocal nat
  | PrimeGathered nat nat
  | PrimeCandidate nat string
  | TakeWarm bool
  | ApplyPending
  | FetchStart
  | FetchOk served_config int
  | FetchFailed

fun ice_step :: "ice_state \<Rightarrow> ice_event \<Rightarrow> ice_state" where
  "ice_step s (SetPrefs p) = s\<lparr>icPrefs := p\<rparr>"
| "ice_step s ApplyPreference = applyIceDirectPreference s"
| "ice_step s (ForceRelay created on) = setSessionForceRelay created on s"
| "ice_step s (WarmPool force preferRelay created) = warmIcePool force preferRelay created s"
| "ice_step s ClearWarm = clearIceWarm s"
| "ice_step s (PrimeOffer i) = prime_offer_made i s"
| "ice_step s (PrimeSetLocal i) = prime_set_local i s"
| "ice_step s (PrimeGathered i n) = prime_gathered i n s"
| "ice_step s (PrimeCandidate i c) = prime_candidate i c s"
| "ice_step s (TakeWarm multiFast) = fst (takeWarmPc multiFast s)"
| "ice_step s ApplyPending = snd (applyPendingWarmPrimed s)"
| "ice_step s FetchStart = fetch_start s"
| "ice_step s (FetchOk j now) = fetch_ok j now s"
| "ice_step s FetchFailed = fetch_failed s"

lemma raw_ok_new: "raw_ok (new_ice_state p)"
  using clean_default by (simp add: raw_ok_def new_ice_state_def default_ice_servers_def)

lemma config_ok_new: "config_ok (new_ice_state p)"
  using raw_ok_new [of p] by (simp add: config_ok_def getIceConfig_def new_ice_state_def default_ice_servers_def)

lemma pool_ok_new: "pool_ok (new_ice_state p)"
  by (simp add: pool_inv_def warm_slot_def new_ice_state_def)

text \<open>Frames.\<close>

lemma apply_frame [simp]:
  "icPcs (applyIceDirectPreference s) = icPcs s" "iceWarmPc (applyIceDirectPreference s) = iceWarmPc s"
  "iceWarmPolicy (applyIceDirectPreference s) = iceWarmPolicy s"
  "iceWarmPrimed (applyIceDirectPreference s) = iceWarmPrimed s"
  "lastRawIceServers (applyIceDirectPreference s) = lastRawIceServers s"
  "icPrefs (applyIceDirectPreference s) = icPrefs s"
  "sessionForceRelay (applyIceDirectPreference s) = sessionForceRelay s"
  by (simp_all add: applyIceDirectPreference_def)

lemma getIceConfig_apply [simp]: "getIceConfig (applyIceDirectPreference s) = direct_config s"
  by (simp add: getIceConfig_def applyIceDirectPreference_def)

lemma pool_ok_apply: "pool_ok (applyIceDirectPreference s) = pool_ok s"
  by simp

lemma relay_policy_cases:
  assumes "raw_ok s"
  shows "rcPolicy (direct_config s) \<noteq> Some PolicyRelay \<or> relay_only (direct_config s)"
proof (cases "has_turn (lastRawIceServers s) \<and> (hideIpRelayOnlyEnabled s \<or> sessionForceRelay s)")
  case True
  with assms direct_config_relay show ?thesis by blast
next
  case False
  then consider "hideIpRelayOnlyEnabled s \<or> sessionForceRelay s" "\<not> has_turn (lastRawIceServers s)"
    | "\<not> hideIpRelayOnlyEnabled s" "\<not> sessionForceRelay s" by blast
  then show ?thesis
  proof cases
    case 1
    with direct_config_open [OF assms] show ?thesis by simp
  next
    case 2
    then show ?thesis by (simp add: direct_config_def Let_def)
  qed
qed

lemma config_ok_apply: "raw_ok s \<Longrightarrow> config_ok (applyIceDirectPreference s)"
  using relay_policy_cases [of s] direct_config_servers [of s]
  by (auto simp: config_ok_def raw_ok_def) (simp_all add: applyIceDirectPreference_def)

lemma config_ok_raw: "config_ok s \<Longrightarrow> raw_ok s"
  by (simp add: config_ok_def)

text \<open>Steps that only touch the pool keep the configuration, and the other way round.\<close>

lemma config_ok_cong:
  "lastRawIceServers s' = lastRawIceServers s \<Longrightarrow> icConfigs s' = icConfigs s \<Longrightarrow>
     iceConfig s' = iceConfig s \<Longrightarrow> config_ok s' = config_ok s"
  by (simp add: config_ok_def raw_ok_def getIceConfig_def)



lemma upd_pc_frame [simp]:
  "lastRawIceServers (upd_pc i f s) = lastRawIceServers s" "icConfigs (upd_pc i f s) = icConfigs s"
  "iceConfig (upd_pc i f s) = iceConfig s" "iceWarmPc (upd_pc i f s) = iceWarmPc s"
  "iceWarmPolicy (upd_pc i f s) = iceWarmPolicy s" "iceWarmPrimed (upd_pc i f s) = iceWarmPrimed s"
  "length (icPcs (upd_pc i f s)) = length (icPcs s)"
  by (simp_all add: upd_pc_def)

lemma upd_pc_nth:
  "j < length (icPcs s) \<Longrightarrow> icPcs (upd_pc i f s) ! j = (if j = i then f (icPcs s ! j) else icPcs s ! j)"
  by (simp add: upd_pc_def nth_list_update)

lemma upd_pc_pcs: "icPcs (upd_pc i f s) = (icPcs s)[i := f (icPcs s ! i)]"
  by (simp add: upd_pc_def list_update_beyond)

lemma close_taken: "\<not> pc_free (close_pc p)" "pc_rule p \<Longrightarrow> pc_rule (close_pc (p\<lparr>wpTaken := True\<rparr>))"
  "pc_rule p \<Longrightarrow> pc_rule (close_pc (p\<lparr>wpTaken := True, wpListening := False\<rparr>))"
  "pc_rule p \<Longrightarrow> pc_rule (p\<lparr>wpTaken := True, wpListening := False\<rparr>)"
  "pc_rule p \<Longrightarrow> pc_rule (p\<lparr>wpTaken := True, wpListening := False, wpPrimed := b\<rparr>)"
  by (auto simp: close_pc_def pc_free_def pc_open_def pc_rule_def)

lemma pool_ok_clear: "pool_ok s \<Longrightarrow> pool_inv (icPcs (clearIceWarm s)) None None False"
proof (cases "iceWarmPc s")
  case None
  then show "pool_ok s \<Longrightarrow> ?thesis"
    by (simp add: clearIceWarm_def reset_warm_def) (rule pool_none)
next
  case (Some i)
  assume ok: "pool_ok s"
  with Some have "pool_inv (icPcs s) (Some i) (iceWarmPolicy s) (iceWarmPrimed s)" by simp
  from pool_release [OF this close_taken(2) [OF pool_warm(4) [OF this]] close_taken(1)] Some
  show ?thesis by (simp add: clearIceWarm_def reset_warm_def upd_pc_pcs)
qed

lemma clearIceWarm_frame [simp]:
  "lastRawIceServers (clearIceWarm s) = lastRawIceServers s" "icConfigs (clearIceWarm s) = icConfigs s"
  "iceConfig (clearIceWarm s) = iceConfig s" "iceWarmPc (clearIceWarm s) = None"
  "iceWarmPolicy (clearIceWarm s) = None" "iceWarmPrimed (clearIceWarm s) = False"
  "icPrefs (clearIceWarm s) = icPrefs s" "sessionForceRelay (clearIceWarm s) = sessionForceRelay s"
  by (auto simp: clearIceWarm_def reset_warm_def upd_pc_def split: option.splits)
lemma pool_ok_clear2: "pool_ok s \<Longrightarrow> pool_ok (clearIceWarm s)"
  by (simp add: pool_ok_clear)

lemma reset_warm_clear [simp]: "reset_warm (clearIceWarm s) = clearIceWarm s"
  by (simp add: clearIceWarm_def reset_warm_def split: option.split)

lemma pool_ok_warm:
  assumes "pool_ok s"
  shows "pool_ok (warmIcePool force preferRelay created s)"
proof -
  define a where "a = applyIceDirectPreference s"
  have a: "pool_ok a"
    using assms by (simp add: a_def)
  note c = pool_ok_clear [OF a]
  have new: "pool_inv (icPcs (clearIceWarm a) @ [\<lparr>wpPolicy = pol, wpSignaling = SigStable,
      wpTaken = False, wpPrimed = False, wpSetLocal = False, wpListening = (pol = PolicyRelay)\<rparr>])
      (Some (length (icPcs (clearIceWarm a)))) (Some pol) b" for pol b
    using pool_new [OF c, of "\<lparr>wpPolicy = pol, wpSignaling = SigStable,
      wpTaken = False, wpPrimed = False, wpSetLocal = False, wpListening = (pol = PolicyRelay)\<rparr>" b]
    by (simp add: pc_rule_def pc_free_def pc_open_def)
  show ?thesis
    unfolding warmIcePool_def Let_def a_def [symmetric]
    using a c new by (auto split: if_splits)
qed

lemma config_ok_warm: "raw_ok s \<Longrightarrow> config_ok (warmIcePool force preferRelay created s)"
proof -
  assume "raw_ok s"
  then have "config_ok (applyIceDirectPreference s)" by (rule config_ok_apply)
  moreover have "lastRawIceServers (warmIcePool force preferRelay created s) = lastRawIceServers (applyIceDirectPreference s)"
    "icConfigs (warmIcePool force preferRelay created s) = icConfigs (applyIceDirectPreference s)"
    "iceConfig (warmIcePool force preferRelay created s) = iceConfig (applyIceDirectPreference s)"
    by (simp_all add: warmIcePool_def Let_def)
  ultimately show ?thesis using config_ok_cong by blast
qed

lemma force_raw: "raw_ok (s\<lparr>sessionForceRelay := b\<rparr>) = raw_ok s" "raw_ok (s\<lparr>icPrefs := p\<rparr>) = raw_ok s"
  "raw_ok (clearIceWarm s) = raw_ok s" "raw_ok (applyIceDirectPreference s) = raw_ok s"
  by (simp_all add: raw_ok_def)

text \<open>The flag and the preference a change of the session relay leaves behind.\<close>

definition force_flags :: "bool \<Rightarrow> ice_state \<Rightarrow> ice_state" where
  "force_flags on s = (let s1 = s\<lparr>sessionForceRelay := on\<rparr>
     in if on \<and> preferDirectOnly (icPrefs s1)
        then s1\<lparr>icPrefs := (icPrefs s1)\<lparr>preferDirectOnly := False\<rparr>\<rparr> else s1)"

lemma force_flags_frame [simp]:
  "lastRawIceServers (force_flags on s) = lastRawIceServers s" "icPcs (force_flags on s) = icPcs s"
  "iceWarmPc (force_flags on s) = iceWarmPc s" "iceWarmPolicy (force_flags on s) = iceWarmPolicy s"
  "iceWarmPrimed (force_flags on s) = iceWarmPrimed s" "sessionForceRelay (force_flags on s) = on"
  "hideIpRelayOnlyEnabled (force_flags on s) = hideIpRelayOnlyEnabled s"
  by (simp_all add: force_flags_def Let_def hideIpRelayOnlyEnabled_def)

lemma setSessionForceRelay_eq:
  "setSessionForceRelay created on s =
     (let s3 = applyIceDirectPreference (force_flags on s)
      in if sessionForceRelay s \<noteq> on \<and> iceWarmPolicy s \<noteq> Some (if on then PolicyRelay else PolicyAll)
         then warmIcePool True on created (clearIceWarm s3) else s3)"
  by (simp add: setSessionForceRelay_def force_flags_def Let_def)

lemma setSessionForceRelay_ok:
  assumes "config_ok s" "pool_ok s"
  shows "config_ok (setSessionForceRelay created on s)" "pool_ok (setSessionForceRelay created on s)"
proof -
  let ?s3 = "applyIceDirectPreference (force_flags on s)"
  have raw: "raw_ok (force_flags on s)"
    using config_ok_raw [OF assms(1)] by (simp add: raw_ok_def)
  have pool: "pool_ok ?s3"
    using assms(2) by simp
  have w: "config_ok (warmIcePool True on created (clearIceWarm ?s3))"
    "pool_ok (warmIcePool True on created (clearIceWarm ?s3))"
    using raw pool by (auto simp only: force_raw intro!: config_ok_warm pool_ok_warm pool_ok_clear2)
  show "config_ok (setSessionForceRelay created on s)"
    unfolding setSessionForceRelay_eq Let_def using w(1) config_ok_apply [OF raw] by simp
  show "pool_ok (setSessionForceRelay created on s)"
    unfolding setSessionForceRelay_eq Let_def using w(2) pool by (simp split: if_split)
qed

lemma takeWarmPc_ok:
  assumes "pool_ok s"
  shows "pool_ok (fst (takeWarmPc multiFast s))"
proof (cases "iceWarmPc s")
  case None
  with assms show ?thesis by (simp add: takeWarmPc_def)
next
  case (Some i)
  with assms have p: "pool_inv (icPcs s) (Some i) (iceWarmPolicy s) (iceWarmPrimed s)" by simp
  note rule = pool_warm(4) [OF p]
  let ?p = "icPcs s ! i"
  have r: "pool_inv ((icPcs s)[i := close_pc (?p\<lparr>wpTaken := True, wpListening := False\<rparr>)]) None None False"
    "pool_inv ((icPcs s)[i := ?p\<lparr>wpTaken := True, wpListening := False, wpPrimed := b\<rparr>]) None None False" for b
    by (rule pool_release [OF p close_taken(3) [OF rule] close_taken(1)])
      (rule pool_release [OF p close_taken(5) [OF rule]], simp add: pc_free_def)
  have reset: "icPcs (reset_warm s) = icPcs s" "iceWarmPc (reset_warm s) = None"
    "iceWarmPolicy (reset_warm s) = None" "iceWarmPrimed (reset_warm s) = False"
    by (simp_all add: reset_warm_def)
  show ?thesis
    using r Some pool_warm(1) [OF p]
    by (simp add: takeWarmPc_def Let_def upd_pc_pcs reset)
qed

lemma fetch_ok_ok:
  assumes "config_ok s" "pool_ok s"
  shows "config_ok (fetch_ok j now s)" "pool_ok (fetch_ok j now s)"
proof -
  define s1 where "s1 = (case svIceServers j of None \<Rightarrow> s
      | Some ss \<Rightarrow> applyIceDirectPreference (s\<lparr>lastRawIceServers := normalizeIceServers ss\<rparr>))"
  have "raw_ok (s\<lparr>lastRawIceServers := normalizeIceServers ss\<rparr>)" for ss
    using normalize_clean normalize_not_Nil by (simp add: raw_ok_def)
  then have "config_ok (applyIceDirectPreference (s\<lparr>lastRawIceServers := normalizeIceServers ss\<rparr>))" for ss
    by (rule config_ok_apply)
  with assms have s1: "config_ok s1" "pool_ok s1"
    by (simp_all add: s1_def split: option.split)
  have frame: "icPcs (fetch_ok j now s) = icPcs s1" "iceWarmPc (fetch_ok j now s) = iceWarmPc s1"
    "iceWarmPolicy (fetch_ok j now s) = iceWarmPolicy s1" "iceWarmPrimed (fetch_ok j now s) = iceWarmPrimed s1"
    "lastRawIceServers (fetch_ok j now s) = lastRawIceServers s1"
    "icConfigs (fetch_ok j now s) = icConfigs s1" "iceConfig (fetch_ok j now s) = iceConfig s1"
    by (simp_all add: fetch_ok_def s1_def Let_def)
  from s1 config_ok_cong [OF frame(5-7)] frame show "config_ok (fetch_ok j now s)" "pool_ok (fetch_ok j now s)"
    by simp_all
qed

lemma fetch_failed_ok:
  assumes "config_ok s" "pool_ok s"
  shows "config_ok (fetch_failed s)" "pool_ok (fetch_failed s)"
proof -
  have "lastRawIceServers s \<noteq> []"
    using config_ok_raw [OF assms(1)] by (simp add: raw_ok_def)
  then have s: "fetch_failed s = s\<lparr>iceConfigInflight := False\<rparr>"
    by (simp add: fetch_failed_def)
  show "config_ok (fetch_failed s)" "pool_ok (fetch_failed s)"
    using assms config_ok_cong [of "s\<lparr>iceConfigInflight := False\<rparr>" s] by (simp_all add: s)
qed

lemma prime_pool:
  assumes ok: "pool_ok s"
  shows "pool_ok (prime_offer_made i s)" "pool_ok (prime_set_local i s)"
    "pool_ok (prime_gathered i n s)" "pool_ok (prime_candidate i c s)"
proof -
  have upd: "pool_ok (upd_pc i f t)" if "pool_ok t"
    "i < length (icPcs t) \<Longrightarrow> pc_rule (f (icPcs t ! i))"
    "pc_free (f (icPcs t ! i)) = pc_free (icPcs t ! i)"
    "wpPolicy (f (icPcs t ! i)) = wpPolicy (icPcs t ! i)" for f t
    unfolding upd_pc_pcs upd_pc_frame using that by (rule pool_update)
  have rule: "i < length (icPcs s) \<Longrightarrow> pc_rule (icPcs s ! i)"
    using ok by (rule pool_rule)
  show "pool_ok (prime_set_local i s)"
    unfolding prime_set_local_def
    by (rule upd) (use ok rule in \<open>auto simp: pc_rule_def pc_free_def pc_open_def\<close>)
  show "pool_ok (prime_candidate i c s)"
  proof (cases "iceWarmPc s")
    case None
    have "\<not> (i < length (icPcs s) \<and> wpListening (icPcs s ! i) \<and> wpSignaling (icPcs s ! i) \<noteq> SigClosed)"
      using ok rule None by (auto simp: pool_inv_def pc_rule_def pc_open_def pc_free_def)
    with ok show ?thesis by (auto simp: prime_candidate_def)
  next
    case (Some k)
    with ok pool_prime [of "icPcs s" k "iceWarmPolicy s" "iceWarmPrimed s" True] show ?thesis
      by (simp add: prime_candidate_def)
  qed

  show "pool_ok (prime_gathered i n s)"
  proof (cases "stillWarm i s")
    case True
    let ?t = "if n > 0 then s\<lparr>iceWarmPrimed := True\<rparr> else s"
    have "pool_ok ?t"
      using ok True pool_prime [of "icPcs s" i "iceWarmPolicy s" "iceWarmPrimed s" True]
      by (simp add: stillWarm_def)
    then have "pool_ok (upd_pc i (\<lambda>p. if wpSignaling p = SigHaveLocalOffer
        then p\<lparr>wpSignaling := SigStable\<rparr> else p) ?t)"
      by (rule upd) (use rule in \<open>auto simp: pc_rule_def pc_free_def pc_open_def\<close>)
    with True show ?thesis by (simp add: prime_gathered_def)
  next
    case False
    with ok show ?thesis by (simp add: prime_gathered_def)
  qed
  show "pool_ok (prime_offer_made i s)"
  proof (cases "stillWarm i s \<and> wpPolicy (icPcs s ! i) = PolicyRelay")
    case True
    have "pool_ok (upd_pc i (\<lambda>p. p\<lparr>wpSetLocal := True\<rparr>) s)"
      by (rule upd) (use True ok rule in \<open>auto simp: pc_rule_def pc_free_def pc_open_def\<close>)
    with True show ?thesis by (simp add: prime_offer_made_def)
  next
    case False
    with ok show ?thesis by (simp only: prime_offer_made_def if_False)
  qed
qed
definition ice_inv :: "ice_state \<Rightarrow> bool" where
  "ice_inv s \<longleftrightarrow> config_ok s \<and> pool_ok s"

lemma ice_inv_new: "ice_inv (new_ice_state p)"
  by (simp add: ice_inv_def config_ok_new pool_ok_new)

lemma pool_steps_config:
  "config_ok (clearIceWarm s) = config_ok s" "config_ok (prime_offer_made i s) = config_ok s"
  "config_ok (prime_set_local i s) = config_ok s" "config_ok (prime_gathered i n s) = config_ok s"
  "config_ok (prime_candidate i c s) = config_ok s" "config_ok (fst (takeWarmPc m s)) = config_ok s"
  "config_ok (snd (applyPendingWarmPrimed s)) = config_ok s" "config_ok (fetch_start s) = config_ok s"
  "config_ok (s\<lparr>icPrefs := p\<rparr>) = config_ok s"
  by (rule config_ok_cong; simp add: prime_offer_made_def prime_set_local_def prime_gathered_def
      prime_candidate_def takeWarmPc_def applyPendingWarmPrimed_def fetch_start_def reset_warm_def
      Let_def split: option.split)+

lemma pool_ok_pending: "pool_ok s \<Longrightarrow> pool_ok (snd (applyPendingWarmPrimed s))"
  by (simp add: applyPendingWarmPrimed_def)

lemma ice_inv_step: "ice_inv s \<Longrightarrow> ice_inv (ice_step s e)"
  unfolding ice_inv_def
  by (cases e) (auto simp only: ice_step.simps pool_steps_config config_ok_apply config_ok_raw
      config_ok_warm pool_ok_warm pool_ok_clear2 pool_ok_apply setSessionForceRelay_ok takeWarmPc_ok
      fetch_ok_ok fetch_failed_ok prime_pool pool_ok_pending, simp_all add: fetch_start_def)

text \<open>No step drops a configuration object that a caller may still hold.\<close>

lemma configs_step: "length (icConfigs s) \<le> length (icConfigs (ice_step s e))"
proof -
  have a: "length (icConfigs (applyIceDirectPreference t)) = Suc (length (icConfigs t))" for t
    by (simp add: applyIceDirectPreference_def)
  have w: "icConfigs (warmIcePool f p c t) = icConfigs (applyIceDirectPreference t)" for f p c t
    by (simp add: warmIcePool_def Let_def)
  have f: "icConfigs (force_flags on s) = icConfigs s" for on
    by (simp add: force_flags_def Let_def)
  show ?thesis
    by (cases e) (simp_all add: a w f setSessionForceRelay_eq Let_def prime_offer_made_def
        prime_set_local_def prime_gathered_def prime_candidate_def takeWarmPc_def
        applyPendingWarmPrimed_def fetch_start_def fetch_ok_def fetch_failed_def reset_warm_def
        split: option.split)
qed

interpretation ice_machine: monotone_machine ice_step ice_inv "\<lambda>s. int (length (icConfigs s))"
  by unfold_locales (simp_all add: ice_inv_step configs_step)

definition ice_run :: "media_prefs \<Rightarrow> ice_event list \<Rightarrow> ice_state" where
  "ice_run p es = foldl ice_step (new_ice_state p) es"

lemma ice_run_inv: "ice_inv (ice_run p es)"
  unfolding ice_run_def by (rule ice_machine.inv_run) (rule ice_inv_new)

lemma takeWarmPc_given:
  assumes "pool_ok s" "takeWarmPc multiFast s = (s', Some i)"
  shows "iceWarmPc s = Some i \<and> i < length (icPcs s) \<and> wpSignaling (icPcs s ! i) = SigStable
    \<and> (wpPolicy (icPcs s ! i) = PolicyRelay \<longrightarrow> multiFast)
    \<and> icPcs s' ! i = (icPcs s ! i)\<lparr>wpTaken := True, wpListening := False, wpPrimed := iceWarmPrimed s\<rparr>"
proof -
  have w: "iceWarmPc s = Some i"
    using assms(2) by (auto simp: takeWarmPc_def Let_def split: option.splits if_splits)
  with assms(1) have p: "pool_inv (icPcs s) (Some i) (iceWarmPolicy s) (iceWarmPrimed s)" by simp
  show ?thesis
    using assms(2) w pool_warm(1,2) [OF p]
    by (auto simp: takeWarmPc_def Let_def upd_pc_pcs reset_warm_def split: if_splits)
qed

section \<open>Connections handed out\<close>

text \<open>
  The connections that calls really receive along a run, that is, the results of \<open>takeWarmPc\<close>. Only
  the holder of such a connection closes it; every other open connection is the pool's to close.
\<close>

definition given :: "ice_state \<Rightarrow> ice_event \<Rightarrow> nat list" where
  "given s e = (case e of TakeWarm multiFast \<Rightarrow>
       (case snd (takeWarmPc multiFast s) of None \<Rightarrow> [] | Some i \<Rightarrow> [i]) | _ \<Rightarrow> [])"

fun handed :: "ice_state \<Rightarrow> ice_event list \<Rightarrow> nat list" where
  "handed s [] = []"
| "handed s (e # es) = given s e @ handed (ice_step s e) es"

definition open_pcs :: "ice_state \<Rightarrow> nat set" where
  "open_pcs s = {j. j < length (icPcs s) \<and> pc_open (icPcs s ! j)}"

definition no_leak :: "nat set \<Rightarrow> ice_state \<Rightarrow> bool" where
  "no_leak G s \<longleftrightarrow> open_pcs s \<subseteq> set_option (iceWarmPc s) \<union> G"

lemma no_leak_keep:
  "no_leak G s \<Longrightarrow> open_pcs s' \<subseteq> open_pcs s \<Longrightarrow> iceWarmPc s' = iceWarmPc s \<Longrightarrow> no_leak G s'"
  by (auto simp: no_leak_def)

lemma open_pcs_upd:
  "pc_open (f (icPcs s ! i)) = pc_open (icPcs s ! i) \<Longrightarrow> open_pcs (upd_pc i f s) = open_pcs s"
  by (auto simp: open_pcs_def upd_pc_def nth_list_update split: if_splits)

lemma open_pcs_closed:
  "\<not> pc_open (f (icPcs s ! i)) \<Longrightarrow> open_pcs (upd_pc i f s) = open_pcs s - {i}"
  by (auto simp: open_pcs_def upd_pc_def nth_list_update split: if_splits)

lemma not_open_closed [simp]: "\<not> pc_open (close_pc p)"
  by (simp add: pc_open_def close_pc_def)

lemma open_pcs_reset [simp]: "open_pcs (reset_warm s) = open_pcs s"
  "iceWarmPc (reset_warm s) = None"
  by (simp_all add: open_pcs_def reset_warm_def)

lemma open_pcs_cong: "icPcs s' = icPcs s \<Longrightarrow> open_pcs s' = open_pcs s"
  by (simp add: open_pcs_def)

lemma no_leak_clear: "no_leak G s \<Longrightarrow> no_leak G (clearIceWarm s)"
  by (auto simp: clearIceWarm_def no_leak_def open_pcs_closed split: option.splits)

lemma no_leak_new:
  assumes "no_leak G s" "iceWarmPc s = None" "icPcs s' = icPcs s @ [p]" "iceWarmPc s' = Some (length (icPcs s))"
  shows "no_leak G s'"
proof -
  have "open_pcs s' \<subseteq> insert (length (icPcs s)) (open_pcs s)"
    using assms(3) by (auto simp: open_pcs_def nth_append less_Suc_eq)
  with assms(1,2,4) show ?thesis by (auto simp: no_leak_def)
qed

lemma no_leak_apply: "no_leak G (applyIceDirectPreference s) = no_leak G s"
  by (simp add: no_leak_def open_pcs_cong [of "applyIceDirectPreference s" s])

lemma no_leak_warm: "no_leak G s \<Longrightarrow> no_leak G (warmIcePool force preferRelay created s)"
proof -
  assume "no_leak G s"
  then have a: "no_leak G (applyIceDirectPreference s)" by (simp add: no_leak_apply)
  then have c: "no_leak G (clearIceWarm (applyIceDirectPreference s))" by (rule no_leak_clear)
  show ?thesis
    unfolding warmIcePool_def Let_def
    using a c no_leak_new [OF c] by (auto split: if_splits)
qed

lemma no_leak_force: "no_leak G s \<Longrightarrow> no_leak G (setSessionForceRelay created on s)"
proof -
  assume "no_leak G s"
  then have "no_leak G (force_flags on s)"
    by (simp add: no_leak_def open_pcs_cong [of "force_flags on s" s])
  then have "no_leak G (applyIceDirectPreference (force_flags on s))" by (simp add: no_leak_apply)
  then show ?thesis
    by (simp add: setSessionForceRelay_eq Let_def no_leak_warm no_leak_clear)
qed

text \<open>A hand-out moves the warm connection to the caller, and a refused one is closed.\<close>

lemma no_leak_take:
  assumes "no_leak G s"
  shows "no_leak (G \<union> set (given s (TakeWarm multiFast))) (fst (takeWarmPc multiFast s))"
proof (cases "iceWarmPc s")
  case None
  with assms show ?thesis by (simp add: takeWarmPc_def given_def)
next
  case (Some i)
  let ?s1 = "upd_pc i (\<lambda>p. p\<lparr>wpTaken := True, wpListening := False\<rparr>) (reset_warm s)"
  have s1: "open_pcs ?s1 \<subseteq> insert i G" "iceWarmPc ?s1 = None"
    using assms Some by (auto simp: no_leak_def open_pcs_upd pc_open_def)
  have give: "no_leak (G \<union> {i}) (upd_pc i (\<lambda>p. p\<lparr>wpPrimed := b\<rparr>) ?s1)" for b
    using s1 by (auto simp: no_leak_def open_pcs_upd pc_open_def)
  have drop: "no_leak G ((upd_pc i close_pc ?s1)\<lparr>pendingWarmRelayPrimed := b\<rparr>)" for b
    using s1 open_pcs_cong [of "(upd_pc i close_pc ?s1)\<lparr>pendingWarmRelayPrimed := b\<rparr>" "upd_pc i close_pc ?s1"]
    by (auto simp: no_leak_def open_pcs_closed)
  show ?thesis
    using give drop Some by (auto simp: takeWarmPc_def given_def Let_def)
qed

lemma no_leak_prime:
  assumes "no_leak G s"
  shows "no_leak G (prime_offer_made i s)" "no_leak G (prime_set_local i s)"
    "no_leak G (prime_gathered i n s)" "no_leak G (prime_candidate i c s)"
proof -
  have keep: "no_leak G (upd_pc i f t)" if "no_leak G t" "\<And>p. pc_open (f p) = pc_open p" for f t
    using that by (auto intro: no_leak_keep simp: open_pcs_upd)
  have primed: "no_leak G (s\<lparr>iceWarmPrimed := b\<rparr>)" for b
    using assms by (simp add: no_leak_def open_pcs_def)
  show "no_leak G (prime_offer_made i s)" "no_leak G (prime_set_local i s)"
    "no_leak G (prime_gathered i n s)" "no_leak G (prime_candidate i c s)"
    using assms primed
    by (auto simp: prime_offer_made_def prime_set_local_def prime_gathered_def prime_candidate_def
        pc_open_def Let_def intro!: keep)
qed

lemma no_leak_frame:
  "icPcs s' = icPcs s \<Longrightarrow> iceWarmPc s' = iceWarmPc s \<Longrightarrow> no_leak G s \<Longrightarrow> no_leak G s'"
  by (simp add: no_leak_def open_pcs_def)

lemma no_leak_fetch:
  assumes "no_leak G s"
  shows "no_leak G (fetch_ok j now s)" "no_leak G (fetch_failed s)" "no_leak G (fetch_start s)"
    "no_leak G (snd (applyPendingWarmPrimed s))" "no_leak G (s\<lparr>icPrefs := p\<rparr>)"
  by (rule no_leak_frame [OF _ _ assms]; simp add: fetch_ok_def fetch_failed_def fetch_start_def
      applyPendingWarmPrimed_def Let_def split: option.split)+

lemma no_leak_step: "no_leak G s \<Longrightarrow> no_leak (G \<union> set (given s e)) (ice_step s e)"
proof (cases e)
  case (TakeWarm multiFast)
  then show "no_leak G s \<Longrightarrow> ?thesis" using no_leak_take by simp
qed (simp_all add: given_def no_leak_apply no_leak_force no_leak_warm no_leak_clear no_leak_prime no_leak_fetch)

lemma no_leak_run: "no_leak G s \<Longrightarrow> no_leak (G \<union> set (handed s es)) (foldl ice_step s es)"
proof (induction es arbitrary: G s)
  case (Cons e es)
  from Cons.IH [OF no_leak_step [OF Cons.prems, of e]] show ?case by (simp add: Un_assoc)
qed simp

text \<open>A connection once given is marked, and only an unmarked one is given: no two calls share one.\<close>

definition marked :: "ice_state \<Rightarrow> nat set" where
  "marked s = {j. j < length (icPcs s) \<and> wpTaken (icPcs s ! j)}"

lemma given_unmarked:
  "ice_inv s \<Longrightarrow> j \<in> set (given s e) \<Longrightarrow> j \<notin> marked s"
  using pool_warm [of "icPcs s" j "iceWarmPolicy s" "iceWarmPrimed s"]
  by (auto simp: given_def ice_inv_def pc_free_def takeWarmPc_def Let_def marked_def
      split: ice_event.splits option.splits if_splits)

lemma marked_cong: "icPcs s' = icPcs s \<Longrightarrow> marked s' = marked s"
  by (simp add: marked_def)

lemma marked_upd: "(wpTaken (icPcs s ! i) \<Longrightarrow> wpTaken (f (icPcs s ! i))) \<Longrightarrow> marked s \<subseteq> marked (upd_pc i f s)"
  by (auto simp: marked_def upd_pc_def nth_list_update)

lemma marked_apply [simp]: "marked (applyIceDirectPreference s) = marked s"
  "marked (force_flags on s) = marked s" "marked (reset_warm s) = marked s"
  by (rule marked_cong; simp add: reset_warm_def)+

lemma marked_clear: "marked s \<subseteq> marked (clearIceWarm s)"
  unfolding clearIceWarm_def by (auto split: option.split intro: subsetD [OF marked_upd] simp: close_pc_def)

lemma marked_warm: "marked s \<subseteq> marked (warmIcePool force preferRelay created s)"
proof -
  have "marked (applyIceDirectPreference s) \<subseteq> marked (clearIceWarm (applyIceDirectPreference s))"
    by (rule marked_clear)
  moreover have new: "marked t \<subseteq> marked (t\<lparr>icPcs := icPcs t @ [q], iceWarmPc := w, iceWarmPolicy := pol, iceWarmPrimed := b\<rparr>)"
    for t q w pol b
    by (auto simp: marked_def nth_append)
  ultimately show ?thesis
    unfolding warmIcePool_def Let_def by (auto split: if_splits intro: subsetD [OF new])
qed

lemma marked_force: "marked s \<subseteq> marked (setSessionForceRelay created on s)"
  using marked_clear [of "applyIceDirectPreference (force_flags on s)"] marked_warm
  by (fastforce simp: setSessionForceRelay_eq Let_def)

lemma marked_take: "marked s \<union> set (given s (TakeWarm m)) \<subseteq> marked (fst (takeWarmPc m s))" if "ice_inv s"
proof (cases "iceWarmPc s")
  case None
  then show ?thesis by (simp add: takeWarmPc_def given_def)
next
  case (Some i)
  with that have i: "i < length (icPcs s)"
    using pool_warm(1) [of "icPcs s" i "iceWarmPolicy s" "iceWarmPrimed s"] by (simp add: ice_inv_def)
  let ?s1 = "upd_pc i (\<lambda>p. p\<lparr>wpTaken := True, wpListening := False\<rparr>) (reset_warm s)"
  have "insert i (marked s) \<subseteq> marked ?s1"
    using i by (auto simp: marked_def upd_pc_def nth_list_update reset_warm_def)
  moreover have "marked ?s1 \<subseteq> marked (upd_pc i (\<lambda>p. p\<lparr>wpPrimed := b\<rparr>) ?s1)" for b
    by (rule marked_upd) simp
  moreover have "marked ?s1 \<subseteq> marked (upd_pc i close_pc ?s1)"
    by (rule marked_upd) (simp add: close_pc_def)
  moreover have "marked (t\<lparr>pendingWarmRelayPrimed := b\<rparr>) = marked t" for t b
    by (rule marked_cong) simp
  ultimately show ?thesis
    using Some by (simp add: takeWarmPc_def given_def Let_def) blast
qed

lemma marked_prime:
  "marked s \<subseteq> marked (prime_offer_made i s)" "marked s \<subseteq> marked (prime_set_local i s)"
  "marked s \<subseteq> marked (prime_gathered i n s)" "marked s \<subseteq> marked (prime_candidate i c s)"
proof -
  have primed: "marked (s\<lparr>iceWarmPrimed := b\<rparr>) = marked s" for b
    by (rule marked_cong) simp
  show "marked s \<subseteq> marked (prime_offer_made i s)" "marked s \<subseteq> marked (prime_set_local i s)"
    unfolding prime_offer_made_def prime_set_local_def by (simp_all add: marked_upd)
  show "marked s \<subseteq> marked (prime_gathered i n s)"
    using primed [of True] marked_upd [of "s\<lparr>iceWarmPrimed := True\<rparr>"] marked_upd [of s]
    by (simp add: prime_gathered_def Let_def)
  show "marked s \<subseteq> marked (prime_candidate i c s)"
    using primed by (simp add: prime_candidate_def)
qed

lemma marked_fetch:
  "marked (fetch_ok j now s) = marked s" "marked (fetch_failed s) = marked s"
  "marked (fetch_start s) = marked s" "marked (snd (applyPendingWarmPrimed s)) = marked s"
  "marked (s\<lparr>icPrefs := p\<rparr>) = marked s"
  by (rule marked_cong; simp add: fetch_ok_def fetch_failed_def fetch_start_def
      applyPendingWarmPrimed_def Let_def split: option.split)+

lemma marked_step: "ice_inv s \<Longrightarrow> marked s \<union> set (given s e) \<subseteq> marked (ice_step s e)"
proof (cases e)
  case (TakeWarm m)
  then show "ice_inv s \<Longrightarrow> ?thesis" using marked_take by simp
qed (simp_all add: given_def marked_clear marked_warm marked_force marked_prime marked_fetch)

lemma handed_distinct: "ice_inv s \<Longrightarrow> distinct (handed s es) \<and> set (handed s es) \<inter> marked s = {}"
proof (induction es arbitrary: s)
  case (Cons e es)
  have "distinct (given s e)" by (simp add: given_def split: ice_event.split option.split)
  moreover have "set (given s e) \<inter> marked s = {}"
    using given_unmarked [OF Cons.prems] by blast
  ultimately show ?case
    using Cons.IH [OF ice_inv_step [OF Cons.prems, of e]] marked_step [OF Cons.prems, of e] by auto
qed simp

section \<open>Properties\<close>

text \<open>C5: In every reachable state the current configuration has servers, a relay policy comes with
  TURN URLs only (at most two entries, each pinned to a transport), and no connection leaks: each one
  that is still open is the warm one or was handed to a call by \<open>takeWarmPc\<close> in this run. No
  connection is handed out twice.\<close>

theorem ice_run_ok:
  "rcServers (getIceConfig (ice_run p es)) \<noteq> []
   \<and> (if rcPolicy (getIceConfig (ice_run p es)) = Some PolicyRelay
      then relay_only (getIceConfig (ice_run p es)) else True)
   \<and> {j. j < length (icPcs (ice_run p es)) \<and> pc_open (icPcs (ice_run p es) ! j)}
      \<subseteq> set_option (iceWarmPc (ice_run p es)) \<union> set (handed (new_ice_state p) es)
   \<and> distinct (handed (new_ice_state p) es)"
proof -
  have "no_leak {} (new_ice_state p)"
    by (simp add: no_leak_def open_pcs_def new_ice_state_def)
  from no_leak_run [OF this, of es] show ?thesis
    using ice_run_inv [of p es] handed_distinct [OF ice_inv_new, of p es]
    by (simp add: ice_inv_def config_ok_def no_leak_def open_pcs_def ice_run_def)
qed

text \<open>C2: What the preferences make of the served list. Hide IP or session relay: relay policy with
  TURN only when the list has a TURN URL, and otherwise all servers with policy all, that is, no
  privacy. Direct only: no TURN URL. Otherwise: the list as served.\<close>

theorem direct_config_policy:
  "(if shouldPreferUdpRelay (ice_run p es) then
      (if has_turn (lastRawIceServers (ice_run p es)) then relay_only (direct_config (ice_run p es))
       else rcPolicy (direct_config (ice_run p es)) = Some PolicyAll
         \<and> rcServers (direct_config (ice_run p es)) = lastRawIceServers (ice_run p es))
    else rcPolicy (direct_config (ice_run p es)) = Some PolicyAll
      \<and> (if preferDirectOnlyEnabled (ice_run p es)
         then list_all (\<lambda>u. \<not> turn_url u) (all_urls (rcServers (direct_config (ice_run p es))))
         else rcServers (direct_config (ice_run p es)) = lastRawIceServers (ice_run p es)))"
proof -
  let ?s = "ice_run p es"
  have raw: "raw_ok ?s"
    using ice_run_inv [of p es] by (simp add: ice_inv_def config_ok_raw)
  then have clean: "preferFastTurnFirst (lastRawIceServers ?s) = lastRawIceServers ?s"
    by (simp add: raw_ok_def preferFast_clean)
  have open_all: "rcPolicy (direct_config ?s) = Some PolicyAll"
    "\<not> preferDirectOnlyEnabled ?s \<Longrightarrow> rcServers (direct_config ?s) = lastRawIceServers ?s"
    if "\<not> shouldPreferUdpRelay ?s"
    using that raw clean by (auto simp: direct_config_def shouldPreferUdpRelay_def Let_def raw_ok_def)
  show ?thesis
    using direct_config_relay [OF raw] direct_config_open [OF raw] direct_config_stun [OF raw] open_all
    by (auto simp: shouldPreferUdpRelay_def)
qed

text \<open>Turning session relay on switches Prefer Direct off, and leaves the configuration that the
  preferences then call for in force.\<close>

theorem setSessionForceRelay_policy:
  "\<not> preferDirectOnlyEnabled (setSessionForceRelay created True (ice_run p es))
   \<and> sessionForceRelay (setSessionForceRelay created True (ice_run p es))
   \<and> (if has_turn (lastRawIceServers (ice_run p es))
      then relay_only (getIceConfig (setSessionForceRelay created True (ice_run p es))) else True)"
proof -
  let ?s = "ice_run p es" and ?f = "force_flags True (ice_run p es)"
  have raw: "raw_ok ?f"
    using ice_run_inv [of p es] by (simp add: ice_inv_def config_ok_def raw_ok_def)
  have direct: "direct_config (clearIceWarm (applyIceDirectPreference ?f)) = direct_config ?f"
    by (simp add: direct_config_def hideIpRelayOnlyEnabled_def preferDirectOnlyEnabled_def)
  have warm: "getIceConfig (warmIcePool b c d t) = direct_config t"
    "icPrefs (warmIcePool b c d t) = icPrefs t"
    "sessionForceRelay (warmIcePool b c d t) = sessionForceRelay t" for b c d t
    using getIceConfig_apply [of t]
    by (simp_all add: warmIcePool_def Let_def getIceConfig_def)
  have conf: "getIceConfig (setSessionForceRelay created True ?s) = direct_config ?f"
    by (simp add: setSessionForceRelay_eq Let_def warm direct)
  have prefs: "icPrefs (setSessionForceRelay created True ?s) = icPrefs ?f"
    "sessionForceRelay (setSessionForceRelay created True ?s) = True"
    by (simp_all add: setSessionForceRelay_eq Let_def warm)
  have "\<not> preferDirectOnly (icPrefs ?f)"
    by (simp add: force_flags_def Let_def)
  with prefs conf direct_config_relay [OF raw] show ?thesis
    by (simp add: preferDirectOnlyEnabled_def)
qed

text \<open>A warm connection that is handed to a call was stable and open, a relay one only in the
  multi-peer case, its candidate handler is off, and the pool is empty afterwards.\<close>

theorem takeWarmPc_stable:
  assumes "takeWarmPc multiFast (ice_run p es) = (s', Some i)"
  shows "wpSignaling (icPcs s' ! i) = SigStable \<and> wpTaken (icPcs s' ! i) \<and> \<not> wpListening (icPcs s' ! i)
    \<and> (wpPolicy (icPcs s' ! i) = PolicyAll \<or> multiFast) \<and> iceWarmPc s' = None"
proof -
  have ok: "pool_ok (ice_run p es)"
    using ice_run_inv [of p es] by (simp add: ice_inv_def)
  from takeWarmPc_given [OF ok assms]
  have "wpSignaling (icPcs s' ! i) = SigStable \<and> wpTaken (icPcs s' ! i) \<and> \<not> wpListening (icPcs s' ! i)
    \<and> (wpPolicy (icPcs s' ! i) = PolicyAll \<or> multiFast)"
    by (cases "wpPolicy (icPcs (ice_run p es) ! i)") auto
  moreover have "iceWarmPc s' = None"
    using assms by (auto simp: takeWarmPc_def Let_def reset_warm_def split: option.splits if_splits)
  ultimately show ?thesis by simp
qed

definition ex_served :: served_config where
  "ex_served = \<lparr>svIceServers = Some (Some [\<lparr>isUrls = OneUrl ''turn:h:3478'', isUsername = Some ''u'',
     isCredential = Some ''c''\<rparr>]), svTurnEphemeral = False, svTurnTtlSecs = 0\<rparr>"

definition ex_events :: "ice_event list" where
  "ex_events = [FetchOk ex_served 1000, ForceRelay True True, PrimeOffer 0]"

definition ex_prefs :: media_prefs where
  "ex_prefs = \<lparr>preferDirectOnly = False, hideIpRelayOnly = False\<rparr>"

lemma ex_take: "snd (takeWarmPc True (ice_run ex_prefs ex_events)) = Some 0"
  by code_simp

theorem takeWarmPc_stable_witness:
  "wpSignaling (icPcs (fst (takeWarmPc True (ice_run ex_prefs ex_events))) ! 0) = SigStable"
proof -
  have "takeWarmPc True (ice_run ex_prefs ex_events) =
      (fst (takeWarmPc True (ice_run ex_prefs ex_events)), Some 0)"
    using ex_take by (simp add: prod_eq_iff)
  from takeWarmPc_stable [OF this] show ?thesis by simp
qed

text \<open>Stable is not enough: a relay connection can be handed to a call while the local
  description of its priming is still being set, and it then turns up with a local offer the call
  never made.\<close>

theorem takeWarmPc_in_flight:
  "\<exists>es. \<exists>s i. takeWarmPc True (ice_run ex_prefs es) = (s, Some i) \<and> wpSetLocal (icPcs s ! i)
     \<and> wpSignaling (icPcs (ice_step s (PrimeSetLocal i)) ! i) = SigHaveLocalOffer"
proof -
  let ?r = "takeWarmPc True (ice_run ex_prefs ex_events)"
  have "wpSetLocal (icPcs (fst ?r) ! 0)
    \<and> wpSignaling (icPcs (ice_step (fst ?r) (PrimeSetLocal 0)) ! 0) = SigHaveLocalOffer"
    by code_simp
  moreover have "?r = (fst ?r, Some 0)"
    using ex_take by (simp add: prod_eq_iff)
  ultimately show ?thesis by metis
qed

end
