(* ===== verification/RelayLadder.thy ===== *)
theory RelayLadder
  imports IcePolicy
begin

text \<open>
  The recovery of a failed call in \<open>ui/live.js\<close>: the guards of the hard reconnect, and the relay
  ladder it tries before it rebuilds the connection. The ladder keeps a reference to the current
  configuration object across \<open>setSessionForceRelay\<close>, which is why configurations live in a store
  (\<open>IcePolicy\<close>).
\<close>

record live_call =
  lcIce :: ice_state
  lcMatched :: bool
  lcIsOfferer :: bool
  matchMediaGraceAt :: int
  relayLadderRung :: "rung option"
  relayLadderStartedAt :: int
  relayLadderConnectedRung :: "rung option"
  relayLadderServers :: "(ice_server list \<times> rung) option"
  reconnectDone :: bool
  reconnectBusy :: bool
  reconnectGen :: nat

definition new_live_call :: "media_prefs \<Rightarrow> live_call" where
  "new_live_call prefs =
     \<lparr>lcIce = new_ice_state prefs, lcMatched = False, lcIsOfferer = False, matchMediaGraceAt = 0,
      relayLadderRung = None, relayLadderStartedAt = 0, relayLadderConnectedRung = None,
      relayLadderServers = None, reconnectDone = False, reconnectBusy = False, reconnectGen = 0\<rparr>"

definition resetRelayLadderState :: "live_call \<Rightarrow> live_call" where
  "resetRelayLadderState s =
     s\<lparr>relayLadderRung := None, relayLadderStartedAt := 0, relayLadderConnectedRung := None\<rparr>"

definition markRelayLadderConnectedIfAny :: "live_call \<Rightarrow> live_call" where
  "markRelayLadderConnectedIfAny s =
     (if relayLadderRung s \<noteq> None then s\<lparr>relayLadderConnectedRung := relayLadderRung s\<rparr> else s)"

definition RELAY_LADDER_BUDGET_MS :: int where
  "RELAY_LADDER_BUDGET_MS = 24000"

text \<open>\<open>cfg.iceServers = servers\<close> on the configuration at an address.\<close>

definition set_config_servers :: "nat \<Rightarrow> ice_server list \<Rightarrow> ice_state \<Rightarrow> ice_state" where
  "set_config_servers a servers s =
     s\<lparr>icConfigs := (icConfigs s)[a := (icConfigs s ! a)\<lparr>rcServers := servers\<rparr>]\<rparr>"

text \<open>
  \<open>tryRelayRetryLadder\<close>. No peer connection has a \<open>setIceConfig\<close>, so the filtered list goes into
  the configuration object fetched before \<open>setSessionForceRelay\<close>, and into a window variable.
\<close>

definition tryRelayRetryLadder :: "bool \<Rightarrow> int \<Rightarrow> live_call \<Rightarrow> live_call \<times> bool" where
  "tryRelayRetryLadder created now s =
     (let hide = hideIpRelayOnlyEnabled (lcIce s)
      in if \<not> lcMatched s then (s, False)
         else if (hide \<or> isRelayMediaMode (lcIce s) \<and> relayLadderRung s = None)
              \<and> \<not> (hide \<and> relayLadderRung s = None) \<and> relayLadderRung s = None then (s, False)
         else
           let s1 = (if relayLadderStartedAt s = 0 then s\<lparr>relayLadderStartedAt := now\<rparr> else s)
           in if now - relayLadderStartedAt s1 > RELAY_LADDER_BUDGET_MS then (s1, False)
              else case nextRelayRetryRung (relayLadderRung s1) of
                None \<Rightarrow> (s1, False)
              | Some rung \<Rightarrow>
                  let cfg = iceConfig (lcIce s1);
                      servers = rcServers (getIceConfig (lcIce s1))
                  in if servers = [] then (s1, False)
                     else let filtered = filterIceServersForRung servers rung
                          in if filtered = [] then (s1, False)
                             else let s2 = s1\<lparr>relayLadderRung := Some rung\<rparr>;
                                      ice = setSessionForceRelay created True (lcIce s2)
                                  in (s2\<lparr>lcIce := set_config_servers cfg filtered ice,
                                         relayLadderServers := Some (filtered, rung)\<rparr>, True))"

section \<open>The hard reconnect\<close>

text \<open>What the guards read of the connection that is to be replaced.\<close>

record pc_view =
  pvOfferEmitOk :: bool
  pvAnyOfferEmitOk :: bool
  pvPcHasRemote :: bool
  pvHasRemote :: bool
  pvLiveAv :: bool

definition reconnect_grace :: "bool \<Rightarrow> bool \<Rightarrow> bool \<Rightarrow> bool \<Rightarrow> int" where
  "reconnect_grace neverOffered pureNow noVideo hasRemoteSdp =
     (if neverOffered then (if pureNow then 10000 else 4000)
      else if noVideo then (if hasRemoteSdp then 30000 else 20000)
      else (if hasRemoteSdp then 45000 else 25000))"

text \<open>
  \<open>schedulePeerHardReconnect\<close> up to the rebuild it schedules: the result tells whether a rebuild
  was scheduled, under the new generation. \<open>tryVpnRelayRecovery\<close> does nothing.
\<close>

definition schedulePeerHardReconnect :: "bool \<Rightarrow> int \<Rightarrow> pc_view \<Rightarrow> live_call \<Rightarrow> live_call \<times> bool" where
  "schedulePeerHardReconnect created now v s =
     (if \<not> lcMatched s then (s, False)
      else if \<not> lcIsOfferer s then (s, False)
      else
        let pure = (isRelayMediaMode (lcIce s) \<or> sessionForceRelay (lcIce s));
            age = (if matchMediaGraceAt s \<noteq> 0 then now - matchMediaGraceAt s else 99999);
            pureNeverOffered = (\<not> (pvOfferEmitOk v \<or> pvAnyOfferEmitOk v \<or> pvPcHasRemote v));
            hasRemoteSdp = (pvPcHasRemote v \<or> pvHasRemote v);
            noVideo = (\<not> pvLiveAv v);
            neverOffered = (\<not> (pvOfferEmitOk v \<or> hasRemoteSdp))
        in if pure \<and> age < 45000 \<and> \<not> pureNeverOffered then (s, False)
           else if age < reconnect_grace neverOffered pure noVideo hasRemoteSdp then (s, False)
           else if reconnectDone s then (s, False)
           else let s1 = s\<lparr>reconnectDone := True\<rparr>
                in if reconnectBusy s1 then (s1, False)
                   else let s2 = fst (tryRelayRetryLadder created now s1)
                        in (s2\<lparr>reconnectBusy := True, reconnectGen := reconnectGen s2 + 1\<rparr>, True))"

text \<open>The end of the scheduled rebuild of generation \<open>gen\<close>.\<close>

definition reconnect_finished :: "nat \<Rightarrow> live_call \<Rightarrow> live_call" where
  "reconnect_finished gen s = (if gen = reconnectGen s then s\<lparr>reconnectBusy := False\<rparr> else s)"

text \<open>Leaving a match bumps the generation so that a pending rebuild is stale.\<close>

definition leave_media :: "live_call \<Rightarrow> live_call" where
  "leave_media s = s\<lparr>lcMatched := False, reconnectGen := reconnectGen s + 1, reconnectBusy := False\<rparr>"

text \<open>The parts of \<open>handleMatched\<close> about the recovery: the relay flag the hub sent, then a fresh
  match.\<close>

definition matched_force :: "bool \<Rightarrow> bool \<Rightarrow> ice_state \<Rightarrow> ice_state" where
  "matched_force created force_relay ice =
     (if force_relay then setSessionForceRelay created True ice
      else if sessionForceRelay ice then setSessionForceRelay created False ice else ice)"

definition handleMatched_reset :: "bool \<Rightarrow> bool \<Rightarrow> bool \<Rightarrow> int \<Rightarrow> live_call \<Rightarrow> live_call" where
  "handleMatched_reset created force_relay offerer now s =
     resetRelayLadderState (s\<lparr>lcIce := matched_force created force_relay (lcIce s), lcMatched := True,
       lcIsOfferer := offerer, matchMediaGraceAt := now, reconnectDone := False,
       reconnectBusy := False\<rparr>)"

datatype call_event =
    Matched_msg bool bool bool int
  | HardReconnect bool int pc_view
  | ReconnectFinished nat
  | IceConnected
  | LeaveMatch
  | IceEvent ice_event

fun call_step :: "live_call \<Rightarrow> call_event \<Rightarrow> live_call" where
  "call_step s (Matched_msg created force offerer now) = handleMatched_reset created force offerer now s"
| "call_step s (HardReconnect created now v) = fst (schedulePeerHardReconnect created now v s)"
| "call_step s (ReconnectFinished gen) = reconnect_finished gen s"
| "call_step s IceConnected = markRelayLadderConnectedIfAny s"
| "call_step s LeaveMatch = leave_media s"
| "call_step s (IceEvent e) = s\<lparr>lcIce := ice_step (lcIce s) e\<rparr>"

section \<open>The ladder never leaves its first rung\<close>

definition first_rung :: "live_call \<Rightarrow> bool" where
  "first_rung s \<longleftrightarrow> relayLadderRung s \<in> {None, Some AllRelays}
     \<and> (reconnectDone s \<or> relayLadderRung s = None)"

lemma ladder_rung:
  "relayLadderRung (fst (tryRelayRetryLadder created now s)) \<in>
     {relayLadderRung s, nextRelayRetryRung (relayLadderRung s)}"
  by (auto simp: tryRelayRetryLadder_def Let_def split: option.split)

lemma ladder_frame [simp]:
  "reconnectDone (fst (tryRelayRetryLadder created now s)) = reconnectDone s"
  "reconnectBusy (fst (tryRelayRetryLadder created now s)) = reconnectBusy s"
  "reconnectGen (fst (tryRelayRetryLadder created now s)) = reconnectGen s"
  "lcMatched (fst (tryRelayRetryLadder created now s)) = lcMatched s"
  "lcIsOfferer (fst (tryRelayRetryLadder created now s)) = lcIsOfferer s"
  by (simp_all add: tryRelayRetryLadder_def Let_def split: option.split)

lemma first_climb: "nextRelayRetryRung None = Some AllRelays"
  by (simp add: nextRelayRetryRung_def RELAY_RETRY_RUNGS_def)

lemma first_rung_reconnect:
  assumes "first_rung s"
  shows "first_rung (fst (schedulePeerHardReconnect created now v s))"
proof -
  have "first_rung (fst (tryRelayRetryLadder created now (s\<lparr>reconnectDone := True\<rparr>)))"
    if "\<not> reconnectDone s"
    using assms that ladder_rung [of created now "s\<lparr>reconnectDone := True\<rparr>"]
    by (auto simp: first_rung_def first_climb)
  moreover have "first_rung (t\<lparr>reconnectBusy := b, reconnectGen := n\<rparr>) = first_rung t" for t b n
    by (simp add: first_rung_def)
  moreover have "first_rung (s\<lparr>reconnectDone := True\<rparr>)"
    using assms by (simp add: first_rung_def)
  ultimately show ?thesis
    using assms by (simp add: schedulePeerHardReconnect_def Let_def)
qed

lemma first_rung_step: "first_rung s \<Longrightarrow> first_rung (call_step s e)"
proof (cases e)
  case (HardReconnect created now v)
  assume "first_rung s"
  then show ?thesis by (simp add: HardReconnect first_rung_reconnect)
qed (auto simp: first_rung_def handleMatched_reset_def resetRelayLadderState_def reconnect_finished_def
    markRelayLadderConnectedIfAny_def leave_media_def)

interpretation call_machine: event_machine call_step first_rung
  by unfold_locales (rule first_rung_step)

definition call_run :: "media_prefs \<Rightarrow> call_event list \<Rightarrow> live_call" where
  "call_run p es = foldl call_step (new_live_call p) es"

lemma call_run_first: "first_rung (call_run p es)"
  unfolding call_run_def by (rule call_machine.inv_run) (simp add: first_rung_def new_live_call_def)

section \<open>What the ladder changes\<close>

lemma iceConfig_moves:
  assumes "iceConfig s < length (icConfigs s)"
  shows "iceConfig (setSessionForceRelay created on s) \<noteq> iceConfig s"
proof -
  have moved: "iceConfig (applyIceDirectPreference t) = length (icConfigs t)" for t
    by (simp add: applyIceDirectPreference_def)
  have flags: "icConfigs (force_flags b s) = icConfigs s" for b
    by (simp add: force_flags_def Let_def)
  have warm: "iceConfig (warmIcePool f p c t) = iceConfig (applyIceDirectPreference t)" for f p c t
    by (simp add: warmIcePool_def Let_def)
  show ?thesis
    using assms by (simp add: setSessionForceRelay_eq Let_def warm moved flags)
      (simp add: applyIceDirectPreference_def flags)
qed

lemma getIceConfig_other:
  "a \<noteq> iceConfig s \<Longrightarrow> getIceConfig (set_config_servers a servers s) = getIceConfig s"
  by (simp add: getIceConfig_def set_config_servers_def)

section \<open>Properties\<close>

text \<open>When the ladder arms a rung, the configuration that the rebuilt connection will read is the
  one \<open>setSessionForceRelay(true)\<close> alone gives: the servers picked for the rung are not in it.\<close>

theorem ladder_rung_ignored:
  assumes "tryRelayRetryLadder created now s = (s', True)"
    and "iceConfig (lcIce s) < length (icConfigs (lcIce s))"
  shows "getIceConfig (lcIce s') = getIceConfig (setSessionForceRelay created True (lcIce s))
    \<and> relayLadderRung s' = nextRelayRetryRung (relayLadderRung s)"
proof -
  obtain filtered rung where climb: "nextRelayRetryRung (relayLadderRung s) = Some rung"
    and ice: "lcIce s' = set_config_servers (iceConfig (lcIce s)) filtered
      (setSessionForceRelay created True (lcIce s))"
    and rung: "relayLadderRung s' = Some rung"
    using assms(1) by (auto simp: tryRelayRetryLadder_def Let_def split: if_splits option.splits)
  show ?thesis
    using iceConfig_moves [OF assms(2), of created True]
    by (simp add: ice climb rung getIceConfig_other)
qed

text \<open>In every reachable state of a call the ladder stands at its first rung or before it: a match
  allows one hard reconnect, and only a hard reconnect climbs, so the TLS-443 and UDP rungs are
  never tried.\<close>

theorem ladder_stays_on_first_rung:
  "relayLadderRung (call_run p es) \<in> {None, Some AllRelays}"
  using call_run_first [of p es] by (simp add: first_rung_def)

text \<open>A hard reconnect is scheduled only for a matched offerer past its grace period, at most once
  per match: right after one, every further attempt is refused.\<close>

theorem hard_reconnect_once:
  assumes "schedulePeerHardReconnect created now v s = (s', True)"
  shows "lcMatched s \<and> lcIsOfferer s \<and> \<not> reconnectDone s \<and> \<not> reconnectBusy s
    \<and> (matchMediaGraceAt s = 0 \<or> now - matchMediaGraceAt s \<ge> 4000)
    \<and> reconnectGen s' = Suc (reconnectGen s)
    \<and> \<not> snd (schedulePeerHardReconnect created' now' v' s')"
proof -
  have ok: "lcMatched s" "lcIsOfferer s" "\<not> reconnectDone s" "\<not> reconnectBusy s"
    using assms by (auto simp: schedulePeerHardReconnect_def Let_def split: if_splits)
  have grace: "4000 \<le> reconnect_grace a b c d" for a b c d
    by (simp add: reconnect_grace_def)
  have late: "matchMediaGraceAt s = 0 \<or> now - matchMediaGraceAt s \<ge> 4000"
  proof (rule ccontr)
    assume neg: "\<not> ?thesis"
    let ?never = "\<not> (pvOfferEmitOk v \<or> pvPcHasRemote v \<or> pvHasRemote v)"
    have "now - matchMediaGraceAt s < reconnect_grace ?never
        (isRelayMediaMode (lcIce s) \<or> sessionForceRelay (lcIce s)) (\<not> pvLiveAv v)
        (pvPcHasRemote v \<or> pvHasRemote v)"
      using neg grace [of ?never] by (meson dual_order.strict_trans2 not_le)
    with neg ok assms show False
      by (simp add: schedulePeerHardReconnect_def Let_def split: if_splits)
  qed
  have s': "s' = (fst (tryRelayRetryLadder created now (s\<lparr>reconnectDone := True\<rparr>)))
      \<lparr>reconnectBusy := True, reconnectGen := Suc (reconnectGen s)\<rparr>"
    using assms ok by (auto simp: schedulePeerHardReconnect_def Let_def split: if_splits)
  have "\<not> snd (schedulePeerHardReconnect created' now' v' s')"
    by (simp add: schedulePeerHardReconnect_def Let_def s')
  with ok late s' show ?thesis by simp
qed

section \<open>Witnesses\<close>

definition ex_call :: live_call where
  "ex_call = (new_live_call ex_prefs)\<lparr>lcMatched := True, lcIsOfferer := True,
     lcIce := ice_run ex_prefs [FetchOk ex_served 1000]\<rparr>"

lemma ex_ladder: "snd (tryRelayRetryLadder True 5000 ex_call)"
  by code_simp

theorem ladder_rung_ignored_witness:
  "getIceConfig (lcIce (fst (tryRelayRetryLadder True 5000 ex_call))) =
     getIceConfig (setSessionForceRelay True True (lcIce ex_call))"
proof -
  have "tryRelayRetryLadder True 5000 ex_call = (fst (tryRelayRetryLadder True 5000 ex_call), True)"
    using ex_ladder by (simp add: prod_eq_iff)
  moreover have "iceConfig (lcIce ex_call) < length (icConfigs (lcIce ex_call))"
    by code_simp
  ultimately show ?thesis
    using ladder_rung_ignored by blast
qed

definition ex_view :: pc_view where
  "ex_view = \<lparr>pvOfferEmitOk = False, pvAnyOfferEmitOk = False, pvPcHasRemote = False,
     pvHasRemote = False, pvLiveAv = False\<rparr>"

theorem hard_reconnect_once_witness:
  "\<not> snd (schedulePeerHardReconnect True 9000 ex_view
     (fst (schedulePeerHardReconnect True 5000 ex_view ex_call)))"
proof -
  have "snd (schedulePeerHardReconnect True 5000 ex_view ex_call)"
    by code_simp
  then have "schedulePeerHardReconnect True 5000 ex_view ex_call =
      (fst (schedulePeerHardReconnect True 5000 ex_view ex_call), True)"
    by (simp add: prod_eq_iff)
  from hard_reconnect_once [OF this] show ?thesis by blast
qed

end
