(* ===== verification/Hubs.thy ===== *)
theory Hubs
  imports JsMap
begin

text \<open>
  Choice of the matchmaking hub, \<open>ui/hubs.js\<close>: the saved preference, the sibling-domain failover,
  the directory of hubs and the health-checked switch. The page, the URL parser of the browser
  and the network are arguments: \<open>page\<close> is what \<open>location\<close> and \<open>URL\<close> give, and every response is
  \<open>None\<close> when the request fails.
\<close>

record url =
  urProtocol :: string
  urHost :: string
  urHostname :: string
  urOrigin :: string

text \<open>\<open>pgWithHost\<close> is the origin after \<open>u.hostname = h\<close>.\<close>

record page =
  pgOrigin :: string
  pgProtocol :: string
  pgHost :: string
  pgQueryHub :: "string option"
  pgParse :: "string \<Rightarrow> url option"
  pgParseAbs :: "string \<Rightarrow> url option"
  pgWithHost :: "url \<Rightarrow> string \<Rightarrow> string"

datatype dir_value = DvUndefined | DvText string | DvNumber int

type_synonym hub_entry = "(string, dir_value) jsmap"

record hub_state =
  hbSaved :: "string option"
  hbAuto :: "string option"
  currentBase :: string
  directoryCache :: "(string \<times> hub_entry) list"
  directoryLoadedAt :: int
  lastSiblingFailoverAt :: int

definition BUILTIN_SEEDS :: "string list" where
  "BUILTIN_SEEDS = [''https://ruletka.vip'', ''https://ruletka.me'']"

definition normalizeBase :: "page \<Rightarrow> string \<Rightarrow> string" where
  "normalizeBase pg s =
     (if s = '''' then ''''
      else case pgParse pg s of
             None \<Rightarrow> ''''
           | Some u \<Rightarrow> if urProtocol u \<noteq> ''http:'' \<and> urProtocol u \<noteq> ''https:'' then '''' else urOrigin u)"

definition sameOriginBase :: "page \<Rightarrow> string" where
  "sameOriginBase pg = pgOrigin pg"

definition getSavedBase :: "page \<Rightarrow> hub_state \<Rightarrow> string" where
  "getSavedBase pg s = normalizeBase pg (case hbSaved s of None \<Rightarrow> '''' | Some v \<Rightarrow> v)"

definition setSavedBase :: "page \<Rightarrow> string \<Rightarrow> hub_state \<Rightarrow> hub_state" where
  "setSavedBase pg base s =
     (let b = normalizeBase pg base in s\<lparr>hbSaved := (if b \<noteq> '''' then Some b else None)\<rparr>)"

definition autoFailoverEnabled :: "hub_state \<Rightarrow> bool" where
  "autoFailoverEnabled s =
     (case hbAuto s of None \<Rightarrow> True
      | Some v \<Rightarrow> if v = '''' then True else v = ''1'' \<or> v = ''true'')"

definition setAutoFailover :: "bool \<Rightarrow> hub_state \<Rightarrow> hub_state" where
  "setAutoFailover on s = s\<lparr>hbAuto := Some (if on then ''1'' else ''0'')\<rparr>"

text \<open>The hub of the query string, when it names one.\<close>

definition query_base :: "page \<Rightarrow> string" where
  "query_base pg = (case pgQueryHub pg of None \<Rightarrow> '''' | Some q \<Rightarrow> if q = '''' then '''' else normalizeBase pg q)"

definition first_nonempty :: "string \<Rightarrow> string \<Rightarrow> string" where
  "first_nonempty a b = (if a \<noteq> '''' then a else b)"

definition resolveBaseSync :: "page \<Rightarrow> hub_state \<Rightarrow> hub_state \<times> string" where
  "resolveBaseSync pg s =
     (let b = (if query_base pg \<noteq> '''' then query_base pg
               else if getSavedBase pg s \<noteq> '''' then getSavedBase pg s
               else first_nonempty (sameOriginBase pg) (BUILTIN_SEEDS ! 0))
      in (s\<lparr>currentBase := b\<rparr>, b))"

definition hub_base :: "page \<Rightarrow> hub_state \<Rightarrow> hub_state \<times> string" where
  "hub_base pg s = (if currentBase s \<noteq> '''' then (s, currentBase s) else resolveBaseSync pg s)"

definition setBase :: "page \<Rightarrow> string \<Rightarrow> bool \<Rightarrow> hub_state \<Rightarrow> hub_state" where
  "setBase pg base persist s =
     (let b = first_nonempty (normalizeBase pg base) (sameOriginBase pg);
          s1 = s\<lparr>currentBase := b\<rparr>
      in if persist then setSavedBase pg b s1 else s1)"

definition clearPreference :: "page \<Rightarrow> hub_state \<Rightarrow> hub_state" where
  "clearPreference pg s =
     s\<lparr>hbSaved := None, currentBase := first_nonempty (sameOriginBase pg) (BUILTIN_SEEDS ! 0)\<rparr>"

definition wsUrlFor :: "page \<Rightarrow> string \<Rightarrow> hub_state \<Rightarrow> string" where
  "wsUrlFor pg hubBase s =
     (let b = first_nonempty (normalizeBase pg hubBase) (snd (hub_base pg s))
      in case pgParseAbs pg b of
           Some u \<Rightarrow> (if urProtocol u = ''https:'' then ''wss:'' else ''ws:'') @ ''//'' @ urHost u @ ''/ws''
         | None \<Rightarrow> (if pgProtocol pg = ''https:'' then ''wss:'' else ''ws:'') @ ''//'' @ pgHost pg @ ''/ws'')"

section \<open>Sibling failover\<close>

definition strip_www :: "string \<Rightarrow> string" where
  "strip_www host = (if js_starts host ''www.'' then drop 4 host else host)"

definition siblingSeed :: "page \<Rightarrow> string \<Rightarrow> string" where
  "siblingSeed pg base =
     (let b = normalizeBase pg base
      in if b = '''' then ''''
         else case pgParseAbs pg b of
                None \<Rightarrow> ''''
              | Some u \<Rightarrow>
                  let host = strip_www (js_lower (urHostname u))
                  in if host = ''ruletka.vip'' then pgWithHost pg u ''ruletka.me''
                     else if host = ''ruletka.me'' then pgWithHost pg u ''ruletka.vip''
                     else '''')"

definition SIBLING_FAILOVER_MS :: int where
  "SIBLING_FAILOVER_MS = 20000"

definition trySiblingFailover :: "page \<Rightarrow> int \<Rightarrow> hub_state \<Rightarrow> hub_state \<times> bool" where
  "trySiblingFailover pg now s =
     (if \<not> autoFailoverEnabled s then (s, False)
      else let (s1, cur) = hub_base pg s; sib = siblingSeed pg cur
           in if sib = '''' \<or> sib = cur then (s1, False)
              else if lastSiblingFailoverAt s1 \<noteq> 0
                      \<and> now - lastSiblingFailoverAt s1 < SIBLING_FAILOVER_MS then (s1, False)
              else (setBase pg sib True (s1\<lparr>lastSiblingFailoverAt := now\<rparr>), True))"

section \<open>Health\<close>

record health_response =
  hrOk :: bool
  hrService :: bool
  hrOnline :: int
  hrWaiting :: int
  hrHasTurn :: bool
  hrRttMs :: int

record hub_health =
  hhBase :: string
  hhOnline :: int
  hhWaiting :: int
  hhHasTurn :: bool
  hhRttMs :: int

text \<open>\<open>hrRttMs\<close> is the rounded difference of the clock readings around the request.\<close>

definition probeHealth :: "page \<Rightarrow> (string \<Rightarrow> health_response option) \<Rightarrow> string \<Rightarrow> hub_health option" where
  "probeHealth pg fetch hubBase =
     (let b = normalizeBase pg hubBase
      in if b = '''' then None
         else case fetch b of
                None \<Rightarrow> None
              | Some j \<Rightarrow> if hrOk j \<and> hrService j
                  then Some \<lparr>hhBase = b, hhOnline = hrOnline j, hhWaiting = hrWaiting j,
                             hhHasTurn = hrHasTurn j, hhRttMs = max 1 (hrRttMs j)\<rparr>
                  else None)"

definition scoreProbe :: "hub_health option \<Rightarrow> string \<Rightarrow> string \<Rightarrow> int" where
  "scoreProbe h preferBase origin =
     (case h of None \<Rightarrow> 1000000000
      | Some h \<Rightarrow>
          let s0 = (if hhRttMs h \<noteq> 0 then hhRttMs h else 500);
              s1 = (if hhBase h = preferBase then s0 - 80 else s0);
              s2 = (if hhBase h = origin then s1 - 40 else s1);
              s3 = (if hhHasTurn h then s2 - 25 else s2)
          in s3 + min 40 (hhWaiting h * 2))"

section \<open>The directory\<close>



record live_directory =
  ldPublic :: "(string \<times> hub_entry) option"
  ldHubs :: "(string \<times> hub_entry) list"

text \<open>\<open>{ ...prev, ...meta, base: b }\<close>; a field of \<open>meta\<close> overrides even when it is undefined.\<close>

definition merge_entry :: "hub_entry \<Rightarrow> hub_entry \<Rightarrow> hub_entry" where
  "merge_entry prev meta = fold (\<lambda>(k, v) acc. jset k v acc) meta prev"

definition addEntry :: "page \<Rightarrow> string \<Rightarrow> hub_entry \<Rightarrow> (string, hub_entry) jsmap \<Rightarrow> (string, hub_entry) jsmap" where
  "addEntry pg baseUrl meta found =
     (let b = normalizeBase pg baseUrl
      in if b = '''' then found
         else let prev = (case jget found b of None \<Rightarrow> [(''base'', DvText b)] | Some e \<Rightarrow> e)
              in jset b (jset ''base'' (DvText b) (merge_entry prev meta)) found)"

definition add_entries :: "page \<Rightarrow> (string \<times> hub_entry) list \<Rightarrow> (string, hub_entry) jsmap \<Rightarrow> (string, hub_entry) jsmap" where
  "add_entries pg es found = fold (\<lambda>(b, meta) acc. addEntry pg b meta acc) es found"

definition directory_roots :: "page \<Rightarrow> string \<Rightarrow> string list" where
  "directory_roots pg active =
     (let origin = sameOriginBase pg;
          r0 = (if origin \<noteq> '''' then [origin] else []);
          r1 = (if active \<noteq> '''' \<and> active \<noteq> origin then r0 @ [active] else r0)
      in fold (\<lambda>s acc. if s \<in> set acc then acc else acc @ [s]) BUILTIN_SEEDS r1)"

text \<open>
  \<open>fetchStatic root\<close> is the list of \<open>/hubs.json\<close> and \<open>fetchLive root\<close> the reply of
  \<open>/v1/directory\<close>, each entry with the fields the code copies.
\<close>

definition loadDirectory :: "page \<Rightarrow> (string \<Rightarrow> (string \<times> hub_entry) list option)
    \<Rightarrow> (string \<Rightarrow> live_directory option) \<Rightarrow> int \<Rightarrow> bool \<Rightarrow> hub_state
    \<Rightarrow> hub_state \<times> (string \<times> hub_entry) list" where
  "loadDirectory pg fetchStatic fetchLive now force s =
     (if \<not> force \<and> directoryCache s \<noteq> [] \<and> now - directoryLoadedAt s < 45000
      then (s, directoryCache s)
      else
        let origin = sameOriginBase pg;
            (s1, active) = hub_base pg s;
            f0 = (if origin \<noteq> '''' then addEntry pg origin
                    [(''name'', DvText ''this page''), (''source'', DvText ''origin'')] [] else []);
            f1 = fold (\<lambda>root acc.
                   let a1 = (case fetchStatic root of None \<Rightarrow> acc | Some hubs \<Rightarrow> add_entries pg hubs acc)
                   in case fetchLive root of
                        None \<Rightarrow> a1
                      | Some live \<Rightarrow>
                          let a2 = (case ldPublic live of None \<Rightarrow> a1
                                    | Some (b, meta) \<Rightarrow> if b = '''' then a1 else addEntry pg b meta a1)
                          in add_entries pg (ldHubs live) a2)
                   (directory_roots pg active) f0;
            f2 = add_entries pg (map (\<lambda>b. (b, [(''name'', DvText ''seed''), (''source'', DvText ''builtin'')]))
                   BUILTIN_SEEDS) f1
        in (s1\<lparr>directoryCache := f2, directoryLoadedAt := now\<rparr>, f2))"

section \<open>The health-checked switch\<close>

text \<open>Order of the candidates, and the first occurrence of each.\<close>

definition hub_order :: "page \<Rightarrow> string \<Rightarrow> bool \<Rightarrow> string list \<Rightarrow> string list" where
  "hub_order pg cur forceSwitch bases =
     (if cur \<noteq> '''' \<and> \<not> forceSwitch then [cur] else [])
     @ (if sameOriginBase pg \<noteq> '''' \<and> sameOriginBase pg \<noteq> cur then [sameOriginBase pg] else [])
     @ filter (\<lambda>b. b \<noteq> '''') bases @ BUILTIN_SEEDS"

definition hub_candidates :: "string list \<Rightarrow> string list" where
  "hub_candidates order =
     fold (\<lambda>b acc. if b = '''' \<or> b \<in> set acc then acc else acc @ [b]) order []"

text \<open>The loop over chunks of four: it returns as soon as the current hub answered, unless the
  caller wants to leave it. The flag of the result tells so.\<close>

function probe_chunks :: "(string \<Rightarrow> hub_health option) \<Rightarrow> string \<Rightarrow> bool \<Rightarrow> string list \<Rightarrow> hub_health list
    \<Rightarrow> hub_health list \<times> bool" where
  "probe_chunks probe cur stay candidates probed =
     (if candidates = [] then (probed, False)
      else let probed' = probed @ List.map_filter probe (take 4 candidates)
           in if stay \<and> list_ex (\<lambda>p. hhBase p = cur) probed' then (probed', True)
              else probe_chunks probe cur stay (drop 4 candidates) probed')"
  by pat_completeness auto
termination by (relation "measure (\<lambda>(_, _, _, cs, _). length cs)") auto

datatype hub_reason = CurrentOk | NoneHealthy | Switched | Kept

record hub_result =
  rsBase :: string
  rsSwitched :: bool
  rsProbed :: "hub_health list"
  rsReason :: hub_reason

definition hub_pool :: "string \<Rightarrow> bool \<Rightarrow> hub_health list \<Rightarrow> hub_health list" where
  "hub_pool cur wantOther probed =
     (let alts = filter (\<lambda>p. hhBase p \<noteq> cur) probed
      in if wantOther \<and> alts \<noteq> [] then alts else probed)"

text \<open>What is decided from the answers: \<open>early\<close> says that the loop returned.\<close>

definition hub_verdict :: "string \<Rightarrow> string \<Rightarrow> bool \<Rightarrow> bool \<Rightarrow> hub_health list \<times> bool \<Rightarrow> hub_result" where
  "hub_verdict origin cur forceSwitch preferDifferent answers =
     (let (probed, early) = answers
      in if early then \<lparr>rsBase = cur, rsSwitched = False, rsProbed = probed, rsReason = CurrentOk\<rparr>
         else if probed = []
         then \<lparr>rsBase = cur, rsSwitched = False, rsProbed = probed, rsReason = NoneHealthy\<rparr>
         else
           let curAlive = list_ex (\<lambda>p. hhBase p = cur) probed;
               wantOther = (forceSwitch \<or> preferDifferent \<or> \<not> curAlive);
               pool = sort_key (\<lambda>p. scoreProbe (Some p) (if wantOther then '''' else cur) origin)
                        (hub_pool cur wantOther probed);
               best = hd pool;
               switched = (hhBase best \<noteq> cur)
           in \<lparr>rsBase = hhBase best, rsSwitched = switched, rsProbed = probed,
               rsReason = (if switched then Switched else Kept)\<rparr>)"

definition switch_hub :: "page \<Rightarrow> bool \<Rightarrow> string \<Rightarrow> hub_state \<Rightarrow> hub_state" where
  "switch_hub pg forceSwitch best s =
     (if autoFailoverEnabled s \<or> forceSwitch then setBase pg best (autoFailoverEnabled s) s
      else s\<lparr>currentBase := best\<rparr>)"

definition ensureHealthyHub :: "page \<Rightarrow> (string \<Rightarrow> health_response option)
    \<Rightarrow> (string \<Rightarrow> (string \<times> hub_entry) list option) \<Rightarrow> (string \<Rightarrow> live_directory option) \<Rightarrow> int
    \<Rightarrow> bool \<Rightarrow> bool \<Rightarrow> hub_state \<Rightarrow> hub_state \<times> hub_result" where
  "ensureHealthyHub pg fetch fetchStatic fetchLive now forceSwitch preferDifferent s0 =
     (let (s1, _) = resolveBaseSync pg s0;
          (s2, dir) = loadDirectory pg fetchStatic fetchLive now (forceSwitch \<or> preferDifferent) s1;
          (s3, cur) = hub_base pg s2;
          candidates = hub_candidates (hub_order pg cur forceSwitch (map fst dir));
          answers = probe_chunks (probeHealth pg fetch) cur (\<not> forceSwitch \<and> \<not> preferDifferent)
             candidates [];
          r = hub_verdict (sameOriginBase pg) cur forceSwitch preferDifferent answers
      in (if rsSwitched r then switch_hub pg forceSwitch (rsBase r) s3 else s3, r))"

section \<open>What the operations leave alone\<close>

lemma resolve_not_empty: "snd (resolveBaseSync pg s) \<noteq> ''''"
  by (simp add: resolveBaseSync_def Let_def first_nonempty_def BUILTIN_SEEDS_def)

lemma resolve_depends:
  "hbSaved s' = hbSaved s \<Longrightarrow> snd (resolveBaseSync pg s') = snd (resolveBaseSync pg s)"
  "query_base pg \<noteq> '''' \<Longrightarrow> snd (resolveBaseSync pg s') = snd (resolveBaseSync pg s)"
  by (simp_all add: resolveBaseSync_def Let_def getSavedBase_def)

lemma resolve_frame [simp]:
  "hbSaved (fst (resolveBaseSync pg s)) = hbSaved s" "hbAuto (fst (resolveBaseSync pg s)) = hbAuto s"
  "lastSiblingFailoverAt (fst (resolveBaseSync pg s)) = lastSiblingFailoverAt s"
  "currentBase (fst (resolveBaseSync pg s)) = snd (resolveBaseSync pg s)"
  by (simp_all add: resolveBaseSync_def Let_def)

lemma hub_base_frame [simp]:
  "hbSaved (fst (hub_base pg s)) = hbSaved s" "hbAuto (fst (hub_base pg s)) = hbAuto s"
  "lastSiblingFailoverAt (fst (hub_base pg s)) = lastSiblingFailoverAt s"
  by (simp_all add: hub_base_def)

lemma hub_base_set: "currentBase s \<noteq> '''' \<Longrightarrow> hub_base pg s = (s, currentBase s)"
  by (simp add: hub_base_def)

lemma load_frame [simp]:
  "hbSaved (fst (loadDirectory pg a b now force s)) = hbSaved s"
  "hbAuto (fst (loadDirectory pg a b now force s)) = hbAuto s"
  "lastSiblingFailoverAt (fst (loadDirectory pg a b now force s)) = lastSiblingFailoverAt s"
  by (simp_all add: loadDirectory_def Let_def case_prod_unfold)

lemma load_current: "currentBase s \<noteq> '''' \<Longrightarrow> currentBase (fst (loadDirectory pg a b now force s)) = currentBase s"
  by (simp add: loadDirectory_def Let_def case_prod_unfold hub_base_set)

lemma setBase_frame [simp]:
  "hbAuto (setBase pg b persist s) = hbAuto s"
  "lastSiblingFailoverAt (setBase pg b persist s) = lastSiblingFailoverAt s"
  "hbSaved (setBase pg b False s) = hbSaved s"
  by (simp_all add: setBase_def setSavedBase_def Let_def)

section \<open>Candidates and probes\<close>

lemma hub_candidates_set:
  "set (hub_candidates order) = set order - {''''} \<and> distinct (hub_candidates order)"
  unfolding hub_candidates_def
  by (induction order rule: rev_induct) auto

lemma map_filter_snd: "h \<in> set (List.map_filter f xs) \<longleftrightarrow> (\<exists>x \<in> set xs. f x = Some h)"
  by (force simp: List.map_filter_def)

declare probe_chunks.simps [simp del]

abbreviation chunk_probed :: "(string \<Rightarrow> hub_health option) \<Rightarrow> string list \<Rightarrow> hub_health list \<Rightarrow> hub_health list" where
  "chunk_probed f cs probed \<equiv> probed @ List.map_filter f (take 4 cs)"

lemma probe_chunks_empty: "probe_chunks f cur stay [] probed = (probed, False)"
  by (subst probe_chunks.simps) simp

lemma probe_chunks_stop:
  assumes "cs \<noteq> []" and "stay" and "list_ex (\<lambda>p. hhBase p = cur) (chunk_probed f cs probed)"
  shows "probe_chunks f cur stay cs probed = (chunk_probed f cs probed, True)"
  using assms by (subst probe_chunks.simps) (simp only: Let_def simp_thms if_True if_False)

lemma probe_chunks_go:
  assumes "cs \<noteq> []" and "\<not> (stay \<and> list_ex (\<lambda>p. hhBase p = cur) (chunk_probed f cs probed))"
  shows "probe_chunks f cur stay cs probed = probe_chunks f cur stay (drop 4 cs) (chunk_probed f cs probed)"
  using assms by (subst probe_chunks.simps) (simp only: Let_def if_False)

lemmas probe_chunks_cases = probe_chunks_empty probe_chunks_stop probe_chunks_go

lemma probe_chunks_sound:
  "set (fst (probe_chunks f cur stay cs probed)) \<subseteq> set probed \<union> {h. \<exists>b \<in> set cs. f b = Some h}
   \<and> (snd (probe_chunks f cur stay cs probed) \<longrightarrow>
        stay \<and> list_ex (\<lambda>p. hhBase p = cur) (fst (probe_chunks f cur stay cs probed)))"
proof (induction f cur stay cs probed rule: probe_chunks.induct)
  case (1 f cur stay cs probed)
  have here: "set (chunk_probed f cs probed) \<subseteq> set probed \<union> {h. \<exists>b \<in> set cs. f b = Some h}"
    unfolding set_append using set_take_subset [of 4 cs] map_filter_snd [of _ f "take 4 cs"] by blast
  consider (empty) "cs = []" | (stop) "cs \<noteq> []" "stay" "list_ex (\<lambda>p. hhBase p = cur) (chunk_probed f cs probed)"
    | (go) "cs \<noteq> []" "\<not> (stay \<and> list_ex (\<lambda>p. hhBase p = cur) (chunk_probed f cs probed))" by blast
  then show ?case
  proof cases
    case empty
    then show ?thesis by (simp add: probe_chunks_cases(1))
  next
    case stop
    then show ?thesis
      unfolding probe_chunks_stop [OF stop] using here by (simp only: fst_conv snd_conv simp_thms)
  next
    case go
    have "set (drop 4 cs) \<subseteq> set cs"
      by (rule set_drop_subset)
    with "1.IH" [OF go(1) refl go(2)] here show ?thesis
      unfolding probe_chunks_cases(3) [OF go] by blast
  qed
qed

section \<open>The verdict\<close>

definition verdict_pool :: "string \<Rightarrow> bool \<Rightarrow> hub_health list \<Rightarrow> hub_health list" where
  "verdict_pool cur leave probed =
     hub_pool cur (leave \<or> \<not> list_ex (\<lambda>p. hhBase p = cur) probed) probed"

definition verdict_score :: "string \<Rightarrow> string \<Rightarrow> bool \<Rightarrow> hub_health list \<Rightarrow> hub_health \<Rightarrow> int" where
  "verdict_score origin cur leave probed p =
     scoreProbe (Some p) (if leave \<or> \<not> list_ex (\<lambda>p. hhBase p = cur) probed then '''' else cur) origin"

lemma hd_sort_key:
  assumes "xs \<noteq> []"
  shows "hd (sort_key f xs) \<in> set xs \<and> (\<forall>x \<in> set xs. f (hd (sort_key f xs)) \<le> f x)"
proof -
  obtain y ys where y: "sort_key f xs = y # ys"
    using assms by (metis list.exhaust set_empty set_sort)
  have "sorted (map f (y # ys))"
    by (simp only: y [symmetric] sorted_sort_key)
  then have "\<forall>x \<in> set (y # ys). f y \<le> f x" by simp
  moreover have "set (y # ys) = set xs"
    by (simp only: y [symmetric] set_sort)
  ultimately show ?thesis
    by (simp only: y list.sel) auto
qed

lemma hub_verdict_sound:
  assumes r_def: "r = hub_verdict origin cur forceSwitch preferDifferent (probed, early)"
  shows "rsProbed r = probed" "rsSwitched r \<longleftrightarrow> rsBase r \<noteq> cur"
    "rsBase r = cur \<or> rsBase r \<in> hhBase ` set probed"
    "probed \<noteq> [] \<Longrightarrow> \<not> early \<Longrightarrow>
       \<exists>h \<in> set (verdict_pool cur (forceSwitch \<or> preferDifferent) probed). hhBase h = rsBase r
         \<and> (\<forall>p \<in> set (verdict_pool cur (forceSwitch \<or> preferDifferent) probed).
              verdict_score origin cur (forceSwitch \<or> preferDifferent) probed h
              \<le> verdict_score origin cur (forceSwitch \<or> preferDifferent) probed p)"
proof -
  let ?leave = "forceSwitch \<or> preferDifferent"
  let ?pool = "verdict_pool cur ?leave probed"
  let ?best = "hd (sort_key (verdict_score origin cur ?leave probed) ?pool)"
  have sub: "set ?pool \<subseteq> set probed"
    by (auto simp: verdict_pool_def hub_pool_def Let_def)
  have ne: "probed \<noteq> [] \<Longrightarrow> ?pool \<noteq> []"
    by (simp add: verdict_pool_def hub_pool_def Let_def)
  have sc: "verdict_score origin cur ?leave probed = (\<lambda>p. scoreProbe (Some p)
      (if ?leave \<or> \<not> list_ex (\<lambda>p. hhBase p = cur) probed then '''' else cur) origin)"
    by (simp add: fun_eq_iff verdict_score_def)
  have r: "r = (if early then \<lparr>rsBase = cur, rsSwitched = False, rsProbed = probed, rsReason = CurrentOk\<rparr>
      else if probed = [] then \<lparr>rsBase = cur, rsSwitched = False, rsProbed = probed, rsReason = NoneHealthy\<rparr>
      else \<lparr>rsBase = hhBase ?best, rsSwitched = hhBase ?best \<noteq> cur, rsProbed = probed,
            rsReason = if hhBase ?best \<noteq> cur then Switched else Kept\<rparr>)"
    unfolding r_def hub_verdict_def Let_def sc verdict_pool_def by (simp only: prod.case disj_assoc)
  show "rsProbed r = probed" "rsSwitched r \<longleftrightarrow> rsBase r \<noteq> cur"
    by (simp_all add: r)
  show "rsBase r = cur \<or> rsBase r \<in> hhBase ` set probed"
    using hd_sort_key [OF ne] sub by (auto simp: r)
  show "\<exists>h \<in> set ?pool. hhBase h = rsBase r \<and> (\<forall>p \<in> set ?pool.
      verdict_score origin cur ?leave probed h \<le> verdict_score origin cur ?leave probed p)"
    if "probed \<noteq> []" "\<not> early"
    using hd_sort_key [OF ne [OF that(1)], of "verdict_score origin cur ?leave probed"] that
    by (intro bexI [of _ ?best]) (simp_all add: r)
qed

lemma ensure_parts:
  assumes "ensureHealthyHub pg fetch fetchStatic fetchLive now forceSwitch preferDifferent s0 = (s, r)"
    and "cur = snd (resolveBaseSync pg s0)"
  shows "\<exists>probed early. r = hub_verdict (sameOriginBase pg) cur forceSwitch preferDifferent (probed, early)
    \<and> set probed \<subseteq> {h. \<exists>b. probeHealth pg fetch b = Some h}
    \<and> (early \<longrightarrow> \<not> forceSwitch \<and> \<not> preferDifferent \<and> list_ex (\<lambda>p. hhBase p = cur) probed)"
proof -
  define s1 where "s1 = fst (resolveBaseSync pg s0)"
  define ld where "ld = loadDirectory pg fetchStatic fetchLive now (forceSwitch \<or> preferDifferent) s1"
  define pc where "pc = probe_chunks (probeHealth pg fetch) cur (\<not> forceSwitch \<and> \<not> preferDifferent)
     (hub_candidates (hub_order pg cur forceSwitch (map fst (snd ld)))) []"
  have base: "hub_base pg (fst ld) = (fst ld, cur)"
    using resolve_not_empty [of pg s0] by (simp add: hub_base_def ld_def load_current s1_def assms(2))
  have "r = hub_verdict (sameOriginBase pg) cur forceSwitch preferDifferent pc"
    using assms(1)
    by (simp add: ensureHealthyHub_def Let_def case_prod_unfold s1_def [symmetric] ld_def [symmetric]
        base pc_def [symmetric])
  moreover have "set (fst pc) \<subseteq> {h. \<exists>b. probeHealth pg fetch b = Some h}"
    "snd pc \<longrightarrow> \<not> forceSwitch \<and> \<not> preferDifferent \<and> list_ex (\<lambda>p. hhBase p = cur) (fst pc)"
    using probe_chunks_sound [of "probeHealth pg fetch" cur "\<not> forceSwitch \<and> \<not> preferDifferent"
        "hub_candidates (hub_order pg cur forceSwitch (map fst (snd ld)))" "[]"]
    by (auto simp: pc_def)
  ultimately show ?thesis by (intro exI [of _ "fst pc"] exI [of _ "snd pc"]) simp
qed

section \<open>Properties\<close>

text \<open>The hub the check settles on is the current one or one that answered its health request; a
  switch is reported exactly when it differs; and when hubs answered, the hub settled on has the
  least score of the pool, unless the current hub answered and the caller wanted to stay.\<close>

theorem ensureHealthyHub_choice:
  assumes "ensureHealthyHub pg fetch fetchStatic fetchLive now forceSwitch preferDifferent s0 = (s, r)"
    and "cur = snd (resolveBaseSync pg s0)"
  shows "(rsSwitched r \<longleftrightarrow> rsBase r \<noteq> cur)
    \<and> (rsBase r = cur \<or> rsBase r \<in> hhBase ` set (rsProbed r))
    \<and> set (rsProbed r) \<subseteq> {h. \<exists>b. probeHealth pg fetch b = Some h}
    \<and> (rsProbed r = [] \<or> rsBase r = cur \<and> \<not> forceSwitch \<and> \<not> preferDifferent
       \<or> (\<exists>h \<in> set (verdict_pool cur (forceSwitch \<or> preferDifferent) (rsProbed r)). hhBase h = rsBase r
           \<and> (\<forall>p \<in> set (verdict_pool cur (forceSwitch \<or> preferDifferent) (rsProbed r)).
                verdict_score (sameOriginBase pg) cur (forceSwitch \<or> preferDifferent) (rsProbed r) h
                \<le> verdict_score (sameOriginBase pg) cur (forceSwitch \<or> preferDifferent) (rsProbed r) p)))"
proof -
  obtain probed early where
    r: "r = hub_verdict (sameOriginBase pg) cur forceSwitch preferDifferent (probed, early)"
    and from_probe: "set probed \<subseteq> {h. \<exists>b. probeHealth pg fetch b = Some h}"
    and early: "early \<longrightarrow> \<not> forceSwitch \<and> \<not> preferDifferent \<and> list_ex (\<lambda>p. hhBase p = cur) probed"
    using ensure_parts [OF assms] by blast
  note sound = hub_verdict_sound [OF r]
  have "early \<Longrightarrow> rsBase r = cur"
    by (simp add: r hub_verdict_def)
  then show ?thesis
    using sound early from_probe by (cases "probed = [] \<or> early") (auto simp only: sound(1) simp_thms)
qed

text \<open>A switch that is not saved is undone by the next check: without auto-failover, or when the
  page names a hub in its query, the next resolution gives the old hub again.\<close>

theorem hub_switch_forgotten:
  assumes "ensureHealthyHub pg fetch fetchStatic fetchLive now forceSwitch preferDifferent s0 = (s, r)"
    and "\<not> autoFailoverEnabled s0 \<or> query_base pg \<noteq> ''''"
  shows "snd (resolveBaseSync pg s) = snd (resolveBaseSync pg s0)"
proof (cases "query_base pg \<noteq> ''''")
  case True
  then show ?thesis by (rule resolve_depends(2))
next
  case False
  with assms(2) have auto: "\<not> autoFailoverEnabled s0" by simp
  have same: "autoFailoverEnabled t = autoFailoverEnabled s0" if "hbAuto t = hbAuto s0" for t
    using that by (simp add: autoFailoverEnabled_def)
  have "hbSaved (switch_hub pg forceSwitch b t) = hbSaved t" if "hbAuto t = hbAuto s0" for b t
    using auto same [OF that] by (simp add: switch_hub_def)
  then have "hbSaved s = hbSaved s0"
    using assms(1) by (auto simp: ensureHealthyHub_def Let_def case_prod_unfold split: if_splits)
  then show ?thesis by (rule resolve_depends(1))
qed

section \<open>The failover limit over any sequence of socket closes\<close>

fun sibling_times :: "page \<Rightarrow> int list \<Rightarrow> hub_state \<Rightarrow> int list" where
  "sibling_times pg [] s = []"
| "sibling_times pg (t # ts) s =
     (let (s', moved) = trySiblingFailover pg t s
      in if moved then t # sibling_times pg ts s' else sibling_times pg ts s')"

lemma failover_stamp:
  "lastSiblingFailoverAt (fst (trySiblingFailover pg t s))
     = (if snd (trySiblingFailover pg t s) then t else lastSiblingFailoverAt s)"
  by (simp add: trySiblingFailover_def Let_def case_prod_unfold)

lemma failover_gap:
  "snd (trySiblingFailover pg t s) \<Longrightarrow> lastSiblingFailoverAt s \<noteq> 0 \<Longrightarrow>
     lastSiblingFailoverAt s + SIBLING_FAILOVER_MS \<le> t"
  by (simp add: trySiblingFailover_def Let_def case_prod_unfold split: if_splits)

lemma sibling_times_spaced:
  assumes "list_all (\<lambda>t. 0 < t) ts"
  shows "sorted_wrt (\<lambda>a b. a + SIBLING_FAILOVER_MS \<le> b) (sibling_times pg ts s)
    \<and> (lastSiblingFailoverAt s \<noteq> 0 \<longrightarrow>
        (\<forall>t \<in> set (sibling_times pg ts s). lastSiblingFailoverAt s + SIBLING_FAILOVER_MS \<le> t))"
  using assms
proof (induction ts arbitrary: s)
  case (Cons t ts)
  let ?s = "fst (trySiblingFailover pg t s)"
  have IH: "sorted_wrt (\<lambda>a b. a + SIBLING_FAILOVER_MS \<le> b) (sibling_times pg ts ?s)"
    "lastSiblingFailoverAt ?s \<noteq> 0 \<longrightarrow>
       (\<forall>t \<in> set (sibling_times pg ts ?s). lastSiblingFailoverAt ?s + SIBLING_FAILOVER_MS \<le> t)"
    using Cons.IH [of ?s] Cons.prems by simp_all
  show ?case
  proof (cases "snd (trySiblingFailover pg t s)")
    case True
    then have later: "\<forall>u \<in> set (sibling_times pg ts ?s). t + SIBLING_FAILOVER_MS \<le> u"
      using IH(2) Cons.prems by (simp add: failover_stamp)
    moreover have "lastSiblingFailoverAt s \<noteq> 0 \<Longrightarrow> lastSiblingFailoverAt s + SIBLING_FAILOVER_MS \<le> t"
      using True by (rule failover_gap)
    moreover have "0 \<le> SIBLING_FAILOVER_MS" by (simp add: SIBLING_FAILOVER_MS_def)
    ultimately show ?thesis
      using True IH(1) by (auto simp: Let_def case_prod_unfold)
  next
    case False
    then show ?thesis
      using IH by (simp add: Let_def case_prod_unfold failover_stamp)
  qed
qed simp

text \<open>However often the socket closes, two sibling failovers are at least 20 seconds apart.\<close>

theorem sibling_failovers_spaced:
  assumes "list_all (\<lambda>t. 0 < t) ts"
  shows "sorted_wrt (\<lambda>a b. a + SIBLING_FAILOVER_MS \<le> b) (sibling_times pg ts s)"
  using sibling_times_spaced [OF assms] by blast

section \<open>Concrete runs\<close>

definition demo_url :: "string \<Rightarrow> url option" where
  "demo_url s =
     (if s = ''https://ruletka.vip'' then
        Some \<lparr>urProtocol = ''https:'', urHost = ''ruletka.vip'', urHostname = ''ruletka.vip'', urOrigin = s\<rparr>
      else if s = ''https://ruletka.me'' then
        Some \<lparr>urProtocol = ''https:'', urHost = ''ruletka.me'', urHostname = ''ruletka.me'', urOrigin = s\<rparr>
      else None)"

definition demo_page :: page where
  "demo_page = \<lparr>pgOrigin = ''https://ruletka.vip'', pgProtocol = ''https:'', pgHost = ''ruletka.vip'',
     pgQueryHub = None, pgParse = demo_url, pgParseAbs = demo_url,
     pgWithHost = (\<lambda>u h. ''https://'' @ h)\<rparr>"

definition demo_state :: "string option \<Rightarrow> hub_state" where
  "demo_state a = \<lparr>hbSaved = None, hbAuto = a, currentBase = '''', directoryCache = [],
     directoryLoadedAt = 0, lastSiblingFailoverAt = 0\<rparr>"

definition demo_fetch :: "string \<Rightarrow> health_response option" where
  "demo_fetch b = (if b = ''https://ruletka.me''
     then Some \<lparr>hrOk = True, hrService = True, hrOnline = 3, hrWaiting = 1, hrHasTurn = True, hrRttMs = 60\<rparr>
     else None)"

abbreviation demo_ensure :: "string option \<Rightarrow> hub_state \<times> hub_result" where
  "demo_ensure a \<equiv> ensureHealthyHub demo_page demo_fetch (\<lambda>_. None) (\<lambda>_. None) 1000 False False (demo_state a)"

theorem ensureHealthyHub_choice_witness:
  "rsBase (snd (demo_ensure None)) = ''https://ruletka.me''
   \<and> (rsSwitched (snd (demo_ensure None))
       \<longleftrightarrow> rsBase (snd (demo_ensure None)) \<noteq> snd (resolveBaseSync demo_page (demo_state None)))"
proof
  show "rsBase (snd (demo_ensure None)) = ''https://ruletka.me''" by code_simp
  show "rsSwitched (snd (demo_ensure None))
     \<longleftrightarrow> rsBase (snd (demo_ensure None)) \<noteq> snd (resolveBaseSync demo_page (demo_state None))"
    using ensureHealthyHub_choice [OF prod.collapse [symmetric] refl, of demo_page demo_fetch
        "\<lambda>_. None" "\<lambda>_. None" 1000 False False "demo_state None"] by (rule conjunct1)
qed

theorem hub_switch_forgotten_witness:
  "currentBase (fst (demo_ensure (Some ''0''))) = ''https://ruletka.me''
   \<and> snd (resolveBaseSync demo_page (fst (demo_ensure (Some ''0''))))
     = snd (resolveBaseSync demo_page (demo_state (Some ''0'')))"
proof
  show "currentBase (fst (demo_ensure (Some ''0''))) = ''https://ruletka.me''" by code_simp
  have off: "\<not> autoFailoverEnabled (demo_state (Some ''0'')) \<or> query_base demo_page \<noteq> ''''"
    by code_simp
  show "snd (resolveBaseSync demo_page (fst (demo_ensure (Some ''0''))))
     = snd (resolveBaseSync demo_page (demo_state (Some ''0'')))"
    by (rule hub_switch_forgotten [OF prod.collapse [symmetric] off])
qed

theorem sibling_failovers_spaced_witness:
  "sibling_times demo_page [5000, 9000, 26000] (demo_state None) = [5000, 26000]
   \<and> sorted_wrt (\<lambda>a b. a + SIBLING_FAILOVER_MS \<le> b) (sibling_times demo_page [5000, 9000, 26000] (demo_state None))"
  using sibling_failovers_spaced [of "[5000, 9000, 26000]" demo_page "demo_state None"]
  by (simp add: list_all_iff) code_simp

end
