(* ===== verification/JsVal.thy ===== *)
theory JsVal
  imports JsMap
begin

text \<open>
  Dynamic JavaScript values: what \<open>JSON.parse\<close> gives and what the sources read from it with
  \<open>||\<close>, \<open>??\<close>, \<open>String(..)\<close> and \<open>Number(..)\<close>. Numbers are integers; \<open>NaN\<close>, the result of a
  conversion that fails, is \<open>None\<close>. A string converts to a number when it is blank or a
  decimal integer with an optional sign; fractions, exponents and hexadecimal are not modelled.
\<close>

datatype jsval =
    JUndef | JNull | JBool bool | JNum int | JStr string
  | JArr "jsval list" | JObj "(string \<times> jsval) list"

fun js_truthy :: "jsval \<Rightarrow> bool" where
  "js_truthy JUndef = False"
| "js_truthy JNull = False"
| "js_truthy (JBool b) = b"
| "js_truthy (JNum n) = (n \<noteq> 0)"
| "js_truthy (JStr s) = (s \<noteq> '''')"
| "js_truthy (JArr _) = True"
| "js_truthy (JObj _) = True"

text \<open>\<open>v == null\<close>.\<close>

fun js_null :: "jsval \<Rightarrow> bool" where
  "js_null JUndef = True"
| "js_null JNull = True"
| "js_null _ = False"

definition js_or :: "jsval \<Rightarrow> jsval \<Rightarrow> jsval" where
  "js_or a b = (if js_truthy a then a else b)"

definition js_nullish :: "jsval \<Rightarrow> jsval \<Rightarrow> jsval" where
  "js_nullish a b = (if js_null a then b else a)"

fun js_join :: "string \<Rightarrow> string list \<Rightarrow> string" where
  "js_join sep [] = ''''"
| "js_join sep [x] = x"
| "js_join sep (x # y # zs) = x @ sep @ js_join sep (y # zs)"

fun js_string :: "jsval \<Rightarrow> string" where
  "js_string JUndef = ''undefined''"
| "js_string JNull = ''null''"
| "js_string (JBool b) = (if b then ''true'' else ''false'')"
| "js_string (JNum n) = show_int n"
| "js_string (JStr s) = s"
| "js_string (JArr xs) = js_join '','' (map (\<lambda>x. if js_null x then '''' else js_string x) xs)"
| "js_string (JObj _) = ''[object Object]''"

definition str_number :: "string \<Rightarrow> int option" where
  "str_number s =
     (let t = js_trim s
      in case t of [] \<Rightarrow> Some 0
         | c # ds \<Rightarrow>
             if (c = CHR ''-'' \<or> c = CHR ''+'') \<and> ds \<noteq> [] \<and> list_all js_digit ds
             then Some (if c = CHR ''-'' then - int (read_nat ds) else int (read_nat ds))
             else if list_all js_digit t then Some (int (read_nat t)) else None)"

fun js_number :: "jsval \<Rightarrow> int option" where
  "js_number JUndef = None"
| "js_number JNull = Some 0"
| "js_number (JBool b) = Some (if b then 1 else 0)"
| "js_number (JNum n) = Some n"
| "js_number (JStr s) = str_number s"
| "js_number (JArr xs) = str_number (js_string (JArr xs))"
| "js_number (JObj _) = None"

text \<open>\<open>Number(v) || d\<close>.\<close>

definition num_or :: "jsval \<Rightarrow> int \<Rightarrow> int" where
  "num_or v d = (case js_number v of None \<Rightarrow> d | Some n \<Rightarrow> if n = 0 then d else n)"

text \<open>\<open>String(v || "")\<close>.\<close>

definition str_or :: "jsval \<Rightarrow> string" where
  "str_or v = (if js_truthy v then js_string v else '''')"

text \<open>Property access on an object, spreading one object over another, \<open>"k" in o\<close>.\<close>

type_synonym jsobj = "(string, jsval) jsmap"

definition oget :: "jsobj \<Rightarrow> string \<Rightarrow> jsval" where
  "oget ob k = (case jget ob k of None \<Rightarrow> JUndef | Some v \<Rightarrow> v)"

definition ospread :: "jsobj \<Rightarrow> jsobj \<Rightarrow> jsobj" where
  "ospread base ob = fold (\<lambda>(k, v) acc. jset k v acc) ob base"

text \<open>\<open>v?.k\<close> on a value that may not be an object; arrays and strings have no such field here.\<close>

definition vget :: "jsval \<Rightarrow> string \<Rightarrow> jsval" where
  "vget v k = (case v of JObj ob \<Rightarrow> oget ob k | _ \<Rightarrow> JUndef)"

named_theorems jsval_simps \<open>reading fields and conversions\<close>

lemma js_or_simps [jsval_simps]:
  "js_truthy a \<Longrightarrow> js_or a b = a" "\<not> js_truthy a \<Longrightarrow> js_or a b = b"
  by (simp_all add: js_or_def)

lemma str_or_simps [simp]:
  "str_or JUndef = ''''" "str_or JNull = ''''" "str_or (JStr s) = s"
  by (simp_all add: str_or_def)

lemma str_or_or: "str_or (js_or a b) = (if js_truthy a then js_string a else str_or b)"
  by (simp add: str_or_def js_or_def)

lemma num_or_num [simp]: "num_or (JNum n) d = (if n = 0 then d else n)" "num_or JUndef d = d"
  by (simp_all add: num_or_def)

lemma oget_jset [simp]: "oget (jset k v ob) k' = (if k' = k then v else oget ob k')"
  by (simp add: oget_def jget_def jset_def update_conv')

lemma oget_Nil [simp]: "oget [] k = JUndef"
  by (simp add: oget_def jget_def)

lemma oget_Cons [simp]: "oget ((k, v) # ob) k' = (if k' = k then v else oget ob k')"
  by (simp add: oget_def jget_def)

lemma map_of_spread:
  "map_of (ospread base ob) = fold (\<lambda>(k, v) m. m(k \<mapsto> v)) ob (map_of base)"
  unfolding ospread_def
  by (induction ob arbitrary: base) (auto simp: jset_def update_conv' case_prod_unfold)

lemma fold_upd_distinct:
  "distinct (map fst ob) \<Longrightarrow> fold (\<lambda>(k, v) m. m(k \<mapsto> v)) ob m = m ++ map_of ob"
proof (induction ob arbitrary: m)
  case (Cons e ob)
  obtain k v where e: "e = (k, v)" by fastforce
  with Cons.prems have "k \<notin> dom (map_of ob)"
    by (simp add: dom_map_of_conv_image_fst)
  with Cons e show ?case
    by (auto simp: map_add_def fun_eq_iff domIff split: option.splits)
qed simp

lemma oget_spread:
  "distinct (map fst ob) \<Longrightarrow>
     oget (ospread base ob) k = (case jget ob k of None \<Rightarrow> oget base k | Some v \<Rightarrow> v)"
  by (simp add: oget_def jget_def map_of_spread fold_upd_distinct map_add_def split: option.splits)

end
