(* ===== verification/Json.thy ===== *)
theory Json
  imports JsVal
begin

text \<open>
  \<open>JSON.stringify\<close> and \<open>JSON.parse\<close> on the values of \<open>JsVal\<close>. Printing is exact; the parser
  reads integers only (a fraction or an exponent is a failure here) and code units below 256.
  The main result is the round trip \<open>json_roundtrip\<close>.
\<close>

section \<open>Printing\<close>

definition json_hex_digit :: "nat \<Rightarrow> char" where
  "json_hex_digit d = char_of (if d < 10 then 48 + d else 87 + d)"

definition json_escape :: "char \<Rightarrow> string" where
  "json_escape c =
     (if c = CHR 0x22 then [CHR 0x5C, CHR 0x22] else if c = CHR 0x5C then [CHR 0x5C, CHR 0x5C]
      else if c = CHR 0x08 then [CHR 0x5C, CHR ''b''] else if c = CHR 0x09 then [CHR 0x5C, CHR ''t'']
      else if c = LF then [CHR 0x5C, CHR ''n''] else if c = CHR 0x0C then [CHR 0x5C, CHR ''f'']
      else if c = CR then [CHR 0x5C, CHR ''r'']
      else if of_char c < (32 :: nat)
      then [CHR 0x5C, CHR ''u'', CHR ''0'', CHR ''0'', json_hex_digit (of_char c div 16), json_hex_digit (of_char c mod 16)]
      else [c])"

definition json_quote :: "string \<Rightarrow> string" where
  "json_quote s = CHR 0x22 # concat (map json_escape s) @ [CHR 0x22]"

text \<open>An undefined member is left out of an object and is \<open>null\<close> in an array.\<close>

fun json_text :: "jsval \<Rightarrow> string" where
  "json_text JUndef = ''null''"
| "json_text JNull = ''null''"
| "json_text (JBool b) = (if b then ''true'' else ''false'')"
| "json_text (JNum n) = show_int n"
| "json_text (JStr s) = json_quote s"
| "json_text (JArr vs) = ''['' @ js_join '','' (map json_text vs) @ '']''"
| "json_text (JObj ms) =
     ''{'' @ js_join '','' (map (\<lambda>(k, v). json_quote k @ '':'' @ json_text v)
        (filter (\<lambda>(k, v). v \<noteq> JUndef) ms)) @ ''}''"

section \<open>Parsing\<close>

definition json_space :: "char \<Rightarrow> bool" where
  "json_space c \<longleftrightarrow> c = CHR '' '' \<or> c = CHR 0x09 \<or> c = LF \<or> c = CR"

definition json_skip :: "string \<Rightarrow> string" where
  "json_skip s = dropWhile json_space s"

definition hex_val :: "char \<Rightarrow> nat option" where
  "hex_val c = (let n = of_char c :: nat
     in if 48 \<le> n \<and> n \<le> 57 then Some (n - 48) else if 97 \<le> n \<and> n \<le> 102 then Some (n - 87)
        else if 65 \<le> n \<and> n \<le> 70 then Some (n - 55) else None)"

definition hex4 :: "char \<Rightarrow> char \<Rightarrow> char \<Rightarrow> char \<Rightarrow> char option" where
  "hex4 a b c d =
     (case (hex_val a, hex_val b, hex_val c, hex_val d) of
        (Some w, Some x, Some y, Some z) \<Rightarrow>
          if w = 0 \<and> x = 0 then Some (char_of (16 * y + z)) else None
      | _ \<Rightarrow> None)"

definition unescape :: "char \<Rightarrow> char option" where
  "unescape e =
     (if e = CHR 0x22 \<or> e = CHR 0x5C \<or> e = CHR ''/'' then Some e
      else if e = CHR ''b'' then Some (CHR 0x08) else if e = CHR ''t'' then Some (CHR 0x09)
      else if e = CHR ''n'' then Some LF else if e = CHR ''f'' then Some (CHR 0x0C)
      else if e = CHR ''r'' then Some CR else None)"

definition put_char :: "char \<Rightarrow> (string \<times> string) option \<Rightarrow> (string \<times> string) option" where
  "put_char c r = (case r of None \<Rightarrow> None | Some (s, t) \<Rightarrow> Some (c # s, t))"

fun parse_str :: "string \<Rightarrow> (string \<times> string) option" where
  "parse_str [] = None"
| "parse_str (c # r) =
     (if c = CHR 0x22 then Some ([], r)
      else if c = CHR 0x5C then
        (case r of
           [] \<Rightarrow> None
         | e # r1 \<Rightarrow>
             if e = CHR ''u'' then
               (case r1 of
                  a # b # x # y # r2 \<Rightarrow>
                    (case hex4 a b x y of None \<Rightarrow> None | Some d \<Rightarrow> put_char d (parse_str r2))
                | _ \<Rightarrow> None)
             else (case unescape e of None \<Rightarrow> None | Some d \<Rightarrow> put_char d (parse_str r1)))
      else if of_char c < (32 :: nat) then None
      else put_char c (parse_str r))"

definition parse_digits :: "string \<Rightarrow> (nat \<times> string) option" where
  "parse_digits s =
     (let ds = takeWhile js_digit s
      in if ds = [] \<or> hd ds = CHR ''0'' \<and> tl ds \<noteq> [] then None else Some (read_nat ds, drop (length ds) s))"

definition parse_number :: "string \<Rightarrow> (jsval \<times> string) option" where
  "parse_number s =
     (let neg = js_starts s ''-''
      in case parse_digits (if neg then tl s else s) of
           None \<Rightarrow> None
         | Some (n, r) \<Rightarrow>
             if r \<noteq> [] \<and> hd r \<in> {CHR ''.'', CHR ''e'', CHR ''E''} then None
             else Some (JNum (if neg then - int n else int n), r))"

definition parse_word :: "string \<Rightarrow> (jsval \<times> string) option" where
  "parse_word s =
     (if js_starts s ''null'' then Some (JNull, drop 4 s)
      else if js_starts s ''true'' then Some (JBool True, drop 4 s)
      else if js_starts s ''false'' then Some (JBool False, drop 5 s) else parse_number s)"

text \<open>\<open>parse_items\<close> reads the elements after \<open>[\<close> or a comma, \<open>parse_members\<close> the members after
  \<open>{\<close> or a comma; a repeated key keeps its place and takes the later value.\<close>

fun parse_value :: "nat \<Rightarrow> string \<Rightarrow> (jsval \<times> string) option"
  and parse_items :: "nat \<Rightarrow> string \<Rightarrow> (jsval list \<times> string) option"
  and parse_members :: "nat \<Rightarrow> string \<Rightarrow> jsobj \<Rightarrow> (jsobj \<times> string) option" where
  "parse_value 0 s = None"
| "parse_value (Suc n) s =
     (case json_skip s of
        [] \<Rightarrow> None
      | c # r \<Rightarrow>
          if c = CHR 0x22 then map_option (\<lambda>(t, r'). (JStr t, r')) (parse_str r)
          else if c = CHR ''['' then
            (if js_starts (json_skip r) '']'' then Some (JArr [], tl (json_skip r))
             else map_option (\<lambda>(vs, r'). (JArr vs, r')) (parse_items n r))
          else if c = CHR ''{'' then
            (if js_starts (json_skip r) ''}'' then Some (JObj [], tl (json_skip r))
             else map_option (\<lambda>(ms, r'). (JObj ms, r')) (parse_members n r []))
          else parse_word (c # r))"
| "parse_items 0 s = None"
| "parse_items (Suc n) s =
     (case parse_value n s of
        None \<Rightarrow> None
      | Some (v, r) \<Rightarrow>
          (case json_skip r of
             [] \<Rightarrow> None
           | c # r' \<Rightarrow> if c = CHR '','' then map_option (\<lambda>(vs, q). (v # vs, q)) (parse_items n r')
                      else if c = CHR '']'' then Some ([v], r') else None))"
| "parse_members 0 s acc = None"
| "parse_members (Suc n) s acc =
     (if \<not> js_starts (json_skip s) [CHR 0x22] then None
      else case parse_str (tl (json_skip s)) of
             None \<Rightarrow> None
           | Some (k, r) \<Rightarrow>
               if \<not> js_starts (json_skip r) '':'' then None
               else (case parse_value n (tl (json_skip r)) of
                       None \<Rightarrow> None
                     | Some (v, r1) \<Rightarrow>
                         (case json_skip r1 of
                            [] \<Rightarrow> None
                          | c # r' \<Rightarrow> if c = CHR '','' then parse_members n r' (jset k v acc)
                                     else if c = CHR ''}'' then Some (jset k v acc, r') else None)))"

definition json_parse :: "string \<Rightarrow> jsval option" where
  "json_parse s =
     (case parse_value (2 * length s + 2) s of
        Some (v, r) \<Rightarrow> if json_skip r = [] then Some v else None
      | None \<Rightarrow> None)"

section \<open>The round trip\<close>

fun json_ok :: "jsval \<Rightarrow> bool" where
  "json_ok JUndef = False"
| "json_ok JNull = True"
| "json_ok (JBool b) = True"
| "json_ok (JNum n) = True"
| "json_ok (JStr s) = True"
| "json_ok (JArr vs) = list_all json_ok vs"
| "json_ok (JObj ms) = (distinct (map fst ms) \<and> list_all (\<lambda>(k, v). json_ok v) ms)"

lemma of_char_eq: "(of_char c :: nat) = of_char d \<longleftrightarrow> c = d"
  by simp

lemma hex_val_digit: "d < 16 \<Longrightarrow> hex_val (json_hex_digit d) = Some d"
  by (simp add: hex_val_def json_hex_digit_def Let_def)

lemma hex4_escape: "of_char c < (32::nat) \<Longrightarrow>
  hex4 (CHR ''0'') (CHR ''0'') (json_hex_digit (of_char c div 16)) (json_hex_digit (of_char c mod 16)) = Some c"
proof -
  assume "of_char c < (32::nat)"
  then have "hex_val (json_hex_digit (of_char c div 16)) = Some (of_char c div 16)"
    "hex_val (json_hex_digit (of_char c mod 16)) = Some (of_char c mod 16)"
    by (simp_all add: hex_val_digit)
  moreover have "16 * (of_char c div 16) + of_char c mod 16 = (of_char c :: nat)" by simp
  moreover have "hex_val (CHR ''0'') = Some 0" by (simp add: hex_val_def)
  ultimately show ?thesis by (simp add: hex4_def)
qed

lemma parse_str_escape: "parse_str (json_escape c @ t) = put_char c (parse_str t)"
proof (cases "of_char c < (32::nat) \<and> c \<noteq> CHR 0x08 \<and> c \<noteq> CHR 0x09 \<and> c \<noteq> LF \<and> c \<noteq> CHR 0x0C \<and> c \<noteq> CR")
  case True
  then have lt: "of_char c < (32::nat)" by (rule conjunct1)
  have "c \<noteq> CHR 0x22" "c \<noteq> CHR 0x5C" by (rule notI, use lt in simp)+
  with True show ?thesis by (simp add: json_escape_def hex4_escape)
next
  case False
  then consider "c = CHR 0x08" | "c = CHR 0x09" | "c = LF" | "c = CHR 0x0C" | "c = CR"
    | "c = CHR 0x22" | "c = CHR 0x5C" | "\<not> of_char c < (32::nat)" "c \<noteq> CHR 0x22" "c \<noteq> CHR 0x5C"
    by blast
  then show ?thesis
  proof cases
    case 8
    then have ge: "\<not> of_char c < (32::nat)" by simp
    have "c \<noteq> CHR 0x08" "c \<noteq> CHR 0x09" "c \<noteq> LF" "c \<noteq> CHR 0x0C" "c \<noteq> CR"
      by (rule notI, use ge in simp)+
    with 8 show ?thesis by (simp add: json_escape_def)
  qed (simp_all add: json_escape_def unescape_def)
qed

lemma parse_str_quote: "parse_str (concat (map json_escape s) @ CHR 0x22 # rest) = Some (s, rest)"
  by (induction s) (simp_all add: parse_str_escape put_char_def)

lemma show_nat_hd_zero: "hd (show_nat n) = CHR ''0'' \<Longrightarrow> tl (show_nat n) = []"
proof (induction n rule: show_nat.induct)
  case (1 n)
  show ?case
  proof (cases "n < 10")
    case True
    then show ?thesis by (subst show_nat.simps) simp
  next
    case False
    then have n: "show_nat n = show_nat (n div 10) @ [dec_digit (n mod 10)]"
      by (subst show_nat.simps) simp
    with "1.prems" have "hd (show_nat (n div 10)) = CHR ''0''" by simp
    with "1.IH" [OF False] have "show_nat (n div 10) = ''0''"
      by (cases "show_nat (n div 10)") auto
    then have "read_nat (show_nat (n div 10)) = 0"
      by (simp add: read_nat_def read_digit_def)
    with False show ?thesis by (simp only: read_show_nat)
  qed
qed

definition delim :: "string \<Rightarrow> bool" where
  "delim rest \<longleftrightarrow> rest = [] \<or> hd rest \<in> {CHR '','', CHR '']'', CHR ''}''}"

lemma takeWhile_digits: "delim rest \<Longrightarrow> takeWhile js_digit (show_nat n @ rest) = show_nat n"
proof -
  assume "delim rest"
  then have "takeWhile js_digit rest = []"
    by (cases rest) (auto simp: delim_def js_digit_def char_range_def less_eq_char_def)
  then show ?thesis
    using show_nat_digits [of _ n] by (simp add: takeWhile_append)
qed

lemma parse_digits_show: "delim rest \<Longrightarrow> parse_digits (show_nat n @ rest) = Some (n, rest)"
  using show_nat_hd_zero [of n] by (simp add: parse_digits_def takeWhile_digits Let_def)

lemma show_nat_hd: "js_digit (hd (show_nat n))"
  by (rule show_nat_digits [of _ n]) simp

lemma digit_cases: "js_digit c \<Longrightarrow> c \<noteq> CHR ''-'' \<and> c \<noteq> CHR ''n'' \<and> c \<noteq> CHR ''t'' \<and> c \<noteq> CHR ''f''
   \<and> c \<noteq> CHR 0x22 \<and> c \<noteq> CHR ''['' \<and> c \<noteq> CHR ''{'' \<and> c \<noteq> CHR '']'' \<and> c \<noteq> CHR ''}'' \<and> \<not> json_space c"
  by (auto simp: js_digit_def char_range_def less_eq_char_def json_space_def)

lemma show_nat_Cons: obtains c t where "show_nat n = c # t" and "js_digit c"
  using show_nat_hd [of n] by (cases "show_nat n") auto

lemma js_starts_Cons: "js_starts (c # s) (p # ps) \<longleftrightarrow> c = p \<and> js_starts s ps"
  by simp

lemma parse_word_int: "delim rest \<Longrightarrow> parse_word (show_int z @ rest) = Some (JNum z, rest)"
proof -
  assume rest: "delim rest"
  then have tail: "\<not> (rest \<noteq> [] \<and> hd rest \<in> {CHR ''.'', CHR ''e'', CHR ''E''})"
    by (auto simp: delim_def)
  show ?thesis
  proof (cases "z < 0")
    case True
    then have "show_int z @ rest = CHR ''-'' # show_nat (nat (- z)) @ rest"
      by (simp add: show_int_def)
    with True tail show ?thesis
      by (simp add: parse_word_def parse_number_def parse_digits_show [OF rest])
  next
    case False
    obtain c t where c: "show_nat (nat z) = c # t" "js_digit c" by (rule show_nat_Cons)
    have "parse_digits (show_nat (nat z) @ rest) = Some (nat z, rest)"
      by (rule parse_digits_show [OF rest])
    with False c digit_cases [OF c(2)] tail show ?thesis
      by (simp add: show_int_def parse_word_def parse_number_def)
  qed
qed

lemma json_text_head: "json_ok v \<Longrightarrow> \<exists>c t. json_text v = c # t \<and> \<not> json_space c \<and> c \<noteq> CHR '']'' \<and> c \<noteq> CHR ''}''"
proof (cases v)
  case (JNum n)
  obtain c t where "show_nat (nat n) = c # t" "js_digit c" by (rule show_nat_Cons)
  with JNum digit_cases [of c] show ?thesis
    by (auto simp: show_int_def json_space_def)
qed (auto simp: json_quote_def json_space_def)

lemma json_skip_head: "\<not> json_space c \<Longrightarrow> json_skip (c # t) = c # t"
  by (simp add: json_skip_def)

lemma json_skip_text: "json_ok v \<Longrightarrow> json_skip (json_text v @ rest) = json_text v @ rest"
  using json_text_head [of v] json_skip_head by auto

lemma js_join_Cons: "xs \<noteq> [] \<Longrightarrow> js_join sep (x # xs) = x @ sep @ js_join sep xs"
  by (cases xs) auto

definition parses :: "jsval \<Rightarrow> bool" where
  "parses v \<longleftrightarrow> (\<forall>n rest. length (json_text v) < n \<longrightarrow> delim rest \<longrightarrow>
     parse_value n (json_text v @ rest) = Some (v, rest))"

lemma delim_intros: "delim (CHR '','' # t)" "delim (CHR '']'' # t)" "delim (CHR ''}'' # t)" "delim []"
  by (simp_all add: delim_def)

lemma parse_items_text:
  assumes "list_all parses vs" and "vs \<noteq> []" and "length (js_join '','' (map json_text vs)) + 1 < n"
  shows "parse_items n (js_join '','' (map json_text vs) @ CHR '']'' # rest) = Some (vs, rest)"
  using assms
proof (induction vs arbitrary: n)
  case (Cons v vs)
  obtain m where m: "n = Suc m" using Cons.prems(3) by (cases n) auto
  show ?case
  proof (cases "vs = []")
    case True
    then have "parse_value m (json_text v @ CHR '']'' # rest) = Some (v, CHR '']'' # rest)"
      using Cons.prems m by (simp add: parses_def delim_intros)
    with True show ?thesis by (simp add: m json_skip_def json_space_def)
  next
    case False
    let ?j = "js_join '','' (map json_text vs)"
    have j: "js_join '','' (json_text v # map json_text vs) = json_text v @ CHR '','' # ?j"
      using False by (simp add: js_join_Cons)
    have "parse_value m (json_text v @ CHR '','' # ?j @ CHR '']'' # rest)
        = Some (v, CHR '','' # ?j @ CHR '']'' # rest)"
      using Cons.prems m j by (simp add: parses_def delim_intros)
    moreover have "parse_items m (?j @ CHR '']'' # rest) = Some (vs, rest)"
      using Cons.prems False m j by (intro Cons.IH) auto
    ultimately show ?thesis
      by (simp add: m j json_skip_def json_space_def)
  qed
qed simp

definition member_text :: "string \<times> jsval \<Rightarrow> string" where
  "member_text = (\<lambda>(k, v). json_quote k @ '':'' @ json_text v)"

lemma parse_member:
  assumes "parses v" and "json_ok v" and "length (member_text (k, v)) < n" and "delim (c # t)"
  shows "parse_str (tl (json_skip (member_text (k, v) @ c # t))) = Some (k, CHR '':'' # json_text v @ c # t)"
    "js_starts (json_skip (member_text (k, v) @ c # t)) [CHR 0x22]"
    "parse_value n (json_text v @ c # t) = Some (v, c # t)"
proof -
  have skip: "json_skip (member_text (k, v) @ c # t)
      = CHR 0x22 # concat (map json_escape k) @ CHR 0x22 # CHR '':'' # json_text v @ c # t"
    by (simp add: member_text_def json_quote_def json_skip_def json_space_def)
  show "parse_str (tl (json_skip (member_text (k, v) @ c # t))) = Some (k, CHR '':'' # json_text v @ c # t)"
    "js_starts (json_skip (member_text (k, v) @ c # t)) [CHR 0x22]"
    by (simp_all add: skip parse_str_quote)
  show "parse_value n (json_text v @ c # t) = Some (v, c # t)"
    using assms by (simp add: parses_def member_text_def)
qed

lemma jset_fresh: "k \<notin> set (jkeys m) \<Longrightarrow> jset k v m = m @ [(k, v)]"
  unfolding jset_def by (induction m) auto

lemma parse_members_text:
  assumes "list_all (\<lambda>(k, v). parses v \<and> json_ok v) ms" and "ms \<noteq> []" and "distinct (map fst (acc @ ms))"
    and "length (js_join '','' (map member_text ms)) + 1 < n"
  shows "parse_members n (js_join '','' (map member_text ms) @ CHR ''}'' # rest) acc = Some (acc @ ms, rest)"
  using assms
proof (induction ms arbitrary: n acc)
  case (Cons kv ms)
  obtain k v where kv: "kv = (k, v)" by fastforce
  obtain m where m: "n = Suc m" using Cons.prems(4) by (cases n) auto
  have set: "jset k v acc = acc @ [(k, v)]"
    using Cons.prems(3) by (intro jset_fresh) (auto simp: kv)
  have ok: "parses v" "json_ok v" using Cons.prems(1) by (simp_all add: kv)
  show ?case
  proof (cases "ms = []")
    case True
    then have len: "length (member_text (k, v)) < m"
      using Cons.prems(4) by (simp add: kv m)
    note read = parse_member [OF ok len delim_intros(3)]
    show ?thesis
      using True read [of rest] set by (simp add: m kv json_skip_head json_space_def)
  next
    case False
    let ?j = "js_join '','' (map member_text ms)"
    have j: "js_join '','' (member_text (k, v) # map member_text ms) = member_text (k, v) @ CHR '','' # ?j"
      using False by (simp add: js_join_Cons)
    have len: "length (member_text (k, v)) < m"
      using Cons.prems(4) by (simp add: j m kv)
    note read = parse_member [OF ok len delim_intros(1)]
    have "parse_members m (?j @ CHR ''}'' # rest) (acc @ [(k, v)]) = Some ((acc @ [(k, v)]) @ ms, rest)"
      using Cons.prems False m j by (intro Cons.IH) (auto simp: kv)
    then show ?thesis
      using read [of "?j @ CHR ''}'' # rest"] set
      by (simp add: j m kv json_skip_head json_space_def)
  qed
qed simp

lemma json_text_obj: "list_all (\<lambda>(k, v). json_ok v) ms \<Longrightarrow>
  json_text (JObj ms) = ''{'' @ js_join '','' (map member_text ms) @ ''}''"
proof -
  assume "list_all (\<lambda>(k, v). json_ok v) ms"
  then have "filter (\<lambda>(k, v). v \<noteq> JUndef) ms = ms"
    by (auto simp: list_all_iff intro!: filter_True)
  then show ?thesis by (simp add: member_text_def)
qed

lemma json_parses: "json_ok v \<Longrightarrow> parses v"
proof (induction v)
  case (JStr s)
  show ?case
    unfolding parses_def
  proof (intro allI impI)
    fix n rest assume "length (json_text (JStr s)) < n"
    then obtain m where "n = Suc m" by (cases n) auto
    then show "parse_value n (json_text (JStr s) @ rest) = Some (JStr s, rest)"
      by (simp add: json_quote_def json_skip_def json_space_def parse_str_quote)
  qed
next
  case (JNum z)
  show ?case
    unfolding parses_def
  proof (intro allI impI)
    fix n rest assume n: "length (json_text (JNum z)) < n" and rest: "delim rest"
    then obtain m where m: "n = Suc m" by (cases n) auto
    obtain c t where c: "show_nat (nat z) = c # t" "js_digit c" by (rule show_nat_Cons)
    obtain d u where d: "show_int z = d # u" "d = CHR ''-'' \<or> js_digit d"
    proof -
      have "\<exists>d u. show_int z = d # u \<and> (d = CHR ''-'' \<or> js_digit d)"
        using c by (simp add: show_int_def)
      with that show ?thesis by blast
    qed
    have "\<not> json_space d \<and> d \<noteq> CHR 0x22 \<and> d \<noteq> CHR ''['' \<and> d \<noteq> CHR ''{''"
      using d(2) digit_cases [of d] by (elim disjE) (simp_all add: json_space_def)
    then show "parse_value n (json_text (JNum z) @ rest) = Some (JNum z, rest)"
      using parse_word_int [OF rest, of z] d(1) by (simp add: m json_skip_head)
  qed
next
  case (JArr vs)
  then have ok: "list_all parses vs" by (simp add: list_all_iff)
  show ?case
    unfolding parses_def
  proof (intro allI impI)
    fix n rest assume n: "length (json_text (JArr vs)) < n"
    then obtain m where m: "n = Suc m" by (cases n) auto
    show "parse_value n (json_text (JArr vs) @ rest) = Some (JArr vs, rest)"
    proof (cases vs)
      case Nil
      then show ?thesis by (simp add: m json_skip_def json_space_def)
    next
      case (Cons v ws)
      obtain c t where c: "json_text v = c # t" "\<not> json_space c" "c \<noteq> CHR '']''"
        using json_text_head [of v] JArr.prems Cons by auto
      obtain t' where j: "js_join '','' (map json_text vs) = c # t'"
        using c Cons by (cases ws) auto
      have "parse_items m (js_join '','' (map json_text vs) @ CHR '']'' # rest) = Some (vs, rest)"
        using n m Cons by (intro parse_items_text [OF ok]) auto
      then show ?thesis
        using c by (simp add: m j json_skip_def json_space_def)
    qed
  qed
next
  case (JObj ms)
  then have ok: "list_all (\<lambda>(k, v). parses v \<and> json_ok v) ms" "list_all (\<lambda>(k, v). json_ok v) ms"
    by (auto simp: list_all_iff)
  show ?case
    unfolding parses_def
  proof (intro allI impI)
    fix n rest assume n: "length (json_text (JObj ms)) < n"
    then obtain m where m: "n = Suc m" by (cases n) auto
    note obj_text = json_text_obj [OF ok(2)]
    show "parse_value n (json_text (JObj ms) @ rest) = Some (JObj ms, rest)"
    proof (cases ms)
      case Nil
      then show ?thesis by (simp add: m json_skip_def json_space_def)
    next
      case (Cons kv ws)
      obtain t where j: "js_join '','' (map member_text ms) = CHR 0x22 # t"
        using Cons by (cases kv; cases ws) (simp_all add: member_text_def json_quote_def)
      have "parse_members m (js_join '','' (map member_text ms) @ CHR ''}'' # rest) [] = Some ([] @ ms, rest)"
        using n m Cons JObj.prems obj_text by (intro parse_members_text [OF ok(1)]) auto
      then show ?thesis
        by (simp add: obj_text m j json_skip_def json_space_def del: json_text.simps)
    qed
  qed
qed (auto simp: parses_def json_skip_def json_space_def parse_word_def gr0_conv_Suc split: if_splits elim!: less_natE)

lemma json_roundtrip:
  assumes "json_ok v"
  shows "json_parse (json_text v) = Some v"
proof -
  note read = json_parses [OF assms, unfolded parses_def, rule_format, of "2 * length (json_text v) + 2" "[]"]
  have "parse_value (2 * length (json_text v) + 2) (json_text v @ []) = Some (v, [])"
    by (rule read) (simp_all add: delim_intros)
  then show ?thesis by (simp add: json_parse_def json_skip_def del: parse_value.simps)
qed

end
