(* ===== verification/Debate.thy ===== *)
theory Debate
  imports Json Contracts
begin

text \<open>
  The formal debate between the parties of a call, \<open>mobile/src/media/debate.ts\<close>: invitations,
  turns and the forced mute of whoever is not speaking. The callbacks of the session are the
  record \<open>debate_env\<close>, the clock and the invite id are arguments, and what a method does
  to the outside (messages sent, status texts, the mic lock, the published snapshot) is the list
  of effects it returns. The analytics calls are left out.
\<close>

section \<open>Constants and helpers\<close>

definition DEBATE_TURN_MS :: int where "DEBATE_TURN_MS = 30000"
definition DEBATE_TURN_CHOICES_S :: "int list" where "DEBATE_TURN_CHOICES_S = [15, 30, 45, 60]"
definition DEBATE_INVITE_TTL_MS :: int where "DEBATE_INVITE_TTL_MS = 35000"
definition DEBATE_START_TIMEOUT_MS :: int where "DEBATE_START_TIMEOUT_MS = 12000"










definition debateUidEq :: "string \<Rightarrow> string \<Rightarrow> bool" where
  "debateUidEq a b =
     (let x = js_lower (js_trim a); y = js_lower (js_trim b)
      in x \<noteq> '''' \<and> y \<noteq> '''' \<and> x = y)"

text \<open>\<open>Math.round(n / 1000)\<close> rounds a half up.\<close>

definition normalizeDebateTurnMs :: "jsval \<Rightarrow> int" where
  "normalizeDebateTurnMs ms =
     (let n = num_or ms DEBATE_TURN_MS; secs = (n + 500) div 1000
      in if secs \<in> set DEBATE_TURN_CHOICES_S then secs * 1000
         else min 120000 (max 10000 (secs * 1000)))"

text \<open>\<open>replace(/\s+/g, " ")\<close>.\<close>

fun collapse_space :: "string \<Rightarrow> string" where
  "collapse_space [] = []"
| "collapse_space (c # cs) =
     (if js_space c
      then (case cs of [] \<Rightarrow> '' '' | d # _ \<Rightarrow> if js_space d then collapse_space cs else CHR '' '' # collapse_space cs)
      else c # collapse_space cs)"

definition normalizeDebateTopic :: "jsval \<Rightarrow> string" where
  "normalizeDebateTopic raw = take 80 (js_trim (collapse_space (str_or raw)))"

definition debateRoundNumber :: "int \<Rightarrow> int \<Rightarrow> int" where
  "debateRoundNumber turnIdx speakerCount =
     max 0 turnIdx div max 2 (if speakerCount = 0 then 2 else speakerCount) + 1"

definition pad2 :: "string \<Rightarrow> string" where
  "pad2 s = replicate (2 - length s) (CHR ''0'') @ s"

definition formatDebateTimer :: "int \<Rightarrow> string" where
  "formatDebateTimer rem =
     (let secs = (max 0 rem + 999) div 1000; m = secs div 60; s = secs mod 60
      in if m > 0 then show_int m @ '':'' @ pad2 (show_int s) else ''0:'' @ pad2 (show_int s))"

section \<open>The session\<close>

record debate_env =
  myUserId :: string
  myName :: string
  partnerUserId :: string
  isMatched :: bool
  isDcOpen :: bool
  roomUserIds :: "string list"
  sendOk :: bool

datatype debate_pending = PendNone | PendOut | PendIn

text \<open>What \<open>inviteTimer\<close> will do when it fires; only one is ever scheduled.\<close>

datatype debate_timer = TimerOut string | TimerStart | TimerIn

record debate_state =
  dbActive :: bool
  dbPending :: debate_pending
  dbInviteId :: string
  dbHostId :: string
  dbPartnerId :: string
  dbSpeakerId :: string
  dbTurnMs :: int
  dbTopic :: string
  dbTurnIndex :: int
  dbTurnEndsAt :: int
  dbComposeTurnSecs :: int
  dbSpeakers :: "string list"
  dbInviteTimer :: "debate_timer option"
  dbTicking :: bool

record debate_snapshot =
  snState :: debate_state
  snRemMs :: int

datatype debate_out =
    OSend jsobj | OStatus string | OMic bool | OChange debate_snapshot

type_synonym debate_result = "debate_state \<times> debate_out list"

definition new_debate :: debate_state where
  "new_debate = \<lparr>dbActive = False, dbPending = PendNone, dbInviteId = '''', dbHostId = '''',
     dbPartnerId = '''', dbSpeakerId = '''', dbTurnMs = DEBATE_TURN_MS, dbTopic = '''', dbTurnIndex = 0,
     dbTurnEndsAt = 0, dbComposeTurnSecs = 30, dbSpeakers = [], dbInviteTimer = None, dbTicking = False\<rparr>"

definition debate_snap :: "int \<Rightarrow> debate_state \<Rightarrow> debate_snapshot" where
  "debate_snap now s =
     \<lparr>snState = s, snRemMs = (if dbActive s then max 0 (dbTurnEndsAt s - now) else 0)\<rparr>"

definition iAmSpeaker :: "debate_env \<Rightarrow> debate_state \<Rightarrow> bool" where
  "iAmSpeaker env s = debateUidEq (dbSpeakerId s) (myUserId env)"

definition applyMic :: "debate_env \<Rightarrow> debate_state \<Rightarrow> debate_out list" where
  "applyMic env s = (if \<not> dbActive s then [OMic False] else [OMic (\<not> iAmSpeaker env s)])"

definition emit :: "debate_env \<Rightarrow> int \<Rightarrow> debate_state \<Rightarrow> debate_out list" where
  "emit env now s = OChange (debate_snap now s) # applyMic env s"

definition clearPending :: "debate_state \<Rightarrow> debate_state" where
  "clearPending s = s\<lparr>dbPending := PendNone, dbInviteId := '''', dbInviteTimer := None\<rparr>"

text \<open>The payload of \<open>send\<close>; \<open>sendOk\<close> is what the channel returns.\<close>

definition debate_payload :: "debate_env \<Rightarrow> int \<Rightarrow> jsobj \<Rightarrow> jsobj" where
  "debate_payload env now ob =
     jset ''ts'' (case oget ob ''ts'' of JNum t \<Rightarrow> JNum t | _ \<Rightarrow> JNum now)
       (jset ''name'' (JStr (if myName env \<noteq> '''' then myName env else ''anon''))
         (jset ''user_id'' (JStr (myUserId env)) (ospread [(''v'', JNum 1)] ob)))"

definition debate_send :: "debate_env \<Rightarrow> int \<Rightarrow> jsobj \<Rightarrow> debate_out" where
  "debate_send env now ob = OSend (debate_payload env now ob)"

definition canStart :: "debate_env \<Rightarrow> debate_state \<Rightarrow> bool" where
  "canStart env s \<longleftrightarrow> isMatched env \<and> partnerUserId env \<noteq> '''' \<and> partnerUserId env \<noteq> myUserId env
     \<and> \<not> dbActive s \<and> dbPending s = PendNone"

definition debate_end :: "debate_env \<Rightarrow> int \<Rightarrow> bool \<Rightarrow> string \<Rightarrow> bool \<Rightarrow> debate_state \<Rightarrow> debate_result" where
  "debate_end env now notify reason silent s =
     (let wasActive = (dbActive s \<or> dbPending s \<noteq> PendNone);
          sent = (if notify \<and> dbActive s
                  then [debate_send env now [(''type'', JStr ''debate_end''),
                          (''reason'', JStr (if reason \<noteq> '''' then reason else ''user'')),
                          (''invite_id'', JStr (dbInviteId s))]] else []);
          s' = s\<lparr>dbTicking := False, dbInviteTimer := None, dbActive := False, dbPending := PendNone,
                 dbSpeakerId := '''', dbHostId := '''', dbPartnerId := '''', dbInviteId := '''',
                 dbTurnEndsAt := 0, dbTurnIndex := 0, dbTopic := ''''\<rparr>
      in (s', sent @ [OMic False]
              @ (if wasActive \<and> \<not> silent then [OStatus ''debate.ended''] else []) @ emit env now s'))"

definition debate_reset :: "debate_env \<Rightarrow> int \<Rightarrow> debate_state \<Rightarrow> debate_result" where
  "debate_reset env now s = debate_end env now False '''' True s"

text \<open>The roster: the ids in order, without blanks and without a second spelling of one id.\<close>

definition roster_add :: "string list \<Rightarrow> string \<Rightarrow> string list" where
  "roster_add ids r =
     (let s = js_trim r
      in if s = '''' \<or> list_ex (\<lambda>x. debateUidEq x s) ids then ids else ids @ [s])"

definition collectRoster :: "debate_env \<Rightarrow> debate_state \<Rightarrow> string option \<Rightarrow> string list" where
  "collectRoster env s extra =
     fold (\<lambda>r ids. if js_trim r = ''legacy'' then ids else roster_add ids r)
       ([myUserId env, partnerUserId env, dbHostId s, dbPartnerId s]
        @ (case extra of None \<Rightarrow> [''''] | Some e \<Rightarrow> [e]) @ roomUserIds env) []"

definition first_uid_index :: "string \<Rightarrow> string list \<Rightarrow> nat option" where
  "first_uid_index cur roster =
     (case filter (\<lambda>i. debateUidEq (roster ! i) cur) [0..<length roster] of [] \<Rightarrow> None | i # _ \<Rightarrow> Some i)"

definition otherSpeaker :: "debate_env \<Rightarrow> debate_state \<Rightarrow> string" where
  "otherSpeaker env s =
     (let roster = (if dbSpeakers s \<noteq> [] then dbSpeakers s else collectRoster env s None)
      in if length roster \<ge> 2
         then let i = (case first_uid_index (js_trim (dbSpeakerId s)) roster of None \<Rightarrow> 0 | Some i \<Rightarrow> i)
              in roster ! ((i + 1) mod length roster)
         else if iAmSpeaker env s
         then let p = js_trim (if dbPartnerId s \<noteq> '''' then dbPartnerId s else partnerUserId env)
              in if p \<noteq> '''' then p else myUserId env
         else js_trim (myUserId env))"

definition turn_status :: "debate_env \<Rightarrow> debate_state \<Rightarrow> debate_out" where
  "turn_status env s = OStatus (if iAmSpeaker env s then ''debate.yourTurnRound'' else ''debate.theirTurnRound'')"

definition turn_msg :: "debate_state \<Rightarrow> jsobj" where
  "turn_msg s =
     [(''type'', JStr ''debate_turn''), (''speaker_id'', JStr (dbSpeakerId s)),
      (''turn_index'', JNum (dbTurnIndex s)), (''turn_ends_at'', JNum (dbTurnEndsAt s)),
      (''turn_ms'', JNum (if dbTurnMs s \<noteq> 0 then dbTurnMs s else DEBATE_TURN_MS)),
      (''round'', JNum (debateRoundNumber (dbTurnIndex s) (int (length (dbSpeakers s))))),
      (''invite_id'', JStr (dbInviteId s))]"

text \<open>The early returns of \<open>advanceTurn\<close>, the state after a turn and whether it is announced.\<close>

definition announces :: "debate_env \<Rightarrow> bool \<Rightarrow> debate_state \<Rightarrow> bool" where
  "announces env yieldTurn s \<longleftrightarrow> debateUidEq (dbHostId s) (myUserId env) \<or> yieldTurn \<and> iAmSpeaker env s"

definition turn_allowed :: "debate_env \<Rightarrow> int \<Rightarrow> bool \<Rightarrow> bool \<Rightarrow> debate_state \<Rightarrow> bool" where
  "turn_allowed env now force yieldTurn s =
     (if \<not> dbActive s then False
      else if \<not> force \<and> \<not> yieldTurn \<and> now < dbTurnEndsAt s - 40 then False
      else if \<not> announces env yieldTurn s then force \<and> now \<ge> dbTurnEndsAt s + 900
      else True)"

definition turned :: "debate_env \<Rightarrow> int \<Rightarrow> debate_state \<Rightarrow> debate_state" where
  "turned env now s =
     s\<lparr>dbSpeakerId := otherSpeaker env s, dbTurnIndex := dbTurnIndex s + 1,
       dbTurnEndsAt := now + (if dbTurnMs s \<noteq> 0 then dbTurnMs s else DEBATE_TURN_MS)\<rparr>"

definition advanceTurn :: "debate_env \<Rightarrow> int \<Rightarrow> bool \<Rightarrow> bool \<Rightarrow> debate_state \<Rightarrow> debate_result" where
  "advanceTurn env now force yieldTurn s =
     (if \<not> turn_allowed env now force yieldTurn s then (s, [])
      else if otherSpeaker env s = '''' then (s, [OStatus ''debate.noPartner''])
      else (turned env now s,
            (if announces env yieldTurn s then [debate_send env now (turn_msg (turned env now s))] else [])
            @ emit env now (turned env now s) @ [turn_status env (turned env now s)]))"

section \<open>Messages from the room\<close>

text \<open>\<open>applyStart\<close>: the roster is what the message lists, then the first speaker, the partner,
  this user and the room.\<close>

definition start_speakers :: "debate_env \<Rightarrow> jsobj \<Rightarrow> string \<Rightarrow> string \<Rightarrow> string list" where
  "start_speakers env msg first partner =
     fold (\<lambda>r ids. roster_add ids r)
       ((case oget msg ''speakers'' of JArr vs \<Rightarrow> map str_or vs | _ \<Rightarrow> [])
        @ [first, partner, myUserId env] @ roomUserIds env) []"

definition same_invite :: "jsobj \<Rightarrow> debate_state \<Rightarrow> bool" where
  "same_invite msg s \<longleftrightarrow> js_truthy (oget msg ''invite_id'') \<and> dbInviteId s \<noteq> ''''
     \<and> js_string (oget msg ''invite_id'') = dbInviteId s"

definition start_first :: "debate_env \<Rightarrow> jsobj \<Rightarrow> string" where
  "start_first env msg =
     (let f = take 64 (str_or (js_or (oget msg ''first_speaker_id'') (oget msg ''host_id'')))
      in if f \<noteq> '''' then f else partnerUserId env)"

definition start_partner :: "debate_env \<Rightarrow> jsobj \<Rightarrow> string" where
  "start_partner env msg =
     (let p = take 64 (str_or (oget msg ''partner_id''))
      in if p \<noteq> '''' then p
         else if start_first env msg = myUserId env then partnerUserId env else start_first env msg)"

definition start_turn_ms :: "jsobj \<Rightarrow> debate_state \<Rightarrow> int" where
  "start_turn_ms msg s =
     normalizeDebateTurnMs (js_or (oget msg ''turn_ms'') (js_or (JNum (dbTurnMs s)) (JNum DEBATE_TURN_MS)))"

definition start_state :: "debate_env \<Rightarrow> int \<Rightarrow> jsobj \<Rightarrow> debate_state \<Rightarrow> debate_state" where
  "start_state env now msg s0 =
     (let s = clearPending s0; first = start_first env msg; partner = start_partner env msg
      in s\<lparr>dbSpeakers := start_speakers env msg first partner, dbActive := True,
           dbPending := PendNone,
           dbHostId := take 64 (if js_truthy (oget msg ''host_id'') then js_string (oget msg ''host_id'') else first),
           dbPartnerId := (if partner \<noteq> '''' then partner else partnerUserId env),
           dbSpeakerId := first,
           dbInviteId := (if js_truthy (oget msg ''invite_id'') then js_string (oget msg ''invite_id'')
                          else dbInviteId s),
           dbTurnMs := start_turn_ms msg s,
           dbTopic := normalizeDebateTopic (if \<not> js_null (oget msg ''topic'') then oget msg ''topic''
                        else JStr (dbTopic s)),
           dbTurnIndex := num_or (oget msg ''turn_index'') 0,
           dbTurnEndsAt := num_or (oget msg ''turn_ends_at'') (now + start_turn_ms msg s),
           dbTicking := True\<rparr>)"

definition applyStart :: "debate_env \<Rightarrow> int \<Rightarrow> jsobj \<Rightarrow> debate_state \<Rightarrow> debate_result" where
  "applyStart env now msg s =
     (if dbActive s \<and> same_invite msg s \<and> js_truthy (oget msg ''sync'') then (s, [])
      else (start_state env now msg s,
            emit env now (start_state env now msg s) @ [turn_status env (start_state env now msg s)]))"

definition applyTurn :: "debate_env \<Rightarrow> int \<Rightarrow> jsobj \<Rightarrow> debate_state \<Rightarrow> debate_result" where
  "applyTurn env now msg s =
     (let speaker = take 64 (str_or (oget msg ''speaker_id'')); idx = js_number (oget msg ''turn_index'')
      in if \<not> dbActive s \<or> speaker = '''' then (s, [])
         else if (case idx of Some i \<Rightarrow> i < dbTurnIndex s | None \<Rightarrow> False) then (s, [])
         else
           let s1 = s\<lparr>dbSpeakerId := speaker,
                      dbTurnIndex := (case idx of Some i \<Rightarrow> i | None \<Rightarrow> dbTurnIndex s + 1),
                      dbTurnEndsAt := num_or (oget msg ''turn_ends_at'')
                        (now + (if dbTurnMs s \<noteq> 0 then dbTurnMs s else DEBATE_TURN_MS))\<rparr>;
               s' = (if js_truthy (oget msg ''turn_ms'')
                     then s1\<lparr>dbTurnMs := normalizeDebateTurnMs (oget msg ''turn_ms'')\<rparr> else s1)
           in (s', emit env now s' @ [turn_status env s']))"

definition start_msg :: "debate_env \<Rightarrow> int \<Rightarrow> string \<Rightarrow> debate_state \<Rightarrow> jsobj" where
  "start_msg env now fromUid s =
     (let ms = normalizeDebateTurnMs (js_or (JNum (dbTurnMs s)) (JNum DEBATE_TURN_MS))
      in [(''type'', JStr ''debate_start''), (''invite_id'', JStr (dbInviteId s)),
          (''host_id'', JStr (myUserId env)), (''first_speaker_id'', JStr (myUserId env)),
          (''partner_id'', JStr (if fromUid \<noteq> '''' then fromUid else partnerUserId env)),
          (''speakers'', JArr (map JStr (collectRoster env s (Some fromUid)))),
          (''turn_ms'', JNum ms), (''topic'', JStr (normalizeDebateTopic (JStr (dbTopic s)))),
          (''turn_index'', JNum 0), (''turn_ends_at'', JNum (now + ms)), (''started_at'', JNum now)])"

text \<open>The guard of \<open>handleAccept\<close> and \<open>handleDecline\<close>: a reply to another invitation.\<close>

definition other_invite :: "jsobj \<Rightarrow> debate_state \<Rightarrow> bool" where
  "other_invite msg s \<longleftrightarrow> js_truthy (oget msg ''invite_id'') \<and> dbInviteId s \<noteq> ''''
     \<and> oget msg ''invite_id'' \<noteq> JStr (dbInviteId s)"

definition handleAccept :: "debate_env \<Rightarrow> int \<Rightarrow> jsobj \<Rightarrow> string \<Rightarrow> debate_state \<Rightarrow> debate_result" where
  "handleAccept env now msg fromUid s =
     (if dbPending s \<noteq> PendOut \<or> other_invite msg s then (s, [])
      else let m = start_msg env now fromUid s; (s', outs) = applyStart env now m s
           in (s', debate_send env now m # outs))"

definition handleDecline :: "debate_env \<Rightarrow> int \<Rightarrow> jsobj \<Rightarrow> debate_state \<Rightarrow> debate_result" where
  "handleDecline env now msg s =
     (if dbPending s \<noteq> PendOut \<or> other_invite msg s then (s, [])
      else let s' = clearPending s in (s', OStatus ''debate.theyDeclined'' # emit env now s'))"

definition decline_msg :: "jsval \<Rightarrow> string \<Rightarrow> jsobj" where
  "decline_msg invId reason = [(''type'', JStr ''debate_decline''), (''invite_id'', invId), (''reason'', JStr reason)]"

definition handleInviteIncoming :: "debate_env \<Rightarrow> int \<Rightarrow> jsobj \<Rightarrow> string \<Rightarrow> debate_state \<Rightarrow> debate_result" where
  "handleInviteIncoming env now msg fromUid s =
     (let busy = (dbActive s \<or> dbPending s \<noteq> PendNone)
      in if same_invite msg s \<and> busy then (s, [])
         else if busy then (s, [debate_send env now (decline_msg (oget msg ''invite_id'') ''busy'')])
         else if \<not> isMatched env then (s, [])
         else if fromUid \<noteq> '''' \<and> debateUidEq fromUid (myUserId env) then (s, [])
         else
           let from = (if fromUid \<noteq> '''' then fromUid else partnerUserId env);
               s' = s\<lparr>dbPending := PendIn, dbInviteId := str_or (oget msg ''invite_id''),
                      dbPartnerId := from, dbHostId := from,
                      dbTurnMs := normalizeDebateTurnMs (js_or (oget msg ''turn_ms'') (JNum DEBATE_TURN_MS)),
                      dbTopic := normalizeDebateTopic (oget msg ''topic''), dbInviteTimer := Some TimerIn\<rparr>
           in (s', OStatus ''debate.incomingStatus'' # emit env now s'))"

definition handleMessage :: "debate_env \<Rightarrow> int \<Rightarrow> jsobj \<Rightarrow> debate_state \<Rightarrow> debate_result" where
  "handleMessage env now msg s =
     (let type = js_string (oget msg ''type''); fromUid = take 64 (str_or (oget msg ''user_id''))
      in if \<not> js_truthy (oget msg ''type'') \<or> \<not> js_starts type ''debate_'' then (s, [])
         else if type = ''debate_invite'' then handleInviteIncoming env now msg fromUid s
         else if type = ''debate_accept'' then handleAccept env now msg fromUid s
         else if type = ''debate_decline'' then handleDecline env now msg s
         else if type = ''debate_cancel'' then
           (if dbPending s = PendIn \<and> oget msg ''invite_id'' = JStr (dbInviteId s)
            then let s' = clearPending s in (s', OStatus ''debate.inviteCancelled'' # emit env now s')
            else (s, []))
         else if type = ''debate_start'' then applyStart env now msg s
         else if type = ''debate_turn'' then applyTurn env now msg s
         else if type = ''debate_end'' then
           (if dbActive s \<or> dbPending s \<noteq> PendNone
            then debate_end env now False (if js_truthy (oget msg ''reason'') then js_string (oget msg ''reason'') else ''peer'') False s
            else (s, []))
         else (s, []))"

section \<open>What the user does, and the timers\<close>

datatype toggle_result = ToCompose | ToCancelled | ToEnded | ToBlocked | ToNeedP2p

definition inviteOrToggle :: "debate_env \<Rightarrow> int \<Rightarrow> debate_state \<Rightarrow> debate_result \<times> toggle_result" where
  "inviteOrToggle env now s =
     (if dbActive s then (debate_end env now True ''user'' False s, ToEnded)
      else if dbPending s = PendOut then
        (let s' = clearPending s
         in ((s', [debate_send env now [(''type'', JStr ''debate_cancel''), (''invite_id'', JStr (dbInviteId s))],
                   OStatus ''debate.inviteCancelled''] @ emit env now s'), ToCancelled))
      else if \<not> canStart env s then ((s, [OStatus ''debate.needLive'']), ToBlocked)
      else if \<not> isDcOpen env then ((s, [OStatus ''debate.needP2p'']), ToNeedP2p)
      else ((s, []), ToCompose))"

definition invite_msg :: "debate_env \<Rightarrow> string \<Rightarrow> int \<Rightarrow> string \<Rightarrow> jsobj" where
  "invite_msg env invId ms topic =
     [(''type'', JStr ''debate_invite''), (''invite_id'', JStr invId), (''turn_ms'', JNum ms),
      (''topic'', JStr topic), (''from_name'', JStr (if myName env \<noteq> '''' then myName env else ''anon''))]"

definition sendInviteFromCompose :: "debate_env \<Rightarrow> int \<Rightarrow> string \<Rightarrow> jsval \<Rightarrow> jsval \<Rightarrow> debate_state \<Rightarrow> debate_result \<times> bool" where
  "sendInviteFromCompose env now newInviteId turnSecs topicIn s =
     (if \<not> canStart env s then ((s, [OStatus ''debate.needLive'']), False)
      else if \<not> isDcOpen env then ((s, [OStatus ''debate.needP2p'']), False)
      else
        let secs = num_or turnSecs (if dbComposeTurnSecs s \<noteq> 0 then dbComposeTurnSecs s else 30);
            ms = normalizeDebateTurnMs (JNum (secs * 1000));
            topic = normalizeDebateTopic topicIn;
            s1 = s\<lparr>dbComposeTurnSecs := (ms + 500) div 1000, dbTurnMs := ms, dbTopic := topic,
                   dbPending := PendOut, dbInviteId := newInviteId, dbPartnerId := partnerUserId env,
                   dbHostId := myUserId env\<rparr>;
            snt = debate_send env now (invite_msg env newInviteId ms topic)
        in if \<not> sendOk env
           then let s2 = clearPending s1 in ((s2, [snt, OStatus ''debate.needP2p''] @ emit env now s2), False)
           else let s2 = s1\<lparr>dbInviteTimer := Some (TimerOut newInviteId)\<rparr>
                in ((s2, [snt, OStatus ''debate.inviteSent''] @ emit env now s2), True))"

definition acceptIncoming :: "debate_env \<Rightarrow> int \<Rightarrow> debate_state \<Rightarrow> debate_result" where
  "acceptIncoming env now s =
     (if dbPending s \<noteq> PendIn \<or> dbInviteId s = '''' then (s, [])
      else let s' = s\<lparr>dbInviteTimer := Some TimerStart\<rparr>
           in (s', [debate_send env now [(''type'', JStr ''debate_accept''), (''invite_id'', JStr (dbInviteId s))],
                    OStatus ''debate.acceptedWait''] @ emit env now s'))"

definition declineIncoming :: "debate_env \<Rightarrow> int \<Rightarrow> string \<Rightarrow> debate_state \<Rightarrow> debate_result" where
  "declineIncoming env now reason s =
     (if dbPending s \<noteq> PendIn then (s, [])
      else let s' = clearPending s
           in (s', [debate_send env now
                     ([(''type'', JStr ''debate_decline''), (''invite_id'', JStr (dbInviteId s))]
                      @ (if reason \<noteq> '''' then [(''reason'', JStr reason)] else [])),
                    OStatus ''debate.youDeclined''] @ emit env now s'))"

definition passTurn :: "debate_env \<Rightarrow> int \<Rightarrow> debate_state \<Rightarrow> debate_result \<times> bool" where
  "passTurn env now s =
     (if \<not> dbActive s then ((s, [OStatus ''debate.needLive'']), False)
      else if js_trim (myUserId env) = '''' then ((s, [OStatus ''debate.needId'']), False)
      else if \<not> iAmSpeaker env s then ((s, [OStatus ''debate.notYourTurn'']), False)
      else (advanceTurn env now False True s, True))"

definition sendSnapshot :: "debate_env \<Rightarrow> int \<Rightarrow> debate_state \<Rightarrow> debate_out list" where
  "sendSnapshot env now s =
     (if \<not> dbActive s then []
      else [debate_send env now
        [(''type'', JStr ''debate_start''), (''invite_id'', JStr (dbInviteId s)), (''host_id'', JStr (dbHostId s)),
         (''first_speaker_id'', JStr (dbSpeakerId s)), (''partner_id'', JStr (dbPartnerId s)),
         (''speakers'', JArr (map JStr (if dbSpeakers s \<noteq> [] then dbSpeakers s else collectRoster env s None))),
         (''turn_ms'', JNum (dbTurnMs s)), (''topic'', JStr (dbTopic s)), (''turn_index'', JNum (dbTurnIndex s)),
         (''turn_ends_at'', JNum (dbTurnEndsAt s)), (''started_at'', JNum now), (''sync'', JBool True)]])"

text \<open>The invite timer fires: it is no longer scheduled, whatever its body then does.\<close>

definition fireInviteTimer :: "debate_env \<Rightarrow> int \<Rightarrow> debate_state \<Rightarrow> debate_result" where
  "fireInviteTimer env now s0 =
     (let s = s0\<lparr>dbInviteTimer := None\<rparr>; s' = clearPending s
      in case dbInviteTimer s0 of
           None \<Rightarrow> (s0, [])
         | Some (TimerOut invId) \<Rightarrow>
             if dbPending s = PendOut \<and> dbInviteId s = invId
             then (s', [debate_send env now [(''type'', JStr ''debate_cancel''), (''invite_id'', JStr invId)],
                        OStatus ''debate.inviteExpired''] @ emit env now s')
             else (s, [])
         | Some TimerStart \<Rightarrow>
             if \<not> dbActive s \<and> dbPending s = PendIn
             then (s', OStatus ''debate.startTimeout'' # emit env now s') else (s, [])
         | Some TimerIn \<Rightarrow>
             if dbPending s = PendIn
             then (s', debate_send env now (decline_msg (JStr (dbInviteId s)) ''timeout'') # emit env now s')
             else (s, []))"

definition debate_tick :: "debate_env \<Rightarrow> int \<Rightarrow> debate_state \<Rightarrow> debate_result" where
  "debate_tick env now s =
     (if \<not> dbTicking s then (s, [])
      else if \<not> dbActive s then (s\<lparr>dbTicking := False\<rparr>, [])
      else if \<not> isMatched env then debate_end env now False '''' True s
      else if now \<ge> dbTurnEndsAt s
           \<and> (debateUidEq (dbHostId s) (myUserId env) \<or> now \<ge> dbTurnEndsAt s + 900)
      then let (s', outs) = advanceTurn env now True False s in (s', emit env now s @ outs)
      else (s, emit env now s))"

section \<open>Runs\<close>

datatype debate_event =
    EvMessage jsobj | EvToggle | EvCompose string jsval jsval | EvAccept | EvDecline string
  | EvPass | EvSnapshot | EvInviteTimer | EvTick | EvEnd bool string bool | EvReset

definition debate_step :: "debate_env \<Rightarrow> int \<Rightarrow> debate_event \<Rightarrow> debate_state \<Rightarrow> debate_result" where
  "debate_step env now ev s =
     (case ev of
        EvMessage m \<Rightarrow> handleMessage env now m s
      | EvToggle \<Rightarrow> fst (inviteOrToggle env now s)
      | EvCompose invId secs topic \<Rightarrow> fst (sendInviteFromCompose env now invId secs topic s)
      | EvAccept \<Rightarrow> acceptIncoming env now s
      | EvDecline reason \<Rightarrow> declineIncoming env now reason s
      | EvPass \<Rightarrow> fst (passTurn env now s)
      | EvSnapshot \<Rightarrow> (s, sendSnapshot env now s)
      | EvInviteTimer \<Rightarrow> fireInviteTimer env now s
      | EvTick \<Rightarrow> debate_tick env now s
      | EvEnd notify reason silent \<Rightarrow> debate_end env now notify reason silent s
      | EvReset \<Rightarrow> debate_reset env now s)"

section \<open>Turn lengths, ids and rosters\<close>

lemma normalizeDebateTurnMs_range:
  "10000 \<le> normalizeDebateTurnMs v \<and> normalizeDebateTurnMs v \<le> 120000 \<and> 1000 dvd normalizeDebateTurnMs v"
proof -
  have "1000 dvd min (120000::int) (max 10000 (k * 1000))" for k
    by (simp add: min_def max_def)
  then show ?thesis
    by (auto simp: normalizeDebateTurnMs_def DEBATE_TURN_CHOICES_S_def Let_def)
qed

definition turn_len_ok :: "int \<Rightarrow> bool" where
  "turn_len_ok ms \<longleftrightarrow> 10000 \<le> ms \<and> ms \<le> 120000 \<and> 1000 dvd ms"

lemma turn_len_ok_normalize [simp]: "turn_len_ok (normalizeDebateTurnMs v)"
  by (simp add: turn_len_ok_def normalizeDebateTurnMs_range)

lemma turn_len_nonzero: "turn_len_ok ms \<Longrightarrow> ms \<noteq> 0"
  by (auto simp: turn_len_ok_def)

lemma normalize_turn_len: "turn_len_ok ms \<Longrightarrow> normalizeDebateTurnMs (JNum ms) = ms"
proof -
  assume ok: "turn_len_ok ms"
  then obtain k where k: "ms = 1000 * k"
    unfolding turn_len_ok_def by (auto elim: dvdE)
  have "(1000 * k + 500) div 1000 = k" by simp
  with ok k show ?thesis
    by (auto simp: normalizeDebateTurnMs_def Let_def turn_len_ok_def min_def max_def)
qed

lemma debateUidEq_sym: "debateUidEq a b = debateUidEq b a"
  by (auto simp: debateUidEq_def Let_def)

lemma debateUidEq_trans: "debateUidEq a b \<Longrightarrow> debateUidEq b c \<Longrightarrow> debateUidEq a c"
  by (auto simp: debateUidEq_def Let_def)

lemma debateUidEq_trim [simp]:
  "debateUidEq (js_trim a) b = debateUidEq a b" "debateUidEq a (js_trim b) = debateUidEq a b"
  by (simp_all add: debateUidEq_def)

lemma debateUidEq_refl: "debateUidEq a a \<longleftrightarrow> js_trim a \<noteq> ''''"
  by (simp add: debateUidEq_def)

definition roster_ok :: "string list \<Rightarrow> bool" where
  "roster_ok ids \<longleftrightarrow> sorted_wrt (\<lambda>a b. \<not> debateUidEq a b) ids
     \<and> list_all (\<lambda>x. x \<noteq> '''' \<and> js_trim x = x) ids"

lemma roster_ok_Nil [simp]: "roster_ok []"
  by (simp add: roster_ok_def)

lemma roster_ok_add: "roster_ok ids \<Longrightarrow> roster_ok (roster_add ids r)"
  by (auto simp: roster_ok_def roster_add_def Let_def sorted_wrt_append list_ex_iff)

lemma roster_ok_fold: "roster_ok ids \<Longrightarrow> roster_ok (fold (\<lambda>r ids. roster_add ids r) rs ids)"
  by (induction rs arbitrary: ids) (simp_all add: roster_ok_add)

lemma roster_ok_start [simp]: "roster_ok (start_speakers env msg first partner)"
  unfolding start_speakers_def by (rule roster_ok_fold) simp

lemma roster_add_mono: "set ids \<subseteq> set (roster_add ids r)"
  by (auto simp: roster_add_def Let_def)

lemma roster_fold_mono: "set ids \<subseteq> set (fold (\<lambda>r ids. roster_add ids r) rs ids)"
proof (induction rs arbitrary: ids)
  case (Cons r rs)
  then show ?case
    using roster_add_mono [of ids r] Cons.IH [of "roster_add ids r"] by (simp add: subset_trans)
qed simp

lemma roster_add_has: "js_trim r \<noteq> '''' \<Longrightarrow> \<exists>x \<in> set (roster_add ids r). debateUidEq x r"
  by (auto simp: roster_add_def Let_def list_ex_iff debateUidEq_refl)

lemma roster_fold_has:
  "r \<in> set rs \<Longrightarrow> js_trim r \<noteq> '''' \<Longrightarrow> \<exists>x \<in> set (fold (\<lambda>r ids. roster_add ids r) rs ids). debateUidEq x r"
proof (induction rs arbitrary: ids)
  case (Cons q rs)
  then show ?case
    using roster_add_has [of r ids] roster_fold_mono [of "roster_add ids r" rs] Cons.IH by (auto 0 4)
qed simp

section \<open>The invariant of a session\<close>

fun timer_fits :: "debate_timer option \<Rightarrow> debate_pending \<Rightarrow> string \<Rightarrow> bool" where
  "timer_fits None p i = (p = PendNone)"
| "timer_fits (Some (TimerOut k)) p i = (p = PendOut \<and> i = k)"
| "timer_fits (Some TimerStart) p i = (p = PendIn)"
| "timer_fits (Some TimerIn) p i = (p = PendIn)"

abbreviation timer_ok :: "debate_state \<Rightarrow> bool" where
  "timer_ok s \<equiv> timer_fits (dbInviteTimer s) (dbPending s) (dbInviteId s)"

lemma timer_fits_none [simp]: "timer_fits t PendNone i \<longleftrightarrow> t = None"
  by (cases "(t, PendNone, i)" rule: timer_fits.cases) auto

definition debate_ok :: "debate_state \<Rightarrow> bool" where
  "debate_ok s \<longleftrightarrow> dbTicking s = dbActive s \<and> (dbActive s \<longrightarrow> dbPending s = PendNone) \<and> timer_ok s
     \<and> turn_len_ok (dbTurnMs s) \<and> roster_ok (dbSpeakers s) \<and> length (dbTopic s) \<le> 80"

lemma topic_length [simp]: "length (normalizeDebateTopic v) \<le> 80"
  by (simp add: normalizeDebateTopic_def)

lemma clearPending_ok: "debate_ok s \<Longrightarrow> debate_ok (clearPending s)"
  by (simp add: debate_ok_def clearPending_def)

lemma debate_end_ok: "debate_ok s \<Longrightarrow> debate_ok (fst (debate_end env now notify reason silent s))"
  by (simp add: debate_end_def Let_def debate_ok_def)

lemma turned_sel [simp]:
  "dbSpeakerId (turned env now s) = otherSpeaker env s" "dbTurnIndex (turned env now s) = dbTurnIndex s + 1"
  "dbActive (turned env now s) = dbActive s" "dbHostId (turned env now s) = dbHostId s"
  "dbSpeakers (turned env now s) = dbSpeakers s" "dbTurnMs (turned env now s) = dbTurnMs s"
  "dbTurnMs s \<noteq> 0 \<Longrightarrow> dbTurnEndsAt (turned env now s) = now + dbTurnMs s"
  by (simp_all add: turned_def)

lemma turned_ok: "debate_ok s \<Longrightarrow> debate_ok (turned env now s)"
  by (simp add: debate_ok_def) (simp add: turned_def)

lemma advanceTurn_ok: "debate_ok s \<Longrightarrow> debate_ok (fst (advanceTurn env now force y s))"
  by (simp add: advanceTurn_def turned_ok)

lemma start_state_sel [simp]:
  "dbActive (start_state env now msg s)" "dbPending (start_state env now msg s) = PendNone"
  "dbTicking (start_state env now msg s)" "dbInviteTimer (start_state env now msg s) = None"
  "dbSpeakerId (start_state env now msg s) = start_first env msg"
  "dbSpeakers (start_state env now msg s) = start_speakers env msg (start_first env msg) (start_partner env msg)"
  "dbTurnMs (start_state env now msg s) = start_turn_ms msg s"
  "dbTurnIndex (start_state env now msg s) = num_or (oget msg ''turn_index'') 0"
  "dbTurnEndsAt (start_state env now msg s) = num_or (oget msg ''turn_ends_at'') (now + start_turn_ms msg s)"
  "dbHostId (start_state env now msg s)
     = take 64 (if js_truthy (oget msg ''host_id'') then js_string (oget msg ''host_id'') else start_first env msg)"
  by (simp_all add: start_state_def Let_def clearPending_def start_turn_ms_def)

lemma start_topic [simp]: "length (dbTopic (start_state env now msg s)) \<le> 80"
  by (simp add: start_state_def Let_def)

lemma applyStart_ok: "debate_ok s \<Longrightarrow> debate_ok (fst (applyStart env now msg s))"
  by (simp add: applyStart_def) (simp add: debate_ok_def start_turn_ms_def)

lemma applyTurn_ok: "debate_ok s \<Longrightarrow> debate_ok (fst (applyTurn env now msg s))"
  by (auto simp: applyTurn_def Let_def debate_ok_def)

lemma handleAccept_ok: "debate_ok s \<Longrightarrow> debate_ok (fst (handleAccept env now msg from s))"
  by (simp add: handleAccept_def Let_def case_prod_unfold applyStart_ok)

lemma handleDecline_ok: "debate_ok s \<Longrightarrow> debate_ok (fst (handleDecline env now msg s))"
  by (simp add: handleDecline_def Let_def clearPending_ok)

lemma handleInvite_ok: "debate_ok s \<Longrightarrow> debate_ok (fst (handleInviteIncoming env now msg from s))"
  by (auto simp: handleInviteIncoming_def Let_def debate_ok_def)

lemma handleMessage_ok: "debate_ok s \<Longrightarrow> debate_ok (fst (handleMessage env now msg s))"
  by (simp add: handleMessage_def Let_def handleInvite_ok handleAccept_ok handleDecline_ok clearPending_ok
      applyStart_ok applyTurn_ok debate_end_ok)

lemma inviteOrToggle_ok: "debate_ok s \<Longrightarrow> debate_ok (fst (fst (inviteOrToggle env now s)))"
  by (simp add: inviteOrToggle_def Let_def debate_end_ok clearPending_ok)

lemma sendInvite_ok: "debate_ok s \<Longrightarrow> debate_ok (fst (fst (sendInviteFromCompose env now i secs topic s)))"
  by (auto simp: sendInviteFromCompose_def Let_def debate_ok_def clearPending_def canStart_def)

lemma acceptIncoming_ok: "debate_ok s \<Longrightarrow> debate_ok (fst (acceptIncoming env now s))"
  by (auto simp: acceptIncoming_def Let_def debate_ok_def)

lemma declineIncoming_ok: "debate_ok s \<Longrightarrow> debate_ok (fst (declineIncoming env now reason s))"
  by (simp add: declineIncoming_def Let_def clearPending_ok)

lemma passTurn_ok: "debate_ok s \<Longrightarrow> debate_ok (fst (fst (passTurn env now s)))"
  by (simp add: passTurn_def advanceTurn_ok)

lemma fireInviteTimer_ok: "debate_ok s \<Longrightarrow> debate_ok (fst (fireInviteTimer env now s))"
  by (cases "(dbInviteTimer s, dbPending s, dbInviteId s)" rule: timer_fits.cases)
    (auto simp: fireInviteTimer_def Let_def debate_ok_def clearPending_def)

lemma debate_tick_ok: "debate_ok s \<Longrightarrow> debate_ok (fst (debate_tick env now s))"
  by (auto simp: debate_tick_def Let_def case_prod_unfold debate_end_ok advanceTurn_ok)
    (simp_all add: debate_ok_def)

lemmas debate_ops_ok = handleMessage_ok inviteOrToggle_ok sendInvite_ok acceptIncoming_ok declineIncoming_ok
  passTurn_ok fireInviteTimer_ok debate_tick_ok debate_end_ok

lemma debate_step_ok: "debate_ok s \<Longrightarrow> debate_ok (fst (debate_step env now ev s))"
  by (cases ev) (simp_all add: debate_step_def debate_ops_ok debate_reset_def)

text \<open>A step of a run: the environment, the clock and the event.\<close>

definition debate_next :: "debate_state \<Rightarrow> debate_env \<times> int \<times> debate_event \<Rightarrow> debate_state" where
  "debate_next s e = (case e of (env, now, ev) \<Rightarrow> fst (debate_step env now ev s))"

interpretation dbm: event_machine debate_next debate_ok
  by unfold_locales (simp add: debate_next_def debate_step_ok split: prod.split)

lemma new_debate_ok: "debate_ok new_debate"
  by (simp add: new_debate_def debate_ok_def turn_len_ok_def DEBATE_TURN_MS_def)

lemma debate_run_ok: "debate_ok (foldl debate_next new_debate es)"
  by (rule dbm.inv_run [OF new_debate_ok])

section \<open>The mic lock\<close>

definition mic_of :: "bool \<Rightarrow> debate_out list \<Rightarrow> bool" where
  "mic_of m outs = fold (\<lambda>out m. case out of OMic b \<Rightarrow> b | _ \<Rightarrow> m) outs m"

definition mic_want :: "debate_env \<Rightarrow> debate_state \<Rightarrow> bool" where
  "mic_want env s \<longleftrightarrow> dbActive s \<and> \<not> iAmSpeaker env s"

lemma mic_of_simps [simp]:
  "mic_of m [] = m" "mic_of m (OSend x # outs) = mic_of m outs" "mic_of m (OStatus t # outs) = mic_of m outs"
  "mic_of m (OChange sn # outs) = mic_of m outs" "mic_of m (OMic b # outs) = mic_of b outs"
  "mic_of m (xs @ ys) = mic_of (mic_of m xs) ys"
  "mic_of m (debate_send env now ob # outs) = mic_of m outs" "mic_of m (turn_status env s # outs) = mic_of m outs"
  by (simp_all add: mic_of_def debate_send_def turn_status_def)

lemma mic_of_emit [simp]: "mic_of m (emit env now s) = mic_want env s"
  by (simp add: emit_def applyMic_def mic_want_def)

lemma mic_want_cong:
  "dbActive s' = dbActive s \<Longrightarrow> dbSpeakerId s' = dbSpeakerId s \<Longrightarrow> mic_want env s' = mic_want env s"
  by (simp add: mic_want_def iAmSpeaker_def)

lemma mic_clearPending [simp]: "mic_want env (clearPending s) = mic_want env s"
  by (rule mic_want_cong) (simp_all add: clearPending_def)

lemma mic_want_fields [simp]:
  "mic_want env (s\<lparr>dbInviteTimer := t\<rparr>) = mic_want env s"
  "mic_want env (s\<lparr>dbTicking := b\<rparr>) = mic_want env s"
  by (rule mic_want_cong; simp)+

definition mic_kept :: "debate_env \<Rightarrow> debate_state \<Rightarrow> debate_result \<Rightarrow> bool" where
  "mic_kept env s r \<longleftrightarrow> mic_of (mic_want env s) (snd r) = mic_want env (fst r)"

lemma mic_kept_pair [simp]: "mic_kept env s (s', outs) \<longleftrightarrow> mic_of (mic_want env s) outs = mic_want env s'"
  by (simp add: mic_kept_def)

lemma mic_kept_then:
  "mic_kept env s (s, outs) \<Longrightarrow> mic_kept env s r \<Longrightarrow> mic_kept env s (fst r, outs @ snd r)"
  by (simp add: mic_kept_def)

lemma mic_end [simp]: "mic_kept env s (debate_end env now notify reason silent s)"
  by (simp add: debate_end_def Let_def)

lemma mic_advance [simp]: "mic_kept env s (advanceTurn env now force y s)"
  by (simp add: advanceTurn_def)

lemma mic_start [simp]: "mic_kept env s (applyStart env now msg s)"
  by (simp add: applyStart_def)

lemma mic_turn [simp]: "mic_kept env s (applyTurn env now msg s)"
  by (simp add: applyTurn_def Let_def)

lemma mic_accept [simp]: "mic_kept env s (handleAccept env now msg from s)"
  using mic_start [of env s now "start_msg env now from s"]
  by (simp add: handleAccept_def Let_def case_prod_unfold mic_kept_def)

lemma mic_invite [simp]: "mic_kept env s (handleInviteIncoming env now msg from s)"
  by (simp add: handleInviteIncoming_def Let_def)

lemma mic_decline [simp]: "mic_kept env s (handleDecline env now msg s)"
  by (simp add: handleDecline_def Let_def)

lemma mic_message [simp]: "mic_kept env s (handleMessage env now msg s)"
  by (simp add: handleMessage_def Let_def)

lemma mic_toggle [simp]: "mic_kept env s (fst (inviteOrToggle env now s))"
  by (simp add: inviteOrToggle_def Let_def)

lemma mic_accept_in [simp]: "mic_kept env s (acceptIncoming env now s)"
  by (simp add: acceptIncoming_def Let_def)

lemma mic_decline_in [simp]: "mic_kept env s (declineIncoming env now reason s)"
  by (simp add: declineIncoming_def Let_def)

lemma mic_pass [simp]: "mic_kept env s (fst (passTurn env now s))"
  by (simp add: passTurn_def)

lemma mic_compose [simp]: "mic_kept env s (fst (sendInviteFromCompose env now invId secs topic s))"
  by (simp add: sendInviteFromCompose_def Let_def)

lemma mic_fire [simp]: "mic_kept env s (fireInviteTimer env now s)"
  by (simp add: fireInviteTimer_def Let_def split: option.split debate_timer.split)

lemma mic_tick [simp]: "mic_kept env s (debate_tick env now s)"
  using mic_kept_then [OF _ mic_advance, of env s "emit env now s" now True False]
  by (simp add: debate_tick_def case_prod_unfold Let_def)

lemma mic_snapshot [simp]: "mic_kept env s (s, sendSnapshot env now s)"
  by (simp add: sendSnapshot_def)

lemma debate_step_mic: "mic_kept env s (debate_step env now ev s)"
  by (cases ev) (simp_all add: debate_step_def debate_reset_def del: mic_kept_pair)

text \<open>A run in which one user takes part: the state and the last mic lock it set.\<close>

definition mic_next :: "string \<Rightarrow> debate_state \<times> bool \<Rightarrow> debate_env \<times> int \<times> debate_event \<Rightarrow> debate_state \<times> bool" where
  "mic_next me sm e =
     (case (sm, e) of ((s, m), (env, now, ev)) \<Rightarrow>
        let r = debate_step (env\<lparr>myUserId := me\<rparr>) now ev s in (fst r, mic_of m (snd r)))"

definition mic_ok :: "string \<Rightarrow> debate_state \<times> bool \<Rightarrow> bool" where
  "mic_ok me sm \<longleftrightarrow> snd sm = (dbActive (fst sm) \<and> \<not> debateUidEq (dbSpeakerId (fst sm)) me)"

interpretation micm: event_machine "mic_next me" "mic_ok me"
proof
  fix sm and e :: "debate_env \<times> int \<times> debate_event" assume ok: "mic_ok me sm"
  obtain s m env now ev where e: "sm = (s, m)" "e = (env, now, ev)"
    by (metis prod.exhaust)
  let ?env = "env\<lparr>myUserId := me\<rparr>"
  from ok have "m = mic_want ?env s"
    by (simp add: e mic_ok_def mic_want_def iAmSpeaker_def)
  then show "mic_ok me (mic_next me sm e)"
    using debate_step_mic [of ?env s now ev]
    by (simp add: e mic_next_def mic_ok_def mic_kept_def Let_def mic_want_def iAmSpeaker_def)
qed

section \<open>The turn goes round the roster\<close>

lemma filter_single: "distinct xs \<Longrightarrow> i \<in> set xs \<Longrightarrow> filter (\<lambda>j. j = i) xs = [i]"
  by (induction xs) (auto simp: filter_empty_conv)

lemma roster_ok_nth:
  assumes "roster_ok r" and "i < length r" and "j < length r" and "debateUidEq (r ! i) (r ! j)"
  shows "i = j"
proof (rule ccontr)
  assume "i \<noteq> j"
  then consider "i < j" | "j < i" by linarith
  then show False
    using assms sorted_wrt_nth_less [of "\<lambda>a b. \<not> debateUidEq a b" r] debateUidEq_sym [of "r ! i" "r ! j"]
    by cases (simp_all add: roster_ok_def)
qed

lemma first_uid_index_eq:
  assumes "roster_ok r" and "i < length r" and "debateUidEq (r ! i) cur"
  shows "first_uid_index cur r = Some i"
proof -
  have "debateUidEq (r ! j) cur \<longleftrightarrow> j = i" if "j \<in> set [0..<length r]" for j
    using assms that roster_ok_nth [OF assms(1), of j i] debateUidEq_trans [of "r ! j" cur "r ! i"]
    by (auto simp: debateUidEq_sym [of cur])
  then have "filter (\<lambda>j. debateUidEq (r ! j) cur) [0..<length r] = filter (\<lambda>j. j = i) [0..<length r]"
    by (rule filter_cong [OF refl])
  also have "\<dots> = [i]"
    using assms(2) by (intro filter_single) auto
  finally show ?thesis by (simp add: first_uid_index_def)
qed

lemma otherSpeaker_next:
  assumes "roster_ok (dbSpeakers s)" and "2 \<le> length (dbSpeakers s)" and "i < length (dbSpeakers s)"
    and "debateUidEq (dbSpeakers s ! i) (dbSpeakerId s)"
  shows "otherSpeaker env s = dbSpeakers s ! ((i + 1) mod length (dbSpeakers s))"
  using assms first_uid_index_eq [of "dbSpeakers s" i "js_trim (dbSpeakerId s)"]
  by (auto simp: otherSpeaker_def Let_def)

lemma otherSpeaker_in:
  "2 \<le> length (dbSpeakers s) \<Longrightarrow> otherSpeaker env s \<in> set (dbSpeakers s)"
  by (auto simp: otherSpeaker_def Let_def intro!: nth_mem mod_less_divisor split: option.split)

lemma roster_ok_elem: "roster_ok r \<Longrightarrow> x \<in> set r \<Longrightarrow> x \<noteq> '''' \<and> debateUidEq x x"
  by (auto simp: roster_ok_def list_all_iff debateUidEq_refl)

text \<open>The turns a host makes when its clock runs out, at the times \<open>ts\<close>.\<close>

definition host_turns :: "debate_env \<Rightarrow> int list \<Rightarrow> debate_state \<Rightarrow> debate_state" where
  "host_turns env ts s = fold (\<lambda>now s. fst (advanceTurn env now True False s)) ts s"

lemma host_turn:
  assumes "dbActive s" and "debateUidEq (dbHostId s) (myUserId env)" and "otherSpeaker env s \<noteq> ''''"
  shows "advanceTurn env now True False s =
    (turned env now s, debate_send env now (turn_msg (turned env now s))
       # emit env now (turned env now s) @ [turn_status env (turned env now s)])"
  using assms by (simp add: advanceTurn_def turn_allowed_def announces_def)

lemma host_turns_round:
  assumes "dbActive s" and "debateUidEq (dbHostId s) (myUserId env)" and "roster_ok (dbSpeakers s)"
    and "2 \<le> length (dbSpeakers s)" and "i < length (dbSpeakers s)"
    and "debateUidEq (dbSpeakers s ! i) (dbSpeakerId s)"
  shows "debateUidEq (dbSpeakers s ! ((i + length ts) mod length (dbSpeakers s))) (dbSpeakerId (host_turns env ts s))
    \<and> dbTurnIndex (host_turns env ts s) = dbTurnIndex s + int (length ts)"
  using assms
proof (induction ts arbitrary: s i)
  case Nil
  then show ?case by (simp add: host_turns_def)
next
  case (Cons t ts)
  let ?n = "length (dbSpeakers s)" and ?s = "turned env t s"
  let ?i = "(i + 1) mod ?n"
  have nxt: "otherSpeaker env s = dbSpeakers s ! ?i"
    using Cons.prems by (intro otherSpeaker_next) auto
  have lt: "?i < ?n"
    using Cons.prems by (intro mod_less_divisor) auto
  then have mem: "dbSpeakers s ! ?i \<in> set (dbSpeakers s)" by (rule nth_mem)
  then have self: "dbSpeakers s ! ?i \<noteq> ''''" "debateUidEq (dbSpeakers s ! ?i) (dbSpeakers s ! ?i)"
    using roster_ok_elem [OF Cons.prems(3)] by auto
  have "fst (advanceTurn env t True False s) = ?s"
    using host_turn [of s env t] Cons.prems nxt self by simp
  then have run: "host_turns env (t # ts) s = host_turns env ts ?s"
    by (simp add: host_turns_def)
  have "debateUidEq (dbSpeakers ?s ! ((?i + length ts) mod length (dbSpeakers ?s))) (dbSpeakerId (host_turns env ts ?s))
    \<and> dbTurnIndex (host_turns env ts ?s) = dbTurnIndex ?s + int (length ts)"
    using Cons.prems nxt self lt by (intro Cons.IH) auto
  then show ?case
    unfolding run by (simp add: mod_add_left_eq)
qed

section \<open>Two sessions and the channel between them\<close>

definition turn_view :: "debate_state \<Rightarrow> bool \<times> string \<times> int \<times> int \<times> int" where
  "turn_view s = (dbActive s, dbSpeakerId s, dbTurnIndex s, dbTurnEndsAt s, dbTurnMs s)"

definition deliver :: "debate_env \<Rightarrow> int \<Rightarrow> debate_out list \<Rightarrow> debate_state \<Rightarrow> debate_state" where
  "deliver env now outs g =
     fold (\<lambda>out g. case out of OSend m \<Rightarrow> fst (handleMessage env now m g) | _ \<Rightarrow> g) outs g"

lemma deliver_simps [simp]:
  "deliver env now [] g = g" "deliver env now (OStatus txt # outs) g = deliver env now outs g"
  "deliver env now (OChange sn # outs) g = deliver env now outs g"
  "deliver env now (OMic b # outs) g = deliver env now outs g"
  "deliver env now (debate_send henv t ob # outs) g
     = deliver env now outs (fst (handleMessage env now (debate_payload henv t ob) g))"
  "deliver env now (turn_status henv s # outs) g = deliver env now outs g"
  "deliver env now (xs @ ys) g = deliver env now ys (deliver env now xs g)"
  by (simp_all add: deliver_def debate_send_def turn_status_def)

lemma deliver_emit [simp]: "deliver env now (emit henv t s) g = g"
  by (simp add: emit_def applyMic_def)

lemma payload_get:
  assumes "distinct (map fst ob)" and "k \<notin> {''ts'', ''name'', ''user_id'', ''v''}"
  shows "oget (debate_payload env now ob) k = oget ob k"
  using assms by (simp add: debate_payload_def oget_spread) (simp add: oget_def jget_def split: option.split)

lemma handleMessage_routes:
  "oget m ''type'' = JStr ''debate_start'' \<Longrightarrow> handleMessage env now m s = applyStart env now m s"
  "oget m ''type'' = JStr ''debate_turn'' \<Longrightarrow> handleMessage env now m s = applyTurn env now m s"
  by (simp_all add: handleMessage_def Let_def)

lemma turn_msg_get [simp]:
  "oget (turn_msg s) ''type'' = JStr ''debate_turn''" "oget (turn_msg s) ''speaker_id'' = JStr (dbSpeakerId s)"
  "oget (turn_msg s) ''turn_index'' = JNum (dbTurnIndex s)"
  "oget (turn_msg s) ''turn_ends_at'' = JNum (dbTurnEndsAt s)"
  "dbTurnMs s \<noteq> 0 \<Longrightarrow> oget (turn_msg s) ''turn_ms'' = JNum (dbTurnMs s)"
  by (simp_all add: turn_msg_def)

lemma start_msg_get [simp]:
  "oget (start_msg env t from s) ''type'' = JStr ''debate_start''"
  "oget (start_msg env t from s) ''host_id'' = JStr (myUserId env)"
  "oget (start_msg env t from s) ''first_speaker_id'' = JStr (myUserId env)"
  "oget (start_msg env t from s) ''turn_index'' = JNum 0" "oget (start_msg env t from s) ''sync'' = JUndef"
  "oget (start_msg env t from s) ''turn_ms''
     = JNum (normalizeDebateTurnMs (js_or (JNum (dbTurnMs s)) (JNum DEBATE_TURN_MS)))"
  "oget (start_msg env t from s) ''turn_ends_at''
     = JNum (t + normalizeDebateTurnMs (js_or (JNum (dbTurnMs s)) (JNum DEBATE_TURN_MS)))"
  by (simp_all add: start_msg_def Let_def)

text \<open>Both ends see one turn, and the host is who announces it.\<close>

definition host_leads :: "debate_env \<Rightarrow> debate_state \<Rightarrow> bool" where
  "host_leads env h \<longleftrightarrow> dbActive h \<and> dbTicking h \<and> debateUidEq (dbHostId h) (myUserId env) \<and> turn_len_ok (dbTurnMs h)
     \<and> roster_ok (dbSpeakers h) \<and> 2 \<le> length (dbSpeakers h) \<and> list_all (\<lambda>x. length x \<le> 64) (dbSpeakers h)"

lemma host_leads_turned: "host_leads env h \<Longrightarrow> host_leads env (turned env t h)"
  by (simp add: host_leads_def) (simp add: turned_def)

lemma guest_turn:
  assumes lead: "host_leads henv h" and view: "turn_view h = turn_view g" and "0 \<le> t"
  shows "turn_view (fst (handleMessage genv t' (debate_payload henv t (turn_msg (turned henv t h))) g))
    = turn_view (turned henv t h)"
proof -
  let ?m = "debate_payload henv t (turn_msg (turned henv t h))"
  have sp: "otherSpeaker henv h \<in> set (dbSpeakers h)"
    using lead by (intro otherSpeaker_in) (simp add: host_leads_def)
  then have ne: "otherSpeaker henv h \<noteq> ''''" "take 64 (otherSpeaker henv h) = otherSpeaker henv h"
    using lead roster_ok_elem [of "dbSpeakers h"] by (auto simp: host_leads_def list_all_iff)
  have ms: "dbTurnMs h \<noteq> 0" "turn_len_ok (dbTurnMs h)" "0 < t + dbTurnMs h"
    using lead assms(3) by (auto simp: host_leads_def turn_len_ok_def)
  have get: "oget ?m k = oget (turn_msg (turned henv t h)) k" if "k \<notin> {''ts'', ''name'', ''user_id'', ''v''}" for k
    using that by (intro payload_get) (simp_all add: turn_msg_def)
  have g: "dbActive g" "dbTurnIndex g = dbTurnIndex h"
    using view lead by (auto simp: turn_view_def host_leads_def)
  have turn: "fst (handleMessage genv t' ?m g) = fst (applyTurn genv t' ?m g)"
    by (subst handleMessage_routes(2)) (simp_all add: get)
  show ?thesis
    using g ne ms lead
    by (simp add: turn applyTurn_def get turn_view_def Let_def normalize_turn_len
        host_leads_def)
qed

lemma host_tick_in_step:
  assumes lead: "host_leads henv h" and view: "turn_view h = turn_view g" and "0 \<le> t" and "isMatched henv"
    and tick: "debate_tick henv t h = (h', outs)"
  shows "host_leads henv h' \<and> turn_view h' = turn_view (deliver genv t' outs g)"
proof -
  have ne: "otherSpeaker henv h \<noteq> ''''"
    using lead otherSpeaker_in [of h henv] roster_ok_elem [of "dbSpeakers h"] by (auto simp: host_leads_def)
  have act: "dbActive h" "dbTicking h" "debateUidEq (dbHostId h) (myUserId henv)"
    using lead by (simp_all add: host_leads_def)
  show ?thesis
  proof (cases "dbTurnEndsAt h \<le> t")
    case True
    then have "debate_tick henv t h = (turned henv t h, emit henv t h @ debate_send henv t (turn_msg (turned henv t h))
        # emit henv t (turned henv t h) @ [turn_status henv (turned henv t h)])"
      using act assms(4) host_turn [OF act(1,3) ne, of t] by (simp add: debate_tick_def)
    then have "h' = turned henv t h" "outs = emit henv t h @ debate_send henv t (turn_msg (turned henv t h))
        # emit henv t (turned henv t h) @ [turn_status henv (turned henv t h)]"
      using tick by simp_all
    then show ?thesis
      using guest_turn [OF lead view assms(3), of genv t'] host_leads_turned [OF lead] by simp
  next
    case False
    then have "h' = h" "outs = emit henv t h"
      using tick act assms(4) by (auto simp: debate_tick_def)
    with lead view show ?thesis by simp
  qed
qed

text \<open>The ticks of the host at the first time of each pair, what it sends delivered at the second.\<close>

definition host_rounds :: "debate_env \<Rightarrow> debate_env \<Rightarrow> (int \<times> int) list \<Rightarrow> debate_state \<times> debate_state \<Rightarrow> debate_state \<times> debate_state" where
  "host_rounds henv genv ts hg =
     fold (\<lambda>(t, t') (h, g). let (h', outs) = debate_tick henv t h in (h', deliver genv t' outs g)) ts hg"

lemma host_rounds_in_step:
  assumes "host_leads henv h" and "turn_view h = turn_view g" and "isMatched henv" and "list_all (\<lambda>(t, _). 0 \<le> t) ts"
  shows "let (h', g') = host_rounds henv genv ts (h, g) in host_leads henv h' \<and> turn_view h' = turn_view g'"
  using assms
proof (induction ts arbitrary: h g)
  case (Cons p ts)
  obtain t t' where p: "p = (t, t')" by fastforce
  obtain h1 outs where tick: "debate_tick henv t h = (h1, outs)" by fastforce
  have "host_leads henv h1 \<and> turn_view h1 = turn_view (deliver genv t' outs g)"
    using host_tick_in_step [OF Cons.prems(1,2) _ Cons.prems(3) tick] Cons.prems(4) by (simp add: p)
  then show ?case
    using Cons.IH [of h1 "deliver genv t' outs g"] Cons.prems by (simp add: host_rounds_def p tick)
qed (simp add: host_rounds_def)

text \<open>The acceptance of an invitation, with the start message delivered to the guest.\<close>

lemma start_in_step:
  assumes pend: "dbPending h = PendOut" "\<not> other_invite acc h" and me: "myUserId henv \<noteq> ''''" and "0 \<le> t"
    and step: "handleAccept henv t acc from h = (h', outs)"
  shows "turn_view (deliver genv t' outs g) = turn_view h'" "dbHostId h' = take 64 (myUserId henv)"
proof -
  let ?ob = "start_msg henv t from h"
  let ?m = "debate_payload henv t ?ob"
  have get: "oget ?m k = oget ?ob k" if "k \<notin> {''ts'', ''name'', ''user_id'', ''v''}" for k
    using that by (intro payload_get) (simp_all add: start_msg_def Let_def)
  have ms: "turn_len_ok (normalizeDebateTurnMs v)" "normalizeDebateTurnMs v \<noteq> 0" "t + normalizeDebateTurnMs v \<noteq> 0" for v
    using normalizeDebateTurnMs_range [of v] assms(4) by auto
  have h': "h' = start_state henv t ?ob h"
    and outs: "outs = debate_send henv t ?ob # emit henv t h' @ [turn_status henv h']"
    using step pend by (auto simp: handleAccept_def applyStart_def Let_def)
  have guest: "fst (handleMessage genv t' ?m g) = start_state genv t' ?m g"
    by (subst handleMessage_routes(1)) (simp_all add: get applyStart_def)
  have first: "start_first env' ?m = take 64 (myUserId henv)" "start_first env' ?ob = take 64 (myUserId henv)" for env'
    using me by (simp_all add: start_first_def get Let_def js_or_def)
  have len: "start_turn_ms ?m s = start_turn_ms ?ob s'" for s s'
    using ms(2) by (simp add: start_turn_ms_def get js_or_def)
  show "turn_view (deliver genv t' outs g) = turn_view h'"
    by (simp add: outs guest h' turn_view_def first get ms len [of g h])
  show "dbHostId h' = take 64 (myUserId henv)"
    using me by (simp add: h')
qed

section \<open>The hub chat fallback\<close>














section \<open>Properties\<close>

text \<open>C40: Every reachable session has a turn length between 10 and 120 seconds and a topic of at
  most 80 characters, whatever numbers and texts the messages carried, its roster names nobody
  twice, the ticker runs exactly while the debate is active, nothing is pending then, and an
  invitation is pending exactly while its timer is scheduled.\<close>

theorem debate_sessions_ok:
  "debate_ok (foldl debate_next new_debate es)"
  by (rule debate_run_ok)

text \<open>A turn length read from any value is a whole number of seconds between 10 and 120, and a
  second reading of it changes nothing.\<close>

theorem turn_length_bounds:
  "10000 \<le> normalizeDebateTurnMs v \<and> normalizeDebateTurnMs v \<le> 120000 \<and> 1000 dvd normalizeDebateTurnMs v
   \<and> normalizeDebateTurnMs (JNum (normalizeDebateTurnMs v)) = normalizeDebateTurnMs v"
  by (simp add: normalizeDebateTurnMs_range normalize_turn_len)

text \<open>No invitation stays pending: in every reachable session one that is pending has its timer
  scheduled, and when that timer fires nothing is pending any more.\<close>

theorem invitation_resolves:
  "let s = foldl debate_next new_debate es
   in (dbPending s = PendNone \<longleftrightarrow> dbInviteTimer s = None)
      \<and> dbPending (fst (fireInviteTimer env now s)) = PendNone
      \<and> dbInviteTimer (fst (fireInviteTimer env now s)) = None"
proof -
  define s where "s = foldl debate_next new_debate es"
  have ok: "debate_ok s" unfolding s_def by (rule debate_run_ok)
  have "dbPending s = PendNone \<longleftrightarrow> dbInviteTimer s = None"
    using ok by (cases "(dbInviteTimer s, dbPending s, dbInviteId s)" rule: timer_fits.cases)
      (auto simp: debate_ok_def)
  moreover have "dbPending (fst (fireInviteTimer env now s)) = PendNone
      \<and> dbInviteTimer (fst (fireInviteTimer env now s)) = None"
    using ok by (cases "(dbInviteTimer s, dbPending s, dbInviteId s)" rule: timer_fits.cases)
      (auto simp: debate_ok_def fireInviteTimer_def clearPending_def Let_def)
  ultimately show ?thesis by (simp add: s_def)
qed

text \<open>C25: Along any run of events the microphone is locked exactly while a debate is active and
  somebody else has the turn; in particular it is free again after every ended debate.\<close>

theorem mic_locked_exactly:
  "let (s, locked) = foldl (mic_next me) (new_debate, False) es
   in locked \<longleftrightarrow> dbActive s \<and> \<not> debateUidEq (dbSpeakerId s) me"
  using micm.inv_run [of me "(new_debate, False)" es]
  by (auto simp: mic_ok_def new_debate_def case_prod_unfold)

text \<open>C1: An accepted invitation puts both ends in one turn, and however often the host's clock then
  runs out, with its messages delivered, both see the same speaker, turn number, deadline and
  turn length, and never do both hold the turn.\<close>

theorem debate_ends_in_step:
  assumes "dbPending h = PendOut" and "\<not> other_invite acc h" and "0 \<le> t" and "isMatched henv"
    and "handleAccept henv t acc from h = (h1, outs)"
    and "host_leads henv h1"
    and "list_all (\<lambda>(t, _). 0 \<le> t) ts"
    and "\<not> debateUidEq (myUserId henv) (myUserId genv)"
  shows "let (h', g') = host_rounds henv genv ts (h1, deliver genv t' outs g)
    in turn_view h' = turn_view g' \<and> \<not> (iAmSpeaker henv h' \<and> iAmSpeaker genv g')"
proof -
  have me: "myUserId henv \<noteq> ''''"
    using assms(6) by (auto simp: host_leads_def debateUidEq_def Let_def js_trim_def)
  have start: "turn_view h1 = turn_view (deliver genv t' outs g)"
    using start_in_step(1) [OF assms(1,2) me assms(3,5)] by simp
  obtain h' g' where run: "host_rounds henv genv ts (h1, deliver genv t' outs g) = (h', g')"
    by fastforce
  have view: "turn_view h' = turn_view g'"
    using host_rounds_in_step [OF assms(6) start assms(4,7), where genv = genv] by (simp add: run)
  then have "dbSpeakerId h' = dbSpeakerId g'" by (simp add: turn_view_def)
  then have "\<not> (iAmSpeaker henv h' \<and> iAmSpeaker genv g')"
    using assms(8) debateUidEq_trans [of "myUserId henv" "dbSpeakerId h'" "myUserId genv"]
    by (auto simp: iAmSpeaker_def debateUidEq_sym)
  with view show ?thesis by (simp add: run)
qed

text \<open>The host hands the turn round the roster in its order: after \<open>k\<close> turns the speaker is the
  participant \<open>k\<close> places further on, so each of them speaks once in every round.\<close>

theorem turns_go_round:
  assumes "debate_ok s" and "dbActive s" and "debateUidEq (dbHostId s) (myUserId env)"
    and "2 \<le> length (dbSpeakers s)" and "i < length (dbSpeakers s)"
    and "debateUidEq (dbSpeakers s ! i) (dbSpeakerId s)"
  shows "debateUidEq (dbSpeakers s ! ((i + length ts) mod length (dbSpeakers s))) (dbSpeakerId (host_turns env ts s))
    \<and> dbTurnIndex (host_turns env ts s) = dbTurnIndex s + int (length ts)"
  using assms by (intro host_turns_round) (simp_all add: debate_ok_def)


section \<open>Concrete runs\<close>

definition host_env :: debate_env where
  "host_env = \<lparr>myUserId = ''ann'', myName = ''Ann'', partnerUserId = ''bob'', isMatched = True,
     isDcOpen = True, roomUserIds = [], sendOk = True\<rparr>"

definition guest_env :: debate_env where
  "guest_env = \<lparr>myUserId = ''bob'', myName = ''Bob'', partnerUserId = ''ann'', isMatched = True,
     isDcOpen = True, roomUserIds = [], sendOk = True\<rparr>"

definition host_invited :: debate_state where
  "host_invited = fst (fst (sendInviteFromCompose host_env 1000 ''d-1'' (JNum 45) (JStr ''cats'') new_debate))"

definition accept_reply :: jsobj where
  "accept_reply = [(''type'', JStr ''debate_accept''), (''invite_id'', JStr ''d-1'')]"

abbreviation host_started :: debate_result where
  "host_started \<equiv> handleAccept host_env 2000 accept_reply ''bob'' host_invited"

theorem debate_ends_in_step_witness:
  "dbSpeakerId (fst host_started) = ''ann''
   \<and> (let (h', g') = host_rounds host_env guest_env [(47000, 47010), (50000, 50001)]
             (fst host_started, deliver guest_env 2010 (snd host_started) new_debate)
      in turn_view h' = turn_view g' \<and> \<not> (iAmSpeaker host_env h' \<and> iAmSpeaker guest_env g'))"
proof (rule conjI)
  show "dbSpeakerId (fst host_started) = ''ann''" by code_simp
  have pend: "dbPending host_invited = PendOut" "\<not> other_invite accept_reply host_invited"
    "(0::int) \<le> 2000" "isMatched host_env" by code_simp+
  have lead: "host_leads host_env (fst host_started)" by code_simp
  have times: "list_all (\<lambda>(t, _). 0 \<le> t) [(47000::int, 47010::int), (50000, 50001)]" by simp
  have differ: "\<not> debateUidEq (myUserId host_env) (myUserId guest_env)" by code_simp
  show "let (h', g') = host_rounds host_env guest_env [(47000, 47010), (50000, 50001)]
          (fst host_started, deliver guest_env 2010 (snd host_started) new_debate)
    in turn_view h' = turn_view g' \<and> \<not> (iAmSpeaker host_env h' \<and> iAmSpeaker guest_env g')"
    by (rule debate_ends_in_step [OF pend prod.collapse [symmetric] lead times differ])
qed

definition three_way :: debate_state where
  "three_way = new_debate\<lparr>dbActive := True, dbTicking := True, dbHostId := ''ann'', dbSpeakerId := ''ann'',
     dbSpeakers := [''ann'', ''bob'', ''cat'']\<rparr>"

theorem turns_go_round_witness:
  "dbSpeakerId (host_turns host_env [31000, 62000] three_way) = ''cat''
   \<and> dbTurnIndex (host_turns host_env [31000, 62000] three_way) = dbTurnIndex three_way + int (length [31000 :: int, 62000])"
proof (rule conjI)
  show "dbSpeakerId (host_turns host_env [31000, 62000] three_way) = ''cat''" by code_simp
  have "debate_ok three_way" "dbActive three_way" "debateUidEq (dbHostId three_way) (myUserId host_env)"
    "2 \<le> length (dbSpeakers three_way)" "0 < length (dbSpeakers three_way)"
    "debateUidEq (dbSpeakers three_way ! 0) (dbSpeakerId three_way)"
    by code_simp+
  then show "dbTurnIndex (host_turns host_env [31000, 62000] three_way)
     = dbTurnIndex three_way + int (length [31000 :: int, 62000])"
    by (rule turns_go_round [THEN conjunct2])
qed


text \<open>Composing an invitation succeeds exactly when a debate can start, the data channel is open
  and the channel takes the message; then it is pending with its timer set. Any failure is reported
  by the result and leaves no invitation pending that was not pending before.\<close>

theorem compose_reports_failure:
  "let (r, ok) = sendInviteFromCompose env now i secs topic s
   in (ok \<longleftrightarrow> canStart env s \<and> isDcOpen env \<and> sendOk env)
      \<and> dbActive (fst r) = dbActive s
      \<and> (if ok then dbPending (fst r) = PendOut \<and> dbInviteId (fst r) = i \<and> dbInviteTimer (fst r) = Some (TimerOut i)
         else if canStart env s then dbPending (fst r) = PendNone else fst r = s)"
  by (auto simp: sendInviteFromCompose_def clearPending_def canStart_def Let_def)

end
