(* ===== verification/PeerIds.thy ===== *)
theory PeerIds
  imports JsVal
begin

text \<open>
  Peer identities on the phone: the loose comparison of peer ids and the trust tiers of
  \<open>mobile/src/identity/flagTrust.ts\<close>, and the decisions a new match takes about existing
  connections, \<open>mobile/src/live/matchContinuity.ts\<close>. An id that is null or undefined is the
  empty string, an absent list is empty, a count is an integer.
\<close>

section \<open>Flags and trust\<close>

definition TRUST_TRUSTED :: int where "TRUST_TRUSTED = 100"
definition TRUST_SENIOR :: int where "TRUST_SENIOR = 250"

datatype trust_tier = TierNew | TierKnown | TierTrusted | TierSenior

definition upper_letter :: "char \<Rightarrow> bool" where
  "upper_letter c = char_range (CHR ''A'') (CHR ''Z'') c"

definition flag_letters :: "jsval \<Rightarrow> string" where
  "flag_letters raw = take 2 (filter upper_letter (js_upper (js_trim (str_or raw))))"

definition normalizeFlagCode :: "jsval \<Rightarrow> string" where
  "normalizeFlagCode raw = (let s = flag_letters raw in if length s \<noteq> 2 then '''' else s)"

text \<open>The code points of the regional indicator pair.\<close>

definition flagEmoji :: "jsval \<Rightarrow> nat list" where
  "flagEmoji code =
     (let cc = normalizeFlagCode code in if cc = '''' then [] else map (\<lambda>c. 0x1f1e6 - 65 + of_char c) cc)"

definition trustTier :: "int \<Rightarrow> trust_tier" where
  "trustTier trust =
     (let n = max 0 trust
      in if n \<ge> TRUST_SENIOR then TierSenior else if n \<ge> TRUST_TRUSTED then TierTrusted
         else if n > 0 then TierKnown else TierNew)"

definition trustTierI18nKey :: "int \<Rightarrow> string" where
  "trustTierI18nKey trust =
     (let t = trustTier trust
      in if t = TierSenior then ''mobile.live.tierSenior'' else if t = TierTrusted then ''mobile.live.tierTrusted''
         else if t = TierKnown then ''mobile.live.tierKnown'' else ''mobile.live.tierNew'')"

section \<open>Peer ids\<close>

fun js_split :: "char \<Rightarrow> string \<Rightarrow> string list" where
  "js_split d [] = ['''']"
| "js_split d (c # cs) =
     (if c = d then '''' # js_split d cs
      else case js_split d cs of [] \<Rightarrow> [[c]] | p # ps \<Rightarrow> (c # p) # ps)"

definition id_char :: "char \<Rightarrow> bool" where
  "id_char c \<longleftrightarrow> char_range (CHR ''a'') (CHR ''z'') c \<or> js_digit c"

definition strip_fed :: "string \<Rightarrow> string" where
  "strip_fed s =
     (if js_starts s ''fed/'' \<and> length (js_split (CHR ''/'') s) \<ge> 3
      then let t = js_join ''/'' (drop 2 (js_split (CHR ''/'') s)) in if t \<noteq> '''' then t else s
      else s)"

definition normalizePeerIdKey :: "string \<Rightarrow> string" where
  "normalizePeerIdKey raw =
     (let s = js_lower (js_trim raw) in if s = '''' then '''' else filter id_char (strip_fed s))"

definition peerIdsLooseMatch :: "string \<Rightarrow> string \<Rightarrow> bool" where
  "peerIdsLooseMatch a b =
     (let x = normalizePeerIdKey a; y = normalizePeerIdKey b
      in if x = '''' \<or> y = '''' then False
         else if x = y then True
         else if length x \<ge> 8 \<and> length y \<ge> 8 \<and> take 8 x = take 8 y then True
         else if length x \<ge> 8 \<and> js_includes y x then True
         else if length y \<ge> 8 \<and> js_includes x y then True
         else False)"

section \<open>Continuity of a match\<close>

abbreviation legacy_id :: string where "legacy_id \<equiv> ''legacy''"

definition idMatch :: "string \<Rightarrow> string \<Rightarrow> bool" where
  "idMatch a b =
     (let x = js_trim a; y = js_trim b
      in if x = '''' \<or> y = '''' \<or> x = legacy_id \<or> y = legacy_id then False
         else x = y \<or> peerIdsLooseMatch x y)"

definition listedHas :: "string \<Rightarrow> string list \<Rightarrow> bool" where
  "listedHas prev listed = list_ex (\<lambda>i. idMatch prev i) listed"

record continuity_opts =
  coWasMatched :: bool
  coPrevPrimary :: string
  coPrevSecondary :: string
  coPrimaryPeerId :: string
  coSecondaryPeerId :: string
  coHasMedia2 :: bool
  coListed :: "string list"

record match_continuity =
  mcKeepPrimary :: bool
  mcKeepSecondary :: bool
  mcPromoteSecondary :: bool

definition computeMatchContinuity :: "continuity_opts \<Rightarrow> match_continuity" where
  "computeMatchContinuity r =
     (let prevStillListed = (listedHas (coPrevPrimary r) (coListed r) \<or> idMatch (coPrevPrimary r) (coPrimaryPeerId r));
          keepPrimary = (coWasMatched r \<and> coPrevPrimary r \<noteq> '''' \<and> coPrevPrimary r \<noteq> legacy_id \<and> prevStillListed);
          keepSecondary = (coWasMatched r \<and> coPrevSecondary r \<noteq> '''' \<and> coSecondaryPeerId r \<noteq> ''''
             \<and> coPrevSecondary r \<noteq> legacy_id \<and> coSecondaryPeerId r \<noteq> legacy_id
             \<and> idMatch (coPrevSecondary r) (coSecondaryPeerId r));
          promote = (coWasMatched r \<and> \<not> keepPrimary \<and> coPrevSecondary r \<noteq> '''' \<and> coPrevSecondary r \<noteq> legacy_id
             \<and> idMatch (coPrimaryPeerId r) (coPrevSecondary r) \<and> coHasMedia2 r)
      in \<lparr>mcKeepPrimary = keepPrimary, mcKeepSecondary = keepSecondary, mcPromoteSecondary = promote\<rparr>)"

definition count0 :: "int \<Rightarrow> int" where
  "count0 n = max 0 n"

definition shouldSkipPrimaryStartCall :: "bool \<Rightarrow> int \<Rightarrow> bool \<Rightarrow> bool \<Rightarrow> bool \<Rightarrow> bool \<Rightarrow> bool" where
  "shouldSkipPrimaryStartCall keepPrimary extrasCount partyBrowse hunting extraHangupKeep hasLiveRemote =
     (if extraHangupKeep then True
      else if \<not> keepPrimary then False
      else if count0 extrasCount > 0 then True
      else if partyBrowse \<or> hunting then True
      else hasLiveRemote)"

definition isPartyKeepOnSkip :: "string \<Rightarrow> bool" where
  "isPartyKeepOnSkip yourRole = (js_lower (js_trim yourRole) = ''party'')"

definition shouldNavigateToLive :: "string \<Rightarrow> bool" where
  "shouldNavigateToLive pathname =
     (let t = rev (dropWhile (\<lambda>c. c = CHR ''/'') (rev pathname)); p = (if t \<noteq> '''' then t else ''/'')
      in p \<noteq> ''/live'')"

datatype nocam_slot = SlotPrimary | SlotExtra0 | SlotExtra1

definition routeInboundNoCamSlot :: "string \<Rightarrow> string \<Rightarrow> string \<Rightarrow> string \<Rightarrow> int \<Rightarrow> nocam_slot" where
  "routeInboundNoCamSlot fromUid primaryUid extra0Uid extra1Uid extrasCount =
     (let from = js_trim fromUid; extras = count0 extrasCount; primary = js_trim primaryUid;
          extra0 = js_trim extra0Uid; extra1 = js_trim extra1Uid
      in if from \<noteq> '''' \<and> extra0 \<noteq> '''' \<and> idMatch from extra0 then SlotExtra0
         else if from \<noteq> '''' \<and> extra1 \<noteq> '''' \<and> idMatch from extra1 then SlotExtra1
         else if from \<noteq> '''' \<and> primary \<noteq> '''' \<and> idMatch from primary then SlotPrimary
         else if extras \<ge> 1 then SlotExtra0
         else SlotPrimary)"

definition shouldIgnorePrimaryNoCam :: "bool \<Rightarrow> nocam_slot \<Rightarrow> bool \<Rightarrow> bool \<Rightarrow> int \<Rightarrow> bool" where
  "shouldIgnorePrimaryNoCam on slot primaryHasPictures fromIsPrimary extrasCount =
     (if \<not> on then False
      else if slot \<noteq> SlotPrimary then False
      else if \<not> primaryHasPictures then False
      else if count0 extrasCount \<ge> 1 then True
      else \<not> fromIsPrimary)"

definition shouldRehomePrimaryNoCam :: "int \<Rightarrow> bool \<Rightarrow> bool \<Rightarrow> bool" where
  "shouldRehomePrimaryNoCam extrasCount partnerNoCam partnerCamHidden =
     (count0 extrasCount \<ge> 1 \<and> (partnerNoCam \<or> partnerCamHidden))"

definition shouldKeepTrioOnCallEnded :: "int \<Rightarrow> string \<Rightarrow> string \<Rightarrow> bool" where
  "shouldKeepTrioOnCallEnded extrasCount secondaryPeerId tertiaryPeerId =
     (let sec = js_trim secondaryPeerId; ter = js_trim tertiaryPeerId
      in if count0 extrasCount \<ge> 1 then True
         else if sec \<noteq> '''' \<and> sec \<noteq> legacy_id then True
         else if ter \<noteq> '''' \<and> ter \<noteq> legacy_id then True
         else False)"

definition shouldSoftRematch :: "bool \<Rightarrow> bool \<Rightarrow> int \<Rightarrow> bool" where
  "shouldSoftRematch keepPrimary promoteSecondary extrasCount =
     (keepPrimary \<or> promoteSecondary \<or> extrasCount > 0)"

definition shouldClearRemoteUi :: "bool \<Rightarrow> bool \<Rightarrow> bool \<Rightarrow> bool \<Rightarrow> bool \<Rightarrow> bool \<Rightarrow> bool" where
  "shouldClearRemoteUi keepPrimary leftoverLive videoSeen samePeer hadPrev pic =
     (if keepPrimary then False
      else if leftoverLive \<and> samePeer then False
      else if videoSeen \<and> samePeer then False
      else if leftoverLive \<and> pic \<and> \<not> hadPrev then False
      else True)"

section \<open>Routing of signals\<close>

datatype signal_target = TargetPrimary | TargetSecondary | TargetTertiary | TargetDrop

definition slotSet :: "string \<Rightarrow> string" where
  "slotSet i = (let s = js_trim i in if s = '''' \<or> s = legacy_id then '''' else s)"

record signal_opts =
  soFrom :: string
  soPrimary :: string
  soSecondary :: string
  soTertiary :: string
  soExtras :: int
  soListed :: "string list"

definition listed_remotes :: "signal_opts \<Rightarrow> nat" where
  "listed_remotes r = length (filter (\<lambda>i. let s = js_trim i in s \<noteq> '''' \<and> s \<noteq> legacy_id) (soListed r))"

definition routeInboundSignalTarget :: "signal_opts \<Rightarrow> signal_target" where
  "routeInboundSignalTarget r =
     (let from = js_trim (soFrom r); primary = slotSet (soPrimary r); secondary = slotSet (soSecondary r);
          tertiary = slotSet (soTertiary r); extras = count0 (soExtras r); listedRemotes = listed_remotes r
      in if from = '''' \<or> from = legacy_id then TargetPrimary
         else if primary \<noteq> '''' \<and> idMatch from primary then TargetPrimary
         else if secondary \<noteq> '''' \<and> idMatch from secondary then TargetSecondary
         else if tertiary \<noteq> '''' \<and> idMatch from tertiary then TargetTertiary
         else if primary \<noteq> '''' \<and> secondary \<noteq> '''' \<and> tertiary \<noteq> '''' \<and> extras \<ge> 3 then TargetDrop
         else if primary \<noteq> '''' \<and> secondary \<noteq> '''' \<and> (extras \<ge> 2 \<or> listedRemotes \<ge> 3 \<or> tertiary \<noteq> '''')
         then TargetTertiary
         else if primary \<noteq> '''' then TargetSecondary
         else if extras \<ge> 1 \<or> listedRemotes \<ge> 2 then TargetSecondary
         else TargetPrimary)"

definition latch_primary :: "string \<Rightarrow> string \<Rightarrow> string \<Rightarrow> string" where
  "latch_primary keep extra curP =
     (let p = (if curP \<noteq> '''' \<and> (idMatch curP keep \<or> extra \<noteq> '''' \<and> idMatch curP extra) then curP else keep)
      in if p = '''' then curP else p)"

definition latch_secondary :: "string \<Rightarrow> string \<Rightarrow> string \<Rightarrow> string \<Rightarrow> string" where
  "latch_secondary primaryId keep extra curS =
     (if curS \<noteq> '''' \<and> \<not> idMatch curS primaryId then curS
      else if extra \<noteq> '''' \<and> \<not> idMatch extra primaryId then extra
      else if keep \<noteq> '''' \<and> \<not> idMatch keep primaryId then keep
      else '''')"

definition latchThirdJoinerPeerIds :: "int \<Rightarrow> string \<Rightarrow> string \<Rightarrow> string \<Rightarrow> string \<Rightarrow> (string \<times> string) option" where
  "latchThirdJoinerPeerIds extrasCount keepPeerId extraPeerId currentPrimary currentSecondary =
     (if count0 extrasCount < 1 then None
      else
        let keep = slotSet keepPeerId; extra = slotSet extraPeerId;
            primaryId = latch_primary keep extra (slotSet currentPrimary)
        in Some (primaryId, latch_secondary primaryId keep extra (slotSet currentSecondary)))"

definition shouldResetStuckExtraPc :: "bool \<Rightarrow> string \<Rightarrow> bool \<Rightarrow> bool" where
  "shouldResetStuckExtraPc secondary iceState gotRemoteVideo =
     (if \<not> secondary then False
      else if gotRemoteVideo then False
      else let ice = js_lower iceState in ice = ''new'' \<or> ice = ''failed'' \<or> ice = '''')"

section \<open>Targets of partner actions\<close>

record action_identity =
  aiUserId :: string
  aiPeerId :: string
  aiFriendCode :: string
  aiName :: string

definition identOf :: "action_identity option \<Rightarrow> action_identity" where
  "identOf p = (case p of
       None \<Rightarrow> \<lparr>aiUserId = '''', aiPeerId = '''', aiFriendCode = '''', aiName = ''''\<rparr>
     | Some a \<Rightarrow> \<lparr>aiUserId = js_trim (aiUserId a), aiPeerId = js_trim (aiPeerId a),
                  aiFriendCode = js_trim (aiFriendCode a), aiName = js_trim (aiName a)\<rparr>)"

definition extraPartnerActionTarget ::
    "action_identity option list \<Rightarrow> string \<Rightarrow> action_identity option \<Rightarrow> (string \<times> action_identity) option" where
  "extraPartnerActionTarget extras slot primary =
     (let slt = (if slot = '''' then ''primary'' else slot)
      in if slt = ''primary'' then Some (''primary'', identOf primary)
         else let i = (if slt = ''extra1'' then 1 else if slt = ''extra0'' then 0 else -1 :: int)
              in if i < 0 then None
                 else if nat i < length extras
                 then (case extras ! nat i of None \<Rightarrow> None | Some e \<Rightarrow> Some (slt, identOf (Some e)))
                 else None)"

section \<open>Laws of the loose comparison\<close>

lemma normalizePeerIdKey_trim [simp]: "normalizePeerIdKey (js_trim a) = normalizePeerIdKey a"
  by (simp add: normalizePeerIdKey_def)

lemma loose_trim [simp]:
  "peerIdsLooseMatch (js_trim a) b = peerIdsLooseMatch a b" "peerIdsLooseMatch a (js_trim b) = peerIdsLooseMatch a b"
  by (simp_all add: peerIdsLooseMatch_def)

lemma loose_sym: "peerIdsLooseMatch a b = peerIdsLooseMatch b a"
  by (auto simp: peerIdsLooseMatch_def Let_def)

lemma loose_self: "peerIdsLooseMatch a a \<longleftrightarrow> normalizePeerIdKey a \<noteq> ''''"
  by (simp add: peerIdsLooseMatch_def)

lemma idMatch_sym: "idMatch a b = idMatch b a"
  using loose_sym [of a b] by (auto simp: idMatch_def Let_def)

lemma trim_legacy [simp]: "js_trim legacy_id = legacy_id"
  by (rule js_trim_trimmed) (simp add: trimmed_def js_space_def)

lemma idMatch_blank [simp]: "\<not> idMatch a ''''" "\<not> idMatch '''' a"
  by (simp_all add: idMatch_def js_trim_def)

lemma idMatch_legacy [simp]: "\<not> idMatch legacy_id b"
  by (simp add: idMatch_def)

lemma idMatch_nonblank: "idMatch a b \<Longrightarrow> a \<noteq> '''' \<and> a \<noteq> legacy_id"
  by (intro conjI notI) simp_all

lemma slotSet_trim: "slotSet i \<noteq> '''' \<Longrightarrow> slotSet i = js_trim i \<and> js_trim i \<noteq> legacy_id"
  by (simp add: slotSet_def Let_def split: if_splits)

lemma idMatch_slot [simp]: "idMatch a (slotSet b) \<longleftrightarrow> slotSet b \<noteq> '''' \<and> idMatch a b"
proof (cases "slotSet b = ''''")
  case False
  have "idMatch a (js_trim b) = idMatch a b" by (simp add: idMatch_def)
  with False show ?thesis using slotSet_trim [OF False] by metis
qed simp

section \<open>Properties\<close>

text \<open>C6: Once a primary partner is latched, a signal goes to its connection exactly when the sender
  is that partner or is not named; a signal of anybody else never reaches it. A named partner of
  the second or third place gets its own place unless it also matches an earlier one.\<close>

theorem signals_keep_primary:
  "let from = js_trim (soFrom r); named = (from \<noteq> '''' \<and> from \<noteq> legacy_id) in
   (if slotSet (soPrimary r) \<noteq> '''' \<and> named
    then routeInboundSignalTarget r = TargetPrimary \<longleftrightarrow> idMatch from (soPrimary r) else True)
   \<and> (if named \<and> \<not> idMatch from (slotSet (soPrimary r)) \<and> idMatch from (slotSet (soSecondary r))
      then routeInboundSignalTarget r = TargetSecondary else True)
   \<and> (if named \<and> \<not> idMatch from (slotSet (soPrimary r)) \<and> \<not> idMatch from (slotSet (soSecondary r))
        \<and> idMatch from (slotSet (soTertiary r))
      then routeInboundSignalTarget r = TargetTertiary else True)"
  by (auto simp: routeInboundSignalTarget_def Let_def)

definition stranger_signal :: signal_opts where
  "stranger_signal = \<lparr>soFrom = ''ddddddddd1'', soPrimary = ''aaaaaaaaa1'', soSecondary = ''bbbbbbbbb1'',
     soTertiary = ''ccccccccc1'', soExtras = 2, soListed = [''aaaaaaaaa1'', ''bbbbbbbbb1'', ''ccccccccc1'']\<rparr>"

text \<open>With at most two extra partners, the most a match ever lists, no signal is dropped: that of a
  stranger reaches the third connection although all three places are taken.\<close>

theorem unknown_signal_never_dropped:
  "(if soExtras r \<le> 2 then routeInboundSignalTarget r \<noteq> TargetDrop else True)
   \<and> routeInboundSignalTarget stranger_signal = TargetTertiary"
proof
  show "if soExtras r \<le> 2 then routeInboundSignalTarget r \<noteq> TargetDrop else True"
  proof (cases "soExtras r \<le> 2")
    case True
    then have "\<not> 3 \<le> count0 (soExtras r)" by (simp add: count0_def)
    then show ?thesis by (simp add: routeInboundSignalTarget_def Let_def)
  qed simp
  show "routeInboundSignalTarget stranger_signal = TargetTertiary" by code_simp
qed

text \<open>The two connections latched for a third joiner never belong to one partner: the second id is
  empty or does not match the first, and both are ids that were offered.\<close>

theorem latched_partners_differ:
  "case latchThirdJoinerPeerIds extras keep extra curP curS of
     None \<Rightarrow> extras < 1
   | Some (p, s) \<Rightarrow> 1 \<le> extras \<and> \<not> idMatch s p
       \<and> p \<in> {slotSet keep, slotSet curP} \<and> s \<in> {'''', slotSet curS, slotSet extra, slotSet keep}"
proof (cases "extras < 1")
  case False
  let ?keep = "slotSet keep" and ?extra = "slotSet extra"
  let ?p = "latch_primary ?keep ?extra (slotSet curP)"
  have "\<not> idMatch (latch_secondary ?p ?keep ?extra (slotSet curS)) ?p"
    by (simp add: latch_secondary_def)
  moreover have "latch_secondary ?p ?keep ?extra (slotSet curS) \<in> {'''', slotSet curS, ?extra, ?keep}"
    by (simp add: latch_secondary_def)
  moreover have "?p \<in> {?keep, slotSet curP}"
    by (simp add: latch_primary_def Let_def)
  ultimately show ?thesis
    using False by (simp only: latchThirdJoinerPeerIds_def Let_def count0_def) simp
qed (simp add: latchThirdJoinerPeerIds_def count0_def)

text \<open>After a new match the old primary connection is kept or the second one is promoted, never
  both, and each only when the partner it serves is in the new match.\<close>

theorem continuity_sound:
  "let c = computeMatchContinuity r in
   \<not> (mcKeepPrimary c \<and> mcPromoteSecondary c)
   \<and> (if mcKeepPrimary c then coWasMatched r \<and> (idMatch (coPrevPrimary r) (coPrimaryPeerId r)
        \<or> list_ex (idMatch (coPrevPrimary r)) (coListed r)) else True)
   \<and> (if mcPromoteSecondary c then coHasMedia2 r \<and> idMatch (coPrimaryPeerId r) (coPrevSecondary r)
        \<and> \<not> idMatch (coPrevPrimary r) (coPrimaryPeerId r) else True)
   \<and> (if mcKeepSecondary c then idMatch (coPrevSecondary r) (coSecondaryPeerId r) else True)"
  by (auto simp: computeMatchContinuity_def Let_def listedHas_def list_ex_iff dest: idMatch_nonblank)

end
