(* ===== verification/MatchPeers.thy ===== *)
theory MatchPeers
  imports PeerIds
begin

text \<open>
  From a \<open>matched\<close> message of the hub to the partners on screen,
  \<open>mobile/src/live/matchPeers.ts\<close>: reading a peer row, naming the partner, choosing the
  primary peer and the extra ones. A message and its rows are dynamic objects. The zero-width
  and ellipsis characters that the labels also strip are not code units of the model.
\<close>

section \<open>Reading a peer row\<close>

record peer_pick =
  ppPeerId :: string
  ppUserId :: string
  ppIsOfferer :: bool
  ppName :: string
  ppMode :: string
  ppFriendCode :: string
  ppStars :: int
  ppTrust :: int
  ppTrustGifters :: int
  ppStarsKnown :: bool
  ppTrustKnown :: bool
  ppTrustGiftersKnown :: bool
  ppRole :: string
  ppFlag :: string
  ppCountry :: string
  ppCity :: string
  ppHideIp :: bool
  ppAvatar :: string

definition blank_candidate :: "jsval \<Rightarrow> bool" where
  "blank_candidate raw = (case raw of JUndef \<Rightarrow> True | JNull \<Rightarrow> True | JStr s \<Rightarrow> js_trim s = '''' | _ \<Rightarrow> False)"

fun readNonNegInt :: "jsval list \<Rightarrow> int option" where
  "readNonNegInt [] = None"
| "readNonNegInt (raw # rest) =
     (if blank_candidate raw then readNonNegInt rest
      else case js_number raw of
             Some n \<Rightarrow> if n \<ge> 0 then Some n else readNonNegInt rest
           | None \<Rightarrow> readNonNegInt rest)"

definition asObj :: "jsval \<Rightarrow> jsobj option" where
  "asObj v = (case v of JObj ob \<Rightarrow> Some ob | _ \<Rightarrow> None)"

text \<open>\<open>asObj(a) || asObj(b) || ..\<close>, and \<open>nested?.k\<close>.\<close>

fun first_obj :: "jsval list \<Rightarrow> jsobj option" where
  "first_obj [] = None"
| "first_obj (v # vs) = (case asObj v of Some ob \<Rightarrow> Some ob | None \<Rightarrow> first_obj vs)"

definition nget :: "jsobj option \<Rightarrow> string \<Rightarrow> jsval" where
  "nget ob k = (case ob of None \<Rightarrow> JUndef | Some o1 \<Rightarrow> oget o1 k)"

definition known_or_zero :: "int option \<Rightarrow> int \<times> bool" where
  "known_or_zero n = (case n of None \<Rightarrow> (0, False) | Some k \<Rightarrow> (k, True))"

definition readPeerStars :: "jsobj \<Rightarrow> int \<times> bool" where
  "readPeerStars p =
     (let nested = first_obj (map (oget p) [''wallet'', ''public'', ''ledger'', ''identity''])
      in known_or_zero (readNonNegInt
          (map (oget p) [''stars'', ''Stars'', ''star_balance'', ''starBalance'', ''star_count'', ''starCount'',
             ''public_stars'', ''publicStars'', ''wallet_stars'', ''walletStars'', ''spendable_stars'',
             ''spendableStars'', ''spendable'']
           @ map (nget nested) [''stars'', ''star_balance'', ''starBalance'', ''balance'']
           @ map (oget p) [''balance'', ''star''])))"

definition social_blob :: "jsobj \<Rightarrow> jsobj option" where
  "social_blob p = first_obj (map (oget p) [''reputation'', ''social'', ''public'', ''identity''])"

definition readPeerTrust :: "jsobj \<Rightarrow> int \<times> bool" where
  "readPeerTrust p =
     known_or_zero (readNonNegInt
       (map (oget p) [''trust'', ''Trust'', ''social_health'', ''socialHealth'', ''trust_effective'',
          ''trustEffective'', ''public_trust'', ''publicTrust'']
        @ [case oget p ''reputation'' of JNum n \<Rightarrow> JNum n | JStr s \<Rightarrow> JStr s | _ \<Rightarrow> JUndef]
        @ map (oget p) [''social_score'', ''socialScore'']
        @ map (nget (social_blob p)) [''trust'', ''social_health'', ''socialHealth'', ''score'']
        @ [oget p ''score'']))"

definition readPeerGifters :: "jsobj \<Rightarrow> int \<times> bool" where
  "readPeerGifters p =
     known_or_zero (readNonNegInt
       (map (oget p) [''trust_gifters'', ''trustGifters'', ''gifters'', ''unique_gifters'', ''uniqueGifters'']
        @ map (nget (social_blob p)) [''trust_gifters'', ''trustGifters'', ''gifters'', ''unique_gifters'', ''uniqueGifters'']))"

definition formatPraisedBy :: "int \<Rightarrow> string" where
  "formatPraisedBy gifters = ''praised by '' @ show_int (max 0 gifters)"

text \<open>A chain \<open>a ?? b ?? ..\<close>.\<close>

fun nullish_chain :: "jsval list \<Rightarrow> jsval" where
  "nullish_chain [] = JUndef"
| "nullish_chain [v] = v"
| "nullish_chain (v # w # vs) = js_nullish v (nullish_chain (w # vs))"

record peer_geo =
  pgFlag :: string
  pgCountry :: string
  pgCity :: string
  pgHideIp :: bool

definition readPeerGeo :: "jsobj \<Rightarrow> peer_geo" where
  "readPeerGeo p =
     (let nested = first_obj (map (oget p) [''public_location'', ''publicLocation'', ''geo'', ''location'']);
          country = nullish_chain (map (oget p) [''country'', ''Country'', ''country_name'', ''countryName'']
            @ map (nget nested) [''country'', ''Country'', ''country_name'', ''countryName''] @ [JStr ''''])
      in \<lparr>pgFlag = flag_letters (nullish_chain (map (oget p) [''flag'', ''Flag'', ''flagCode'', ''flag_code'']
            @ map (nget nested) [''flag'', ''Flag'', ''code'', ''country_code'', ''countryCode''])),
          pgCountry = js_trim (js_string country),
          pgCity = js_trim (js_string (nullish_chain
            [oget p ''city'', oget p ''City'', nget nested ''city'', nget nested ''City'', JStr ''''])),
          pgHideIp = js_truthy (nullish_chain
            [oget p ''hide_ip'', oget p ''hideIp'', nget nested ''hide_ip'', nget nested ''hideIp''])\<rparr>)"

section \<open>Painting the partner's place\<close>

datatype geo_reason =
    PreMatchKnown | BufferPreMatch | PrimaryEmpty | MsgEmpty | LoosePrimary | LooseLast | UidMatch | Solo1v1 | SkipMulti

record geo_opts =
  goPhaseMatched :: bool
  goMsgPeerId :: string
  goMsgUserId :: string
  goPrimaryPeerId :: string
  goPartnerUserId :: string
  goLastPeerId :: string
  goLastUserId :: string
  goHasSecondary :: bool
  goMatchMode :: string
  goPeerCount :: "int option"

definition same_uid :: "string \<Rightarrow> string \<Rightarrow> bool" where
  "same_uid a b \<longleftrightarrow> a \<noteq> '''' \<and> b \<noteq> '''' \<and> js_lower a = js_lower b"

definition shouldApplyPartnerGeo :: "geo_opts \<Rightarrow> bool \<times> geo_reason" where
  "shouldApplyPartnerGeo r =
     (let pid = js_trim (goMsgPeerId r); u = js_trim (goMsgUserId r); primary = js_trim (goPrimaryPeerId r);
          partnerUid = js_trim (if goPartnerUserId r \<noteq> '''' then goPartnerUserId r else goLastUserId r);
          lastPid = js_trim (goLastPeerId r); modeLow = js_lower (goMatchMode r);
          peerCount = map_option count0 (goPeerCount r);
          solo1v1 = (\<not> goHasSecondary r \<or> modeLow = ''solo'' \<or> modeLow = ''friend'' \<or> peerCount = Some 1 \<or> peerCount = Some 0)
      in if \<not> goPhaseMatched r then
           (if primary \<noteq> '''' \<and> primary \<noteq> legacy_id
               \<and> (pid = '''' \<or> peerIdsLooseMatch pid primary \<or> lastPid \<noteq> '''' \<and> peerIdsLooseMatch pid lastPid
                  \<or> same_uid u partnerUid)
            then (True, PreMatchKnown) else (False, BufferPreMatch))
         else if pid = '''' \<or> primary = '''' \<or> primary = legacy_id
         then (True, if primary = '''' \<or> primary = legacy_id then PrimaryEmpty else MsgEmpty)
         else if peerIdsLooseMatch pid primary then (True, LoosePrimary)
         else if lastPid \<noteq> '''' \<and> peerIdsLooseMatch pid lastPid then (True, LooseLast)
         else if same_uid u partnerUid then (True, UidMatch)
         else if solo1v1 then (True, Solo1v1)
         else (False, SkipMulti))"

definition partnerGeoHasSignal :: "string \<Rightarrow> string \<Rightarrow> string \<Rightarrow> bool \<Rightarrow> bool" where
  "partnerGeoHasSignal flag country city hideIp =
     (if hideIp then True else js_trim flag \<noteq> '''' \<or> js_trim country \<noteq> '''' \<or> js_trim city \<noteq> '''')"

definition displayPartnerStars :: "int \<Rightarrow> int \<Rightarrow> int" where
  "displayPartnerStars stars trust = max (max 0 stars) (max 0 trust)"

definition mergePartnerStars :: "bool \<Rightarrow> int \<Rightarrow> int \<Rightarrow> bool \<Rightarrow> int" where
  "mergePartnerStars samePartner prev nxt nextKnown =
     (if \<not> samePartner then max 0 nxt else if nextKnown then max 0 nxt else max 0 prev)"

definition mergePartnerTrust :: "bool \<Rightarrow> int \<Rightarrow> int \<Rightarrow> bool \<Rightarrow> int" where
  "mergePartnerTrust samePartner prev nxt nextKnown =
     (if \<not> samePartner then max 0 nxt else if nextKnown then max 0 nxt else max 0 prev)"

section \<open>Names\<close>

definition cleanPartnerLabel :: "jsval \<Rightarrow> string" where
  "cleanPartnerLabel raw =
     (let s = js_trim (js_string (js_nullish raw (JStr '''')))
      in if s = '''' then '''' else if s = ''...'' \<or> s = ''?'' then '''' else s)"

definition hex_char :: "char \<Rightarrow> bool" where
  "hex_char c \<longleftrightarrow> js_digit c \<or> char_range (CHR ''a'') (CHR ''f'') c \<or> char_range (CHR ''A'') (CHR ''F'') c"

definition hex_id_like :: "string \<Rightarrow> bool" where
  "hex_id_like s \<longleftrightarrow> 6 \<le> length s \<and> length s \<le> 12 \<and> list_all hex_char s"

definition isHexIdLike :: "jsval \<Rightarrow> bool" where
  "isHexIdLike raw = (let s = cleanPartnerLabel raw in s \<noteq> '''' \<and> hex_id_like s)"

record name_ids =
  niPeerId :: jsval
  niUserId :: jsval
  niShortId :: jsval

text \<open>The label is the id or its first eight characters.\<close>

definition id_clone :: "string \<Rightarrow> string \<Rightarrow> bool" where
  "id_clone sl i \<longleftrightarrow> sl = js_lower (take 8 i) \<or> sl = js_lower i"

definition isPlaceholderPartnerName :: "jsval \<Rightarrow> name_ids \<Rightarrow> bool" where
  "isPlaceholderPartnerName raw ids =
     (let s = cleanPartnerLabel raw; sl = js_lower s; peerId = cleanPartnerLabel (niPeerId ids);
          userId = cleanPartnerLabel (niUserId ids); shortId = cleanPartnerLabel (niShortId ids)
      in if s = '''' then True
         else if sl = ''anon'' then True
         else if sl = ''partner'' then True
         else if hex_id_like s then True
         else if shortId \<noteq> '''' \<and> sl = js_lower shortId then True
         else if peerId \<noteq> '''' \<and> js_lower peerId \<noteq> legacy_id \<and> id_clone sl peerId then True
         else if userId \<noteq> '''' \<and> id_clone sl userId then True
         else False)"

definition isKeepablePrevPartnerLabel :: "jsval \<Rightarrow> name_ids \<Rightarrow> bool" where
  "isKeepablePrevPartnerLabel raw ids =
     (let s = cleanPartnerLabel raw; sl = js_lower s; peerId = cleanPartnerLabel (niPeerId ids);
          userId = cleanPartnerLabel (niUserId ids); shortId = cleanPartnerLabel (niShortId ids)
      in if s = '''' then False
         else if sl = ''anon'' then False
         else if sl = ''partner'' then False
         else if shortId \<noteq> '''' \<and> sl = js_lower shortId \<and> isHexIdLike (JStr shortId) then False
         else if peerId \<noteq> '''' \<and> js_lower peerId \<noteq> legacy_id \<and> id_clone sl peerId then False
         else if userId \<noteq> '''' \<and> id_clone sl userId then False
         else True)"

datatype name_source = FromName | FromShortId | FromFriendCode | FromPrev | FromFallback | FromDefault

record name_opts =
  noName :: jsval
  noShortId :: jsval
  noFriendCode :: jsval
  noPeerId :: jsval
  noUserId :: jsval
  noPrev :: jsval
  noFallback :: jsval

definition resolvePartnerDisplayNameWithSource :: "name_opts \<Rightarrow> string \<times> name_source" where
  "resolvePartnerDisplayNameWithSource r =
     (let ids = \<lparr>niPeerId = noPeerId r, niUserId = noUserId r, niShortId = noShortId r\<rparr>;
          name = cleanPartnerLabel (noName r); code = js_upper (cleanPartnerLabel (noFriendCode r));
          shortId = cleanPartnerLabel (noShortId r); prev = cleanPartnerLabel (noPrev r);
          fallback = cleanPartnerLabel (noFallback r)
      in if name \<noteq> '''' \<and> \<not> isPlaceholderPartnerName (JStr name) ids then (name, FromName)
         else if code \<noteq> '''' then (code, FromFriendCode)
         else if shortId \<noteq> '''' \<and> \<not> isHexIdLike (JStr shortId)
              \<and> \<not> isPlaceholderPartnerName (JStr shortId) (ids\<lparr>niShortId := JUndef\<rparr>)
         then (shortId, FromShortId)
         else if prev \<noteq> '''' \<and> isKeepablePrevPartnerLabel (JStr prev) ids
         then (if isHexIdLike (JStr prev) then (js_upper prev, FromPrev) else (prev, FromPrev))
         else if fallback \<noteq> '''' \<and> isKeepablePrevPartnerLabel (JStr fallback) ids \<and> isHexIdLike (JStr fallback)
         then (js_upper fallback, FromFallback)
         else if fallback \<noteq> '''' \<and> isKeepablePrevPartnerLabel (JStr fallback) ids
              \<and> \<not> isPlaceholderPartnerName (JStr fallback) ids
         then (fallback, FromFallback)
         else (''Partner'', FromDefault))"

definition resolvePartnerDisplayName :: "name_opts \<Rightarrow> string" where
  "resolvePartnerDisplayName r = fst (resolvePartnerDisplayNameWithSource r)"

definition isBetterPartnerDisplayName :: "jsval \<Rightarrow> jsval \<Rightarrow> name_ids \<Rightarrow> bool" where
  "isBetterPartnerDisplayName candidate current ids =
     (let nxt = cleanPartnerLabel candidate; cur = cleanPartnerLabel current
      in if nxt = '''' \<or> \<not> isKeepablePrevPartnerLabel (JStr nxt) ids then False
         else if \<not> (cur \<noteq> '''' \<and> isKeepablePrevPartnerLabel (JStr cur) ids) then True
         else if nxt = cur then False
         else \<not> isHexIdLike (JStr nxt) \<and> isHexIdLike (JStr cur))"

section \<open>Picking the partners of a match\<close>

text \<open>A poisoned row counts as the empty object.\<close>

definition row_obj :: "jsval \<Rightarrow> jsobj" where
  "row_obj v = (case v of JObj ob \<Rightarrow> ob | _ \<Rightarrow> [])"

definition or_chain :: "jsval list \<Rightarrow> jsval" where
  "or_chain vs = foldr js_or vs JUndef"

definition normalizePeer :: "jsval \<Rightarrow> jsobj \<Rightarrow> peer_pick" where
  "normalizePeer row msg =
     (let p = row_obj row; merged = ospread msg p;
          (stars, starsKnown) = readPeerStars merged; (trust, trustKnown) = readPeerTrust merged;
          (gifters, giftersKnown) = readPeerGifters merged; geo = readPeerGeo merged;
          peerId = js_string (js_or (oget p ''peer_id'') (js_or (oget p ''peerId'') (JStr legacy_id)));
          userId = str_or (js_or (oget p ''user_id'') (oget p ''userId''));
          friendCode = js_upper (js_trim (str_or (js_or (oget p ''friend_code'') (oget p ''friendCode''))));
          rawName = str_or (or_chain [oget p ''name'', oget p ''display_name'', oget p ''displayName'']);
          avatar = js_trim (js_string (nullish_chain [oget p ''avatar'', oget p ''Avatar'', JStr '''']));
          shortId = or_chain [oget p ''short_id'', oget p ''shortId'',
            if \<not> js_truthy (oget p ''peer_id'') \<or> oget p ''peer_id'' = JStr legacy_id
            then JStr (str_or (oget msg ''partner_short'')) else JStr '''']
      in \<lparr>ppPeerId = peerId, ppUserId = userId,
          ppIsOfferer = js_truthy (nullish_chain [oget msg ''is_offerer'', oget p ''is_offerer'', oget p ''isOfferer'']),
          ppName = resolvePartnerDisplayName
            \<lparr>noName = JStr rawName, noShortId = shortId, noFriendCode = JStr friendCode, noPeerId = JStr peerId,
             noUserId = JStr userId, noPrev = JUndef, noFallback = JUndef\<rparr>,
          ppMode = js_string (js_or (oget msg ''mode'') (JStr ''solo'')), ppFriendCode = friendCode,
          ppStars = stars, ppTrust = trust, ppTrustGifters = gifters, ppStarsKnown = starsKnown,
          ppTrustKnown = trustKnown, ppTrustGiftersKnown = giftersKnown,
          ppRole = js_string (js_or (oget p ''role'') (JStr ''stranger'')), ppFlag = pgFlag geo,
          ppCountry = pgCountry geo, ppCity = pgCity geo, ppHideIp = pgHideIp geo, ppAvatar = avatar\<rparr>)"

text \<open>A pick with nothing known but its id, its name, its mode and the role of the offerer.\<close>

definition bare_pick :: "string \<Rightarrow> bool \<Rightarrow> string \<Rightarrow> string \<Rightarrow> peer_pick" where
  "bare_pick peerId offerer name mode =
     \<lparr>ppPeerId = peerId, ppUserId = '''', ppIsOfferer = offerer, ppName = name, ppMode = mode, ppFriendCode = '''',
      ppStars = 0, ppTrust = 0, ppTrustGifters = 0, ppStarsKnown = False, ppTrustKnown = False,
      ppTrustGiftersKnown = False, ppRole = ''stranger'', ppFlag = '''', ppCountry = '''', ppCity = '''',
      ppHideIp = False, ppAvatar = ''''\<rparr>"

definition msg_peers :: "jsobj \<Rightarrow> jsval list" where
  "msg_peers msg = (case oget msg ''peers'' of JArr vs \<Rightarrow> vs | _ \<Rightarrow> [])"

definition pickPeer :: "jsobj \<Rightarrow> peer_pick" where
  "pickPeer msg =
     (case msg_peers msg of
        row # _ \<Rightarrow> normalizePeer row msg
      | [] \<Rightarrow> bare_pick legacy_id (js_truthy (oget msg ''is_offerer''))
          (resolvePartnerDisplayName \<lparr>noName = JUndef, noShortId = oget msg ''partner_short'', noFriendCode = JUndef,
             noPeerId = JUndef, noUserId = JUndef, noPrev = JUndef, noFallback = JUndef\<rparr>)
          (js_string (js_or (oget msg ''mode'') (JStr ''solo''))))"

definition MAX_EXTRA_PEERS :: nat where "MAX_EXTRA_PEERS = 2"

definition peerStillListed :: "string \<Rightarrow> string list \<Rightarrow> bool" where
  "peerStillListed prevId listed =
     (let prev = js_trim prevId
      in if prev = '''' \<or> prev = legacy_id then False
         else list_ex (\<lambda>i. let s = js_trim i
                in if s = '''' \<or> s = legacy_id then False else s = prev \<or> peerIdsLooseMatch s prev) listed)"

fun find_index :: "('a \<Rightarrow> bool) \<Rightarrow> 'a list \<Rightarrow> int" where
  "find_index P [] = -1"
| "find_index P (x # xs) = (if P x then 0 else let i = find_index P xs in if i < 0 then -1 else i + 1)"

definition same_peer :: "string \<Rightarrow> string \<Rightarrow> bool" where
  "same_peer prev i \<longleftrightarrow> i \<noteq> '''' \<and> i \<noteq> legacy_id \<and> (i = prev \<or> peerIdsLooseMatch i prev)"

definition pickPrimaryPeerIndex :: "string list \<Rightarrow> bool \<Rightarrow> string \<Rightarrow> string \<Rightarrow> bool \<Rightarrow> int" where
  "pickPrimaryPeerIndex peerIds wasMatched prevPrimary prevSecondary keepFirstOnOmit =
     (let known = wasMatched \<and> prevPrimary \<noteq> '''' \<and> prevPrimary \<noteq> legacy_id;
          i = find_index (same_peer prevPrimary) peerIds; j = find_index (same_peer prevSecondary) peerIds
      in if peerIds = [] then 0
         else if known \<and> i \<ge> 0 then i
         else if wasMatched \<and> prevSecondary \<noteq> '''' \<and> prevSecondary \<noteq> legacy_id \<and> j \<ge> 0 \<and> length peerIds \<ge> 2 then j
         else if known \<and> keepFirstOnOmit then -1
         else 0)"

definition sameExtraPerson :: "peer_pick \<Rightarrow> peer_pick \<Rightarrow> bool" where
  "sameExtraPerson a b =
     (let aid = js_trim (ppPeerId a); bid = js_trim (ppPeerId b); au = js_trim (ppUserId a);
          bu = js_trim (ppUserId b); ac = js_upper (js_trim (ppFriendCode a)); bc = js_upper (js_trim (ppFriendCode b))
      in if aid \<noteq> '''' \<and> bid \<noteq> '''' \<and> aid \<noteq> legacy_id \<and> bid \<noteq> legacy_id \<and> (aid = bid \<or> peerIdsLooseMatch aid bid)
         then True
         else if au \<noteq> '''' \<and> bu \<noteq> '''' \<and> au = bu then True
         else if length ac \<ge> 6 \<and> ac = bc then True
         else False)"

definition usable_extra :: "string \<Rightarrow> string \<Rightarrow> bool" where
  "usable_extra primary i \<longleftrightarrow> i \<noteq> '''' \<and> i \<noteq> legacy_id
     \<and> \<not> (primary \<noteq> '''' \<and> (i = primary \<or> peerIdsLooseMatch i primary))"

text \<open>The loop of \<open>extraPeersFromMatch\<close>: it stops as soon as the extra places are taken.\<close>

fun take_extras :: "string \<Rightarrow> peer_pick list \<Rightarrow> peer_pick list \<Rightarrow> peer_pick list" where
  "take_extras primary [] out = out"
| "take_extras primary (p # ps) out =
     (if \<not> usable_extra primary (ppPeerId p) then take_extras primary ps out
      else if list_ex (\<lambda>x. sameExtraPerson x p) out then take_extras primary ps out
      else if length (out @ [p]) \<ge> MAX_EXTRA_PEERS then out @ [p]
      else take_extras primary ps (out @ [p]))"

definition extraPeersFromMatch :: "jsobj \<Rightarrow> string \<Rightarrow> peer_pick list" where
  "extraPeersFromMatch msg primaryPeerId =
     (if msg_peers msg = [] then []
      else take_extras (js_trim primaryPeerId) (map (\<lambda>row. normalizePeer row msg) (msg_peers msg)) [])"

record omit_opts =
  ooExtras :: "peer_pick list"
  ooWasMatched :: bool
  ooPrevSecondary :: string
  ooPrevExtras :: "peer_pick list"
  ooListedIds :: "string list"
  ooPrimaryId :: string
  ooKeepListed3rd :: "bool option"

definition add_extra :: "string \<Rightarrow> bool \<Rightarrow> peer_pick \<Rightarrow> peer_pick list \<Rightarrow> peer_pick list" where
  "add_extra primary replace p out =
     (if \<not> usable_extra primary (js_trim (ppPeerId p)) then out
      else let i = find_index (\<lambda>x. sameExtraPerson x p) out
           in if i \<ge> 0 then (if replace then out[nat i := p] else out) else out @ [p])"

definition only_primary :: "string \<Rightarrow> string list \<Rightarrow> bool" where
  "only_primary primary listedIds =
     (let listed = filter (\<lambda>i. i \<noteq> '''') (map js_trim listedIds)
      in listed = [] \<or> list_all (\<lambda>i. primary \<noteq> '''' \<and> (i = primary \<or> peerIdsLooseMatch i primary) \<or> i = legacy_id) listed)"

definition extrasAfterOmitPrimary :: "omit_opts \<Rightarrow> peer_pick list" where
  "extrasAfterOmitPrimary r =
     (let primary = js_trim (ooPrimaryId r)
      in if ooExtras r \<noteq> [] then
           (if \<not> ooWasMatched r \<or> ooKeepListed3rd r = Some False then take MAX_EXTRA_PEERS (ooExtras r)
            else take MAX_EXTRA_PEERS (fold (add_extra primary True) (ooExtras r)
                   (fold (add_extra primary False) (ooPrevExtras r) [])))
         else if \<not> ooWasMatched r then []
         else if ooKeepListed3rd r \<noteq> Some True then []
         else if \<not> only_primary primary (ooListedIds r) then []
         else
           let kept = filter (\<lambda>p. usable_extra primary (js_trim (ppPeerId p))) (ooPrevExtras r);
               prev = js_trim (ooPrevSecondary r)
           in if kept \<noteq> [] then take MAX_EXTRA_PEERS kept
              else if \<not> usable_extra primary prev then []
              else [bare_pick prev False '''' ''party_browse''])"

section \<open>Extra partners\<close>

lemma usable_trim: "usable_extra primary (js_trim i) \<Longrightarrow> trimmed primary \<Longrightarrow> usable_extra primary i"
  by (auto simp: usable_extra_def js_trim_trimmed)

lemma take_extras_usable:
  "list_all (\<lambda>p. usable_extra primary (ppPeerId p)) out \<Longrightarrow>
     list_all (\<lambda>p. usable_extra primary (ppPeerId p)) (take_extras primary ps out)"
  by (induction ps arbitrary: out) simp_all

lemma take_extras_distinct:
  "sorted_wrt (\<lambda>a b. \<not> sameExtraPerson a b) out \<Longrightarrow>
     sorted_wrt (\<lambda>a b. \<not> sameExtraPerson a b) (take_extras primary ps out)"
  by (induction ps arbitrary: out) (auto simp: sorted_wrt_append list_ex_iff)

lemma take_extras_length: "length out < MAX_EXTRA_PEERS \<Longrightarrow> length (take_extras primary ps out) \<le> MAX_EXTRA_PEERS"
  by (induction ps arbitrary: out) (auto simp: MAX_EXTRA_PEERS_def Suc_le_eq)

lemma max_extra_pos [simp]: "0 < MAX_EXTRA_PEERS"
  by (simp add: MAX_EXTRA_PEERS_def)

lemma extraPeers_clean:
  "length (extraPeersFromMatch msg primary) \<le> MAX_EXTRA_PEERS"
  "list_all (\<lambda>p. usable_extra (js_trim primary) (ppPeerId p)) (extraPeersFromMatch msg primary)"
  "sorted_wrt (\<lambda>a b. \<not> sameExtraPerson a b) (extraPeersFromMatch msg primary)"
  by (simp_all add: extraPeersFromMatch_def take_extras_usable take_extras_distinct take_extras_length)

lemma find_index_less: "find_index P xs < int (length xs)"
  by (induction xs) (auto simp: Let_def)

lemma find_index_ge: "-1 \<le> find_index P xs"
  by (induction xs) (auto simp: Let_def)

lemma find_index_nth: "0 \<le> find_index P xs \<Longrightarrow> P (xs ! nat (find_index P xs))"
proof (induction xs)
  case (Cons x xs)
  then show ?case
    using find_index_less [of P xs] by (auto simp: Let_def nat_add_distrib split: if_splits)
qed simp

lemma find_index_none: "find_index P xs < 0 \<Longrightarrow> x \<in> set xs \<Longrightarrow> \<not> P x"
  by (induction xs) (auto simp: Let_def split: if_splits)

definition extra_ok :: "string \<Rightarrow> peer_pick \<Rightarrow> bool" where
  "extra_ok primary p \<longleftrightarrow> usable_extra primary (js_trim (ppPeerId p))"

lemma add_extra_ok: "list_all (extra_ok primary) out \<Longrightarrow> list_all (extra_ok primary) (add_extra primary replace p out)"
  using find_index_less [of "\<lambda>x. sameExtraPerson x p" out]
  by (auto simp: add_extra_def extra_ok_def Let_def list_all_length nth_list_update nth_append not_less)

lemma add_extras_ok: "list_all (extra_ok primary) out \<Longrightarrow> list_all (extra_ok primary) (fold (add_extra primary replace) ps out)"
  by (induction ps arbitrary: out) (simp_all add: add_extra_ok)

lemma list_all_take: "list_all P xs \<Longrightarrow> list_all P (take n xs)"
  by (auto simp: list_all_iff dest: in_set_takeD)

lemma extra_ok_usable:
  "list_all (extra_ok (js_trim primary)) ps \<Longrightarrow> list_all (\<lambda>p. usable_extra (js_trim primary) (ppPeerId p)) ps"
  by (auto simp: list_all_iff extra_ok_def intro: usable_trim)

section \<open>Names\<close>

lemma lower_upper_char: "lower_char (upper_char c) = lower_char c"
proof (cases "char_range (CHR ''a'') (CHR ''z'') c")
  case True
  then have n: "97 \<le> (of_char c :: nat)" "(of_char c :: nat) \<le> 122"
    by (simp_all add: char_range_def less_eq_char_def)
  then have up: "of_char (upper_char c) = (of_char c - 32 :: nat)"
    using True by (simp add: upper_char_def)
  have "char_range (CHR ''A'') (CHR ''Z'') (upper_char c)"
    by (simp add: char_range_def less_eq_char_def up) (use n in linarith)
  then have "lower_char (upper_char c) = char_of ((of_char c - 32) + 32 :: nat)"
    by (simp add: lower_char_def up)
  moreover have "lower_char c = c"
    using n by (simp add: lower_char_def char_range_def less_eq_char_def)
  ultimately show ?thesis
    using n by simp
qed (simp add: upper_char_def)

lemma lower_upper: "js_lower (js_upper s) = js_lower s"
  by (simp add: js_lower_def js_upper_def lower_upper_char)

lemma js_trim_Nil [simp]: "js_trim [] = []"
  by (simp add: js_trim_def)

lemma clean_label: "cleanPartnerLabel (JStr (cleanPartnerLabel v)) = cleanPartnerLabel v"
  by (simp add: cleanPartnerLabel_def js_nullish_def Let_def)

text \<open>The label paints an id: it spells the whole peer or user id or its first eight characters.\<close>

definition paints_id :: "string \<Rightarrow> jsval \<Rightarrow> jsval \<Rightarrow> bool" where
  "paints_id label peerId userId \<longleftrightarrow>
     (let p = cleanPartnerLabel peerId; u = cleanPartnerLabel userId; sl = js_lower label
      in p \<noteq> '''' \<and> js_lower p \<noteq> legacy_id \<and> id_clone sl p \<or> u \<noteq> '''' \<and> id_clone sl u)"

lemma paints_upper: "paints_id (js_upper s) p u = paints_id s p u"
  by (simp add: paints_id_def lower_upper)

lemma not_placeholder_paints:
  "\<not> isPlaceholderPartnerName (JStr (cleanPartnerLabel v)) \<lparr>niPeerId = p, niUserId = u, niShortId = s\<rparr> \<Longrightarrow>
     \<not> paints_id (cleanPartnerLabel v) p u"
  by (auto simp: isPlaceholderPartnerName_def paints_id_def clean_label Let_def split: if_splits)

lemma keepable_paints:
  "isKeepablePrevPartnerLabel (JStr (cleanPartnerLabel v)) \<lparr>niPeerId = p, niUserId = u, niShortId = s\<rparr> \<Longrightarrow>
     \<not> paints_id (cleanPartnerLabel v) p u"
  by (auto simp: isKeepablePrevPartnerLabel_def paints_id_def clean_label Let_def split: if_splits)

lemma js_upper_Nil [simp]: "js_upper s = [] \<longleftrightarrow> s = []"
  by (simp add: js_upper_def)

section \<open>Properties\<close>

text \<open>C26: However a match and the previous extra partners combine, at most two extras are kept, and
  the peer id of each is non-empty, no legacy placeholder and no spelling of the primary partner's
  id. Their names may be empty: an extra restored from the previous call has none.\<close>

theorem extras_never_primary:
  "let es = extrasAfterOmitPrimary (r\<lparr>ooExtras := extraPeersFromMatch msg (ooPrimaryId r)\<rparr>)
   in length es \<le> MAX_EXTRA_PEERS \<and> list_all (\<lambda>p. usable_extra (js_trim (ooPrimaryId r)) (ppPeerId p)) es"
proof -
  let ?p = "js_trim (ooPrimaryId r)" and ?x = "extraPeersFromMatch msg (ooPrimaryId r)"
  let ?r = "r\<lparr>ooExtras := ?x\<rparr>"
  let ?union = "fold (add_extra ?p True) ?x (fold (add_extra ?p False) (ooPrevExtras r) [])"
  let ?kept = "filter (\<lambda>p. usable_extra ?p (js_trim (ppPeerId p))) (ooPrevExtras r)"
  let ?prev = "js_trim (ooPrevSecondary r)"
  define ok :: "peer_pick list \<Rightarrow> bool" where "ok = list_all (\<lambda>p. usable_extra ?p (ppPeerId p))"
  have fresh: "ok (take MAX_EXTRA_PEERS ?x)"
    unfolding ok_def by (intro list_all_take extraPeers_clean)
  have "list_all (extra_ok ?p) ?union"
    by (intro add_extras_ok) simp
  then have union: "ok (take MAX_EXTRA_PEERS ?union)"
    unfolding ok_def by (intro list_all_take extra_ok_usable)
  have "list_all (extra_ok ?p) ?kept"
    by (simp add: list_all_iff extra_ok_def)
  then have kept: "ok (take MAX_EXTRA_PEERS ?kept)"
    unfolding ok_def by (intro list_all_take extra_ok_usable)
  have prev: "usable_extra ?p ?prev \<Longrightarrow> ok [bare_pick ?prev False '''' ''party_browse'']"
    by (simp add: ok_def bare_pick_def)
  have "ok (extrasAfterOmitPrimary ?r)" "length (extrasAfterOmitPrimary ?r) \<le> MAX_EXTRA_PEERS"
    using fresh union kept prev
    by (simp_all add: extrasAfterOmitPrimary_def Let_def) (simp_all add: ok_def MAX_EXTRA_PEERS_def)
  then show ?thesis by (simp add: ok_def)
qed

definition demo_extra :: "string \<Rightarrow> string \<Rightarrow> peer_pick" where
  "demo_extra peerId userId = (bare_pick peerId False ''Ann'' ''party_browse'')\<lparr>ppUserId := userId\<rparr>"

definition demo_omit :: omit_opts where
  "demo_omit = \<lparr>ooExtras = [demo_extra ''bbbbbbbb2222'' ''user-1''], ooWasMatched = True, ooPrevSecondary = '''',
     ooPrevExtras = [demo_extra ''aaaaaaaa1111'' ''user-1'', demo_extra ''bbbbbbbb2222'' ''''],
     ooListedIds = [''bbbbbbbb2222''], ooPrimaryId = ''cccccccc3333'', ooKeepListed3rd = Some True\<rparr>"

text \<open>One match message never yields two extras for one person, but joining its extras to the
  previous ones can: both lists name everybody once, and the result shows one peer twice.\<close>

theorem extras_can_repeat:
  "sorted_wrt (\<lambda>a b. \<not> sameExtraPerson a b) (extraPeersFromMatch msg primary)
   \<and> \<not> sameExtraPerson (ooPrevExtras demo_omit ! 0) (ooPrevExtras demo_omit ! 1)
   \<and> map ppPeerId (extrasAfterOmitPrimary demo_omit) = [''bbbbbbbb2222'', ''bbbbbbbb2222'']"
proof (intro conjI)
  show "sorted_wrt (\<lambda>a b. \<not> sameExtraPerson a b) (extraPeersFromMatch msg primary)"
    by (rule extraPeers_clean)
qed code_simp+

text \<open>The partner's label is never empty, and unless it is the friend code it never spells the peer
  id or the user id or the first eight characters of one.\<close>

theorem label_never_paints_id:
  "let (label, from) = resolvePartnerDisplayNameWithSource r
   in label \<noteq> '''' \<and> (if from = FromFriendCode \<or> from = FromDefault then True
        else \<not> paints_id label (noPeerId r) (noUserId r))"
proof -
  let ?ids = "\<lparr>niPeerId = noPeerId r, niUserId = noUserId r, niShortId = noShortId r\<rparr>"
  note np = not_placeholder_paints [of _ "noPeerId r" "noUserId r" "noShortId r"]
    not_placeholder_paints [of "noShortId r" "noPeerId r" "noUserId r" JUndef]
    keepable_paints [of _ "noPeerId r" "noUserId r" "noShortId r"]
  show ?thesis
    unfolding resolvePartnerDisplayNameWithSource_def Let_def
    using np(1) [of "noName r"] np(2) np(3) [of "noPrev r"] np(3) [of "noFallback r"]
    by (simp add: paints_upper)
qed

text \<open>The primary chosen for a match is a listed row, or none at all when the first partner must be
  kept although the message leaves it out; a previous primary that is still listed stays primary.\<close>

theorem primary_index_ok:
  "let i = pickPrimaryPeerIndex ids wasMatched prevPrimary prevSecondary keep
   in -1 \<le> i \<and> (if ids \<noteq> [] then i < int (length ids) else i = 0)
      \<and> (if i < 0 then keep \<and> wasMatched \<and> list_all (\<lambda>x. \<not> same_peer prevPrimary x) ids else True)
      \<and> (if wasMatched \<and> prevPrimary \<noteq> '''' \<and> prevPrimary \<noteq> legacy_id \<and> list_ex (same_peer prevPrimary) ids
         then same_peer prevPrimary (ids ! nat i) else True)"
proof -
  have none: "find_index P xs < 0 \<longleftrightarrow> list_all (\<lambda>x. \<not> P x) xs" for P and xs :: "string list"
    by (induction xs) (auto simp: Let_def)
  let ?i = "find_index (same_peer prevPrimary) ids" and ?j = "find_index (same_peer prevSecondary) ids"
  have lt: "?i < int (length ids)" "?j < int (length ids)" by (rule find_index_less)+
  have hit: "0 \<le> ?i \<Longrightarrow> same_peer prevPrimary (ids ! nat ?i)" by (rule find_index_nth)
  have miss: "0 \<le> ?i \<longleftrightarrow> list_ex (same_peer prevPrimary) ids"
    using none [of "same_peer prevPrimary" ids] by (auto simp: list_ex_iff list_all_iff)
  show ?thesis
  proof (cases "ids = []")
    case False
    have ge: "-1 \<le> ?i" "-1 \<le> ?j" by (rule find_index_ge)+
    show ?thesis
    proof (cases "list_ex (same_peer prevPrimary) ids")
      case True
      then have "0 \<le> ?i" "\<not> ?i < 0" "\<not> list_all (\<lambda>x. \<not> same_peer prevPrimary x) ids"
        using miss none [of "same_peer prevPrimary" ids] by auto
      with True lt ge hit False show ?thesis
        by (simp add: pickPrimaryPeerIndex_def Let_def)
    next
      case none_listed: False
      then have "\<not> 0 \<le> ?i" "?i < 0" "list_all (\<lambda>x. \<not> same_peer prevPrimary x) ids"
        using miss none [of "same_peer prevPrimary" ids] by auto
      with none_listed lt ge False show ?thesis
        by (simp add: pickPrimaryPeerIndex_def Let_def)
    qed
  qed (simp add: pickPrimaryPeerIndex_def Let_def)
qed

lemma readNonNegInt_nonneg: "readNonNegInt vs = Some n \<Longrightarrow> 0 \<le> n"
  by (induction vs) (auto split: if_splits option.splits)

lemma known_or_zero_ok: "(\<And>n. r = Some n \<Longrightarrow> 0 \<le> n) \<Longrightarrow>
  0 \<le> fst (known_or_zero r) \<and> (snd (known_or_zero r) \<or> fst (known_or_zero r) = 0)"
  by (cases r) (auto simp: known_or_zero_def)

text \<open>The star, trust and gifter counts read from any peer row are natural numbers, and an unknown
  count is zero.\<close>

theorem peer_counts_natural:
  "let s = readPeerStars p; t = readPeerTrust p; g = readPeerGifters p
   in 0 \<le> fst s \<and> 0 \<le> fst t \<and> 0 \<le> fst g
      \<and> (snd s \<or> fst s = 0) \<and> (snd t \<or> fst t = 0) \<and> (snd g \<or> fst g = 0)"
proof -
  have nat: "0 \<le> fst (known_or_zero (readNonNegInt vs))"
    "snd (known_or_zero (readNonNegInt vs)) \<or> fst (known_or_zero (readNonNegInt vs)) = 0" for vs
    using known_or_zero_ok [of "readNonNegInt vs"] readNonNegInt_nonneg [of vs] by blast+
  show ?thesis
    unfolding Let_def readPeerStars_def readPeerTrust_def readPeerGifters_def by (intro conjI nat)
qed

end
