(* ===== verification/HubClient.thy ===== *)
theory HubClient
  imports Complex_Main JsVal Contracts
begin

text \<open>
  The connection of the phone to the matchmaking hub, \<open>mobile/src/hub/HubClient.ts\<close>, and the
  sibling domain of \<open>mobile/src/config.ts\<close>. The client object and the browser sockets it opened
  are the state: every \<open>WebSocket\<close> stays in the list \<open>hcSockets\<close>, whose index is its identity,
  so a late event of an abandoned socket is a step of its own. The clock, the URL parser and the
  default hub are arguments; the callbacks of the screen are left out.
\<close>

section \<open>Hub addresses\<close>

definition strip_slash :: "string \<Rightarrow> string" where
  "strip_slash s = (if s \<noteq> '''' \<and> last s = CHR ''/'' then butlast s else s)"

definition ends_with :: "string \<Rightarrow> string \<Rightarrow> bool" where
  "ends_with s t = js_starts (rev s) (rev t)"

definition scheme_char :: "char \<Rightarrow> bool" where
  "scheme_char c \<longleftrightarrow> char_range (CHR ''a'') (CHR ''z'') c \<or> char_range (CHR ''A'') (CHR ''Z'') c \<or> js_digit c
     \<or> c \<in> {CHR ''+'', CHR ''.'', CHR ''-''}"

text \<open>\<open>/^[a-z][a-z0-9+.-]*:\/\//i\<close>.\<close>

definition has_scheme :: "string \<Rightarrow> bool" where
  "has_scheme s =
     (case s of [] \<Rightarrow> False
      | c # r \<Rightarrow> (char_range (CHR ''a'') (CHR ''z'') c \<or> char_range (CHR ''A'') (CHR ''Z'') c)
          \<and> js_starts (dropWhile scheme_char r) ''://'')"

text \<open>\<open>parse u\<close> gives the host name of a URL and its origin once another host name is set.\<close>

type_synonym url_parser = "string \<Rightarrow> (string \<times> (string \<Rightarrow> string)) option"

definition swap_suffix :: "string \<Rightarrow> string \<Rightarrow> string \<Rightarrow> string" where
  "swap_suffix host old new = take (length host - length old) host @ new"

definition siblingHubBase :: "url_parser \<Rightarrow> string \<Rightarrow> string" where
  "siblingHubBase parse b =
     (let raw = strip_slash (js_trim b)
      in if raw = '''' then ''''
         else case parse (if has_scheme raw then raw else ''https://'' @ raw) of
                None \<Rightarrow> raw
              | Some (hostname, with_host) \<Rightarrow>
                  let host = js_lower hostname
                  in if host = ''ruletka.vip'' \<or> ends_with host ''.ruletka.vip''
                     then with_host (swap_suffix host ''ruletka.vip'' ''ruletka.me'')
                     else if host = ''ruletka.me'' \<or> ends_with host ''.ruletka.me''
                     then with_host (swap_suffix host ''ruletka.me'' ''ruletka.vip'')
                     else raw)"

definition configUrl :: "string \<Rightarrow> string" where
  "configUrl b = strip_slash b @ ''/config.json''"

section \<open>The client\<close>

datatype ready_state = SkConnecting | SkOpen | SkClosing | SkClosed

text \<open>\<open>skHandled\<close>: the \<open>onclose\<close> handler is still attached; \<open>skSent\<close> is what was sent on it.\<close>

record hub_socket =
  skReady :: ready_state
  skHandled :: bool
  skBase :: string
  skSent :: "jsobj list"

record hub_client =
  hcSockets :: "hub_socket list"
  hcWs :: "nat option"
  hcBase :: string
  hcPinging :: bool
  hcReconnectTimer :: "rat option"
  hcShouldReconnect :: bool
  hcReconnectAttempt :: nat
  hcIntentionalClose :: bool
  hcLastSwapAt :: int
  hcSessionOpened :: bool
  hcIceCache :: "(int \<times> jsobj) option"
  hcIceInflight :: bool

definition new_hub_client :: "string \<Rightarrow> hub_client" where
  "new_hub_client base = \<lparr>hcSockets = [], hcWs = None, hcBase = strip_slash base, hcPinging = False,
     hcReconnectTimer = None, hcShouldReconnect = False, hcReconnectAttempt = 0, hcIntentionalClose = False,
     hcLastSwapAt = 0, hcSessionOpened = False, hcIceCache = None, hcIceInflight = False\<rparr>"

definition hc_setBase :: "string \<Rightarrow> string \<Rightarrow> hub_client \<Rightarrow> hub_client" where
  "hc_setBase defBase b c =
     c\<lparr>hcBase := (if strip_slash b \<noteq> '''' then strip_slash b else defBase), hcIceCache := None\<rparr>"

definition upd_sock :: "nat \<Rightarrow> (hub_socket \<Rightarrow> hub_socket) \<Rightarrow> hub_client \<Rightarrow> hub_client" where
  "upd_sock i f c = (if i < length (hcSockets c) then c\<lparr>hcSockets := (hcSockets c)[i := f (hcSockets c ! i)]\<rparr> else c)"

text \<open>\<open>close()\<close> of the browser: the close event comes later, unless it is over already.\<close>

definition close_sock :: "hub_socket \<Rightarrow> hub_socket" where
  "close_sock s = (if skReady s = SkClosed then s else s\<lparr>skReady := SkClosing\<rparr>)"

definition sock_open :: "nat option \<Rightarrow> hub_client \<Rightarrow> bool" where
  "sock_open w c = (case w of None \<Rightarrow> False
     | Some i \<Rightarrow> if i < length (hcSockets c) then skReady (hcSockets c ! i) = SkOpen else False)"

definition hc_connected :: "hub_client \<Rightarrow> bool" where
  "hc_connected c = sock_open (hcWs c) c"

definition hc_clearReconnect :: "hub_client \<Rightarrow> hub_client" where
  "hc_clearReconnect c = c\<lparr>hcReconnectTimer := None\<rparr>"

definition hc_openSocket :: "hub_client \<Rightarrow> hub_client" where
  "hc_openSocket c0 =
     (let c = hc_clearReconnect c0;
          c1 = (case hcWs c of None \<Rightarrow> c
                | Some i \<Rightarrow> (upd_sock i (\<lambda>s. close_sock (s\<lparr>skHandled := False\<rparr>)) c)\<lparr>hcWs := None\<rparr>)
      in c1\<lparr>hcSockets := hcSockets c1 @ [\<lparr>skReady = SkConnecting, skHandled = True, skBase = hcBase c1, skSent = []\<rparr>],
            hcWs := Some (length (hcSockets c1))\<rparr>)"

definition hc_connect :: "bool \<Rightarrow> hub_client \<Rightarrow> hub_client" where
  "hc_connect autoReconnect c = hc_openSocket (c\<lparr>hcShouldReconnect := autoReconnect, hcIntentionalClose := False\<rparr>)"

text \<open>\<open>send\<close> throws when the socket is not open: \<open>Inl\<close> the error text.\<close>

definition hc_send :: "jsobj \<Rightarrow> hub_client \<Rightarrow> string + hub_client" where
  "hc_send msg c =
     (if \<not> hc_connected c then Inl ''HubClient: not connected''
      else case hcWs c of None \<Rightarrow> Inl ''HubClient: not connected''
           | Some i \<Rightarrow> Inr (upd_sock i (\<lambda>s. s\<lparr>skSent := skSent s @ [msg]\<rparr>) c))"

definition hc_trySend :: "jsobj \<Rightarrow> hub_client \<Rightarrow> hub_client \<times> bool" where
  "hc_trySend msg c = (case hc_send msg c of Inl _ \<Rightarrow> (c, False) | Inr c' \<Rightarrow> (c', True))"

definition ping_msg :: jsobj where "ping_msg = [(''type'', JStr ''ping'')]"

definition hc_ping :: "hub_client \<Rightarrow> hub_client" where
  "hc_ping c = (if hc_connected c then fst (hc_trySend ping_msg c) else c)"

definition hc_startPing :: "hub_client \<Rightarrow> hub_client" where
  "hc_startPing c = (hc_ping (c\<lparr>hcPinging := False\<rparr>))\<lparr>hcPinging := True\<rparr>"

definition SIBLING_SWAP_MS :: int where "SIBLING_SWAP_MS = 20000"

definition maybeSwapSiblingHub :: "url_parser \<Rightarrow> string \<Rightarrow> int \<Rightarrow> hub_client \<Rightarrow> hub_client \<times> bool" where
  "maybeSwapSiblingHub parse defBase now c =
     (if hcSessionOpened c then (c, False)
      else if hcReconnectAttempt c \<noteq> 0 then (c, False)
      else if now - hcLastSwapAt c < SIBLING_SWAP_MS then (c, False)
      else let sibling = siblingHubBase parse (hcBase c)
           in if sibling = '''' \<or> sibling = hcBase c then (c, False)
              else ((hc_setBase defBase sibling c)\<lparr>hcLastSwapAt := now\<rparr>, True))"

definition backoff_ms :: "nat \<Rightarrow> rat" where
  "backoff_ms n = min 15000 (800 * (8 / 5) ^ n)"

definition hc_scheduleReconnect :: "url_parser \<Rightarrow> string \<Rightarrow> int \<Rightarrow> hub_client \<Rightarrow> hub_client" where
  "hc_scheduleReconnect parse defBase now c0 =
     (let (c, swapped) = maybeSwapSiblingHub parse defBase now (hc_clearReconnect c0);
          delay = (if swapped then 0 else if hcSessionOpened c \<and> hcReconnectAttempt c = 0 then 0
                   else backoff_ms (hcReconnectAttempt c))
      in c\<lparr>hcReconnectAttempt := hcReconnectAttempt c + 1, hcReconnectTimer := Some delay\<rparr>)"

definition hc_disconnect :: "hub_client \<Rightarrow> hub_client" where
  "hc_disconnect c0 =
     (let c = (hc_clearReconnect c0)\<lparr>hcIntentionalClose := True, hcShouldReconnect := False, hcSessionOpened := False,
                 hcPinging := False\<rparr>
      in case hcWs c of None \<Rightarrow> c | Some i \<Rightarrow> (upd_sock i close_sock c)\<lparr>hcWs := None\<rparr>)"

section \<open>Events of the browser\<close>

text \<open>\<open>onopen\<close>, of whichever socket opens.\<close>

definition hc_onopen :: "nat \<Rightarrow> hub_client \<Rightarrow> hub_client" where
  "hc_onopen i c =
     (if i < length (hcSockets c) \<and> skReady (hcSockets c ! i) = SkConnecting
      then hc_startPing ((upd_sock i (\<lambda>s. s\<lparr>skReady := SkOpen\<rparr>) c)\<lparr>hcReconnectAttempt := 0, hcSessionOpened := True\<rparr>)
      else c)"

text \<open>The close event; without its handler a closed socket changes nothing in the client.\<close>

definition hc_onclose :: "url_parser \<Rightarrow> string \<Rightarrow> int \<Rightarrow> nat \<Rightarrow> hub_client \<Rightarrow> hub_client" where
  "hc_onclose parse defBase now i c =
     (if i < length (hcSockets c) \<and> skReady (hcSockets c ! i) \<noteq> SkClosed
      then let c1 = upd_sock i (\<lambda>s. s\<lparr>skReady := SkClosed\<rparr>) c
           in if \<not> skHandled (hcSockets c ! i) then c1
              else let c2 = c1\<lparr>hcPinging := False, hcWs := None\<rparr>
                   in if hcShouldReconnect c2 \<and> \<not> hcIntentionalClose c2
                      then hc_scheduleReconnect parse defBase now c2 else c2
      else c)"

definition hc_reconnectFires :: "hub_client \<Rightarrow> hub_client" where
  "hc_reconnectFires c =
     (if hcReconnectTimer c = None then c
      else let c1 = c\<lparr>hcReconnectTimer := None\<rparr>
           in if hcShouldReconnect c1 \<and> \<not> hcIntentionalClose c1 then hc_openSocket c1 else c1)"

definition hc_pingFires :: "hub_client \<Rightarrow> hub_client" where
  "hc_pingFires c = (if hcPinging c then hc_ping c else c)"

section \<open>The cached ICE configuration\<close>

datatype ice_answer = IceCached jsobj | IceFetch

definition fetchIceConfig :: "int \<Rightarrow> bool \<Rightarrow> hub_client \<Rightarrow> hub_client \<times> ice_answer" where
  "fetchIceConfig now force c =
     (case hcIceCache c of
        Some (t0, cfg) \<Rightarrow>
          if \<not> force \<and> now - t0 < 300000
          then (if now - t0 > 90000 \<and> \<not> hcIceInflight c then c\<lparr>hcIceInflight := True\<rparr> else c, IceCached cfg)
          else (c\<lparr>hcIceInflight := True\<rparr>, IceFetch)
      | None \<Rightarrow> (c\<lparr>hcIceInflight := True\<rparr>, IceFetch))"

definition ice_fetched :: "int \<Rightarrow> jsobj option \<Rightarrow> hub_client \<Rightarrow> hub_client" where
  "ice_fetched now reply c =
     (case reply of None \<Rightarrow> c\<lparr>hcIceInflight := False\<rparr>
      | Some cfg \<Rightarrow> c\<lparr>hcIceCache := Some (now, cfg), hcIceInflight := False\<rparr>)"

section \<open>Messages\<close>

definition hello_msg :: "string \<Rightarrow> string \<Rightarrow> string \<Rightarrow> string \<Rightarrow> string \<Rightarrow> bool \<Rightarrow> string \<Rightarrow> jsobj" where
  "hello_msg user_id name gender looking flag hide_ip avatar =
     [(''type'', JStr ''hello''), (''user_id'', JStr user_id), (''name'', JStr (if name \<noteq> '''' then name else ''anon'')),
      (''gender'', JStr gender), (''looking'', JStr (if looking \<noteq> '''' then looking else ''any'')),
      (''flag'', JStr (take 2 (js_upper flag))), (''avatar'', JStr avatar), (''tags'', JArr []),
      (''platform'', JStr ''android''), (''hide_ip'', JBool hide_ip)]"

definition prefs_msg :: "string \<Rightarrow> string \<Rightarrow> string \<Rightarrow> bool \<Rightarrow> string \<Rightarrow> jsobj" where
  "prefs_msg gender looking flag hide_ip avatar =
     [(''type'', JStr ''set_prefs''), (''gender'', JStr gender), (''looking'', JStr (if looking \<noteq> '''' then looking else ''any'')),
      (''flag'', JStr (take 2 (js_upper flag))), (''avatar'', JStr avatar), (''tags'', JArr []), (''hide_ip'', JBool hide_ip)]"

definition report_msg :: "string \<Rightarrow> string \<Rightarrow> string \<Rightarrow> jsobj" where
  "report_msg user_id reason screenshot =
     [(''type'', JStr ''report_user''), (''user_id'', JStr user_id), (''reason'', JStr reason)]
     @ (if screenshot \<noteq> '''' then [(''screenshot_jpeg_b64'', JStr (take 120000 screenshot))] else [])"

definition add_friend_msg :: "string \<Rightarrow> jsobj" where
  "add_friend_msg code = [(''type'', JStr ''add_friend''), (''code'', JStr (js_upper (js_trim code)))]"

definition friend_chat_msg :: "string \<Rightarrow> string \<Rightarrow> jsobj" where
  "friend_chat_msg to_user_id body =
     [(''type'', JStr ''friend_chat''), (''to_user_id'', JStr to_user_id), (''body'', JStr (take 2000 (js_trim body)))]"

definition register_push_msg :: "string \<Rightarrow> string \<Rightarrow> bool \<Rightarrow> jsobj" where
  "register_push_msg token platform clear =
     [(''type'', JStr ''register_push''), (''token'', JStr (if clear then '''' else token)), (''platform'', JStr platform),
      (''clear'', JBool clear)]"

definition rate_partner_msg :: "string \<Rightarrow> bool \<Rightarrow> int \<Rightarrow> bool \<Rightarrow> jsobj" where
  "rate_partner_msg user_id star amount thanks =
     [(''type'', JStr ''rate_partner''), (''user_id'', JStr user_id), (''star'', JBool star),
      (''amount'', JNum (if star then max 1 (min 3 amount) else 0)), (''thanks'', JBool (\<not> star \<and> thanks))]"

section \<open>Runs\<close>

datatype hub_event =
    HeConnect bool | HeDisconnect | HeSetBase string | HeOpened nat | HeClosed nat int | HeReconnect | HePing
  | HeSend jsobj

definition hub_step :: "url_parser \<Rightarrow> string \<Rightarrow> hub_client \<Rightarrow> hub_event \<Rightarrow> hub_client" where
  "hub_step parse defBase c e =
     (case e of HeConnect auto \<Rightarrow> hc_connect auto c
      | HeDisconnect \<Rightarrow> hc_disconnect c
      | HeSetBase b \<Rightarrow> hc_setBase defBase b c
      | HeOpened i \<Rightarrow> hc_onopen i c
      | HeClosed i now \<Rightarrow> hc_onclose parse defBase now i c
      | HeReconnect \<Rightarrow> hc_reconnectFires c
      | HePing \<Rightarrow> hc_pingFires c
      | HeSend m \<Rightarrow> fst (hc_trySend m c))"

section \<open>What holds of the connection\<close>

lemmas hc_defs = hc_connect_def hc_openSocket_def hc_clearReconnect_def hc_disconnect_def hc_setBase_def
  hc_onclose_def hc_onopen_def hc_reconnectFires_def upd_sock_def close_sock_def

text \<open>What a step keeps of the sockets: how many there are and what was sent on each.\<close>

definition silent :: "hub_client \<Rightarrow> hub_client \<Rightarrow> bool" where
  "silent c c' \<longleftrightarrow> map skSent (hcSockets c') = map skSent (hcSockets c)"

lemma silent_refl [simp]: "silent c c"
  by (simp add: silent_def)

lemma silent_trans: "silent c c' \<Longrightarrow> silent c' c'' \<Longrightarrow> silent c c''"
  by (simp add: silent_def)

lemma map_update_same:
  assumes "f y = f (xs ! i)"
  shows "map f (xs[i := y]) = map f xs"
proof (cases "i < length xs")
  case True
  with assms have "f y = map f xs ! i" by simp
  then show ?thesis by (simp only: map_update list_update_id)
qed (simp add: list_update_beyond)

lemma silent_upd [simp]: "(\<And>s. skSent (f s) = skSent s) \<Longrightarrow> silent c (upd_sock i f c)"
  by (simp add: silent_def upd_sock_def map_update_same)

lemma upd_sock_sel [simp]:
  "hcWs (upd_sock i f c) = hcWs c" "hcReconnectTimer (upd_sock i f c) = hcReconnectTimer c"
  "hcIntentionalClose (upd_sock i f c) = hcIntentionalClose c" "hcShouldReconnect (upd_sock i f c) = hcShouldReconnect c"
  "hcBase (upd_sock i f c) = hcBase c" "hcSessionOpened (upd_sock i f c) = hcSessionOpened c"
  "hcReconnectAttempt (upd_sock i f c) = hcReconnectAttempt c" "hcLastSwapAt (upd_sock i f c) = hcLastSwapAt c"
  "length (hcSockets (upd_sock i f c)) = length (hcSockets c)" "hcPinging (upd_sock i f c) = hcPinging c"
  by (simp_all add: upd_sock_def)

lemma close_sock_sel [simp]: "skSent (close_sock s) = skSent s" "skHandled (close_sock s) = skHandled s"
  "skReady (close_sock s) = SkClosed \<longleftrightarrow> skReady s = SkClosed"
  by (simp_all add: close_sock_def)

text \<open>A client that was told to hang up.\<close>

definition hung_up :: "hub_client \<Rightarrow> bool" where
  "hung_up c \<longleftrightarrow> hcWs c = None \<and> hcReconnectTimer c = None \<and> hcIntentionalClose c"

lemma hung_upD: assumes "hung_up c"
  shows "hcWs c = None" "hcReconnectTimer c = None" "hcIntentionalClose c" "hc_connected c = False"
  using assms by (simp_all add: hung_up_def hc_connected_def sock_open_def)

lemma hung_up_silent_ping: "hung_up c \<Longrightarrow> hc_ping c = c"
  by (simp add: hc_ping_def hung_upD)

lemma hung_up_onopen: "hung_up c \<Longrightarrow> hung_up (hc_onopen i c) \<and> silent c (hc_onopen i c)"
  by (simp add: hc_onopen_def hc_startPing_def hc_ping_def hung_up_def hc_connected_def sock_open_def)
    (simp add: silent_def upd_sock_def map_update_same)

lemma hung_up_onclose: "hung_up c \<Longrightarrow> hung_up (hc_onclose parse d now i c) \<and> silent c (hc_onclose parse d now i c)"
  by (simp add: hc_onclose_def hung_up_def Let_def) (simp add: silent_def upd_sock_def map_update_same)

lemma hung_up_step:
  assumes "hung_up c" "\<And>a. e \<noteq> HeConnect a"
  shows "hung_up (hub_step parse d c e) \<and> silent c (hub_step parse d c e)"
proof (cases e)
  case HeDisconnect
  with assms show ?thesis by (simp add: hub_step_def hc_disconnect_def hc_clearReconnect_def hung_up_def silent_def)
next
  case (HeSetBase b)
  with assms show ?thesis by (simp add: hub_step_def hc_setBase_def hung_up_def silent_def)
next
  case (HeSend m)
  with assms show ?thesis by (simp add: hub_step_def hc_trySend_def hc_send_def hung_upD)
qed (use assms in \<open>simp_all add: hub_step_def hung_up_onopen hung_up_onclose hc_reconnectFires_def hung_upD
       hc_pingFires_def hung_up_silent_ping\<close>)

fun is_connect :: "hub_event \<Rightarrow> bool" where
  "is_connect (HeConnect a) = True" | "is_connect _ = False"

definition hub_run :: "url_parser \<Rightarrow> string \<Rightarrow> hub_client \<Rightarrow> hub_event list \<Rightarrow> hub_client" where
  "hub_run parse d c es = foldl (hub_step parse d) c es"

lemma hub_run_simps [simp]:
  "hub_run parse d c [] = c" "hub_run parse d c (e # es) = hub_run parse d (hub_step parse d c e) es"
  "hub_run parse d c (es @ fs) = hub_run parse d (hub_run parse d c es) fs"
  by (simp_all add: hub_run_def)

lemma hung_up_run:
  "hung_up c \<Longrightarrow> list_all (\<lambda>e. \<not> is_connect e) es \<Longrightarrow>
     hung_up (hub_run parse d c es) \<and> silent c (hub_run parse d c es)"
proof (induction es arbitrary: c)
  case (Cons e es)
  have "\<And>a. e \<noteq> HeConnect a" using Cons.prems(2) by auto
  with Cons.prems(1) have s: "hung_up (hub_step parse d c e)" "silent c (hub_step parse d c e)"
    by (simp_all add: hung_up_step)
  with Cons show ?case by (auto intro: silent_trans)
qed simp

lemma hung_up_disconnect: "hung_up (hc_disconnect c) \<and> silent c (hc_disconnect c)"
  by (simp add: hc_disconnect_def hc_clearReconnect_def Let_def hung_up_def split: option.split)
    (simp add: silent_def upd_sock_def map_update_same)

section \<open>One socket at a time\<close>

definition one_live :: "hub_client \<Rightarrow> bool" where
  "one_live c \<longleftrightarrow> (\<forall>i < length (hcSockets c). skHandled (hcSockets c ! i) \<and> skReady (hcSockets c ! i) \<noteq> SkClosed \<longrightarrow> hcWs c = Some i)"

fun is_disconnect :: "hub_event \<Rightarrow> bool" where
  "is_disconnect HeDisconnect = True" | "is_disconnect _ = False"

lemma one_live_cong: "one_live c \<Longrightarrow> hcSockets c' = hcSockets c \<Longrightarrow> hcWs c' = hcWs c \<Longrightarrow> one_live c'"
  by (simp add: one_live_def)

lemma one_live_upd:
  assumes "one_live c" "\<And>s. skHandled (f s) = skHandled s" "\<And>s. skReady s = SkClosed \<Longrightarrow> skReady (f s) = SkClosed"
  shows "one_live (upd_sock i f c)"
  using assms(1) unfolding one_live_def upd_sock_def
  by (simp add: nth_list_update assms(2)) (metis assms(3))

definition dropped :: "hub_client \<Rightarrow> hub_client" where
  "dropped c = (case hcWs c of None \<Rightarrow> c
                | Some i \<Rightarrow> (upd_sock i (\<lambda>s. close_sock (s\<lparr>skHandled := False\<rparr>)) c)\<lparr>hcWs := None\<rparr>)"

lemma openSocket_sel:
  "hcSockets (hc_openSocket c) = hcSockets (dropped c)
     @ [\<lparr>skReady = SkConnecting, skHandled = True, skBase = hcBase c, skSent = []\<rparr>]"
  "hcWs (hc_openSocket c) = Some (length (hcSockets c))" "hcReconnectTimer (hc_openSocket c) = None"
  "hcShouldReconnect (hc_openSocket c) = hcShouldReconnect c" "hcIntentionalClose (hc_openSocket c) = hcIntentionalClose c"
  "hcBase (hc_openSocket c) = hcBase c"
  by (simp_all add: hc_openSocket_def hc_clearReconnect_def dropped_def Let_def upd_sock_def split: option.split)

lemma dropped_len [simp]: "length (hcSockets (dropped c)) = length (hcSockets c)"
  by (simp add: dropped_def split: option.split)

lemma one_liveD:
  "one_live c \<Longrightarrow> i < length (hcSockets c) \<Longrightarrow> skHandled (hcSockets c ! i) \<Longrightarrow> skReady (hcSockets c ! i) \<noteq> SkClosed
    \<Longrightarrow> hcWs c = Some i"
  by (simp add: one_live_def)

lemma dropped_dead:
  assumes "one_live c" and i: "i < length (hcSockets c)"
  shows "\<not> (skHandled (hcSockets (dropped c) ! i) \<and> skReady (hcSockets (dropped c) ! i) \<noteq> SkClosed)"
proof (cases "hcWs c")
  case None
  with one_liveD [OF assms] show ?thesis by (auto simp: dropped_def)
next
  case (Some k)
  show ?thesis
  proof (cases "k = i")
    case False
    with Some have "hcSockets (dropped c) ! i = hcSockets c ! i" by (simp add: dropped_def upd_sock_def)
    with Some False one_liveD [OF assms] show ?thesis by auto
  qed (use Some i in \<open>simp add: dropped_def upd_sock_def\<close>)
qed

lemma one_live_open: "one_live c \<Longrightarrow> one_live (hc_openSocket c)"
  unfolding one_live_def [of "hc_openSocket c"]
  by (auto simp: openSocket_sel nth_append less_Suc_eq dest: dropped_dead)

lemma maybeSwap_frame:
  "hcSockets (fst (maybeSwapSiblingHub parse d now c)) = hcSockets c"
  "hcWs (fst (maybeSwapSiblingHub parse d now c)) = hcWs c"
  "hcShouldReconnect (fst (maybeSwapSiblingHub parse d now c)) = hcShouldReconnect c"
  "hcIntentionalClose (fst (maybeSwapSiblingHub parse d now c)) = hcIntentionalClose c"
  by (simp_all add: maybeSwapSiblingHub_def hc_setBase_def Let_def)

lemma schedule_frame:
  "hcSockets (hc_scheduleReconnect parse d now c) = hcSockets c"
  "hcWs (hc_scheduleReconnect parse d now c) = hcWs c"
  "hcShouldReconnect (hc_scheduleReconnect parse d now c) = hcShouldReconnect c"
  "hcIntentionalClose (hc_scheduleReconnect parse d now c) = hcIntentionalClose c"
proof -
  obtain c' sw where p: "maybeSwapSiblingHub parse d now (hc_clearReconnect c) = (c', sw)" by fastforce
  have "hcSockets c' = hcSockets c" "hcWs c' = hcWs c" "hcShouldReconnect c' = hcShouldReconnect c"
    "hcIntentionalClose c' = hcIntentionalClose c"
    using maybeSwap_frame [of parse d now "hc_clearReconnect c", unfolded p fst_conv]
    by (simp_all add: hc_clearReconnect_def)
  then show "hcSockets (hc_scheduleReconnect parse d now c) = hcSockets c"
    "hcWs (hc_scheduleReconnect parse d now c) = hcWs c"
    "hcShouldReconnect (hc_scheduleReconnect parse d now c) = hcShouldReconnect c"
    "hcIntentionalClose (hc_scheduleReconnect parse d now c) = hcIntentionalClose c"
    by (simp_all add: hc_scheduleReconnect_def p Let_def)
qed

lemma onclose_sel:
  assumes "i < length (hcSockets c)" "skReady (hcSockets c ! i) \<noteq> SkClosed"
  shows "hcSockets (hc_onclose parse d now i c) = (hcSockets c)[i := (hcSockets c ! i)\<lparr>skReady := SkClosed\<rparr>]"
    "hcWs (hc_onclose parse d now i c) = (if skHandled (hcSockets c ! i) then None else hcWs c)"
  using assms by (simp_all add: hc_onclose_def Let_def schedule_frame) (simp_all add: upd_sock_def)

lemma one_live_close_ev:
  assumes "one_live c"
  shows "one_live (hc_onclose parse d now i c)"
proof (cases "i < length (hcSockets c) \<and> skReady (hcSockets c ! i) \<noteq> SkClosed")
  case True
  then have i: "i < length (hcSockets c)" "skReady (hcSockets c ! i) \<noteq> SkClosed" by simp_all
  let ?c = "hc_onclose parse d now i c"
  have "hcWs ?c = Some j" if j: "j < length (hcSockets ?c)" "skHandled (hcSockets ?c ! j)" "skReady (hcSockets ?c ! j) \<noteq> SkClosed" for j
  proof (cases "j = i")
    case False
    with j have "hcWs c = Some j" by (simp add: onclose_sel [OF i] one_liveD [OF assms])
    with False one_liveD [OF assms i(1) _ i(2)] show ?thesis by (auto simp: onclose_sel [OF i])
  qed (use i j in \<open>simp add: onclose_sel [OF i]\<close>)
  then show ?thesis by (simp add: one_live_def)
next
  case False
  with assms show ?thesis by (simp only: hc_onclose_def if_False)
qed

lemma one_live_send: "one_live c \<Longrightarrow> one_live (fst (hc_trySend m c))"
  by (auto simp: hc_trySend_def hc_send_def one_live_upd split: option.split)

lemma one_live_ping: "one_live c \<Longrightarrow> one_live (hc_ping c)"
  by (simp add: hc_ping_def one_live_send)

lemma one_live_onopen: "one_live c \<Longrightarrow> one_live (hc_onopen i c)"
proof -
  assume a: "one_live c"
  show ?thesis
  proof (cases "i < length (hcSockets c) \<and> skReady (hcSockets c ! i) = SkConnecting")
    case True
    let ?c1 = "(upd_sock i (\<lambda>s. s\<lparr>skReady := SkOpen\<rparr>) c)\<lparr>hcReconnectAttempt := 0, hcSessionOpened := True, hcPinging := False\<rparr>"
    have "one_live ?c1"
      using a True by (auto simp: one_live_def upd_sock_def nth_list_update)
    then have "one_live (hc_ping ?c1)" by (rule one_live_ping)
    with True show ?thesis
      by (simp add: hc_onopen_def hc_startPing_def) (erule one_live_cong; simp)
  next
    case False
    with a show ?thesis by (auto simp: hc_onopen_def)
  qed
qed

lemma one_live_step:
  assumes "one_live c" "\<not> is_disconnect e"
  shows "one_live (hub_step parse d c e)"
proof (cases e)
  case (HeConnect a)
  have "one_live (c\<lparr>hcShouldReconnect := a, hcIntentionalClose := False\<rparr>)" by (rule one_live_cong [OF assms(1)]) simp_all
  with HeConnect show ?thesis by (simp add: hub_step_def hc_connect_def one_live_open)
next
  case (HeSetBase b)
  show ?thesis by (rule one_live_cong [OF assms(1)]) (simp_all add: HeSetBase hub_step_def hc_setBase_def)
next
  case HeReconnect
  have "one_live (c\<lparr>hcReconnectTimer := None\<rparr>)" by (rule one_live_cong [OF assms(1)]) simp_all
  with HeReconnect assms show ?thesis by (simp add: hub_step_def hc_reconnectFires_def one_live_open Let_def)
qed (use assms in \<open>simp_all add: hub_step_def one_live_close_ev one_live_onopen one_live_send one_live_ping hc_pingFires_def\<close>)

lemma one_live_run:
  "one_live c \<Longrightarrow> list_all (\<lambda>e. \<not> is_disconnect e) es \<Longrightarrow> one_live (hub_run parse d c es)"
  by (induction es arbitrary: c) (simp_all add: one_live_step)

lemma one_live_new: "one_live (new_hub_client b)"
  by (simp add: one_live_def new_hub_client_def)

section \<open>Waiting for the next attempt\<close>

lemma backoff_pos: "0 \<le> backoff_ms n" "backoff_ms n \<le> 15000"
  by (simp_all add: backoff_ms_def)

lemma backoff_mono: "backoff_ms n \<le> backoff_ms (Suc n)"
proof -
  have "800 * (8 / 5) ^ n \<le> 800 * (8 / 5 :: rat) ^ Suc n" by simp
  then show ?thesis by (simp add: backoff_ms_def min.coboundedI2 del: power_Suc)
qed

lemma schedule_timer:
  "\<exists>d. hcReconnectTimer (hc_scheduleReconnect parse def now c) = Some d \<and> 0 \<le> d \<and> d \<le> 15000"
  by (simp add: hc_scheduleReconnect_def Let_def backoff_pos split: prod.split)

section \<open>The properties\<close>

text \<open>C34: A call of \<open>disconnect\<close> is final: whatever open, close, timer or send event follows, and
  whatever the state of the client was, as long as nobody calls \<open>connect\<close> no socket is opened,
  nothing more is sent on any socket, no reconnect is waiting and the client is not connected.\<close>

theorem disconnect_is_final:
  "if list_all (\<lambda>e. \<not> is_connect e) es
   then let c' = hub_run parse d (hc_disconnect c) es
        in map skSent (hcSockets c') = map skSent (hcSockets c)
           \<and> hcReconnectTimer c' = None \<and> \<not> hc_connected c'
   else True"
proof (cases "list_all (\<lambda>e. \<not> is_connect e) es")
  case True
  have h: "hung_up (hc_disconnect c)" "silent c (hc_disconnect c)"
    using hung_up_disconnect [of c] by simp_all
  from hung_up_run [OF h(1) True, of parse d] show ?thesis
    using h(2) by (simp add: silent_def hung_upD)
qed simp

text \<open>C35: A connection lost by accident comes back: when a watched socket of a client that wants to stay
  connected closes, a reconnect is scheduled within fifteen seconds at most (at once for the first
  try of a session), and when its timer fires the client has a fresh socket, connecting to its hub.\<close>

theorem lost_connection_retried:
  "if i < length (hcSockets c) \<and> skReady (hcSockets c ! i) \<noteq> SkClosed \<and> skHandled (hcSockets c ! i)
      \<and> hcShouldReconnect c \<and> \<not> hcIntentionalClose c
   then let c1 = hc_onclose parse d now i c; c2 = hc_reconnectFires c1
        in (case hcReconnectTimer c1 of None \<Rightarrow> False | Some w \<Rightarrow> 0 \<le> w \<and> w \<le> 15000)
           \<and> hcWs c2 = Some (length (hcSockets c))
           \<and> hcSockets c2 = hcSockets c1 @ [\<lparr>skReady = SkConnecting, skHandled = True, skBase = hcBase c1, skSent = []\<rparr>]
   else True"
proof (cases "i < length (hcSockets c) \<and> skReady (hcSockets c ! i) \<noteq> SkClosed \<and> skHandled (hcSockets c ! i)
      \<and> hcShouldReconnect c \<and> \<not> hcIntentionalClose c")
  case True
  then have i: "i < length (hcSockets c)" "skReady (hcSockets c ! i) \<noteq> SkClosed" by simp_all
  let ?c0 = "(upd_sock i (\<lambda>s. s\<lparr>skReady := SkClosed\<rparr>) c)\<lparr>hcPinging := False, hcWs := None\<rparr>"
  let ?c1 = "hc_scheduleReconnect parse d now ?c0"
  from True have e: "hc_onclose parse d now i c = ?c1" by (simp add: hc_onclose_def Let_def)
  obtain w where w: "hcReconnectTimer ?c1 = Some w" "0 \<le> w" "w \<le> 15000"
    using schedule_timer by blast
  have k: "hcShouldReconnect ?c1" "\<not> hcIntentionalClose ?c1" "hcWs ?c1 = None" "length (hcSockets ?c1) = length (hcSockets c)"
    using True by (simp_all add: schedule_frame)
  have "hc_reconnectFires ?c1 = hc_openSocket (?c1\<lparr>hcReconnectTimer := None\<rparr>)"
    using w k by (simp add: hc_reconnectFires_def)
  with True w k show ?thesis by (simp add: e openSocket_sel dropped_def)
qed (simp only: if_False)

text \<open>C33: As long as nobody calls \<open>disconnect\<close>, however often \<open>connect\<close> is called and in whatever order
  sockets open, close and timers fire, the client watches one socket at most: every socket that is
  not closed and still has its close handler is the client's current one.\<close>

theorem one_watched_socket:
  "if list_all (\<lambda>e. \<not> is_disconnect e) es
   then let c = hub_run parse d (new_hub_client b) es
        in list_all (\<lambda>i. if skHandled (hcSockets c ! i) \<and> skReady (hcSockets c ! i) \<noteq> SkClosed then hcWs c = Some i else True)
             [0..<length (hcSockets c)]
   else True"
  using one_live_run [OF one_live_new, of es parse d b] by (simp add: one_live_def list_all_iff Let_def)

text \<open>Hanging up and reconnecting at once leaves the old close handler behind: after \<open>disconnect\<close>
  and \<open>connect\<close>, the late close event of the first socket makes the client forget the live second
  one and open a third, and both stay open and watched, while only the third is used.\<close>

theorem reconnect_leaks_socket:
  "(let c = hub_run (\<lambda>u. None) ''a'' (new_hub_client ''a'')
              [HeConnect True, HeOpened 0, HeDisconnect, HeConnect True, HeOpened 1, HeClosed 0 50000, HeReconnect, HeOpened 2]
    in (map skReady (hcSockets c), map skHandled (hcSockets c), hcWs c))
   = ([SkClosed, SkOpen, SkOpen], [True, True, True], Some 2)"
  by (simp add: hub_step_def hc_defs new_hub_client_def hc_startPing_def hc_ping_def hc_connected_def sock_open_def
      hc_trySend_def hc_send_def hc_scheduleReconnect_def maybeSwapSiblingHub_def strip_slash_def SIBLING_SWAP_MS_def)

end
