(* ===== verification/Quality.thy ===== *)
theory Quality
  imports Complex_Main "HOL-Library.Multiset" IcePolicy JsVal
begin

text \<open>
  The outbound quality of a call: the tiers, their ceiling and the adaptation to the network of
  \<open>ui/webrtc.js\<close>, the budget of \<open>ui/live.js\<close> for calls of several people, and the phone's version,
  \<open>mobile/src/media/adaptiveQuality.ts\<close>. Round trip times, loss shares and jitter are rationals
  (floating point rounding is left out); the statistics of the browser are lists of rows.
\<close>

section \<open>Tiers\<close>

record quality_tier =
  qtBitrate :: int
  qtFramerate :: int
  qtScale :: rat
  qtLabel :: string

definition QUALITY_TIERS :: "(string \<times> quality_tier) list" where
  "QUALITY_TIERS =
     [(''high'', \<lparr>qtBitrate = 1800000, qtFramerate = 30, qtScale = 1, qtLabel = ''high''\<rparr>),
      (''mid'', \<lparr>qtBitrate = 900000, qtFramerate = 28, qtScale = 1, qtLabel = ''mid''\<rparr>),
      (''low'', \<lparr>qtBitrate = 400000, qtFramerate = 20, qtScale = 2, qtLabel = ''low''\<rparr>),
      (''min'', \<lparr>qtBitrate = 200000, qtFramerate = 15, qtScale = 2, qtLabel = ''min''\<rparr>)]"

definition MOBILE_QUALITY_TIERS :: "(string \<times> quality_tier) list" where
  "MOBILE_QUALITY_TIERS =
     [(''high'', \<lparr>qtBitrate = 1200000, qtFramerate = 28, qtScale = 1, qtLabel = ''high''\<rparr>),
      (''mid'', \<lparr>qtBitrate = 700000, qtFramerate = 24, qtScale = 1, qtLabel = ''mid''\<rparr>),
      (''low'', \<lparr>qtBitrate = 350000, qtFramerate = 18, qtScale = 3 / 2, qtLabel = ''low''\<rparr>),
      (''min'', \<lparr>qtBitrate = 180000, qtFramerate = 12, qtScale = 2, qtLabel = ''min''\<rparr>)]"

definition TIER_RANK :: "(string \<times> int) list" where
  "TIER_RANK = [(''high'', 3), (''mid'', 2), (''low'', 1), (''min'', 0)]"

definition tier_rank :: "string \<Rightarrow> int \<Rightarrow> int" where
  "tier_rank t d = (case map_of TIER_RANK t of None \<Rightarrow> d | Some r \<Rightarrow> r)"

definition clampQualityTier :: "string \<Rightarrow> string \<Rightarrow> string" where
  "clampQualityTier tier ceil =
     (let t = (if map_of QUALITY_TIERS tier \<noteq> None then tier else ''mid'');
          c = (if map_of QUALITY_TIERS ceil \<noteq> None then ceil else ''high'')
      in if tier_rank t 2 \<le> tier_rank c 3 then t else c)"

definition mobile_clampQualityTier :: "string \<Rightarrow> string \<Rightarrow> string" where
  "mobile_clampQualityTier tier ceil =
     (let t = (if map_of MOBILE_QUALITY_TIERS tier \<noteq> None then tier else ''mid'');
          c = (if map_of MOBILE_QUALITY_TIERS ceil \<noteq> None then ceil else ''high'')
      in if tier_rank t 2 \<le> tier_rank c 3 then t else c)"

definition clampLocalTier :: "string \<Rightarrow> string \<Rightarrow> string" where
  "clampLocalTier tier most =
     (let t = (if map_of TIER_RANK tier \<noteq> None then tier else ''mid'');
          m = (if map_of TIER_RANK most \<noteq> None then most else ''high'')
      in if tier_rank t 2 \<le> tier_rank m 3 then t else m)"

section \<open>The browser\<close>

record browser_env =
  beUserAgent :: string
  bePlatform :: string
  beMaxTouch :: int
  beMultiFast :: bool
  beForceFull :: bool
  bePrefs :: jsobj
  beIce :: ice_state

definition isAndroidUa :: "browser_env \<Rightarrow> bool" where
  "isAndroidUa e = js_includes (js_lower (beUserAgent e)) ''android''"

definition isIosWebKit :: "browser_env \<Rightarrow> bool" where
  "isIosWebKit e =
     (let ua = js_lower (beUserAgent e)
      in if js_includes ua ''iphone'' \<or> js_includes ua ''ipad'' \<or> js_includes ua ''ipod'' then True
         else if bePlatform e = ''MacIntel'' \<and> beMaxTouch e > 1 then True else False)"

definition isMultiPeerFastMode :: "browser_env \<Rightarrow> bool \<Rightarrow> bool" where
  "isMultiPeerFastMode e multiPeerLink = (if multiPeerLink then True else beMultiFast e)"

text \<open>The local descriptions of the peer connections that exist, \<open>''''\<close> for none yet.\<close>

definition siblingAlreadyHasRelay :: "string list \<Rightarrow> bool" where
  "siblingAlreadyHasRelay sdps =
     (if sdps = [] then False else list_ex (\<lambda>sdp. sdp \<noteq> '''' \<and> js_includes (js_lower sdp) ''typ relay'') sdps)"

definition firstRelayWait1Ms :: "browser_env \<Rightarrow> bool \<Rightarrow> string list \<Rightarrow> int \<Rightarrow> bool \<Rightarrow> int" where
  "firstRelayWait1Ms e multiPeerLink sdps budget warmOk =
     (let wait1 = (if warmOk then min budget 320 else budget)
      in if isMultiPeerFastMode e multiPeerLink \<and> \<not> warmOk
         then min wait1 (if siblingAlreadyHasRelay sdps then 80 else 160) else wait1)"

definition mobileSafeMultiTier :: "browser_env \<Rightarrow> bool \<Rightarrow> string \<Rightarrow> string" where
  "mobileSafeMultiTier e multiPeerLink tier =
     (let t = (if map_of QUALITY_TIERS tier \<noteq> None then tier else ''mid'')
      in if t = ''min'' \<and> isAndroidUa e \<and> isMultiPeerFastMode e multiPeerLink then ''low'' else t)"

section \<open>Audio processing\<close>

definition isLowLatencyAudioEnabled :: "browser_env \<Rightarrow> bool" where
  "isLowLatencyAudioEnabled e =
     (if beForceFull e then False
      else oget (bePrefs e) ''lowLatencyAudio'' \<in> {JBool True, JNum 1})"

text \<open>Latencies in milliseconds, so that they are whole numbers.\<close>

definition latency_ms :: "int \<Rightarrow> int \<Rightarrow> jsval" where
  "latency_ms ideal most = JObj [(''ideal'', JNum ideal), (''max'', JNum most)]"

definition without_key :: "string \<Rightarrow> jsobj \<Rightarrow> jsobj" where
  "without_key k ob = filter (\<lambda>(k', _). k' \<noteq> k) ob"

definition audio_constraints :: "browser_env \<Rightarrow> bool \<Rightarrow> jsval \<Rightarrow> jsobj \<Rightarrow> jsobj" where
  "audio_constraints e process latency extra =
     (let c = [(''echoCancellation'', JBool True), (''noiseSuppression'', JBool process),
               (''autoGainControl'', JBool process), (''channelCount'', JNum 1), (''latency'', latency)];
          c' = (if \<not> isIosWebKit e then jset ''sampleRate'' (JObj [(''ideal'', JNum 48000)]) c else c);
          res = ospread c' extra
      in if isIosWebKit e then without_key ''sampleRate'' res else res)"

definition fullProcessingAudioConstraints :: "browser_env \<Rightarrow> jsobj \<Rightarrow> jsobj" where
  "fullProcessingAudioConstraints e extra = audio_constraints e True (latency_ms 20 80) extra"

definition lowLatencyAudioConstraints :: "browser_env \<Rightarrow> jsobj \<Rightarrow> jsobj" where
  "lowLatencyAudioConstraints e extra =
     (if beForceFull e then fullProcessingAudioConstraints e extra
      else let low = isLowLatencyAudioEnabled e
           in audio_constraints e (\<not> low) (if low then latency_ms 5 25 else latency_ms 20 80) extra)"

section \<open>Tracks, receivers and senders\<close>

record media_track =
  tkKind :: string
  tkEnabled :: bool
  tkLive :: bool
  tkHasHint :: bool
  tkHint :: string

record receiver =
  rvTrack :: "media_track option"
  rvTarget :: "rat option"
  rvHasTarget :: bool
  rvHint :: "rat option"
  rvHasHint :: bool

text \<open>Targets in milliseconds, the older hint in seconds.\<close>

definition play_track :: "media_track \<Rightarrow> media_track" where
  "play_track t =
     (if tkKind t = ''audio'' then t\<lparr>tkEnabled := True, tkHint := if tkHasHint t then ''speech'' else tkHint t\<rparr>
      else if tkKind t = ''video'' then t\<lparr>tkEnabled := True, tkHint := if tkHasHint t then ''motion'' else tkHint t\<rparr>
      else t)"

definition playout_ms :: "rat \<Rightarrow> rat" where
  "playout_ms targetMs = max 55 (min 220 (if targetMs = 0 then 70 else targetMs))"

definition applyLowLatencyPlayout :: "rat \<Rightarrow> receiver list \<Rightarrow> receiver list" where
  "applyLowLatencyPlayout targetMs rs =
     map (\<lambda>r. r\<lparr>rvTarget := if rvHasTarget r then Some (playout_ms targetMs) else rvTarget r,
                rvHint := if rvHasHint r then Some (playout_ms targetMs / 1000) else rvHint r,
                rvTrack := map_option play_track (rvTrack r)\<rparr>) rs"

definition enableInboundAudioTracks :: "receiver list \<Rightarrow> receiver list" where
  "enableInboundAudioTracks rs =
     map (\<lambda>r. r\<lparr>rvTrack := map_option (\<lambda>t. if tkKind t = ''audio'' \<and> \<not> tkEnabled t then t\<lparr>tkEnabled := True\<rparr> else t)
                            (rvTrack r)\<rparr>) rs"

record encoding =
  enBitrate :: "int option"
  enFramerate :: "int option"
  enScale :: "rat option"
  enDegradation :: "string option"
  enActive :: "bool option"

text \<open>\<open>spDegradation\<close>: the parameter of that name, when the browser lists it.\<close>

record sender =
  sdTrack :: "media_track option"
  sdEncodings :: "encoding list"
  sdDegradation :: "string option"

record encoding_opts =
  eoBitrate :: "int option"
  eoFramerate :: "int option"
  eoScale :: "rat option"
  eoDegradation :: string

definition blank_encoding :: encoding where
  "blank_encoding = \<lparr>enBitrate = None, enFramerate = None, enScale = None, enDegradation = None, enActive = None\<rparr>"

definition keep_or :: "'a option \<Rightarrow> 'a option \<Rightarrow> 'a option" where
  "keep_or new old = (case new of None \<Rightarrow> old | Some v \<Rightarrow> Some v)"

definition set_encoding :: "bool \<Rightarrow> encoding_opts \<Rightarrow> encoding \<Rightarrow> encoding" where
  "set_encoding hasDegradation opts enc =
     enc\<lparr>enBitrate := keep_or (eoBitrate opts) (enBitrate enc),
         enFramerate := keep_or (eoFramerate opts) (enFramerate enc),
         enScale := keep_or (map_option (\<lambda>s. max 1 (if s = 0 then 1 else s)) (eoScale opts)) (enScale enc),
         enDegradation := if eoDegradation opts \<noteq> '''' \<and> \<not> hasDegradation then Some (eoDegradation opts)
                          else enDegradation enc\<rparr>"

definition set_first :: "('a \<Rightarrow> 'a) \<Rightarrow> 'a list \<Rightarrow> 'a list" where
  "set_first f xs = (case xs of [] \<Rightarrow> [] | x # ys \<Rightarrow> f x # ys)"

definition applySenderEncoding :: "encoding_opts \<Rightarrow> sender \<Rightarrow> sender" where
  "applySenderEncoding opts s =
     (let encs = (if sdEncodings s = [] then [blank_encoding] else sdEncodings s);
          has = (sdDegradation s \<noteq> None)
      in s\<lparr>sdEncodings := set_first (set_encoding has opts) encs,
           sdDegradation := if eoDegradation opts \<noteq> '''' \<and> has then Some (eoDegradation opts) else sdDegradation s\<rparr>)"

text \<open>The phone's version also wakes every encoding, unless told not to (\<open>opts.active\<close>).\<close>

definition mobile_applySenderEncoding :: "bool \<Rightarrow> encoding_opts \<Rightarrow> sender \<Rightarrow> sender" where
  "mobile_applySenderEncoding active opts s =
     (let encs = (if sdEncodings s = [] then [blank_encoding] else sdEncodings s);
          woken = (if active then map (\<lambda>e. e\<lparr>enActive := Some True\<rparr>) encs else encs);
          has = (sdDegradation s \<noteq> None)
      in s\<lparr>sdEncodings := set_first (set_encoding has opts) woken,
           sdDegradation := if eoDegradation opts \<noteq> '''' \<and> has then Some (eoDegradation opts) else sdDegradation s\<rparr>)"

section \<open>Choosing a tier\<close>

text \<open>The choice of \<open>_adaptOnce\<close> from the current tier, the path, the loss share and the round trip.\<close>

definition adapt_choice :: "string \<Rightarrow> bool \<Rightarrow> rat \<Rightarrow> rat \<Rightarrow> string" where
  "adapt_choice cur relay lossP rttMs =
     (if relay then
        if lossP > 1 / 10 \<or> rttMs > 380 then ''min''
        else if lossP > 1 / 20 \<or> rttMs > 240 then ''low''
        else if lossP > 1 / 40 \<or> rttMs > 160 then ''mid''
        else if lossP < 3 / 250 \<and> rttMs < 110 then ''high'' else cur
      else
        if lossP > 3 / 25 \<or> rttMs > 450 then ''min''
        else if lossP > 3 / 50 \<or> rttMs > 280 then ''low''
        else if lossP > 3 / 100 \<or> rttMs > 180 then ''mid''
        else if lossP < 3 / 200 \<and> rttMs < 120 then ''high'' else cur)"

definition pickAdaptiveTier :: "string \<Rightarrow> rat \<Rightarrow> rat \<Rightarrow> bool \<Rightarrow> string \<Rightarrow> string" where
  "pickAdaptiveTier current rttMs lossP relay ceil =
     (let start = (if current \<noteq> '''' then current else ''mid'');
          chosen =
            (if relay then
               if lossP > 1 / 10 \<or> rttMs > 380 then ''min''
               else if lossP > 1 / 20 \<or> rttMs > 240 then ''low''
               else if lossP > 1 / 40 \<or> rttMs > 160 then ''mid''
               else if lossP < 3 / 250 \<and> rttMs < 110 then ''high'' else start
             else
               if lossP > 3 / 25 \<or> rttMs > 450 then ''min''
               else if lossP > 3 / 50 \<or> rttMs > 280 then ''low''
               else if lossP > 3 / 100 \<or> rttMs > 180 then ''mid''
               else if lossP < 3 / 200 \<and> rttMs < 120 then ''high'' else start)
      in mobile_clampQualityTier chosen ceil)"

definition networkQualityCeiling :: "bool \<Rightarrow> bool \<Rightarrow> bool \<Rightarrow> string" where
  "networkQualityCeiling cellular dataSaver hideIp =
     (if dataSaver then ''low'' else if cellular then ''mid'' else if hideIp then ''mid'' else ''high'')"

definition playoutTargetForTier :: "browser_env \<Rightarrow> string \<Rightarrow> bool \<Rightarrow> rat" where
  "playoutTargetForTier e tier optRelay =
     (let low = isLowLatencyAudioEnabled e;
          relay = (optRelay \<or> isRelayMediaMode (beIce e) \<or> sessionForceRelay (beIce e));
          small = (tier = ''min'' \<or> tier = ''low'')
      in if relay then
           if low then (if small then 130 else if tier = ''mid'' then 105 else 90)
           else if small then 150 else if tier = ''mid'' then 120 else 100
         else if low then (if small then 90 else if tier = ''mid'' then 70 else 60)
         else if small then 110 else if tier = ''mid'' then 85 else 70)"

section \<open>Statistics\<close>

record stat_row =
  srType :: string
  srId :: string
  srState :: string
  srNominated :: bool
  srRtt :: "rat option"
  srLocalId :: string
  srRemoteId :: string
  srCandidateType :: string
  srIsRemote :: bool
  srKind :: string
  srMediaType :: string
  srLimit :: string
  srLost :: "int option"
  srReceived :: "int option"
  srJitter :: "rat option"
  srEmitted :: rat
  srDelay :: "rat option"

definition row_by_id :: "stat_row list \<Rightarrow> string \<Rightarrow> stat_row option" where
  "row_by_id rows k = js_find (\<lambda>r. srId r = k) (rev rows)"

definition candidate_type :: "stat_row option \<Rightarrow> string" where
  "candidate_type r = (case r of None \<Rightarrow> ''''
     | Some c \<Rightarrow> js_lower (if srCandidateType c \<noteq> '''' then srCandidateType c else srType c))"

text \<open>What the loop over the report accumulates: sums and counts of round trips and of losses, and
  whether a relay was seen.\<close>

record adapt_acc =
  aaRtt :: rat
  aaRttN :: nat
  aaLoss :: rat
  aaLossN :: nat
  aaRelay :: bool

definition add_loss :: "rat \<Rightarrow> adapt_acc \<Rightarrow> adapt_acc" where
  "add_loss x a = a\<lparr>aaLoss := aaLoss a + x, aaLossN := aaLossN a + 1\<rparr>"

definition acc_pair :: "stat_row list \<Rightarrow> stat_row \<Rightarrow> adapt_acc \<Rightarrow> adapt_acc" where
  "acc_pair rows r a =
     (if srType r = ''candidate-pair'' \<and> (srState r = ''succeeded'' \<or> srNominated r)
      then let a1 = (case srRtt r of None \<Rightarrow> a | Some t \<Rightarrow> a\<lparr>aaRtt := aaRtt a + t * 1000, aaRttN := aaRttN a + 1\<rparr>)
           in if candidate_type (row_by_id rows (srLocalId r)) = ''relay'' \<or> candidate_type (row_by_id rows (srRemoteId r)) = ''relay''
              then a1\<lparr>aaRelay := True\<rparr> else a1
      else a)"

definition acc_out :: "stat_row \<Rightarrow> adapt_acc \<Rightarrow> adapt_acc" where
  "acc_out r a =
     (if srType r = ''outbound-rtp'' \<and> \<not> srIsRemote r \<and> srKind r = ''video'' \<and> srLimit r = ''bandwidth''
      then add_loss (1 / 20) a else a)"

definition lossShare :: "stat_row \<Rightarrow> rat option" where
  "lossShare r = (case (srLost r, srReceived r) of
      (Some l, Some n) \<Rightarrow> if l + n > 20 then Some (of_int l / of_int (l + n)) else None
    | _ \<Rightarrow> None)"

definition acc_in_video :: "bool \<Rightarrow> stat_row \<Rightarrow> adapt_acc \<Rightarrow> adapt_acc" where
  "acc_in_video relayMode r a =
     (if srType r = ''inbound-rtp'' \<and> \<not> srIsRemote r \<and> (srKind r = ''video'' \<or> srMediaType r = ''video'')
      then let a1 = (case lossShare r of None \<Rightarrow> a | Some x \<Rightarrow> add_loss x a)
           in case srJitter r of None \<Rightarrow> a1
              | Some j \<Rightarrow> if j > (if aaRelay a1 \<or> relayMode then 11 / 200 else 1 / 25) then add_loss (1 / 50) a1 else a1
      else a)"

definition acc_in_audio :: "bool \<Rightarrow> stat_row \<Rightarrow> adapt_acc \<Rightarrow> adapt_acc" where
  "acc_in_audio relayMode r a =
     (if srType r = ''inbound-rtp'' \<and> \<not> srIsRemote r \<and> (srKind r = ''audio'' \<or> srMediaType r = ''audio'')
      then case srJitter r of None \<Rightarrow> a
           | Some j \<Rightarrow> if j > (if aaRelay a \<or> relayMode then 13 / 200 else 1 / 20) then add_loss (3 / 200) a else a
      else a)"

definition acc_row :: "stat_row list \<Rightarrow> bool \<Rightarrow> adapt_acc \<Rightarrow> stat_row \<Rightarrow> adapt_acc" where
  "acc_row rows relayMode a r = acc_in_audio relayMode r (acc_in_video relayMode r (acc_out r (acc_pair rows r a)))"

definition acc_rows :: "stat_row list \<Rightarrow> bool \<Rightarrow> bool \<Rightarrow> adapt_acc" where
  "acc_rows rows relayMode relayPath =
     foldl (acc_row rows relayMode) \<lparr>aaRtt = 0, aaRttN = 0, aaLoss = 0, aaLossN = 0, aaRelay = relayPath\<rparr> rows"

text \<open>\<open>n ? (ema ? ema * (1 - w) + (sum / n) * w : sum / n) : ema\<close>.\<close>

definition ema_step :: "rat \<Rightarrow> rat \<Rightarrow> rat \<Rightarrow> nat \<Rightarrow> rat" where
  "ema_step w ema sum1 n =
     (if n = 0 then ema
      else if ema \<noteq> 0 then ema * (1 - w) + (sum1 / of_nat n) * w else sum1 / of_nat n)"

record av_lag =
  alAudio :: "rat option"
  alVideo :: "rat option"

definition lag_row :: "av_lag \<Rightarrow> stat_row \<Rightarrow> av_lag" where
  "lag_row a r =
     (if srType r \<noteq> ''inbound-rtp'' \<or> srIsRemote r then a
      else case srDelay r of None \<Rightarrow> a
      | Some d \<Rightarrow>
          if \<not> srEmitted r > 0 then a
          else let ms = d / srEmitted r * 1000;
                   a1 = (if srKind r = ''audio'' \<or> srMediaType r = ''audio'' then a\<lparr>alAudio := Some ms\<rparr> else a)
               in if srKind r = ''video'' \<or> srMediaType r = ''video'' then a1\<lparr>alVideo := Some ms\<rparr> else a1)"

definition estimateAvPlayoutLag :: "stat_row list \<Rightarrow> rat option" where
  "estimateAvPlayoutLag rows =
     (let a = foldl lag_row \<lparr>alAudio = None, alVideo = None\<rparr> rows
      in case alAudio a of None \<Rightarrow> None
         | Some x \<Rightarrow> (case alVideo a of Some v \<Rightarrow> Some (x - v) | None \<Rightarrow> Some (if x > 80 then x - 40 else 0)))"

text \<open>Raising the playout target for a measured lag, and moving towards it by twelve at most.\<close>

definition bump_target :: "rat option \<Rightarrow> rat \<Rightarrow> rat" where
  "bump_target lag target =
     (case lag of None \<Rightarrow> target
      | Some l \<Rightarrow> if \<bar>l\<bar> > 70 then min 160 (target + min 35 (\<bar>l\<bar> * (7 / 25))) else target)"

definition smooth_target :: "rat \<Rightarrow> rat \<Rightarrow> rat" where
  "smooth_target target prev =
     (if \<bar>target - prev\<bar> > 8 then prev + sgn (target - prev) * min 12 \<bar>target - prev\<bar> else target)"

section \<open>A call's link\<close>

record web_link =
  wlTier :: string
  wlCeiling :: string
  wlMulti :: bool
  wlLoss :: rat
  wlRtt :: rat
  wlRelayPath :: bool
  wlLastPlayout :: rat
  wlSenders :: "sender list"
  wlReceivers :: "receiver list"
  wlRemoteAudio :: bool
  wlVideoPainted :: bool
  wlTierShown :: "string list"

definition new_link :: "bool \<Rightarrow> sender list \<Rightarrow> receiver list \<Rightarrow> web_link" where
  "new_link multi senders receivers =
     \<lparr>wlTier = ''high'', wlCeiling = ''high'', wlMulti = multi, wlLoss = 0, wlRtt = 0, wlRelayPath = False,
      wlLastPlayout = 0, wlSenders = senders, wlReceivers = receivers, wlRemoteAudio = False, wlVideoPainted = False,
      wlTierShown = []\<rparr>"

definition video_opts :: "quality_tier \<Rightarrow> encoding_opts" where
  "video_opts t = \<lparr>eoBitrate = Some (qtBitrate t), eoFramerate = Some (qtFramerate t),
     eoScale = Some (if qtScale t = 0 then 1 else qtScale t), eoDegradation = ''balanced''\<rparr>"

definition audio_opts :: encoding_opts where
  "audio_opts = \<lparr>eoBitrate = Some 32000, eoFramerate = None, eoScale = None, eoDegradation = ''''\<rparr>"

definition limit_sender :: "quality_tier \<Rightarrow> sender \<Rightarrow> sender" where
  "limit_sender t s =
     (case sdTrack s of None \<Rightarrow> s
      | Some k \<Rightarrow> if tkKind k = ''video'' then applySenderEncoding (video_opts t) s
                 else if tkKind k = ''audio'' then applySenderEncoding audio_opts s else s)"

definition tier_of :: "string \<Rightarrow> quality_tier" where
  "tier_of name = (case map_of QUALITY_TIERS name of Some t \<Rightarrow> t | None \<Rightarrow> the (map_of QUALITY_TIERS ''mid''))"

definition applyQualityTier :: "browser_env \<Rightarrow> string \<Rightarrow> web_link \<Rightarrow> web_link" where
  "applyQualityTier e tier l =
     (let capped = mobileSafeMultiTier e (wlMulti l)
                     (clampQualityTier tier (if wlCeiling l \<noteq> '''' then wlCeiling l else ''high''));
          t = tier_of capped
      in l\<lparr>wlTier := qtLabel t, wlSenders := map (limit_sender t) (wlSenders l), wlTierShown := wlTierShown l @ [qtLabel t]\<rparr>)"

definition setQualityCeiling :: "browser_env \<Rightarrow> string \<Rightarrow> web_link \<Rightarrow> web_link" where
  "setQualityCeiling e ceil l =
     (let c = mobileSafeMultiTier e (wlMulti l) (if map_of QUALITY_TIERS ceil \<noteq> None then ceil else ''high'');
          l1 = l\<lparr>wlCeiling := c\<rparr>;
          cur = (if wlTier l1 \<noteq> '''' then wlTier l1 else ''high'');
          next1 = mobileSafeMultiTier e (wlMulti l) (clampQualityTier cur c)
      in if next1 \<noteq> cur then applyQualityTier e next1 l1 else l1)"

definition startAdaptiveQuality :: "browser_env \<Rightarrow> web_link \<Rightarrow> web_link" where
  "startAdaptiveQuality e l = l\<lparr>wlLoss := 0, wlRtt := 0, wlRelayPath := isRelayMediaMode (beIce e)\<rparr>"

definition adapt_period :: "web_link \<Rightarrow> int" where
  "adapt_period l = (if wlRelayPath l then 1800 else 2500)"

definition adapt_next :: "browser_env \<Rightarrow> web_link \<Rightarrow> string" where
  "adapt_next e l =
     mobileSafeMultiTier e (wlMulti l)
       (clampQualityTier
          (adapt_choice (if wlTier l \<noteq> '''' then wlTier l else ''high'') (wlRelayPath l \<or> isRelayMediaMode (beIce e))
             (wlLoss l) (wlRtt l))
          (if wlCeiling l \<noteq> '''' then wlCeiling l else ''high''))"

definition adapt_measure :: "browser_env \<Rightarrow> stat_row list \<Rightarrow> web_link \<Rightarrow> web_link" where
  "adapt_measure e rows l =
     (let a = acc_rows rows (isRelayMediaMode (beIce e)) (wlRelayPath l)
      in l\<lparr>wlRelayPath := aaRelay a, wlRtt := ema_step (3 / 10) (wlRtt l) (aaRtt a) (aaRttN a),
           wlLoss := ema_step (2 / 5) (wlLoss l) (aaLoss a) (aaLossN a)\<rparr>)"

definition adapt_playout :: "browser_env \<Rightarrow> string \<Rightarrow> stat_row list \<Rightarrow> web_link \<Rightarrow> web_link" where
  "adapt_playout e tier lagRows l =
     (let relay = (wlRelayPath l \<or> isRelayMediaMode (beIce e));
          target = bump_target (estimateAvPlayoutLag lagRows) (playoutTargetForTier e tier relay);
          prev = (if wlLastPlayout l \<noteq> 0 then wlLastPlayout l else target);
          t = smooth_target target prev
      in l\<lparr>wlReceivers := applyLowLatencyPlayout t (wlReceivers l), wlLastPlayout := t\<rparr>)"

definition adaptOnce :: "browser_env \<Rightarrow> stat_row list \<Rightarrow> stat_row list \<Rightarrow> web_link \<Rightarrow> web_link" where
  "adaptOnce e rows lagRows l =
     (if \<not> wlVideoPainted l \<and> \<not> wlRemoteAudio l then l
      else let l1 = adapt_measure e rows l;
               next1 = adapt_next e l1;
               l2 = (if next1 \<noteq> wlTier l1 then applyQualityTier e next1 l1 else l1)
           in adapt_playout e next1 lagRows l2)"

text \<open>The first path is held low: \<open>this._qualityTier = "low"\<close> and \<open>applyQualityTier("low")\<close>.\<close>

definition hold_low :: "browser_env \<Rightarrow> web_link \<Rightarrow> web_link" where
  "hold_low e l = applyQualityTier e ''low'' (l\<lparr>wlTier := ''low''\<rparr>)"

text \<open>
  \<open>_armQualityRampAfterFrame\<close>, its poll and its arming: when the hold ends and why. \<open>gone t\<close> tells
  whether the connection is gone or closed at time \<open>t\<close>, \<open>painted t\<close> whether a frame is up or remote
  audio is live; \<open>n\<close> counts the polls so far.
\<close>

datatype ramp_end = RampClosed | RampPainted | RampGaveUp

function ramp_at :: "(int \<Rightarrow> bool) \<Rightarrow> (int \<Rightarrow> bool) \<Rightarrow> nat \<Rightarrow> int \<Rightarrow> int \<times> ramp_end" where
  "ramp_at gone painted n t =
     (if gone t then (t, RampClosed)
      else if painted t then (t, RampPainted)
      else if n + 1 < 50 then ramp_at gone painted (n + 1) (t + 150)
      else (t, RampGaveUp))"
  by pat_completeness auto
termination by (relation "measure (\<lambda>(_, _, n, _). 50 - n)") auto

declare ramp_at.simps [simp del]

definition armQualityRampAfterFrame :: "(int \<Rightarrow> bool) \<Rightarrow> (int \<Rightarrow> bool) \<Rightarrow> int \<Rightarrow> int \<times> ramp_end" where
  "armQualityRampAfterFrame gone painted now = ramp_at gone painted 0 (now + 80)"

text \<open>What the end does to the link.\<close>

definition ramp_link :: "browser_env \<Rightarrow> ramp_end \<Rightarrow> web_link \<Rightarrow> web_link" where
  "ramp_link e r l = (case r of RampClosed \<Rightarrow> l | _ \<Rightarrow> applyQualityTier e ''mid'' l)"

section \<open>Calls of several people\<close>

text \<open>The source first looks for a primary link (a teammate, else the smallest id); the budget does not
  depend on it.\<close>

definition floor_min :: "bool \<Rightarrow> string \<Rightarrow> string" where
  "floor_min mobileFloor tier = (if mobileFloor \<and> tier = ''min'' then ''low'' else tier)"

definition link_budget :: "nat \<Rightarrow> bool \<Rightarrow> bool \<Rightarrow> string \<times> string" where
  "link_budget n mobileFloor hideIp =
     (let ceil = (if n \<ge> 2 then ''low'' else ''high'');
          start = (if n \<ge> 2 then ''low'' else ''high'');
          ceiling1 = floor_min mobileFloor ceil;
          start1 = floor_min mobileFloor start;
          ceiling2 = (if hideIp then clampLocalTier ceiling1 ''mid'' else ceiling1);
          start2 = (if hideIp then clampLocalTier start1 ceiling2 else start1)
      in (floor_min mobileFloor ceiling2, floor_min mobileFloor start2))"

definition applyMultiPeerOutboundQuality :: "browser_env \<Rightarrow> bool \<Rightarrow> (string \<times> web_link) list \<Rightarrow> (string \<times> web_link) list" where
  "applyMultiPeerOutboundQuality e mobileFloor live =
     (if length live \<le> 1
      then map (\<lambda>(pid, l). (pid, let l1 = setQualityCeiling e ''high'' l
                  in applyQualityTier e (if wlTier l1 \<noteq> '''' then wlTier l1 else ''high'') l1)) live
      else map (\<lambda>(pid, l). (pid, let (c, s) = link_budget (length live) mobileFloor (hideIpRelayOnlyEnabled (beIce e))
                  in applyQualityTier e s (setQualityCeiling e c l))) live)"

section \<open>Codec preferences\<close>

record codec =
  cdMime :: string
  cdFmtp :: string

definition h264_packets :: "codec \<Rightarrow> bool" where
  "h264_packets c \<longleftrightarrow> js_upper (cdMime c) = ''VIDEO/H264'' \<and> js_includes (js_lower (cdFmtp c)) ''packetization-mode=1''"

text \<open>The index in the wanted order (the last one that matches), else behind all of them.\<close>

definition listed_rank :: "string list \<Rightarrow> codec \<Rightarrow> rat \<Rightarrow> rat" where
  "listed_rank order c r0 =
     fold (\<lambda>(wi, want) r. if js_upper (cdMime c) = js_upper want then of_nat wi else r) (enumerate 0 order) r0"

definition codec_rank :: "string list \<Rightarrow> nat \<times> codec \<Rightarrow> rat" where
  "codec_rank order x =
     (let r = listed_rank order (snd x) (100 + of_nat (fst x))
      in if h264_packets (snd x) then r - 1 / 10 else r)"

definition preferOrder :: "codec list \<Rightarrow> string list \<Rightarrow> codec list" where
  "preferOrder codecs order = map snd (sort_key (codec_rank order) (enumerate 0 codecs))"

definition video_order :: "string list" where
  "video_order = [''video/H264'', ''video/VP8'', ''video/VP9'', ''video/AV1'']"

definition audio_order :: "string list" where
  "audio_order = [''audio/opus'', ''audio/red'', ''audio/PCMU'']"

text \<open>What one transceiver is told, given the kinds of its receiver's and sender's tracks (\<open>''''\<close>
  without a track); \<open>None\<close> when it is left alone.\<close>

definition preferCodecs :: "codec list \<Rightarrow> codec list \<Rightarrow> string \<Rightarrow> string \<Rightarrow> codec list option" where
  "preferCodecs videoCaps audioCaps recvKind sendKind =
     (if recvKind = ''video'' \<or> sendKind = ''video'' then
        if videoCaps = [] then None
        else let pref = preferOrder videoCaps video_order in if pref \<noteq> [] then Some pref else None
      else if recvKind = ''audio'' \<or> sendKind = ''audio'' then
        if audioCaps = [] then None
        else let pref = preferOrder audioCaps audio_order in if pref \<noteq> [] then Some pref else None
      else None)"

definition mobile_preferCodecs :: "codec list \<Rightarrow> codec list \<Rightarrow> string \<Rightarrow> string \<Rightarrow> codec list option" where
  "mobile_preferCodecs videoCaps audioCaps recvKind sendKind =
     (let kind = (if recvKind \<noteq> '''' then recvKind else sendKind)
      in if kind = ''video'' \<and> videoCaps \<noteq> [] then
           let pref = preferOrder videoCaps video_order in if pref \<noteq> [] then Some pref else None
         else if kind = ''audio'' \<and> audioCaps \<noteq> [] then
           let pref = preferOrder audioCaps audio_order in if pref \<noteq> [] then Some pref else None
         else None)"

section \<open>Tier lemmas\<close>

definition tier_name :: "string \<Rightarrow> bool" where
  "tier_name t \<longleftrightarrow> map_of QUALITY_TIERS t \<noteq> None"

lemma tier_name_iff: "tier_name t \<longleftrightarrow> t = ''high'' \<or> t = ''mid'' \<or> t = ''low'' \<or> t = ''min''"
  by (auto simp: tier_name_def QUALITY_TIERS_def)

lemma tier_names [simp]: "tier_name ''high''" "tier_name ''mid''" "tier_name ''low''" "tier_name ''min''"
  by (simp_all add: tier_name_iff)

lemma tier_name_nonempty [simp]: "tier_name t \<Longrightarrow> t \<noteq> ''''"
  by (auto simp: tier_name_iff)

lemma tier_ranks [simp]: "tier_rank ''high'' d = 3" "tier_rank ''mid'' d = 2" "tier_rank ''low'' d = 1" "tier_rank ''min'' d = 0"
  by (simp_all add: tier_rank_def TIER_RANK_def)

lemma mobile_tier_name: "map_of MOBILE_QUALITY_TIERS t \<noteq> None \<longleftrightarrow> tier_name t"
  by (auto simp: MOBILE_QUALITY_TIERS_def tier_name_iff)

lemma rank_tier_name: "map_of TIER_RANK t \<noteq> None \<longleftrightarrow> tier_name t"
  by (auto simp: TIER_RANK_def tier_name_iff)

lemma rank_bounds: "tier_name t \<Longrightarrow> 0 \<le> tier_rank t d \<and> tier_rank t d \<le> 3"
  by (auto simp: tier_name_iff)

lemma rank_inject: "tier_name s \<Longrightarrow> tier_name t \<Longrightarrow> tier_rank s d = tier_rank t d \<Longrightarrow> s = t"
  by (auto simp: tier_name_iff)

lemma rank_default: "tier_name t \<Longrightarrow> tier_rank t d = tier_rank t 0"
  by (auto simp: tier_name_iff)

text \<open>The three clamps agree: the lower of the two, unknown names read as \<open>mid\<close> and \<open>high\<close>.\<close>

definition named :: "string \<Rightarrow> string \<Rightarrow> string" where
  "named d t = (if tier_name t then t else d)"

lemma named_name: "tier_name d \<Longrightarrow> tier_name (named d t)" and named_id [simp]: "tier_name t \<Longrightarrow> named d t = t"
  by (simp_all add: named_def)

lemma clamp_eq:
  "clampQualityTier t c =
     (if tier_rank (named ''mid'' t) 0 \<le> tier_rank (named ''high'' c) 0 then named ''mid'' t else named ''high'' c)"
  unfolding clampQualityTier_def tier_name_def [symmetric] named_def [symmetric] Let_def
  using rank_default [OF named_name [of "''mid''" t], of 2] rank_default [OF named_name [of "''high''" c], of 3] by simp

lemma mobile_clamp_eq: "mobile_clampQualityTier t c = clampQualityTier t c"
  unfolding mobile_clampQualityTier_def clampQualityTier_def mobile_tier_name tier_name_def [symmetric] ..

lemma local_clamp_eq: "clampLocalTier t c = clampQualityTier t c"
  unfolding clampLocalTier_def clampQualityTier_def rank_tier_name tier_name_def [symmetric] ..

lemma clamp_name [simp]: "tier_name (clampQualityTier t c)"
  by (simp add: clamp_eq named_name)

lemma clamp_le: "tier_name c \<Longrightarrow> tier_rank (clampQualityTier t c) d \<le> tier_rank c d"
  using rank_default [of c d] rank_default [OF clamp_name, of t c d] by (simp add: clamp_eq)

lemma clamp_id: "tier_name t \<Longrightarrow> tier_name c \<Longrightarrow> tier_rank t 0 \<le> tier_rank c 0 \<Longrightarrow> clampQualityTier t c = t"
  by (simp add: clamp_eq)

lemma safe_name [simp]: "tier_name (mobileSafeMultiTier e m t)"
  unfolding mobileSafeMultiTier_def tier_name_def [symmetric] by (simp add: Let_def)

lemma safe_cases: "tier_name t \<Longrightarrow>
    mobileSafeMultiTier e m t = t \<or> (isAndroidUa e \<and> isMultiPeerFastMode e m \<and> t = ''min'' \<and> mobileSafeMultiTier e m t = ''low'')"
  unfolding mobileSafeMultiTier_def tier_name_def [symmetric] by (simp add: Let_def)

lemma tier_of_label [simp]: "tier_name t \<Longrightarrow> qtLabel (tier_of t) = t"
  by (auto simp: tier_name_iff tier_of_def QUALITY_TIERS_def)

section \<open>The tier stays under its ceiling\<close>

text \<open>The highest rank a link may have: that of its ceiling, or \<open>low\<close> on an Android phone.\<close>

definition under_ceiling :: "bool \<Rightarrow> web_link \<Rightarrow> bool" where
  "under_ceiling android l \<longleftrightarrow> tier_name (wlTier l) \<and> tier_name (wlCeiling l)
     \<and> tier_rank (wlTier l) 0 \<le> (if android then max 1 (tier_rank (wlCeiling l) 0) else tier_rank (wlCeiling l) 0)"

lemma under_ceiling_mono: "under_ceiling False l \<Longrightarrow> under_ceiling a l"
  by (auto simp: under_ceiling_def)

lemma capped_rank:
  assumes "tier_name c"
  shows "tier_rank (mobileSafeMultiTier e m (clampQualityTier t c)) 0
    \<le> (if isAndroidUa e then max 1 (tier_rank c 0) else tier_rank c 0)"
  using safe_cases [OF clamp_name [of t c], of e m] clamp_le [OF assms, of t 0] by auto

lemma apply_sel:
  assumes "tier_name (wlCeiling l)"
  shows "wlTier (applyQualityTier e t l) = mobileSafeMultiTier e (wlMulti l) (clampQualityTier t (wlCeiling l))"
    "wlCeiling (applyQualityTier e t l) = wlCeiling l"
  using assms by (simp_all add: applyQualityTier_def Let_def)

lemma apply_under:
  assumes "tier_name (wlCeiling l)" "isAndroidUa e \<longrightarrow> a"
  shows "under_ceiling a (applyQualityTier e t l)"
  using capped_rank [OF assms(1), of e "wlMulti l" t] assms
  by (auto simp: under_ceiling_def apply_sel split: if_splits)

lemma set_ceiling_under:
  assumes "under_ceiling a l" "isAndroidUa e \<longrightarrow> a"
  shows "under_ceiling a (setQualityCeiling e c l)"
proof -
  define c' where "c' = mobileSafeMultiTier e (wlMulti l) (named ''high'' c)"
  have c': "tier_name c'" by (simp add: c'_def)
  have t: "tier_name (wlTier l)" using assms(1) by (simp add: under_ceiling_def)
  let ?n = "mobileSafeMultiTier e (wlMulti l) (clampQualityTier (wlTier l) c')"
  have e: "setQualityCeiling e c l = (if ?n \<noteq> wlTier l then applyQualityTier e ?n (l\<lparr>wlCeiling := c'\<rparr>) else l\<lparr>wlCeiling := c'\<rparr>)"
    unfolding setQualityCeiling_def tier_name_def [symmetric] named_def [symmetric] c'_def
    using t by (simp add: Let_def)
  show ?thesis
  proof (cases "?n = wlTier l")
    case True
    have "tier_rank (wlTier l) 0 \<le> (if isAndroidUa e then max 1 (tier_rank c' 0) else tier_rank c' 0)"
      using capped_rank [OF c', of e "wlMulti l" "wlTier l"] True by simp
    with True t c' assms(2) show ?thesis by (auto simp: e under_ceiling_def split: if_splits)
  next
    case False
    with c' assms(2) show ?thesis by (simp add: e apply_under)
  qed
qed

lemma under_cong:
  "under_ceiling a l \<Longrightarrow> wlTier l' = wlTier l \<Longrightarrow> wlCeiling l' = wlCeiling l \<Longrightarrow> under_ceiling a l'"
  by (simp only: under_ceiling_def)

lemma adapt_measure_sel [simp]:
  "wlTier (adapt_measure e rows l) = wlTier l" "wlCeiling (adapt_measure e rows l) = wlCeiling l"
  "wlLastPlayout (adapt_measure e rows l) = wlLastPlayout l" "wlMulti (adapt_measure e rows l) = wlMulti l"
  by (simp_all add: adapt_measure_def Let_def)

lemma adapt_playout_sel [simp]:
  "wlTier (adapt_playout e t rows l) = wlTier l" "wlCeiling (adapt_playout e t rows l) = wlCeiling l"
  by (simp_all add: adapt_playout_def Let_def)

lemma adapt_under:
  assumes "under_ceiling a l" "isAndroidUa e \<longrightarrow> a"
  shows "under_ceiling a (adaptOnce e rows lagRows l)"
proof -
  let ?l1 = "adapt_measure e rows l"
  let ?l2 = "if adapt_next e ?l1 \<noteq> wlTier ?l1 then applyQualityTier e (adapt_next e ?l1) ?l1 else ?l1"
  have 1: "under_ceiling a ?l1" by (rule under_cong [OF assms(1)]) simp_all
  then have "tier_name (wlCeiling ?l1)" by (simp add: under_ceiling_def)
  with 1 assms(2) have 2: "under_ceiling a ?l2" by (simp add: apply_under)
  have "under_ceiling a (adapt_playout e (adapt_next e ?l1) lagRows ?l2)"
    by (rule under_cong [OF 2]) (simp_all only: adapt_playout_sel)
  with assms(1) show ?thesis by (simp add: adaptOnce_def Let_def)
qed

text \<open>What happens to a link over its life.\<close>

datatype link_event =
    LkCeiling string | LkApply string | LkHoldLow | LkStartAdapt | LkAdapt "stat_row list" "stat_row list"
  | LkPaint bool bool

definition link_step :: "web_link \<Rightarrow> browser_env \<times> link_event \<Rightarrow> web_link" where
  "link_step l x =
     (case x of (e, ev) \<Rightarrow>
        (case ev of LkCeiling c \<Rightarrow> setQualityCeiling e c l
         | LkApply t \<Rightarrow> applyQualityTier e t l
         | LkHoldLow \<Rightarrow> hold_low e l
         | LkStartAdapt \<Rightarrow> startAdaptiveQuality e l
         | LkAdapt rows lagRows \<Rightarrow> adaptOnce e rows lagRows l
         | LkPaint video audio \<Rightarrow> l\<lparr>wlVideoPainted := video, wlRemoteAudio := audio\<rparr>))"

definition android_in :: "(browser_env \<times> link_event) list \<Rightarrow> bool" where
  "android_in es \<longleftrightarrow> list_ex (\<lambda>(e, _). isAndroidUa e) es"

lemma link_step_under:
  assumes "under_ceiling a l" "isAndroidUa e \<longrightarrow> a"
  shows "under_ceiling a (link_step l (e, ev))"
proof (cases ev)
  case (LkApply t)
  from assms have "tier_name (wlCeiling l)" by (simp add: under_ceiling_def)
  with LkApply assms(2) show ?thesis by (simp add: link_step_def apply_under)
next
  case LkHoldLow
  from assms have "tier_name (wlCeiling (l\<lparr>wlTier := ''low''\<rparr>))" by (simp add: under_ceiling_def)
  with LkHoldLow assms(2) show ?thesis by (simp add: link_step_def hold_low_def apply_under)
next
  case LkStartAdapt
  show ?thesis by (rule under_cong [OF assms(1)]) (simp_all add: LkStartAdapt link_step_def startAdaptiveQuality_def)
next
  case (LkPaint v b)
  show ?thesis by (rule under_cong [OF assms(1)]) (simp_all add: LkPaint link_step_def)
qed (use assms in \<open>simp_all add: link_step_def set_ceiling_under adapt_under\<close>)

lemma link_run_under:
  "under_ceiling a l \<Longrightarrow> (android_in es \<longrightarrow> a) \<Longrightarrow> under_ceiling a (foldl link_step l es)"
proof (induction es arbitrary: l)
  case (Cons x es)
  obtain e ev where x: "x = (e, ev)" by fastforce
  with Cons.prems have "under_ceiling a (link_step l x)"
    by (simp add: link_step_under android_in_def)
  with Cons.prems show ?case by (auto intro!: Cons.IH simp: android_in_def)
qed simp

lemma new_link_under: "under_ceiling a (new_link multi ss rs)"
  by (simp add: under_ceiling_def new_link_def)

text \<open>Whatever ceilings are set, tiers asked for and networks measured, in any order, the outbound
  tier of a link is one of the four tiers and not above the link's ceiling; on an Android phone,
  where \<open>min\<close> is never used between several people, it may be \<open>low\<close> under a ceiling of \<open>min\<close>.\<close>

theorem tier_under_ceiling:
  "let l = foldl link_step (new_link multi ss rs) es
   in wlTier l \<in> {''high'', ''mid'', ''low'', ''min''}
      \<and> tier_rank (wlTier l) 0 \<le> (if android_in es then max 1 (tier_rank (wlCeiling l) 0) else tier_rank (wlCeiling l) 0)"
  using link_run_under [OF new_link_under, of es "android_in es" multi ss rs]
  by (auto simp: under_ceiling_def tier_name_iff Let_def)

section \<open>Both clients choose alike\<close>

text \<open>The phone's adaptive choice mirrors the page's: from the same tier, path, loss share and round
  trip it picks the tier the page's \<open>_adaptOnce\<close> picks under the same ceiling (with the page's floor
  for Android put aside), for every non-empty current tier, and both clamps are the same function.\<close>

theorem pickAdaptiveTier_mirrors_web:
  "(if cur \<noteq> '''' then pickAdaptiveTier cur rtt loss relay c = clampQualityTier (adapt_choice cur relay loss rtt) c else True)
   \<and> mobile_clampQualityTier = clampQualityTier"
  by (auto simp: pickAdaptiveTier_def adapt_choice_def Let_def mobile_clamp_eq fun_eq_iff)

text \<open>The ladder is not monotone: at the lowest tier a direct call that loses 4 percent of its
  packets is moved up to \<open>mid\<close>, while one that loses 2 percent stays at \<open>min\<close>; the same on a relay
  with 3 and 2 percent, on the page and on the phone.\<close>

theorem worse_network_higher_tier:
  "map (\<lambda>loss. adapt_choice ''min'' False loss 100) [1 / 50, 1 / 25] = [''min'', ''mid'']
   \<and> map (\<lambda>loss. adapt_choice ''min'' True loss 100) [1 / 50, 3 / 100] = [''min'', ''mid'']
   \<and> map (\<lambda>loss. pickAdaptiveTier ''min'' 100 loss False ''high'') [1 / 50, 1 / 25] = [''min'', ''mid'']"
  by (simp add: adapt_choice_def pickAdaptiveTier_def mobile_clamp_eq clamp_eq)

section \<open>Playout\<close>

lemma playout_bounds: "60 \<le> playoutTargetForTier e t r" "playoutTargetForTier e t r \<le> 150"
  by (simp_all add: playoutTargetForTier_def Let_def)

lemma bump_bounds: assumes "60 \<le> t" "t \<le> 160" shows "60 \<le> bump_target lag t" "bump_target lag t \<le> 160"
  using assms by (auto simp: bump_target_def split: option.split)

lemma smooth_between:
  assumes "a \<le> t" "t \<le> b" "a \<le> p" "p \<le> b"
  shows "a \<le> smooth_target t p" "smooth_target t p \<le> b"
  using assms by (auto simp: smooth_target_def sgn_if min_def abs_if)

lemma smooth_near: "\<bar>t - p\<bar> \<le> 12 \<Longrightarrow> smooth_target t p = t"
  by (auto simp: smooth_target_def sgn_if abs_if min_def split: if_splits)

lemma smooth_dist: "\<bar>t - p\<bar> > 12 \<Longrightarrow> \<bar>t - smooth_target t p\<bar> = \<bar>t - p\<bar> - 12"
  by (auto simp: smooth_target_def sgn_if abs_if min_def split: if_splits)

lemma smooth_reaches: "\<bar>t - p\<bar> \<le> 12 * of_nat (Suc n) \<Longrightarrow> (smooth_target t ^^ Suc n) p = t"
proof (induction n arbitrary: p)
  case 0
  then show ?case by (simp add: smooth_near)
next
  case (Suc n)
  have "\<bar>t - smooth_target t p\<bar> \<le> 12 * of_nat (Suc n)"
  proof (cases "\<bar>t - p\<bar> > 12")
    case True
    with Suc.prems show ?thesis by (simp add: smooth_dist algebra_simps)
  next
    case False
    then show ?thesis by (simp add: smooth_near)
  qed
  then have "(smooth_target t ^^ Suc n) (smooth_target t p) = t" by (rule Suc.IH)
  then show ?case by (simp only: funpow_Suc_right o_apply)
qed

definition playout_ok :: "web_link \<Rightarrow> bool" where
  "playout_ok l \<longleftrightarrow> wlLastPlayout l = 0 \<or> (60 \<le> wlLastPlayout l \<and> wlLastPlayout l \<le> 160)"

lemma adapt_playout_ok:
  assumes "playout_ok l"
  shows "playout_ok (adapt_playout e t rows l)"
proof -
  define g where "g = bump_target (estimateAvPlayoutLag rows) (playoutTargetForTier e t (wlRelayPath l \<or> isRelayMediaMode (beIce e)))"
  have g: "60 \<le> g" "g \<le> 160"
    using bump_bounds playout_bounds [of e t] by (simp_all add: g_def order_trans [OF playout_bounds(2)])
  define p where "p = (if wlLastPlayout l \<noteq> 0 then wlLastPlayout l else g)"
  have p: "60 \<le> p" "p \<le> 160" using assms g by (auto simp: p_def playout_ok_def)
  have "wlLastPlayout (adapt_playout e t rows l) = smooth_target g p"
    by (simp add: adapt_playout_def Let_def g_def p_def)
  with smooth_between [OF g p] show ?thesis by (simp add: playout_ok_def)
qed

lemma playout_ok_cong: "playout_ok l \<Longrightarrow> wlLastPlayout l' = wlLastPlayout l \<Longrightarrow> playout_ok l'"
  by (simp add: playout_ok_def)

lemma apply_playout [simp]: "wlLastPlayout (applyQualityTier e t l) = wlLastPlayout l"
  by (simp add: applyQualityTier_def Let_def)

lemma set_ceiling_playout [simp]: "wlLastPlayout (setQualityCeiling e c l) = wlLastPlayout l"
  by (simp add: setQualityCeiling_def Let_def)

lemma adaptOnce_playout:
  assumes "playout_ok l"
  shows "playout_ok (adaptOnce e rows lagRows l)"
proof (cases "\<not> wlVideoPainted l \<and> \<not> wlRemoteAudio l")
  case True
  with assms show ?thesis by (simp add: adaptOnce_def)
next
  case False
  let ?l1 = "adapt_measure e rows l"
  let ?l2 = "if adapt_next e ?l1 \<noteq> wlTier ?l1 then applyQualityTier e (adapt_next e ?l1) ?l1 else ?l1"
  have "playout_ok ?l2" by (rule playout_ok_cong [OF assms]) simp
  from adapt_playout_ok [OF this, of e "adapt_next e ?l1" lagRows] False show ?thesis
    by (simp only: adaptOnce_def if_False Let_def)
qed

lemma link_step_playout:
  assumes "playout_ok l"
  shows "playout_ok (link_step l (e, ev))"
proof (cases ev)
  case (LkAdapt rows lagRows)
  with assms show ?thesis by (simp add: link_step_def adaptOnce_playout)
qed (simp_all add: link_step_def playout_ok_cong [OF assms] hold_low_def startAdaptiveQuality_def)

interpretation playout: event_machine link_step playout_ok
  by unfold_locales (metis link_step_playout prod.collapse)

text \<open>The playout delay asked of the receivers stays between 60 and 160 milliseconds over any run of
  a link, whatever lags and round trips are measured; and for a target that no longer changes, nine
  steps of smoothing reach it exactly from anywhere in that range.\<close>

theorem playout_bounded_and_settles:
  "(let p = wlLastPlayout (foldl link_step (new_link multi ss rs) es) in p = 0 \<or> (60 \<le> p \<and> p \<le> 160))
   \<and> (if 60 \<le> t \<and> t \<le> 160 \<and> 60 \<le> q \<and> q \<le> 160 then (smooth_target t ^^ 9) q = t else True)"
proof
  have "playout_ok (new_link multi ss rs)" by (simp add: playout_ok_def new_link_def)
  from playout.inv_run [OF this, of es]
  show "let p = wlLastPlayout (foldl link_step (new_link multi ss rs) es) in p = 0 \<or> (60 \<le> p \<and> p \<le> 160)"
    by (simp add: playout_ok_def)
  show "if 60 \<le> t \<and> t \<le> 160 \<and> 60 \<le> q \<and> q \<le> 160 then (smooth_target t ^^ 9) q = t else True"
    using smooth_reaches [of t q 8] by (auto simp: abs_if eval_nat_numeral)
qed

section \<open>The first hold ends\<close>

text \<open>Poll \<open>k\<close> runs at \<open>t + 150 * k\<close>.\<close>

definition quiet :: "(int \<Rightarrow> bool) \<Rightarrow> (int \<Rightarrow> bool) \<Rightarrow> int \<Rightarrow> bool" where
  "quiet gone painted t \<longleftrightarrow> \<not> gone t \<and> \<not> painted t"

lemma ramp_ends:
  "n < 50 \<Longrightarrow> \<exists>k r. ramp_at gone painted n t = (t + 150 * int k, r) \<and> n + k < 50
     \<and> list_all (\<lambda>j. quiet gone painted (t + 150 * int j)) [0..<k]
     \<and> (case r of RampClosed \<Rightarrow> gone (t + 150 * int k)
        | RampPainted \<Rightarrow> \<not> gone (t + 150 * int k) \<and> painted (t + 150 * int k)
        | RampGaveUp \<Rightarrow> quiet gone painted (t + 150 * int k) \<and> n + k = 49)"
proof (induction gone painted n t rule: ramp_at.induct)
  case (1 gone painted n t)
  show ?case
  proof (cases "quiet gone painted t \<and> n + 1 < 50")
    case True
    then have now: "ramp_at gone painted n t = ramp_at gone painted (n + 1) (t + 150)"
      and quiet: "quiet gone painted t"
      by (simp_all add: quiet_def ramp_at.simps [of gone painted n t])
    from True "1.IH" obtain k r where k: "ramp_at gone painted (n + 1) (t + 150) = (t + 150 + 150 * int k, r)"
      "n + 1 + k < 50" "list_all (\<lambda>j. quiet gone painted (t + 150 + 150 * int j)) [0..<k]"
      "case r of RampClosed \<Rightarrow> gone (t + 150 + 150 * int k)
        | RampPainted \<Rightarrow> \<not> gone (t + 150 + 150 * int k) \<and> painted (t + 150 + 150 * int k)
        | RampGaveUp \<Rightarrow> quiet gone painted (t + 150 + 150 * int k) \<and> n + 1 + k = 49"
      by (auto simp: quiet_def)
    have "[0..<Suc k] = 0 # map Suc [0..<k]"
      by (simp add: map_Suc_upt upt_conv_Cons del: upt_Suc)
    with k quiet show ?thesis
      unfolding now by (intro exI [of _ "Suc k"] exI [of _ r])
        (simp add: algebra_simps list.pred_map comp_def del: upt_Suc split: ramp_end.splits)
  next
    case False
    with "1.prems" show ?thesis
      by (intro exI [of _ 0]) (auto simp: ramp_at.simps [of gone painted n t] quiet_def)
  qed
qed

text \<open>C39: The hold at \<open>low\<close> ends at the first of at most fifty polls, 80 ms after it was armed and
  then every 150 ms, that finds the connection closed or something painted, and otherwise at the
  fiftieth, 7.43 seconds after it was armed. The tier is raised unless the connection was closed.\<close>

theorem quality_ramp_terminates:
  "\<exists>k r. armQualityRampAfterFrame gone painted now = (now + 80 + 150 * int k, r)
     \<and> list_all (\<lambda>j. \<not> gone (now + 80 + 150 * int j) \<and> \<not> painted (now + 80 + 150 * int j)) [0..<k]
     \<and> (if gone (now + 80 + 150 * int k) then r = RampClosed \<and> k < 50 \<and> ramp_link e r l = l
        else ramp_link e r l = applyQualityTier e ''mid'' l
          \<and> (if painted (now + 80 + 150 * int k) then r = RampPainted \<and> k < 50
             else r = RampGaveUp \<and> now + 80 + 150 * int k = now + 7430))"
  using ramp_ends [of 0 gone painted "now + 80"]
  by (fastforce simp: armQualityRampAfterFrame_def quiet_def ramp_link_def split: ramp_end.splits)

section \<open>Calls of several people\<close>

lemma link_budget_many: "2 \<le> n \<Longrightarrow> link_budget n mob hide = (''low'', ''low'')"
  by (simp add: link_budget_def floor_min_def Let_def local_clamp_eq clamp_id)

lemma safe_low [simp]: "mobileSafeMultiTier e m ''low'' = ''low''"
  using safe_cases [of "''low''" e m] by simp

lemma set_ceiling_low_sel:
  "wlCeiling (setQualityCeiling e ''low'' l) = ''low''" "wlMulti (setQualityCeiling e ''low'' l) = wlMulti l"
  by (simp_all add: setQualityCeiling_def QUALITY_TIERS_def Let_def applyQualityTier_def)

text \<open>With two peers or more nobody is favoured: every link of the call, the primary one included,
  gets the ceiling \<open>low\<close> and starts at \<open>low\<close>, on every device and with or without a hidden address.\<close>

theorem multi_peer_links_equal:
  "if length live \<ge> 2
   then list_all (\<lambda>(_, l). wlCeiling l = ''low'' \<and> wlTier l = ''low'') (applyMultiPeerOutboundQuality e mobileFloor live)
   else True"
proof -
  have "wlTier (applyQualityTier e ''low'' (setQualityCeiling e ''low'' l)) = ''low''
        \<and> wlCeiling (applyQualityTier e ''low'' (setQualityCeiling e ''low'' l)) = ''low''" for l
    by (simp add: apply_sel set_ceiling_low_sel clamp_id)
  then show ?thesis
    by (auto simp: applyMultiPeerOutboundQuality_def link_budget_many list_all_iff)
qed

section \<open>What reaches the encoder\<close>

definition first_rate :: "sender \<Rightarrow> int option" where
  "first_rate s = (case sdEncodings s of [] \<Rightarrow> None | e # _ \<Rightarrow> enBitrate e)"

definition track_kind :: "sender \<Rightarrow> string" where
  "track_kind s = (case sdTrack s of None \<Rightarrow> '''' | Some t \<Rightarrow> tkKind t)"

lemma sender_rate: "first_rate (applySenderEncoding opts s) = keep_or (eoBitrate opts) (first_rate s)"
  by (cases "sdEncodings s")
    (simp_all add: blank_encoding_def applySenderEncoding_def first_rate_def set_first_def set_encoding_def keep_or_def Let_def)

lemma limit_rate:
  "track_kind s = ''video'' \<Longrightarrow> first_rate (limit_sender q s) = Some (qtBitrate q)"
  "track_kind s = ''audio'' \<Longrightarrow> first_rate (limit_sender q s) = Some 32000"
  "track_kind s \<noteq> ''video'' \<Longrightarrow> track_kind s \<noteq> ''audio'' \<Longrightarrow> limit_sender q s = s"
  by (cases "sdTrack s"; simp add: limit_sender_def track_kind_def sender_rate video_opts_def audio_opts_def keep_or_def)+

lemma tier_rates [simp]: "qtBitrate (tier_of ''high'') = 1800000" "qtBitrate (tier_of ''mid'') = 900000"
  "qtBitrate (tier_of ''low'') = 400000" "qtBitrate (tier_of ''min'') = 200000"
  by (simp_all add: tier_of_def QUALITY_TIERS_def)

lemma tier_table:
  "tier_name t \<Longrightarrow> tier_name c \<Longrightarrow> tier_rank t 0 \<le> tier_rank c 0 \<Longrightarrow> qtBitrate (tier_of t) \<le> qtBitrate (tier_of c)"
  unfolding tier_name_iff by (elim disjE; simp)

text \<open>A tier reaches every sender: after \<open>applyQualityTier\<close> the first encoding of each video sender
  has the bit rate of the link's tier, which is at most the one its ceiling allows outside Android,
  and each audio sender is held to 32 kbit/s; senders without a track are left alone.\<close>

theorem applyQualityTier_limits:
  "if tier_name (wlCeiling l) \<and> \<not> isAndroidUa e
   then let l' = applyQualityTier e t l
        in list_all2 (\<lambda>s s'.
             if track_kind s = ''video''
             then first_rate s' = Some (qtBitrate (tier_of (wlTier l')))
                  \<and> qtBitrate (tier_of (wlTier l')) \<le> qtBitrate (tier_of (wlCeiling l))
             else if track_kind s = ''audio'' then first_rate s' = Some 32000
             else s' = s) (wlSenders l) (wlSenders l')
   else True"
proof (cases "tier_name (wlCeiling l) \<and> \<not> isAndroidUa e")
  case True
  let ?t = "clampQualityTier t (wlCeiling l)"
  have safe: "mobileSafeMultiTier e (wlMulti l) ?t = ?t"
    using safe_cases [OF clamp_name, of e "wlMulti l" t "wlCeiling l"] True by auto
  have senders: "wlSenders (applyQualityTier e t l) = map (limit_sender (tier_of ?t)) (wlSenders l)"
    and tier: "wlTier (applyQualityTier e t l) = ?t"
    using True safe by (simp_all add: applyQualityTier_def Let_def)
  have le: "qtBitrate (tier_of ?t) \<le> qtBitrate (tier_of (wlCeiling l))"
    using True by (intro tier_table clamp_le) simp_all
  show ?thesis
    unfolding if_P [OF True] Let_def senders tier list_all2_map2
    using le by (simp add: list_all2_same limit_rate)
qed (simp only: if_False)

section \<open>The order of the codecs\<close>

lemma sort_key_split:
  assumes "\<forall>x \<in> set xs. \<forall>y \<in> set xs. P x \<and> \<not> P y \<longrightarrow> f x < f y"
  shows "sort_key f xs = sort_key f (filter P xs) @ sort_key f (filter (\<lambda>x. \<not> P x) xs)"
proof (rule properties_for_sort_key)
  show "mset (sort_key f (filter P xs) @ sort_key f (filter (\<lambda>x. \<not> P x) xs)) = mset xs"
    using multiset_partition [of "mset xs" P] by simp
next
  fix k
  assume "k \<in> set (sort_key f (filter P xs) @ sort_key f (filter (\<lambda>x. \<not> P x) xs))"
  then have k: "k \<in> set xs" by auto
  have ne: "f x \<noteq> f y" if "x \<in> set xs" "y \<in> set xs" "P x" "\<not> P y" for x y
    using assms that by (metis order_less_irrefl)
  have "filter (\<lambda>x. f k = f x) (filter P xs) @ filter (\<lambda>x. f k = f x) (filter (\<lambda>x. \<not> P x) xs) = filter (\<lambda>x. f k = f x) xs"
  proof (cases "P k")
    case True
    then have "filter (\<lambda>x. f k = f x) (filter (\<lambda>x. \<not> P x) xs) = []"
      using ne [OF k] by (auto simp: filter_empty_conv)
    moreover have "filter (\<lambda>x. f k = f x) (filter P xs) = filter (\<lambda>x. f k = f x) xs"
      unfolding filter_filter using ne [OF k _ True] by (intro filter_cong) blast+
    ultimately show ?thesis by simp
  next
    case False
    then have "x \<in> set xs \<Longrightarrow> P x \<Longrightarrow> f k \<noteq> f x" for x
      using ne [OF _ k, of x] by auto
    then have "filter (\<lambda>x. f k = f x) (filter P xs) = []"
      by (auto simp: filter_empty_conv)
    moreover have "filter (\<lambda>x. f k = f x) (filter (\<lambda>x. \<not> P x) xs) = filter (\<lambda>x. f k = f x) xs"
      unfolding filter_filter using ne [OF _ k _ False] by (intro filter_cong) (metis+)
    ultimately show ?thesis by simp
  qed
  then show "filter (\<lambda>x. f k = f x) (sort_key f (filter P xs) @ sort_key f (filter (\<lambda>x. \<not> P x) xs)) = filter (\<lambda>x. f k = f x) xs"
    using sort_key_stable [of f "f k"] by (simp add: eq_commute [of "f k"])
next
  show "sorted (map f (sort_key f (filter P xs) @ sort_key f (filter (\<lambda>x. \<not> P x) xs)))"
    using assms by (auto simp: sorted_append intro: less_imp_le)
qed

lemma sort_key_sorted: "sorted (map f xs) \<Longrightarrow> sort_key f xs = xs"
  by (rule properties_for_sort_key) auto

lemma sort_key_same: "(\<And>x. x \<in> set xs \<Longrightarrow> f x = c) \<Longrightarrow> sort_key f xs = xs"
  by (rule sort_key_sorted) (simp add: sorted_wrt_iff_nth_less)

lemma filter_enumerate: "map snd (filter (\<lambda>x. P (snd x)) (enumerate n xs)) = filter P xs"
  by (induction xs arbitrary: n) simp_all

text \<open>The classes of the video order, first to last.\<close>

definition is_mime :: "string \<Rightarrow> codec \<Rightarrow> bool" where
  "is_mime m c \<longleftrightarrow> js_upper (cdMime c) = m"

lemma video_listed:
  "listed_rank video_order c r0 =
     (if is_mime ''VIDEO/AV1'' c then 3 else if is_mime ''VIDEO/VP9'' c then 2 else if is_mime ''VIDEO/VP8'' c then 1
      else if is_mime ''VIDEO/H264'' c then 0 else r0)"
proof -
  have up: "js_upper ''video/H264'' = ''VIDEO/H264''" "js_upper ''video/VP8'' = ''VIDEO/VP8''"
    "js_upper ''video/VP9'' = ''VIDEO/VP9''" "js_upper ''video/AV1'' = ''VIDEO/AV1''"
    by code_simp+
  show ?thesis
    by (simp add: listed_rank_def video_order_def is_mime_def up)
qed

lemma video_rank:
  "codec_rank video_order (i, c) =
     (if is_mime ''VIDEO/H264'' c then (if h264_packets c then - 1 / 10 else 0)
      else if is_mime ''VIDEO/VP8'' c then 1 else if is_mime ''VIDEO/VP9'' c then 2
      else if is_mime ''VIDEO/AV1'' c then 3 else 100 + of_nat i)"
  by (auto simp: codec_rank_def video_listed h264_packets_def is_mime_def)

definition video_listed_mime :: "codec \<Rightarrow> bool" where
  "video_listed_mime c \<longleftrightarrow> list_ex (\<lambda>m. is_mime m c) [''VIDEO/H264'', ''VIDEO/VP8'', ''VIDEO/VP9'', ''VIDEO/AV1'']"

text \<open>Cutting off one class at the front of a list of numbered codecs.\<close>

lemma cut_class:
  fixes xs :: "(nat \<times> codec) list"
  assumes "\<And>i c. A c \<Longrightarrow> codec_rank video_order (i, c) = r" "\<And>i c. B c \<Longrightarrow> r < codec_rank video_order (i, c)"
    and "\<And>c. R c \<longleftrightarrow> A c \<or> B c" "\<And>c. A c \<Longrightarrow> \<not> B c"
  shows "sort_key (codec_rank video_order) (filter (\<lambda>x. R (snd x)) xs)
    = filter (\<lambda>x. A (snd x)) xs @ sort_key (codec_rank video_order) (filter (\<lambda>x. B (snd x)) xs)"
proof -
  let ?f = "codec_rank video_order" and ?ys = "filter (\<lambda>x. R (snd x)) xs"
  have "sort_key ?f ?ys = sort_key ?f (filter (\<lambda>x. A (snd x)) ?ys) @ sort_key ?f (filter (\<lambda>x. \<not> A (snd x)) ?ys)"
    by (rule sort_key_split) (use assms in force)
  moreover have "filter (\<lambda>x. A (snd x)) ?ys = filter (\<lambda>x. A (snd x)) xs" "filter (\<lambda>x. \<not> A (snd x)) ?ys = filter (\<lambda>x. B (snd x)) xs"
    using assms(3,4) by (auto intro!: filter_cong)
  moreover have "sort_key ?f (filter (\<lambda>x. A (snd x)) xs) = filter (\<lambda>x. A (snd x)) xs"
    by (rule sort_key_same [of _ _ r]) (use assms(1) in auto)
  ultimately show ?thesis by simp
qed

lemma unlisted_sorted:
  "sort_key (codec_rank video_order) (filter (\<lambda>x. \<not> video_listed_mime (snd x)) (enumerate n cs))
    = filter (\<lambda>x. \<not> video_listed_mime (snd x)) (enumerate n cs)"
proof (rule sort_key_sorted)
  have r: "codec_rank video_order (i, c) = 100 + of_nat i" if "\<not> video_listed_mime c" for i c
    using that by (simp add: video_rank video_listed_mime_def)
  show "sorted (map (codec_rank video_order) (filter (\<lambda>x. \<not> video_listed_mime (snd x)) (enumerate n cs)))"
  proof (induction cs arbitrary: n)
    case (Cons c cs)
    have "of_nat n \<le> (of_nat i :: rat)" if "(i, d) \<in> set (enumerate (Suc n) cs)" for i d
      using that by (auto simp: in_set_enumerate_eq)
    with Cons show ?case by (auto simp: r)
  qed simp
qed

text \<open>The order of the video codecs, exactly: the H264 entries with packetization mode 1, the other
  H264 entries, VP8, VP9, AV1, then every codec that is not listed; inside each group the browser's
  own order is kept, and no codec is lost or repeated.\<close>

theorem preferOrder_video:
  "preferOrder cs video_order =
     filter (\<lambda>c. is_mime ''VIDEO/H264'' c \<and> h264_packets c) cs
     @ filter (\<lambda>c. is_mime ''VIDEO/H264'' c \<and> \<not> h264_packets c) cs
     @ filter (is_mime ''VIDEO/VP8'') cs @ filter (is_mime ''VIDEO/VP9'') cs @ filter (is_mime ''VIDEO/AV1'') cs
     @ filter (\<lambda>c. \<not> video_listed_mime c) cs"
proof -
  let ?xs = "enumerate 0 cs" and ?s = "sort_key (codec_rank video_order)"
  let ?h = "\<lambda>c. is_mime ''VIDEO/H264'' c \<and> h264_packets c" and ?g = "is_mime ''VIDEO/H264''"
  let ?v8 = "is_mime ''VIDEO/VP8''" and ?v9 = "is_mime ''VIDEO/VP9''"
  note mime = is_mime_def h264_packets_def
  have "?s (filter (\<lambda>x. True) ?xs) = filter (\<lambda>x. ?h (snd x)) ?xs @ ?s (filter (\<lambda>x. \<not> ?h (snd x)) ?xs)"
    by (rule cut_class [where R = "\<lambda>c. True" and r = "- 1 / 10"]) (auto simp: video_rank)
  moreover have "?s (filter (\<lambda>x. \<not> ?h (snd x)) ?xs)
     = filter (\<lambda>x. ?g (snd x) \<and> \<not> h264_packets (snd x)) ?xs @ ?s (filter (\<lambda>x. \<not> ?g (snd x)) ?xs)"
    by (rule cut_class [where r = 0]) (auto simp: video_rank)
  moreover have "?s (filter (\<lambda>x. \<not> ?g (snd x)) ?xs)
     = filter (\<lambda>x. ?v8 (snd x)) ?xs @ ?s (filter (\<lambda>x. \<not> ?g (snd x) \<and> \<not> ?v8 (snd x)) ?xs)"
    by (rule cut_class [where r = 1 and R = "\<lambda>c. \<not> ?g c" and B = "\<lambda>c. \<not> ?g c \<and> \<not> ?v8 c"]) (auto simp: video_rank mime)
  moreover have "?s (filter (\<lambda>x. \<not> ?g (snd x) \<and> \<not> ?v8 (snd x)) ?xs)
     = filter (\<lambda>x. ?v9 (snd x)) ?xs @ ?s (filter (\<lambda>x. \<not> ?g (snd x) \<and> \<not> ?v8 (snd x) \<and> \<not> ?v9 (snd x)) ?xs)"
    by (rule cut_class [where r = 2 and R = "\<lambda>c. \<not> ?g c \<and> \<not> ?v8 c" and B = "\<lambda>c. \<not> ?g c \<and> \<not> ?v8 c \<and> \<not> ?v9 c"])
      (auto simp: video_rank mime)
  moreover have "?s (filter (\<lambda>x. \<not> ?g (snd x) \<and> \<not> ?v8 (snd x) \<and> \<not> ?v9 (snd x)) ?xs)
     = filter (\<lambda>x. is_mime ''VIDEO/AV1'' (snd x)) ?xs @ ?s (filter (\<lambda>x. \<not> video_listed_mime (snd x)) ?xs)"
    by (rule cut_class [where r = 3 and R = "\<lambda>c. \<not> ?g c \<and> \<not> ?v8 c \<and> \<not> ?v9 c" and B = "\<lambda>c. \<not> video_listed_mime c"])
      (auto simp: video_rank mime video_listed_mime_def)
  ultimately show ?thesis
    by (simp add: preferOrder_def unlisted_sorted filter_enumerate filter_enumerate [where P = ?h]
      filter_enumerate [where P = "\<lambda>c. ?g c \<and> \<not> h264_packets c"] filter_enumerate [where P = "\<lambda>c. \<not> video_listed_mime c"])
qed

section \<open>The phone beside the page\<close>

text \<open>The phone's sender differs from the page's in the activity of the encodings only.\<close>

definition forget_active :: "sender \<Rightarrow> sender" where
  "forget_active s = s\<lparr>sdEncodings := map (\<lambda>e. e\<lparr>enActive := None\<rparr>) (sdEncodings s)\<rparr>"

lemma forget_first:
  "map (\<lambda>e. e\<lparr>enActive := None\<rparr>) (set_first (set_encoding has opts) es)
     = set_first (set_encoding has opts) (map (\<lambda>e. e\<lparr>enActive := None\<rparr>) es)"
  by (cases es) (simp_all add: set_first_def set_encoding_def)

lemma mobile_sender_like_web:
  "forget_active (mobile_applySenderEncoding active opts s) = forget_active (applySenderEncoding opts s)"
  by (simp add: forget_active_def mobile_applySenderEncoding_def applySenderEncoding_def Let_def forget_first o_def)

lemma mobile_preferCodecs_like_web:
  "recvKind \<in> {'''', sendKind} \<Longrightarrow> mobile_preferCodecs v a recvKind sendKind = preferCodecs v a recvKind sendKind"
  by (auto simp: mobile_preferCodecs_def preferCodecs_def Let_def)

lemma first_wait_bounds:
  "firstRelayWait1Ms e multi sdps budget warm \<le> budget"
  "0 \<le> budget \<Longrightarrow> 0 \<le> firstRelayWait1Ms e multi sdps budget warm"
  by (simp_all add: firstRelayWait1Ms_def Let_def)

lemma no_sample_rate_on_ios:
  "isIosWebKit e \<Longrightarrow> oget (lowLatencyAudioConstraints e extra) ''sampleRate'' = JUndef"
proof -
  have "oget (without_key k ob) k = JUndef" for k ob
    by (induction ob) (auto simp: without_key_def)
  then show "isIosWebKit e \<Longrightarrow> oget (lowLatencyAudioConstraints e extra) ''sampleRate'' = JUndef"
    by (simp add: lowLatencyAudioConstraints_def fullProcessingAudioConstraints_def audio_constraints_def Let_def)
qed

end
