(* ===== verification/Recovery.thy ===== *)
theory Recovery
  imports IceServers "HOL-Library.Sublist"
begin

text \<open>
  How the phone recovers a call: the retry that restarts or rebuilds the connection
  (\<open>mobile/src/media/connectRetry.ts\<close>) and its guards in \<open>mobile/app/live.tsx\<close>, the automatic
  retries (\<open>useAutoConnectRetry.ts\<close>), what the connection chip shows (\<open>connectUi.ts\<close>,
  \<open>connectSteps.ts\<close>) and the wait for a partner whose connection dropped
  (\<open>partnerReconnect.ts\<close>). Times are milliseconds; what the media session is told to do is a list
  of operations, in order.
\<close>

section \<open>What the chip shows\<close>

record conn_view =
  cvPhase :: string
  cvConn :: string
  cvAwaiting :: bool
  cvRemoteVideo :: bool
  cvConnSince :: int
  cvMatchStarted :: int
  cvLinkTier :: string
  cvNow :: int

definition computeConnSlow :: "int \<Rightarrow> conn_view \<Rightarrow> bool" where
  "computeConnSlow slowMs v =
     (if cvPhase v \<noteq> ''matched'' then False
      else if cvConnSince v \<le> 0 then False
      else if cvNow v - cvConnSince v \<le> slowMs then False
      else if cvConn v = ''checking'' \<or> cvConn v = ''connecting'' then \<not> cvRemoteVideo v \<or> cvAwaiting v
      else cvConn v = ''failed'' \<or> cvConn v = ''disconnected'' \<or> (cvAwaiting v \<and> \<not> cvRemoteVideo v))"

definition computeShowConnRetry :: "int \<Rightarrow> bool \<Rightarrow> conn_view \<Rightarrow> bool" where
  "computeShowConnRetry softMs connSlow v =
     (if cvPhase v \<noteq> ''matched'' then False
      else if cvConn v = ''failed'' \<or> cvConn v = ''disconnected'' then True
      else if connSlow \<and> (cvConn v = ''failed'' \<or> cvConn v = ''disconnected'') then True
      else if cvRemoteVideo v \<and> \<not> cvAwaiting v then False
      else if cvMatchStarted v > 0 \<and> cvNow v - cvMatchStarted v > softMs then
        if cvAwaiting v \<and> \<not> cvRemoteVideo v then True
        else cvConn v = ''connecting'' \<or> cvConn v = ''checking''
      else False)"

definition computeShowHardRetry :: "int \<Rightarrow> conn_view \<Rightarrow> bool" where
  "computeShowHardRetry hardMs v =
     (if cvPhase v \<noteq> ''matched'' then False
      else if cvMatchStarted v > 0 \<and> cvNow v - cvMatchStarted v < hardMs then False
      else if cvConn v = ''failed'' \<or> cvConn v = ''disconnected'' then True
      else if cvLinkTier v = ''bad'' \<and> cvMatchStarted v > 0 \<and> cvNow v - cvMatchStarted v > hardMs then True
      else cvAwaiting v \<and> \<not> cvRemoteVideo v \<and> cvMatchStarted v > 0 \<and> cvNow v - cvMatchStarted v > hardMs)"

datatype progress_band = BandLinking | BandFinding | BandRelay

definition connectProgressBand :: "int \<Rightarrow> progress_band" where
  "connectProgressBand elapsedSecs =
     (if elapsedSecs \<ge> 8 then BandRelay else if elapsedSecs \<ge> 3 then BandFinding else BandLinking)"

definition connectProgressLabelKey :: "int \<Rightarrow> string" where
  "connectProgressLabelKey elapsedSecs =
     (let band = connectProgressBand elapsedSecs
      in if band = BandRelay then ''mobile.live.stageTryingRelay''
         else if band = BandFinding then ''mobile.live.stageFindingPath'' else ''mobile.live.stageConnecting'')"

definition connLabelKey :: "string \<Rightarrow> bool \<Rightarrow> string" where
  "connLabelKey conn connSlow =
     (if conn = ''connected'' then ''mobile.live.connOk''
      else if conn = ''connecting'' \<or> conn = ''checking''
           then (if connSlow then ''mobile.live.connStill'' else ''mobile.live.connConnecting'')
      else if conn = ''failed'' then ''mobile.live.connFailed''
      else if conn = ''disconnected'' then ''mobile.live.connWeak''
      else '''')"

datatype step_state = StepTodo | StepActive | StepDone
datatype connect_stage = StageIdle | StageJoining | StageLooking | StageConnecting | StageWaitVideo | StageLive

record connect_steps =
  csQueue :: step_state
  csMedia :: step_state
  csVideo :: step_state
  csStage :: connect_stage

definition computeConnectSteps :: "string \<Rightarrow> bool \<Rightarrow> bool \<Rightarrow> string \<Rightarrow> bool \<Rightarrow> bool \<Rightarrow> connect_steps" where
  "computeConnectSteps phase queueAcked connectedHub conn hasRemoteVideo awaiting =
     (if phase = ''idle'' \<or> phase = ''error''
      then \<lparr>csQueue = StepTodo, csMedia = StepTodo, csVideo = StepTodo, csStage = StageIdle\<rparr>
      else if phase = ''search'' then
        if \<not> connectedHub \<or> \<not> queueAcked
        then \<lparr>csQueue = StepActive, csMedia = StepTodo, csVideo = StepTodo, csStage = StageJoining\<rparr>
        else \<lparr>csQueue = StepActive, csMedia = StepTodo, csVideo = StepTodo, csStage = StageLooking\<rparr>
      else if hasRemoteVideo \<and> \<not> awaiting
      then \<lparr>csQueue = StepDone, csMedia = StepDone, csVideo = StepDone, csStage = StageLive\<rparr>
      else let mediaUp = (conn = ''connected'' \<or> conn = ''completed'' \<or> hasRemoteVideo)
           in if mediaUp \<and> (awaiting \<or> \<not> hasRemoteVideo)
              then \<lparr>csQueue = StepDone, csMedia = StepDone, csVideo = StepActive, csStage = StageWaitVideo\<rparr>
              else \<lparr>csQueue = StepDone, csMedia = StepActive, csVideo = StepTodo, csStage = StageConnecting\<rparr>)"

section \<open>Automatic retries\<close>

datatype auto_action = AutoSoft | AutoHard | AutoTip

definition nextAutoRetryAction :: "nat \<Rightarrow> int \<Rightarrow> auto_action option" where
  "nextAutoRetryAction autoCount elapsedMs =
     (if elapsedMs \<ge> 16000 \<and> elapsedMs < 20000 \<and> autoCount < 1 then Some AutoSoft
      else if elapsedMs \<ge> 26000 \<and> elapsedMs < 30000 \<and> autoCount < 2 then Some AutoHard
      else if elapsedMs \<ge> 36000 \<and> elapsedMs < 42000 \<and> autoCount < 3 then Some AutoTip
      else None)"

text \<open>The effect of the hook, run when \<open>nowTick\<close> changes: the new count and the action taken.\<close>

definition auto_retry_tick :: "string \<Rightarrow> bool \<Rightarrow> int \<Rightarrow> int \<Rightarrow> nat \<Rightarrow> nat \<times> auto_action option" where
  "auto_retry_tick phase remoteFramesOk matchStartedAt nowTick cnt =
     (if phase \<noteq> ''matched'' then (cnt, None)
      else if remoteFramesOk then (cnt, None)
      else if matchStartedAt = 0 then (cnt, None)
      else case nextAutoRetryAction cnt (nowTick - matchStartedAt) of
             None \<Rightarrow> (cnt, None)
           | Some AutoSoft \<Rightarrow> (1, Some AutoSoft)
           | Some AutoHard \<Rightarrow> (2, Some AutoHard)
           | Some AutoTip \<Rightarrow> (3, Some AutoTip))"

section \<open>The retry\<close>

text \<open>The second copy of the relay ladder, on the phone.\<close>

definition mobile_filterIceServersForRung :: "ice_server list option \<Rightarrow> rung \<Rightarrow> ice_server list" where
  "mobile_filterIceServersForRung servers r =
     (let lst = (case servers of None \<Rightarrow> [] | Some l \<Rightarrow> l)
      in if r = AllRelays then
           let keep = filter (\<lambda>s. js_starts (first_url s) ''turn:'' \<or> js_starts (first_url s) ''turns:'') lst
           in if keep \<noteq> [] then keep else lst
         else if r = Turns443 then
           let keep = filter (\<lambda>s. js_starts (first_url s) ''turns:'' \<and> js_includes (first_url s) '':443'') lst
           in if keep \<noteq> [] then keep
              else let anyTurns = filter (\<lambda>s. js_starts (first_url s) ''turns:'') lst
                   in if anyTurns \<noteq> [] then anyTurns else lst
         else
           let keep = filter (\<lambda>s. if \<not> js_starts (first_url s) ''turn:'' \<or> js_starts (first_url s) ''turns:'' then False
                        else if js_includes (first_url s) ''transport=tcp'' then False
                        else js_includes (first_url s) '':3478'' \<or> js_includes (first_url s) '':443'') lst
           in if keep \<noteq> [] then keep
              else filter (\<lambda>s. js_starts (first_url s) ''turn:'' \<and> \<not> js_starts (first_url s) ''turns:''
                      \<and> \<not> js_includes (first_url s) ''transport=tcp'') lst)"

record retry_ice =
  iaServers :: "ice_server list option"
  iaHasTurn :: bool

text \<open>\<open>rdThrows\<close>: the error text when \<open>startCall\<close> or \<open>tryIceRestart\<close> throws.
  What is done to the two media sessions; \<open>MoConfig k\<close> sets the configuration of session \<open>k\<close>.\<close>

datatype media_op =
    MoConfig nat "ice_server list option"
  | MoForceRelayRebuild | MoCloseCall | MoStartCall bool | MoTryIceRestart

record retry_deps =
  rdMedia :: bool
  rdMedia2 :: bool
  rdIce :: "retry_ice option"
  rdForceOfferer :: "bool option"
  rdCanForceRelay :: bool
  rdThrows :: "string option"
  rdSoftOk :: bool
  rdStream :: "nat option"

record retry_result =
  rrHard :: bool
  rrHasTurn :: bool
  rrStream :: "nat option"
  rrOk :: bool
  rrError :: string
  rrRung :: "rung option"

definition config_ops :: "retry_deps \<Rightarrow> ice_server list option \<Rightarrow> media_op list" where
  "config_ops d servers =
     (if rdMedia d then [MoConfig 1 servers] else []) @ (if rdMedia2 d then [MoConfig 2 servers] else [])"

text \<open>The rung armed by a hard retry and the servers it leaves: nothing without a list of servers.\<close>

definition armed_rung :: "retry_deps \<Rightarrow> rung option \<Rightarrow> (rung \<times> ice_server list) option" where
  "armed_rung d relayRung =
     (let r = (case relayRung of Some x \<Rightarrow> Some x | None \<Rightarrow> nextRelayRetryRung None)
      in case (r, rdIce d) of
           (Some x, Some a) \<Rightarrow>
             (case iaServers a of None \<Rightarrow> None
              | Some l \<Rightarrow> let filtered = mobile_filterIceServersForRung (Some l) x
                        in if filtered \<noteq> [] then Some (x, filtered) else None)
         | _ \<Rightarrow> None)"

definition runConnectRetry :: "retry_deps \<Rightarrow> bool \<Rightarrow> rung option \<Rightarrow> media_op list \<times> retry_result" where
  "runConnectRetry d hard relayRung =
     (let hasTurn = (case rdIce d of None \<Rightarrow> False | Some a \<Rightarrow> iaHasTurn a);
          ops0 = (case rdIce d of None \<Rightarrow> [] | Some a \<Rightarrow> config_ops d (iaServers a));
          res = \<lparr>rrHard = hard, rrHasTurn = hasTurn, rrStream = None, rrOk = False, rrError = '''', rrRung = None\<rparr>
      in if \<not> rdMedia d then (ops0, res\<lparr>rrError := ''no media''\<rparr>)
         else if hard then
           let armed = armed_rung d relayRung;
               ops1 = (case armed of None \<Rightarrow> [] | Some (_, l) \<Rightarrow> config_ops d (Some l));
               ops2 = (if hasTurn \<and> rdCanForceRelay d then [MoForceRelayRebuild] else [MoCloseCall]);
               ops3 = [MoStartCall (rdForceOfferer d \<noteq> Some False)];
               ops = ops0 @ ops1 @ ops2 @ ops3
           in (case rdThrows d of
                 None \<Rightarrow> (ops, res\<lparr>rrOk := True, rrRung := map_option fst armed\<rparr>)
               | Some msg \<Rightarrow> (ops, res\<lparr>rrError := msg, rrRung := map_option fst armed\<rparr>))
         else (ops0 @ [MoTryIceRestart],
               case rdThrows d of Some msg \<Rightarrow> res\<lparr>rrError := msg\<rparr>
               | None \<Rightarrow> if rdSoftOk d then res\<lparr>rrOk := True, rrStream := rdStream d\<rparr>
                         else res\<lparr>rrHard := False, rrStream := rdStream d, rrError := ''soft no-op''\<rparr>))"

section \<open>The guards of the live screen\<close>

text \<open>\<open>retryConnection\<close> of \<open>app/live.tsx\<close>: the state it looks at, and what it decides. \<open>lsIce\<close> is the
  ICE and the connection state of the session's snapshot, joined by a space.\<close>

record live_state =
  lsBusy :: bool
  lsPhase :: string
  lsAnswered :: bool
  lsMatchStarted :: int
  lsNow :: int
  lsFramesOk :: bool
  lsIce :: string

datatype retry_decision = RetryIgnored | RetryTooEarly | RetryDemoted | RetryRun bool bool

definition path_alive :: "string \<Rightarrow> bool" where
  "path_alive ice \<longleftrightarrow>
     (let t = js_lower ice in js_includes t ''connected'' \<or> js_includes t ''completed'' \<or> js_includes t ''checking'')"

text \<open>\<open>RetryRun hard forceOfferer\<close>.\<close>

definition retryConnection :: "bool \<Rightarrow> live_state \<Rightarrow> retry_decision" where
  "retryConnection hard s =
     (if lsBusy s \<or> lsPhase s \<noteq> ''matched'' then RetryIgnored
      else let doHard = (hard \<and> \<not> lsAnswered s);
               age = (if lsMatchStarted s > 0 then lsNow s - lsMatchStarted s else 99999)
           in if doHard \<and> age < (if lsFramesOk s then 30000 else 28000) then RetryTooEarly
              else if doHard \<and> path_alive (lsIce s) \<and> \<not> lsFramesOk s then RetryDemoted
              else RetryRun doHard (doHard \<and> \<not> lsAnswered s))"

section \<open>Waiting for a partner to come back\<close>

definition RECONNECT_CHANCES :: int where "RECONNECT_CHANCES = 3"
definition RECONNECT_CHANCE_MS :: int where "RECONNECT_CHANCE_MS = 10000"
definition RECONNECT_FLAP_MS :: int where "RECONNECT_FLAP_MS = 2000"

record reconnect_snap =
  rsChance :: int
  rsUntil :: int

record tick_result =
  trSnap :: "reconnect_snap option"
  trGiveUp :: bool
  trRecovered :: bool

definition shouldStartReconnect :: "int \<Rightarrow> int \<Rightarrow> bool" where
  "shouldStartReconnect downSince now = (if \<not> downSince > 0 then False else now - downSince \<ge> RECONNECT_FLAP_MS)"

definition startReconnect :: "int \<Rightarrow> reconnect_snap" where
  "startReconnect now = \<lparr>rsChance = 1, rsUntil = now + RECONNECT_CHANCE_MS\<rparr>"

text \<open>\<open>Math.ceil(x / 1000)\<close>.\<close>

definition ceil_secs :: "int \<Rightarrow> int" where
  "ceil_secs x = - ((- x) div 1000)"

definition remainingSecs :: "reconnect_snap option \<Rightarrow> int \<Rightarrow> int" where
  "remainingSecs snap now =
     (case snap of None \<Rightarrow> 0
      | Some s \<Rightarrow> let n = ceil_secs (rsUntil s - now); most = RECONNECT_CHANCE_MS div 1000
                 in if n \<le> 0 then 0 else if n > most then most else n)"

definition tickReconnect :: "reconnect_snap option \<Rightarrow> int \<Rightarrow> bool \<Rightarrow> tick_result" where
  "tickReconnect snap now iceOk =
     (case snap of None \<Rightarrow> \<lparr>trSnap = None, trGiveUp = False, trRecovered = False\<rparr>
      | Some s \<Rightarrow>
          if iceOk then \<lparr>trSnap = None, trGiveUp = False, trRecovered = True\<rparr>
          else if now < rsUntil s then \<lparr>trSnap = Some s, trGiveUp = False, trRecovered = False\<rparr>
          else if rsChance s \<ge> RECONNECT_CHANCES then \<lparr>trSnap = None, trGiveUp = True, trRecovered = False\<rparr>
          else \<lparr>trSnap = Some \<lparr>rsChance = rsChance s + 1, rsUntil = now + RECONNECT_CHANCE_MS\<rparr>,
                trGiveUp = False, trRecovered = False\<rparr>)"

record wait_state =
  wsPhase :: string
  wsMode :: string
  wsFriendsOnly :: bool
  wsExtras :: nat
  wsHunting :: bool
  wsHadConnected :: bool
  wsDownSince :: int
  wsFlapTimer :: "int option"
  wsSnap :: "reconnect_snap option"

definition canAndroidPartnerReconnectWait :: "wait_state \<Rightarrow> bool" where
  "canAndroidPartnerReconnectWait w =
     (if wsPhase w \<noteq> ''matched'' then False
      else if wsMode w = ''friend'' then False
      else if wsMode w = ''party_browse'' then False
      else if wsFriendsOnly w then False
      else if wsExtras w > 0 then False
      else if wsHunting w then False
      else wsHadConnected w)"

definition clearPartnerReconnectArm :: "wait_state \<Rightarrow> wait_state" where
  "clearPartnerReconnectArm w = w\<lparr>wsDownSince := 0, wsFlapTimer := None\<rparr>"

definition markPartnerConnectedThisMatch :: "wait_state \<Rightarrow> wait_state" where
  "markPartnerConnectedThisMatch w = clearPartnerReconnectArm (w\<lparr>wsHadConnected := True\<rparr>)"

text \<open>The local function \<open>arm\<close>, called at once or by the flap timer.\<close>

definition arm_reconnect :: "int \<Rightarrow> wait_state \<Rightarrow> wait_state" where
  "arm_reconnect t1 w0 =
     (let w = w0\<lparr>wsFlapTimer := None\<rparr>
      in if wsSnap w \<noteq> None then w
         else if \<not> canAndroidPartnerReconnectWait w then w
         else if \<not> shouldStartReconnect (wsDownSince w) t1 then w
         else w\<lparr>wsSnap := Some (startReconnect t1)\<rparr>)"

definition tryStartPartnerReconnect :: "int \<Rightarrow> wait_state \<Rightarrow> wait_state" where
  "tryStartPartnerReconnect now w =
     (if wsSnap w \<noteq> None then w
      else if \<not> canAndroidPartnerReconnectWait w then w
      else let w1 = (if wsDownSince w = 0 then w\<lparr>wsDownSince := now\<rparr> else w)
           in if shouldStartReconnect (wsDownSince w1) now then arm_reconnect now w1
              else if wsFlapTimer w1 \<noteq> None then w1
              else w1\<lparr>wsFlapTimer := Some (max 0 (RECONNECT_FLAP_MS - (now - wsDownSince w1)))\<rparr>)"

text \<open>The poll of 250 ms while a wait is on. Giving up calls the screen's Next (\<open>nextAction\<close>), which may
  be refused: it returns the state it leaves, and whether the connection is still down.\<close>

definition reconnect_poll :: "(wait_state \<Rightarrow> wait_state \<times> bool) \<Rightarrow> int \<Rightarrow> string \<Rightarrow> wait_state \<Rightarrow> wait_state \<times> bool" where
  "reconnect_poll nextAction now ice w =
     (if wsSnap w = None then (w, False)
      else let r = tickReconnect (wsSnap w) now (ice = ''connected'' \<or> ice = ''completed'')
           in if trRecovered r then (markPartnerConnectedThisMatch (w\<lparr>wsSnap := None\<rparr>), False)
              else if trGiveUp r then
                let (w', stillDown) = nextAction (w\<lparr>wsSnap := None\<rparr>)
                in (if wsPhase w' = ''matched'' \<and> stillDown then tryStartPartnerReconnect now w' else w', True)
              else (w\<lparr>wsSnap := trSnap r\<rparr>, False))"

section \<open>Runs of ticks\<close>

text \<open>Ticks that come in order, each within \<open>g\<close> of the one before.\<close>

fun steps_within :: "int \<Rightarrow> int \<Rightarrow> int list \<Rightarrow> bool" where
  "steps_within g prev [] = True"
| "steps_within g prev (t # ts) = (prev \<le> t \<and> t \<le> prev + g \<and> steps_within g t ts)"

fun first_give_up :: "reconnect_snap option \<Rightarrow> int list \<Rightarrow> int option" where
  "first_give_up snap [] = None"
| "first_give_up snap (t # ts) =
     (let r = tickReconnect snap t False in if trGiveUp r then Some t else first_give_up (trSnap r) ts)"

fun auto_run :: "int \<Rightarrow> nat \<Rightarrow> int list \<Rightarrow> (int \<times> auto_action) list" where
  "auto_run started cnt [] = []"
| "auto_run started cnt (t # ts) =
     (case auto_retry_tick ''matched'' False started t cnt of
        (cnt', None) \<Rightarrow> auto_run started cnt' ts
      | (cnt', Some a) \<Rightarrow> (t, a) # auto_run started cnt' ts)"

section \<open>The wait ends\<close>

lemma tick_cases:
  "tickReconnect (Some s) t False =
     (if t < rsUntil s then \<lparr>trSnap = Some s, trGiveUp = False, trRecovered = False\<rparr>
      else if rsChance s \<ge> 3 then \<lparr>trSnap = None, trGiveUp = True, trRecovered = False\<rparr>
      else \<lparr>trSnap = Some \<lparr>rsChance = rsChance s + 1, rsUntil = t + 10000\<rparr>, trGiveUp = False, trRecovered = False\<rparr>)"
  by (simp add: tickReconnect_def RECONNECT_CHANCES_def RECONNECT_CHANCE_MS_def)

lemma give_up_between:
  assumes "c \<in> {1, 2, 3}" "steps_within g prev ts" "prev \<le> u" "0 \<le> g"
    "u + (3 - c) * (10000 + g) + g < last (prev # ts)"
  shows "\<exists>t. first_give_up (Some \<lparr>rsChance = c, rsUntil = u\<rparr>) ts = Some t
    \<and> u + (3 - c) * 10000 \<le> t \<and> t \<le> u + (3 - c) * (10000 + g) + g"
  using assms
proof (induction ts arbitrary: c u prev)
  case Nil
  then have "0 \<le> (3 - c) * (10000 + g)" by auto
  with Nil show ?case by simp
next
  case (Cons t ts)
  from Cons.prems have t: "prev \<le> t" "t \<le> prev + g" "steps_within g t ts" by simp_all
  have l: "last (prev # t # ts) = last (t # ts)" by simp
  show ?case
  proof (cases "t < u")
    case True
    with Cons.IH [OF Cons.prems(1) t(3) _ Cons.prems(4)] Cons.prems(5) l show ?thesis
      by (simp add: tick_cases Let_def)
  next
    case False
    show ?thesis
    proof (cases "c = 3")
      case True
      with False t Cons.prems(3) show ?thesis by (simp add: tick_cases Let_def)
    next
      case c: False
      with Cons.prems(1) have c1: "c + 1 \<in> {1, 2, 3}" by auto
      have m: "(3 - c) * (10000 + g) = (3 - (c + 1)) * (10000 + g) + (10000 + g)"
        "(3 - c) * 10000 = (3 - (c + 1)) * 10000 + (10000 :: int)" by (simp_all add: algebra_simps)
      have "t + 10000 + (3 - (c + 1)) * (10000 + g) + g < last (t # ts)"
        using Cons.prems(3,5) t(2) unfolding m l by linarith
      from Cons.IH [OF c1 t(3) _ Cons.prems(4) this]
      obtain q where q: "first_give_up (Some \<lparr>rsChance = c + 1, rsUntil = t + 10000\<rparr>) ts = Some q"
        "t + 10000 + (3 - (c + 1)) * 10000 \<le> q" "q \<le> t + 10000 + (3 - (c + 1)) * (10000 + g) + g" by auto
      have "u + (3 - c) * 10000 \<le> q" "q \<le> u + (3 - c) * (10000 + g) + g"
        using q(2,3) False t(2) Cons.prems(3) unfolding m by linarith+
      moreover have "c < 3" using c Cons.prems(1) by auto
      ultimately show ?thesis using q(1) False by (simp add: tick_cases Let_def)
    qed
  qed
qed

text \<open>C32: The wait for a lost partner ends: with polls at most \<open>g\<close> milliseconds apart and the connection
  down, it gives up after its three chances, not before thirty seconds and at most \<open>3 g\<close> later.\<close>

theorem partner_wait_ends:
  "if 0 \<le> g \<and> steps_within g t0 ts \<and> t0 + 30000 + 3 * g < last (t0 # ts)
   then (case first_give_up (Some (startReconnect t0)) ts of
           None \<Rightarrow> False | Some t \<Rightarrow> t0 + 30000 \<le> t \<and> t \<le> t0 + 30000 + 3 * g)
   else True"
proof (cases "0 \<le> g \<and> steps_within g t0 ts \<and> t0 + 30000 + 3 * g < last (t0 # ts)")
  case True
  then have "\<exists>t. first_give_up (Some \<lparr>rsChance = 1, rsUntil = t0 + 10000\<rparr>) ts = Some t
    \<and> t0 + 10000 + (3 - 1) * 10000 \<le> t \<and> t \<le> t0 + 10000 + (3 - 1) * (10000 + g) + g"
    by (intro give_up_between [where prev = t0]) simp_all
  then show ?thesis by (auto simp: startReconnect_def RECONNECT_CHANCE_MS_def)
qed (simp only: if_False)

lemma remaining_bounds: "0 \<le> remainingSecs snap now \<and> remainingSecs snap now \<le> 10"
  by (simp add: remainingSecs_def Let_def RECONNECT_CHANCE_MS_def split: option.split)

section \<open>Automatic retries\<close>

lemma auto_tick_cases:
  "auto_retry_tick ''matched'' False started t cnt = (cnt', Some a) \<Longrightarrow>
     (a = AutoSoft \<and> cnt = 0 \<and> cnt' = 1 \<and> 16000 \<le> t - started \<and> t - started < 20000)
     \<or> (a = AutoHard \<and> cnt < 2 \<and> cnt' = 2 \<and> 26000 \<le> t - started \<and> t - started < 30000)
     \<or> (a = AutoTip \<and> cnt < 3 \<and> cnt' = 3 \<and> 36000 \<le> t - started \<and> t - started < 42000)"
  by (auto simp: auto_retry_tick_def nextAutoRetryAction_def split: if_splits)

lemma auto_tick_none: "auto_retry_tick ''matched'' False started t cnt = (cnt', None) \<Longrightarrow> cnt' = cnt"
  by (auto simp: auto_retry_tick_def nextAutoRetryAction_def split: if_splits)

definition auto_plan :: "auto_action list" where
  "auto_plan = [AutoSoft, AutoHard, AutoTip]"

lemma auto_run_plan: "subseq (map snd (auto_run started cnt ts)) (drop cnt auto_plan)"
proof (induction ts arbitrary: cnt)
  case (Cons t ts)
  obtain cnt' o' where e: "auto_retry_tick ''matched'' False started t cnt = (cnt', o')" by fastforce
  show ?case
  proof (cases o')
    case None
    with e have "cnt' = cnt" by (simp add: auto_tick_none)
    with None e Cons show ?thesis by simp
  next
    case (Some a)
    have d: "drop 1 auto_plan = [AutoHard, AutoTip]" "drop 2 auto_plan = [AutoTip]" "drop 3 auto_plan = []"
      by (simp_all add: auto_plan_def)
    from Some e have "(a = AutoSoft \<and> cnt = 0 \<and> cnt' = 1) \<or> (a = AutoHard \<and> (cnt = 0 \<or> cnt = 1) \<and> cnt' = 2)
      \<or> (a = AutoTip \<and> (cnt = 0 \<or> cnt = 1 \<or> cnt = 2) \<and> cnt' = 3)"
      using auto_tick_cases by fastforce
    moreover have r: "auto_run started cnt (t # ts) = (t, a) # auto_run started cnt' ts" by (simp add: e Some)
    ultimately show ?thesis
      unfolding r using Cons [of cnt'] by (elim disjE conjE; simp add: d; simp add: auto_plan_def)
  qed
qed (simp add: auto_plan_def)

text \<open>In one match the automatic retries come at most once each and in order: the soft restart, the
  hard one, the tip, whatever the ticks are.\<close>

theorem auto_retries_once:
  "subseq (map snd (auto_run started 0 ts)) [AutoSoft, AutoHard, AutoTip]"
  using auto_run_plan [of started 0 ts] by (simp add: auto_plan_def)

lemma auto_run_hard:
  assumes "steps_within g prev ts" "prev - started < 26000 \<or> cnt \<ge> 2 \<or> prev - started \<ge> 30000" "0 \<le> g" "started > 0"
    "(t, AutoHard) \<in> set (auto_run started cnt ts)"
  shows "t - started \<le> 26000 + g"
  using assms
proof (induction ts arbitrary: prev cnt)
  case (Cons u ts)
  obtain cnt' o' where e: "auto_retry_tick ''matched'' False started u cnt = (cnt', o')" by fastforce
  from Cons.prems have u: "prev \<le> u" "u \<le> prev + g" "steps_within g u ts" by simp_all
  show ?case
  proof (cases o')
    case None
    with e have c: "cnt' = cnt" by (simp add: auto_tick_none)
    have "u - started < 26000 \<or> cnt \<ge> 2 \<or> u - started \<ge> 30000"
      using None e Cons.prems(4) by (auto simp: auto_retry_tick_def nextAutoRetryAction_def split: if_splits)
    moreover have "(t, AutoHard) \<in> set (auto_run started cnt ts)" using Cons.prems(5) e None c by simp
    ultimately show ?thesis by (rule Cons.IH [OF u(3) _ Cons.prems(3,4)])
  next
    case (Some a)
    with e have a: "(a = AutoSoft \<and> cnt' = 1 \<and> u - started < 20000) \<or> (a = AutoHard \<and> cnt < 2 \<and> cnt' = 2 \<and> u - started < 30000)
      \<or> (a = AutoTip \<and> cnt' = 3)" using auto_tick_cases by fastforce
    have m: "(t, AutoHard) = (u, a) \<or> (t, AutoHard) \<in> set (auto_run started cnt' ts)"
      using Cons.prems(5) e Some by auto
    have "u - started \<le> 26000 + g" if "a = AutoHard"
      using that a Cons.prems(2) u by auto
    moreover have "t - started \<le> 26000 + g" if "(t, AutoHard) \<in> set (auto_run started cnt' ts)"
      using a by (intro Cons.IH [OF u(3) _ Cons.prems(3,4) that]) auto
    ultimately show ?thesis using m by auto
  qed
qed simp

text \<open>The automatic hard retry never rebuilds: with the screen's ticks at most 1.5 seconds apart from
  the start of the match and a delay below half a second until the handler runs, its 26th second is
  before the 28 seconds of grace the handler asks for, so it skips, and it is not tried again.\<close>

theorem auto_hard_never_rebuilds:
  "if started > 0 \<and> steps_within 1500 started ts \<and> 0 \<le> delay \<and> delay < 500
   then list_all (\<lambda>(t, a). if a = AutoHard
          then (case retryConnection True (s\<lparr>lsMatchStarted := started, lsNow := t + delay\<rparr>) of
                  RetryRun hard force \<Rightarrow> \<not> hard | _ \<Rightarrow> True)
          else True) (auto_run started 0 ts)
   else True"
proof (cases "started > 0 \<and> steps_within 1500 started ts \<and> 0 \<le> delay \<and> delay < 500")
  case True
  have "case retryConnection True (s\<lparr>lsMatchStarted := started, lsNow := t + delay\<rparr>) of RetryRun hard force \<Rightarrow> \<not> hard | _ \<Rightarrow> True"
    if "(t, AutoHard) \<in> set (auto_run started 0 ts)" for t
  proof -
    have "t - started \<le> 26000 + 1500" by (rule auto_run_hard [of 1500 started ts started 0]) (use True that in auto)
    with True show ?thesis by (auto simp: retryConnection_def Let_def)
  qed
  with True show ?thesis by (auto simp: list_all_iff)
qed (simp only: if_False)

section \<open>The Rebuild button\<close>

text \<open>The chip offers Rebuild from the fourteenth second of a match whose connection failed, but for
  the next fourteen seconds pressing it does nothing: the handler refuses until the match is
  28 seconds old.\<close>

theorem rebuild_button_dead:
  "if cvPhase v = ''matched'' \<and> cvConn v = ''failed'' \<and> cvMatchStarted v > 0
      \<and> 14000 \<le> cvNow v - cvMatchStarted v \<and> cvNow v - cvMatchStarted v < 28000
      \<and> \<not> lsBusy s \<and> lsPhase s = ''matched'' \<and> \<not> lsAnswered s
      \<and> lsMatchStarted s = cvMatchStarted v \<and> lsNow s = cvNow v
   then computeShowHardRetry 14000 v \<and> retryConnection True s = RetryTooEarly
   else True"
  by (auto simp: computeShowHardRetry_def retryConnection_def Let_def)

section \<open>The ladder of the phone\<close>

lemma mobile_rung_same: "mobile_filterIceServersForRung (Some l) r = filterIceServersForRung l r"
  by (cases r) (simp_all add: mobile_filterIceServersForRung_def filterIceServersForRung_def Let_def)

fun changes_pc :: "media_op \<Rightarrow> bool" where
  "changes_pc MoForceRelayRebuild = True"
| "changes_pc MoCloseCall = True"
| "changes_pc (MoStartCall b) = True"
| "changes_pc _ = False"

lemma config_no_change [simp]: "list_all (\<lambda>m. \<not> changes_pc m) (config_ops d l)"
  by (simp add: config_ops_def)

text \<open>A soft retry never touches the peer connection beyond an ICE restart: it closes nothing, forces
  no relay and starts no call, whatever the deps answer. A hard retry takes the old connection down
  exactly once and then starts exactly one call, last, after every configuration was set.\<close>

theorem retry_operations:
  "list_all (\<lambda>m. \<not> changes_pc m) (fst (runConnectRetry d False r))
   \<and> (if rdMedia d
      then let ops = fst (runConnectRetry d True r); k = length ops
           in filter changes_pc ops = drop (k - 2) ops \<and> length (filter changes_pc ops) = 2
              \<and> last ops = MoStartCall (rdForceOfferer d \<noteq> Some False)
      else True)"
proof -
  have f: "filter changes_pc (config_ops d l) = []" for l
    using config_no_change [of d l] by (auto simp: filter_empty_conv list_all_iff)
  show ?thesis
    by (simp add: runConnectRetry_def Let_def f split: option.split)
qed

text \<open>The relay ladder of the phone stays on its first rung: the live screen's hard retry passes no
  rung, and then the rung armed is \<open>all_relays\<close> or none, however often it fails.\<close>

theorem phone_ladder_first_rung:
  "rrRung (snd (runConnectRetry d hard None)) \<in> {None, Some AllRelays}
   \<and> (case armed_rung d None of None \<Rightarrow> True
      | Some (r, l) \<Rightarrow> r = AllRelays \<and> (case rdIce d of None \<Rightarrow> False
          | Some a \<Rightarrow> iaServers a \<noteq> None \<and> l = filterIceServersForRung (the (iaServers a)) AllRelays))"
proof -
  have a: "armed_rung d None = None \<or> (\<exists>l. armed_rung d None = Some (AllRelays, l))"
    by (auto simp: armed_rung_def nextRelayRetryRung_def RELAY_RETRY_RUNGS_def Let_def split: option.split)
  then have "rrRung (snd (runConnectRetry d hard None)) \<in> {None, Some AllRelays}"
    by (auto simp: runConnectRetry_def Let_def split: option.split)
  then show ?thesis
    by (auto simp: armed_rung_def nextRelayRetryRung_def RELAY_RETRY_RUNGS_def Let_def mobile_rung_same
        split: option.splits if_splits)
qed

section \<open>The steps\<close>

fun step_level :: "step_state \<Rightarrow> nat" where
  "step_level StepTodo = 0" | "step_level StepActive = 1" | "step_level StepDone = 2"

lemma steps_in_order:
  "let s = computeConnectSteps phase acked hub conn video waiting
   in step_level (csVideo s) \<le> step_level (csMedia s) \<and> step_level (csMedia s) \<le> step_level (csQueue s)
      \<and> (csStage s = StageLive \<longleftrightarrow> csVideo s = StepDone)"
  by (simp add: computeConnectSteps_def Let_def)

section \<open>A dropped path counts as alive\<close>

lemma disconnected_alive: "path_alive (''disconnected'' @ rest)"
proof -
  have "js_lower ''disconnected'' = ''disconnected''" "js_includes ''disconnected'' ''connected''" by code_simp+
  then have "js_includes (js_lower (''disconnected'' @ rest)) ''connected''"
    unfolding js_lower_append by (simp only: js_includes_append simp_thms)
  then show ?thesis by (simp only: path_alive_def Let_def simp_thms)
qed

text \<open>A hard retry asked for while the ICE state is \<open>disconnected\<close> and nothing is decoded is turned
  into a soft one, however long the match lasts: the pattern that looks for a live path finds
  \<open>connected\<close> inside \<open>disconnected\<close>.\<close>

theorem disconnected_demoted:
  "if \<not> lsBusy s \<and> lsPhase s = ''matched'' \<and> \<not> lsAnswered s \<and> \<not> lsFramesOk s
      \<and> lsMatchStarted s > 0 \<and> lsNow s - lsMatchStarted s \<ge> 28000
   then retryConnection True (s\<lparr>lsIce := ''disconnected '' @ cs\<rparr>) = RetryDemoted
   else True"
  using disconnected_alive [of "'' '' @ cs"] by (simp add: retryConnection_def Let_def)

end
