(* ===== verification/Stage.thy ===== *)
theory Stage
  imports Complex_Main "HOL-Library.Multiset" Prelude
begin

text \<open>
  What the phone's live stage shows: which stream is the main picture and which the small one, the
  tiles of a call of several people and the chrome around them (\<open>mobile/src/live/stageStreams.ts\<close>),
  and the geometry of the small self view (\<open>mobile/src/live/pipLayout.ts\<close>). A stream is its
  identity and the numbers of its tracks; lengths are rationals. The ellipsis that stands for a
  missing name is written as three dots.
\<close>

section \<open>Streams on the stage\<close>

record av_stream =
  avId :: nat
  avVideo :: nat
  avAudio :: nat

definition MAX_REMOTE_TILES :: int where "MAX_REMOTE_TILES = 3"

record stage_pick =
  spMultiRemote :: bool
  spHasRemote :: bool
  spRemoteHasVideo :: bool
  spRemoteHasAudio :: bool
  spWaitingPeer :: bool
  spMain :: "av_stream option"
  spPip :: "av_stream option"
  spMainMirror :: bool
  spPipMirror :: bool
  spRemoteCount :: int

definition present :: "'a option \<Rightarrow> int" where
  "present x = (if x \<noteq> None then 1 else 0)"

definition pickStageStreams ::
    "string \<Rightarrow> av_stream option \<Rightarrow> av_stream option \<Rightarrow> av_stream option \<Rightarrow> av_stream option \<Rightarrow> int \<Rightarrow> bool \<Rightarrow> stage_pick" where
  "pickStageStreams phase self r1 r2 r3 extraPeerCount swapViews =
     (let hasRemote = (r1 \<noteq> None);
          matched = (phase = ''matched'');
          count = present r1 + present r2 + present r3;
          count1 = (if extraPeerCount > 0 then max count (min MAX_REMOTE_TILES (1 + extraPeerCount)) else count)
      in \<lparr>spMultiRemote = (r2 \<noteq> None \<or> r3 \<noteq> None), spHasRemote = hasRemote,
          spRemoteHasVideo = (case r1 of None \<Rightarrow> False | Some s \<Rightarrow> avVideo s > 0),
          spRemoteHasAudio = (case r1 of None \<Rightarrow> False | Some s \<Rightarrow> avAudio s > 0),
          spWaitingPeer = (matched \<and> \<not> hasRemote),
          spMain = (if hasRemote then (if swapViews then self else r1) else if matched then None else self),
          spPip = (if hasRemote then (if swapViews then r1 else self) else if matched then self else None),
          spMainMirror = (if hasRemote then swapViews else True),
          spPipMirror = (if hasRemote then \<not> swapViews else True),
          spRemoteCount = min MAX_REMOTE_TILES count1\<rparr>)"

section \<open>Tiles\<close>

record multi_tile =
  mtStream :: "av_stream option"
  mtEpoch :: int
  mtMirror :: bool
  mtName :: string
  mtPlaceholder :: bool
  mtIsExtra :: bool
  mtFocused :: bool
  mtIndex :: nat

record remote_input =
  riStream :: "av_stream option"
  riEpoch :: int
  riName :: string
  riMirror :: bool

definition ellipsis :: string where "ellipsis = ''...''"

definition name_or :: "string \<Rightarrow> string" where
  "name_or s = (if s \<noteq> '''' then s else ellipsis)"

definition clamp_index :: "int \<Rightarrow> nat \<Rightarrow> nat" where
  "clamp_index i n = nat (max 0 (min (int n - 1) i))"

definition tile_order :: "nat \<Rightarrow> nat \<Rightarrow> nat list" where
  "tile_order focus n = focus # filter (\<lambda>i. i \<noteq> focus) [0..<n]"

definition tile_of :: "remote_input list \<Rightarrow> nat \<times> nat \<Rightarrow> multi_tile" where
  "tile_of remotes = (\<lambda>(pos, i). let r = remotes ! i in
     \<lparr>mtStream = riStream r, mtEpoch = riEpoch r, mtMirror = riMirror r, mtName = name_or (js_trim (riName r)),
      mtPlaceholder = (riStream r = None), mtIsExtra = (i > 0), mtFocused = (pos = 0), mtIndex = i\<rparr>)"

definition pickMultiRemoteTiles :: "int \<Rightarrow> remote_input list \<Rightarrow> multi_tile list" where
  "pickMultiRemoteTiles focusIndex remotes0 =
     (let remotes = take (nat MAX_REMOTE_TILES) remotes0
      in if remotes = [] then []
         else let n = length remotes; focus = clamp_index focusIndex n
              in map (tile_of remotes) (enumerate 0 (tile_order focus n)))"

record tiles_in =
  tiMain :: "av_stream option"
  tiSecond :: "av_stream option"
  tiThird :: "av_stream option"
  tiEpoch :: int
  tiEpoch2 :: int
  tiEpoch3 :: int
  tiSwap :: bool
  tiMainMirror :: bool
  tiPartnerName :: string
  tiSecondName :: string
  tiThirdName :: string

definition remotes_of :: "tiles_in \<Rightarrow> remote_input list" where
  "remotes_of t =
     [\<lparr>riStream = tiMain t, riEpoch = (if tiSwap t then 0 else tiEpoch t), riName = name_or (tiPartnerName t), riMirror = tiMainMirror t\<rparr>,
      \<lparr>riStream = tiSecond t, riEpoch = tiEpoch2 t, riName = name_or (tiSecondName t), riMirror = False\<rparr>]
     @ (if tiThird t \<noteq> None \<or> tiThirdName t \<noteq> ''''
        then [\<lparr>riStream = tiThird t, riEpoch = tiEpoch3 t, riName = name_or (tiThirdName t), riMirror = False\<rparr>] else [])"

text \<open>The tiles in their order; the source also returns the first three of them under names of their own.\<close>

definition pickMultiTiles :: "bool \<Rightarrow> tiles_in \<Rightarrow> multi_tile list" where
  "pickMultiTiles focusExtra t = pickMultiRemoteTiles (if focusExtra then 1 else 0) (remotes_of t)"

section \<open>The chrome\<close>

definition canShowGrid2x2 :: "int \<Rightarrow> bool" where
  "canShowGrid2x2 extraPeerCount \<longleftrightarrow> extraPeerCount \<ge> 2"

definition shouldShowExtraRemoteTile :: "int \<Rightarrow> bool \<Rightarrow> bool" where
  "shouldShowExtraRemoteTile extraPeerCount has2 = (if has2 then True else max 0 extraPeerCount \<ge> 1)"

definition shouldShowExtraRemoteTile3 :: "int \<Rightarrow> bool \<Rightarrow> bool" where
  "shouldShowExtraRemoteTile3 extraPeerCount has3 = (if has3 then True else max 0 extraPeerCount \<ge> 2)"

datatype tile_paint = PaintNoCam | PaintConnecting | PaintVideo

definition extraTilePaint :: "bool \<Rightarrow> bool \<Rightarrow> bool \<Rightarrow> bool \<Rightarrow> tile_paint" where
  "extraTilePaint hasStream hasVideo hasAudio advertisedNoCam =
     (if advertisedNoCam then PaintNoCam
      else if hasStream \<and> \<not> hasVideo \<and> hasAudio then PaintNoCam
      else if \<not> hasStream then PaintConnecting else PaintVideo)"

definition shouldLockFirstRemote :: "int \<Rightarrow> bool \<Rightarrow> bool \<Rightarrow> bool" where
  "shouldLockFirstRemote extraPeerCount has2 has3 =
     (if has3 then True else shouldShowExtraRemoteTile extraPeerCount has2)"

definition isLookingForThird :: "bool \<Rightarrow> bool \<Rightarrow> bool \<Rightarrow> bool \<Rightarrow> int \<Rightarrow> bool" where
  "isLookingForThird has1 has2 has3 hunting extraPeerCount =
     (if has2 \<or> has3 then False else if max 0 extraPeerCount \<ge> 1 then False else has1 \<and> hunting)"

record stage_chrome =
  scPeople :: int
  scPortraitColumn :: bool
  scIncludeLocalTile :: bool
  scPipYou :: bool
  scUseGrid2x2 :: bool
  scShowGrid2x2Toggle :: bool
  scWrapFirstPartner :: bool
  scYouParty :: bool

text \<open>\<open>grid2x2\<close> is the stored choice, \<open>None\<close> when there is none.\<close>

definition pickStageChromeLayout :: "bool \<Rightarrow> bool \<Rightarrow> bool \<Rightarrow> int \<Rightarrow> bool option \<Rightarrow> string \<Rightarrow> stage_chrome" where
  "pickStageChromeLayout hasRemote has2 has3 extraPeerCount grid2x2 yourRole =
     (let one = (\<lambda>b. if b then 1 else 0);
          extra = max 0 extraPeerCount;
          count = one hasRemote + one has2 + one has3;
          count1 = (if extra > 0 then max count (min MAX_REMOTE_TILES (one hasRemote + extra)) else count);
          people = (if count1 = 0 then 1 else min 4 (count1 + 1));
          toggle = canShowGrid2x2 extra;
          useGrid = (toggle \<and> grid2x2 \<noteq> Some False);
          wrap = (has2 \<or> has3 \<or> extra \<ge> 1);
          local_tile = (has3 \<or> extra \<ge> 2)
      in \<lparr>scPeople = people, scPortraitColumn = (wrap \<and> \<not> useGrid), scIncludeLocalTile = local_tile,
          scPipYou = (\<not> local_tile), scUseGrid2x2 = useGrid, scShowGrid2x2Toggle = toggle,
          scWrapFirstPartner = wrap, scYouParty = (yourRole = ''party'')\<rparr>)"

section \<open>The small self view\<close>

datatype pip_corner = TL | TR | BL | BR
datatype stage_view = ViewPip | ViewSplit

definition PIP_PAD :: rat where "PIP_PAD = 8"
definition PIP_DRAG_SLOP :: rat where "PIP_DRAG_SLOP = 8"
definition PIP_DOUBLE_TAP_MS :: int where "PIP_DOUBLE_TAP_MS = 260"

record pip_bounds =
  minX :: rat
  maxX :: rat
  minY :: rat
  maxY :: rat

definition pipBounds :: "rat \<Rightarrow> rat \<Rightarrow> rat \<Rightarrow> rat \<Rightarrow> rat \<Rightarrow> rat \<Rightarrow> rat \<Rightarrow> pip_bounds" where
  "pipBounds stageW stageH pipW pipH safeTop safeBottom pad =
     (let top = max 0 safeTop; bottom = max 0 safeBottom;
          x0 = pad; x1 = max x0 (stageW - pipW - pad);
          maxY0 = stageH - bottom - pipH - pad;
          minY0 = top + pad;
          minY1 = (if maxY0 < minY0 then max pad (min minY0 maxY0) else minY0);
          maxY1 = (if maxY0 < minY0 then minY1 else maxY0);
          maxY2 = max pad maxY1;
          minY2 = max pad (min minY1 maxY2)
      in \<lparr>minX = x0, maxX = x1, minY = minY2, maxY = maxY2\<rparr>)"

definition clampPip :: "rat \<Rightarrow> rat \<Rightarrow> pip_bounds \<Rightarrow> rat \<times> rat" where
  "clampPip x y b = (min (maxX b) (max (minX b) x), min (maxY b) (max (minY b) y))"

definition cornerToPos :: "pip_corner \<Rightarrow> pip_bounds \<Rightarrow> rat \<times> rat" where
  "cornerToPos corner b =
     (if corner = TL \<or> corner = BL then minX b else maxX b, if corner = TL \<or> corner = TR then minY b else maxY b)"

definition corner_at :: "bool \<Rightarrow> bool \<Rightarrow> pip_corner" where
  "corner_at topHalf left = (if topHalf then (if left then TL else TR) else if left then BL else BR)"

definition nearestCorner :: "rat \<Rightarrow> rat \<Rightarrow> rat \<Rightarrow> rat \<Rightarrow> pip_bounds \<Rightarrow> pip_corner" where
  "nearestCorner x y pipW pipH b =
     (let cx = x + pipW / 2; cy = y + pipH / 2;
          midX = (minX b + maxX b + pipW) / 2; midY = (minY b + maxY b + pipH) / 2
      in corner_at (cy < midY) (cx < midX))"

definition isDragMove :: "rat \<Rightarrow> rat \<Rightarrow> rat \<Rightarrow> bool" where
  "isDragMove dx dy slop \<longleftrightarrow> \<bar>dx\<bar> > slop \<or> \<bar>dy\<bar> > slop"

definition parseCorner :: "string \<Rightarrow> pip_corner option" where
  "parseCorner v = (if v = ''tl'' then Some TL else if v = ''tr'' then Some TR
     else if v = ''bl'' then Some BL else if v = ''br'' then Some BR else None)"

definition cornerFromLegacyXY :: "rat \<Rightarrow> rat \<Rightarrow> rat \<Rightarrow> rat \<Rightarrow> rat \<Rightarrow> rat \<Rightarrow> pip_corner option" where
  "cornerFromLegacyXY x y stageW stageH pipW pipH =
     (if \<not> (x \<ge> 0 \<and> y \<ge> 0 \<and> stageW > 0 \<and> stageH > 0) then None
      else Some (corner_at (y + pipH / 2 < stageH / 2) (x + pipW / 2 < stageW / 2)))"

definition parseStageView :: "string \<Rightarrow> stage_view option" where
  "parseStageView v = (if v = ''pip'' then Some ViewPip else if v = ''split'' then Some ViewSplit else None)"

record split_in =
  siBrowserLayout :: bool
  siPhase :: string
  siHasPartner :: bool
  siMultiRemote :: bool
  siHuntingThird :: bool
  siExtra :: int
  siPipYou :: bool
  siHasSelf :: bool

definition resolveSplitView :: "stage_view option \<Rightarrow> split_in \<Rightarrow> bool" where
  "resolveSplitView pref s =
     (if siMultiRemote s \<or> siHuntingThird s \<or> siExtra s \<ge> 1 \<or> \<not> siPipYou s then False
      else if pref = Some ViewPip then False
      else if pref = Some ViewSplit then
        if siPhase s = ''matched'' then True else (siPhase s = ''search'' \<or> siPhase s = ''idle'') \<and> siHasSelf s
      else siBrowserLayout s \<and> siPhase s = ''matched'' \<and> siHasPartner s)"

section \<open>What is shown\<close>

text \<open>Every stream of a pair is shown once and only the own picture is mirrored: when a partner's
  stream is there, the main and the small picture are the own stream and the partner's, in the order
  the swap asks for; a picture is mirrored exactly when it is the own one; and without a partner in a
  match the main picture stays empty while the own one is small.\<close>

theorem pickStageStreams_shows:
  "let p = pickStageStreams phase self r1 r2 r3 extra swap
   in (if r1 \<noteq> None
       then (spMain p, spPip p) = (if swap then (self, r1) else (r1, self))
            \<and> (spMainMirror p, spPipMirror p) = (swap, \<not> swap)
       else (spMain p, spPip p) = (if phase = ''matched'' then (None, self) else (self, None))
            \<and> spMainMirror p \<and> spPipMirror p)
      \<and> spWaitingPeer p = (phase = ''matched'' \<and> r1 = None) \<and> 0 \<le> spRemoteCount p \<and> spRemoteCount p \<le> 3"
  by (simp add: pickStageStreams_def Let_def MAX_REMOTE_TILES_def present_def)

lemma stage_people:
  "pickStageStreams phase self (Some r1) r2 r3 extra swap = p \<Longrightarrow>
     scPeople (pickStageChromeLayout True (r2 \<noteq> None) (r3 \<noteq> None) extra grid role) = spRemoteCount p + 1"
  by (auto simp: pickStageStreams_def pickStageChromeLayout_def Let_def MAX_REMOTE_TILES_def present_def)

text \<open>The two layout functions agree on a call: with a partner's stream the chrome counts one person
  more than the stage has remote pictures; the own tile and the own small view exclude each other;
  the grid of four is only used where its toggle is shown and then the own tile is there; and while a
  third is looked for the first partner's view is not wrapped.\<close>

theorem stage_layout_consistent:
  "let p = pickStageStreams phase self r1 r2 r3 extra swap;
       c = pickStageChromeLayout (r1 \<noteq> None) (r2 \<noteq> None) (r3 \<noteq> None) extra grid role
   in (if r1 \<noteq> None then scPeople c = spRemoteCount p + 1 else True)
      \<and> (scPipYou c \<longleftrightarrow> \<not> scIncludeLocalTile c)
      \<and> (if scUseGrid2x2 c then scShowGrid2x2Toggle c \<and> scIncludeLocalTile c \<and> scWrapFirstPartner c \<and> \<not> scPortraitColumn c else True)
      \<and> (if isLookingForThird (r1 \<noteq> None) (r2 \<noteq> None) (r3 \<noteq> None) hunting extra
         then \<not> scWrapFirstPartner c \<and> scPipYou c \<and> \<not> shouldLockFirstRemote extra (r2 \<noteq> None) (r3 \<noteq> None) else True)
      \<and> scWrapFirstPartner c = shouldLockFirstRemote extra (r2 \<noteq> None) (r3 \<noteq> None)
      \<and> 1 \<le> scPeople c \<and> scPeople c \<le> 4"
proof -
  have "r1 \<noteq> None \<Longrightarrow> scPeople (pickStageChromeLayout (r1 \<noteq> None) (r2 \<noteq> None) (r3 \<noteq> None) extra grid role)
      = spRemoteCount (pickStageStreams phase self r1 r2 r3 extra swap) + 1"
  proof -
    assume "r1 \<noteq> None"
    then obtain y where "r1 = Some y" by auto
    then show ?thesis using stage_people [of phase self y r2 r3 extra swap _ grid role, OF refl] by simp
  qed
  then show ?thesis
    by (auto simp: Let_def pickStageChromeLayout_def canShowGrid2x2_def isLookingForThird_def shouldLockFirstRemote_def
        shouldShowExtraRemoteTile_def MAX_REMOTE_TILES_def)
qed

section \<open>Tiles are a permutation\<close>

lemma clamp_index_less: "0 < n \<Longrightarrow> clamp_index i n < n"
  by (simp add: clamp_index_def)

lemma tile_order_mset:
  assumes "f < n"
  shows "mset (tile_order f n) = mset [0..<n]"
proof -
  have "filter (\<lambda>i. i \<noteq> f) [0..<n] = remove1 f [0..<n]"
    unfolding distinct_remove1_removeAll [OF distinct_upt] removeAll_filter_not_eq by (rule filter_cong) auto
  with assms show ?thesis by (simp add: tile_order_def)
qed

lemma tile_indices: "map mtIndex (map (tile_of rs) (enumerate k xs)) = xs"
  by (simp add: tile_of_def Let_def o_def case_prod_unfold)

text \<open>The tiles of a call of several people are its first three remotes, each once: the focused one,
  read inside the range, comes first and is the only one marked as focused, the others follow in
  their own order, and each tile carries the stream and epoch of its remote and a name that is not
  empty.\<close>

theorem multi_tiles_permutation:
  "let tiles = pickMultiRemoteTiles focus remotes; n = length (take 3 remotes)
   in mset (map mtIndex tiles) = mset [0..<n]
      \<and> map mtIndex (drop 1 tiles) = filter (\<lambda>i. i \<noteq> clamp_index focus n) [0..<n]
      \<and> map mtFocused tiles = (if n = 0 then [] else True # replicate (n - 1) False)
      \<and> list_all (\<lambda>t. mtStream t = riStream (remotes ! mtIndex t) \<and> mtEpoch t = riEpoch (remotes ! mtIndex t)
            \<and> mtName t \<noteq> '''') tiles"
proof -
  define rs where "rs = take 3 remotes"
  define n where "n = length rs"
  show ?thesis
  proof (cases "rs = []")
    case True
    then show ?thesis by (simp add: pickMultiRemoteTiles_def MAX_REMOTE_TILES_def Let_def flip: rs_def)
  next
    case False
    then have n: "0 < n" by (simp add: n_def)
    define f where "f = clamp_index focus n"
    have f: "f < n" using n by (simp add: f_def clamp_index_less)
    define tiles where "tiles = map (tile_of rs) (enumerate 0 (tile_order f n))"
    have t: "pickMultiRemoteTiles focus remotes = tiles"
      using False by (simp add: pickMultiRemoteTiles_def MAX_REMOTE_TILES_def Let_def tiles_def f_def n_def rs_def)
    have idx: "map mtIndex tiles = tile_order f n" unfolding tiles_def by (rule tile_indices)
    have len: "length (tile_order f n) = n"
      using mset_eq_length [OF tile_order_mset [OF f]] by simp
    have foc: "map mtFocused tiles = True # replicate (n - 1) False"
    proof (rule nth_equalityI)
      show "length (map mtFocused tiles) = length (True # replicate (n - 1) False)"
        using len n by (simp add: tiles_def)
      fix i
      assume "i < length (map mtFocused tiles)"
      then have "i < n" by (simp add: tiles_def len)
      then show "map mtFocused tiles ! i = (True # replicate (n - 1) False) ! i"
        by (cases i) (simp_all add: tiles_def len nth_enumerate_eq tile_of_def Let_def)
    qed
    have mem: "set (tile_order f n) = {0..<n}"
      using arg_cong [OF tile_order_mset [OF f], of set_mset] by simp
    have all: "list_all (\<lambda>t. mtStream t = riStream (remotes ! mtIndex t) \<and> mtEpoch t = riEpoch (remotes ! mtIndex t)
            \<and> mtName t \<noteq> '''') tiles"
      unfolding list_all_iff
    proof
      fix t
      assume "t \<in> set tiles"
      then obtain k i where ki: "t = tile_of rs (k, i)" "(k, i) \<in> set (enumerate 0 (tile_order f n))"
        unfolding tiles_def by auto
      then have "i \<in> set (tile_order f n)" by (auto simp: in_set_enumerate_eq)
      then have "i < n" by (simp add: mem)
      then have "rs ! i = remotes ! i" by (simp add: rs_def n_def)
      then show "mtStream t = riStream (remotes ! mtIndex t) \<and> mtEpoch t = riEpoch (remotes ! mtIndex t) \<and> mtName t \<noteq> ''''"
        by (simp add: ki(1) tile_of_def Let_def name_or_def ellipsis_def)
    qed
    have "map mtIndex (drop 1 tiles) = filter (\<lambda>i. i \<noteq> f) [0..<n]"
      using idx by (simp add: tile_order_def flip: drop_map)
    with idx foc all tile_order_mset [OF f] n show ?thesis
      unfolding t Let_def rs_def [symmetric] n_def [symmetric] f_def [symmetric] by simp
  qed
qed

section \<open>The self view stays where it can be seen\<close>

lemma bounds_sel:
  "minX (pipBounds sw sh w h st sb pad) = pad"
  "maxX (pipBounds sw sh w h st sb pad) = max pad (sw - w - pad)"
  "\<exists>m. maxY (pipBounds sw sh w h st sb pad) = max pad m \<and> m \<le> max pad (sh - max 0 sb - h - pad)
     \<and> (\<exists>k. minY (pipBounds sw sh w h st sb pad) = max pad (min k (max pad m)))"
proof -
  show "minX (pipBounds sw sh w h st sb pad) = pad" "maxX (pipBounds sw sh w h st sb pad) = max pad (sw - w - pad)"
    by (simp_all only: pipBounds_def Let_def pip_bounds.select_convs)
  define m0 where "m0 = sh - max 0 sb - h - pad"
  define k0 where "k0 = max 0 st + pad"
  define k1 where "k1 = (if m0 < k0 then max pad (min k0 m0) else k0)"
  define m1 where "m1 = (if m0 < k0 then k1 else m0)"
  have "m1 \<le> max pad m0" by (auto simp: m1_def k1_def)
  moreover have "maxY (pipBounds sw sh w h st sb pad) = max pad m1" "minY (pipBounds sw sh w h st sb pad) = max pad (min k1 (max pad m1))"
    by (simp_all only: pipBounds_def Let_def pip_bounds.select_convs m1_def k1_def m0_def k0_def)
  ultimately show "\<exists>m. maxY (pipBounds sw sh w h st sb pad) = max pad m \<and> m \<le> max pad (sh - max 0 sb - h - pad)
     \<and> (\<exists>k. minY (pipBounds sw sh w h st sb pad) = max pad (min k (max pad m)))"
    unfolding m0_def by blast
qed

lemma bounds_order:
  "minX (pipBounds sw sh w h st sb pad) \<le> maxX (pipBounds sw sh w h st sb pad)"
  "minY (pipBounds sw sh w h st sb pad) \<le> maxY (pipBounds sw sh w h st sb pad)"
  using bounds_sel [of sw sh w h st sb pad] by auto

lemma clamp_in:
  assumes "minX b \<le> maxX b" "minY b \<le> maxY b" "clampPip x y b = (px, py)"
  shows "minX b \<le> px" "px \<le> maxX b" "minY b \<le> py" "py \<le> maxY b"
  using assms by (auto simp: clampPip_def)

lemma clamp_corner:
  "minX b \<le> maxX b \<Longrightarrow> minY b \<le> maxY b \<Longrightarrow> clampPip (fst (cornerToPos c b)) (snd (cornerToPos c b)) b = cornerToPos c b"
  by (simp add: clampPip_def cornerToPos_def)

text \<open>The small view stays inside its bounds and the stage: for any position, the clamped place lies
  between the bounds, and so does every corner, which clamping leaves where it is; and when the view
  fits, its right and lower edges keep the pad from the stage's edge and from the bottom chrome.\<close>

theorem pip_stays_inside:
  "let b = pipBounds sw sh w h st sb pad; (px, py) = clampPip x y b; (qx, qy) = cornerToPos c b
   in minX b \<le> px \<and> px \<le> maxX b \<and> minY b \<le> py \<and> py \<le> maxY b
      \<and> clampPip qx qy b = (qx, qy)
      \<and> (if 2 * pad + w \<le> sw then px + w + pad \<le> sw else True)
      \<and> (if 2 * pad + h + max 0 sb \<le> sh then py + h + pad + max 0 sb \<le> sh else True)"
proof -
  define b where "b = pipBounds sw sh w h st sb pad"
  obtain px py where p: "clampPip x y b = (px, py)" by fastforce
  note o' = bounds_order [of sw sh w h st sb pad, folded b_def]
  note i = clamp_in [OF o' p]
  have x: "px + w + pad \<le> sw" if "2 * pad + w \<le> sw"
    using that i(2) bounds_sel(2) [of sw sh w h st sb pad, folded b_def] by (simp add: max_def split: if_splits)
  have y: "py + h + pad + max 0 sb \<le> sh" if "2 * pad + h + max 0 sb \<le> sh"
  proof -
    have "maxY b \<le> max pad (sh - max 0 sb - h - pad)"
      using bounds_sel(3) [of sw sh w h st sb pad, folded b_def] by auto
    also have "\<dots> = sh - max 0 sb - h - pad" using that by (intro max_absorb2) linarith
    finally show ?thesis using i(4) by linarith
  qed
  show ?thesis
    unfolding Let_def b_def [symmetric] using p i x y clamp_corner [OF o', of c] by (auto split: prod.split)
qed

text \<open>A corner is recognised again: with room in both directions, the corner nearest to the place of a
  corner is that corner, for every size of the view.\<close>

theorem corner_roundtrip:
  "if minX b < maxX b \<and> minY b < maxY b
   then nearestCorner (fst (cornerToPos c b)) (snd (cornerToPos c b)) w h b = c
   else True"
  by (cases c) (simp_all add: nearestCorner_def cornerToPos_def corner_at_def Let_def)

text \<open>The split of partner and self is for two people only: with another remote, while a third is
  looked for, with extra peers or with the own picture as a tile, no preference gives it.\<close>

theorem split_only_for_two:
  "if siMultiRemote s \<or> siHuntingThird s \<or> siExtra s \<ge> 1 \<or> \<not> siPipYou s then \<not> resolveSplitView pref s
   else resolveSplitView (Some ViewPip) s = False
        \<and> (if resolveSplitView None s then resolveSplitView (Some ViewSplit) s else True)"
  by (auto simp: resolveSplitView_def)

end
