(* ===== verification/HubLobby.thy ===== *)
theory HubLobby
  imports JsVal
begin

text \<open>
  What the phone reads from the hub's messages about the queue (\<open>mobile/src/live/hubLobby.ts\<close>,
  \<open>useLiveQueue.ts\<close>) and about bans (\<open>hubBan.ts\<close>). A message is a dynamic object. The screen's
  translation function and the formatting of dates are arguments.
\<close>

section \<open>The queue\<close>

definition isQueuePhase :: "string \<Rightarrow> bool" where
  "isQueuePhase phase \<longleftrightarrow> phase = ''search'' \<or> phase = ''waiting''"

definition floorQueueCounts :: "int \<Rightarrow> int \<Rightarrow> bool \<Rightarrow> int \<times> int" where
  "floorQueueCounts waiting online searching = (if \<not> searching then (waiting, online) else (max waiting 1, max online 1))"

definition any_of :: "string list \<Rightarrow> string \<Rightarrow> bool" where
  "any_of words s = list_ex (js_includes (js_lower s)) words"

definition still_words :: "string list" where
  "still_words = [''still chatting'', ''still with match'', ''still connected'']"

definition leave_words :: "string list" where
  "leave_words = [''partner hit next'', ''partner disconnected'', ''partner stopped'', ''party moved on'',
     ''partner blocked you'', ''restricted due to reports'', ''restricted by operator'', ''partner removed'', ''party partner left'']"

definition isHubPartnerLeaveDetail :: "string \<Rightarrow> bool" where
  "isHubPartnerLeaveDetail detail = (if any_of still_words detail then False else any_of leave_words detail)"

record lobby_patch =
  laPhase :: "string option"
  laSearching :: "bool option"
  laQueueAcked :: "bool option"
  laAlone :: "bool option"
  laOnline :: int
  laWaiting :: int
  laLog :: "string option"
  laTrack :: "(int \<times> int) option"

record lobby_context =
  lcPhase :: string
  lcSearching :: bool

definition count_of :: "jsval \<Rightarrow> int" where
  "count_of v = max 0 (num_or v 0)"

definition reduceStatusMsg :: "jsobj \<Rightarrow> lobby_context \<Rightarrow> lobby_patch" where
  "reduceStatusMsg m ctx =
     (let on = count_of (oget m ''online'');
          wait0 = count_of (oget m ''waiting_peers'');
          ph = str_or (oget m ''phase'');
          searching0 = lcSearching ctx;
          queued = isQueuePhase ph;
          idle = (ph = ''idle'' \<and> searching0);
          waits = (lcPhase ctx = ''search'' \<or> searching0);
          wait = (if queued \<or> idle \<or> waits then max wait0 1 else wait0);
          searching = (if queued then True else searching0);
          detail = oget m ''detail''
      in \<lparr>laPhase = (if queued then Some ''search'' else None), laSearching = Some searching,
          laQueueAcked = (if queued then Some True else if idle then Some False else None),
          laAlone = (if queued then Some (wait \<le> 1) else if idle then Some True else if waits then Some (wait \<le> 1) else None),
          laOnline = max on (if searching then 1 else 0), laWaiting = wait,
          laLog = (if js_truthy detail then Some (''status '' @ ph @ '': '' @ js_string detail @ '' wait='' @ show_int wait) else None),
          laTrack = (if queued then Some (wait0, on) else None)\<rparr>)"

definition reduceLobbyInfoMsg :: "jsobj \<Rightarrow> lobby_context \<Rightarrow> lobby_patch" where
  "reduceLobbyInfoMsg m ctx =
     (let on = count_of (oget m ''online'');
          w = oget m ''waiting_peers'';
          wait0 = count_of (if \<not> js_null w then w else js_or (oget m ''room_waiting'') (JNum 0));
          searching = (lcSearching ctx \<or> lcPhase ctx = ''search'');
          wait = (if searching then max wait0 1 else wait0);
          online = max on (if searching then 1 else 0)
      in \<lparr>laPhase = None, laSearching = None, laQueueAcked = None,
          laAlone = (if searching then Some (wait \<le> 1) else None), laOnline = online, laWaiting = wait,
          laLog = Some (''lobby online='' @ show_int on @ '' waiting='' @ show_int wait @ '' search='' @ (if searching then ''1'' else ''0'')),
          laTrack = None\<rparr>)"

section \<open>Bans\<close>

record hub_ban =
  hbPermanent :: bool
  hbLevel :: int
  hbUntilMs :: int

definition parseHubBan :: "jsobj \<Rightarrow> int \<Rightarrow> hub_ban" where
  "parseHubBan msg nowMs =
     (let level = max 0 (num_or (oget msg ''level'') 0);
          permanent = (oget msg ''permanent'' = JBool True \<or> level \<ge> 3);
          until = num_or (oget msg ''until'') 0;
          secs = num_or (oget msg ''secs'') 0
      in \<lparr>hbPermanent = permanent, hbLevel = level,
          hbUntilMs = (if permanent then 0 else if until > 0 then until * 1000
                       else if secs > 0 then nowMs + secs * 1000 else 0)\<rparr>)"

definition isHubBanActive :: "hub_ban option \<Rightarrow> int \<Rightarrow> bool" where
  "isHubBanActive ban nowMs = (case ban of None \<Rightarrow> False
     | Some b \<Rightarrow> if hbPermanent b then True else hbUntilMs b > nowMs)"

definition banDurationKey :: "hub_ban \<Rightarrow> string" where
  "banDurationKey ban = (if hbLevel ban = 2 then ''mobile.ban.dur7d'' else ''mobile.ban.dur24h'')"

record ban_copy =
  bcTitle :: string
  bcBody :: string
  bcUntil :: string
  bcOk :: string

definition or_text :: "string \<Rightarrow> string \<Rightarrow> string" where
  "or_text a b = (if a \<noteq> '''' then a else b)"

text \<open>\<open>tr key vars\<close> translates, \<open>''''\<close> for a missing key; \<open>fmt\<close> prints a time.\<close>

definition banCopy :: "hub_ban \<Rightarrow> (string \<Rightarrow> (string \<times> string) list \<Rightarrow> string) \<Rightarrow> (int \<Rightarrow> string) \<Rightarrow> ban_copy" where
  "banCopy ban tr fmt =
     (let title = or_text (tr ''mobile.ban.title'' []) ''You are banned'';
          ok = or_text (tr ''mobile.ban.ok'' []) ''OK''
      in if hbPermanent ban
         then \<lparr>bcTitle = title,
               bcBody = or_text (tr ''mobile.ban.bodyPermanent'' []) ''You are banned permanently for showing genitals on camera again.'',
               bcUntil = '''', bcOk = ok\<rparr>
         else let dur = or_text (tr (banDurationKey ban) []) (if hbLevel ban = 2 then ''for 7 days'' else ''for 24 hours'');
                  body = or_text (tr ''mobile.ban.bodyGenitals'' [(''dur'', dur)])
                    (''You are banned '' @ dur @ '' for showing genitals on camera. This breaks Ruletka's rules.'');
                  shown = (if hbUntilMs ban > 0 then fmt (hbUntilMs ban) else '''');
                  until = (if shown \<noteq> '''' then or_text (tr ''mobile.ban.until'' [(''when'', shown)]) (''Until: '' @ shown) else '''')
              in \<lparr>bcTitle = title, bcBody = body, bcUntil = until, bcOk = ok\<rparr>)"

definition PARTNER_BANNED_NOTICE_MS :: int where "PARTNER_BANNED_NOTICE_MS = 8000"

definition partnerBannedRecently :: "int \<Rightarrow> int \<Rightarrow> bool" where
  "partnerBannedRecently atMs nowMs \<longleftrightarrow> atMs > 0 \<and> nowMs - atMs \<ge> 0 \<and> nowMs - atMs < PARTNER_BANNED_NOTICE_MS"

section \<open>What the queue shows\<close>

lemma count_nonneg [simp]: "0 \<le> count_of v"
  by (simp add: count_of_def)

text \<open>Both messages floor the counts the way \<open>floorQueueCounts\<close> does: while the phone searches, before
  or because of the message, the queue shows at least itself, in the waiting and in the online count,
  and otherwise the hub's numbers; and \<open>alone\<close> said after a \<open>lobby_info\<close> means that nobody else waits.\<close>

theorem queue_counts_floored:
  "(let p = reduceStatusMsg m ctx;
        searching = (lcSearching ctx \<or> isQueuePhase (str_or (oget m ''phase'')))
    in (laWaiting p, laOnline p)
         = (fst (floorQueueCounts (count_of (oget m ''waiting_peers'')) 0 (searching \<or> lcPhase ctx = ''search'')),
            snd (floorQueueCounts 0 (count_of (oget m ''online'')) searching)))
   \<and> (let p = reduceLobbyInfoMsg m ctx; searching = (lcSearching ctx \<or> lcPhase ctx = ''search'')
      in laOnline p = snd (floorQueueCounts 0 (count_of (oget m ''online'')) searching)
         \<and> laAlone p = (if searching then Some (laWaiting p = 1) else None))"
  by (auto simp: reduceStatusMsg_def reduceLobbyInfoMsg_def floorQueueCounts_def Let_def)

text \<open>After a status the two flags of the patch can disagree: for an \<open>idle\<close> status while the phone
  still searches, the patch says that the user is alone even when the hub counts others waiting.\<close>

theorem idle_status_says_alone:
  "let p = reduceStatusMsg [(''phase'', JStr ''idle''), (''waiting_peers'', JNum 7), (''online'', JNum 9)]
             \<lparr>lcPhase = ''search'', lcSearching = True\<rparr>
   in laAlone p = Some True \<and> laWaiting p = 7 \<and> laQueueAcked p = Some False"
  by (simp add: reduceStatusMsg_def isQueuePhase_def count_of_def Let_def)

section \<open>How long a ban lasts\<close>

text \<open>A ban is in force exactly as long as the hub says: a permanent one, or one of level three,
  always; a timed one until its end, or for its seconds from now when no end is given; and one with
  neither is over at once.\<close>

theorem ban_lasts:
  "isHubBanActive (Some (parseHubBan msg t0)) t1 =
     (if oget msg ''permanent'' = JBool True \<or> num_or (oget msg ''level'') 0 \<ge> 3 then True
      else if num_or (oget msg ''until'') 0 > 0 then t1 < num_or (oget msg ''until'') 0 * 1000
      else if num_or (oget msg ''secs'') 0 > 0 then t1 < t0 + num_or (oget msg ''secs'') 0 * 1000
      else t1 < 0)"
  by (auto simp: isHubBanActive_def parseHubBan_def Let_def)

text \<open>A leave needs one of the leave words and none of the others.\<close>

lemma leave_detail: "isHubPartnerLeaveDetail d \<longleftrightarrow> any_of leave_words d \<and> \<not> any_of still_words d"
  by (simp add: isHubPartnerLeaveDetail_def)

end
