(* ===== verification/Offers.thy ===== *)
theory Offers
  imports IcePolicy Quality
begin

text \<open>
  The offering side of \<open>class RouletteWebRtc\<close> in \<open>ui/webrtc.js\<close>: connecting, the gates in front of
  an offer, the life of one \<open>createOffer\<close> call across its awaits, and ICE restarts. The attributes of
  the browser's peer connection are a view that may change at any moment; what the calls on it
  return is an argument. The page writes some fields of the object and owns the match stamps, so what
  it and its other connections do there are events as well (\<open>page_step\<close>). An \<open>async\<close> method is cut at
  its awaits: each piece is one function, and several calls can be in progress at once, as in the page.
\<close>

section \<open>State\<close>

datatype sdp_state = SdpStable | SdpLocalOffer | SdpRemoteOffer | SdpPranswer | SdpClosed
datatype ice_conn = IceNew | IceChecking | IceConnected | IceCompleted | IceDisconnected | IceFailed | IceClosed
datatype pc_conn = ConnNew | ConnConnecting | ConnConnected | ConnDisconnected | ConnFailed | ConnClosed

record rtc_pc =
  pcSignaling :: sdp_state
  pcIce :: ice_conn
  pcConn :: pc_conn
  pcLocal :: "description option"
  pcRemote :: "description option"
  pcCurLocal :: "description option"
  pcCurRemote :: "description option"

text \<open>What a fresh connection shows.\<close>

definition fresh_pc :: rtc_pc where
  "fresh_pc = \<lparr>pcSignaling = SdpStable, pcIce = IceNew, pcConn = ConnNew, pcLocal = None, pcRemote = None,
     pcCurLocal = None, pcCurRemote = None\<rparr>"

text \<open>A \<open>_createAndSendOffer\<close> call that is past its gates: its generation, its options, whether it
  was awaited by \<open>connect\<close>, and the await it stands at.\<close>

datatype offer_stage = OfSync | OfCreate | OfSetLocal | OfGather | OfReconnect | OfDone

record offer_call =
  ocGen :: nat
  ocRestart :: bool
  ocEarlyBlack :: bool
  ocRetry :: bool
  ocConnect :: bool
  ocStage :: offer_stage
  ocHang :: bool

datatype rtc_signal = SigOffer description | SigAnswer description | SigIce ice_candidate | SigBye

text \<open>The fields of the object, its timers (the offer watchdog, the probes after a disconnect, the
  black-screen watch), the three \<open>window.__ruletMatchOffer*\<close> stamps as the page has them (0 when cleared;
  others write them too, see \<open>page_stamps\<close>) and, in the last
  two, the offers in progress and what \<open>hooks.onSignal\<close> was given, newest first.\<close>

record rtc =
  rtPc :: "rtc_pc option"
  rtIsOfferer :: bool
  rtAnswerOnly :: bool
  rtInFlight :: bool
  rtSentOnce :: bool
  rtEmitOk :: bool
  rtGen :: nat
  rtAnsweredAt :: int
  rtGotAnswerAt :: int
  rtLastOfferAt :: int
  rtRemoteOfferSince :: int
  rtIceEverOk :: bool
  rtBornAt :: int
  rtRelayPc :: bool
  rtRestartAt :: int
  rtRestartCount :: int
  rtEmittingRestart :: bool
  rtPendingIce :: "ice_candidate list"
  rtLastRemoteSdp :: string
  rtPromoted :: bool
  rtWatch :: bool
  rtProbing :: bool
  rtProbes :: "(int \<times> bool) list"
  rtStuck :: "int list"
  wOfferAt :: int
  wOfferLock :: bool
  wAttemptAt :: int
  rtCalls :: "offer_call list"
  rtSent :: "(int \<times> rtc_signal) list"

definition new_rtc :: "bool \<Rightarrow> rtc" where
  "new_rtc offerer =
     \<lparr>rtPc = None, rtIsOfferer = offerer, rtAnswerOnly = False, rtInFlight = False, rtSentOnce = False,
      rtEmitOk = False, rtGen = 0, rtAnsweredAt = 0, rtGotAnswerAt = 0, rtLastOfferAt = 0,
      rtRemoteOfferSince = 0, rtIceEverOk = False, rtBornAt = 0, rtRelayPc = False, rtRestartAt = 0,
      rtRestartCount = 0, rtEmittingRestart = False, rtPendingIce = [], rtLastRemoteSdp = '''',
      rtPromoted = False, rtWatch = False, rtProbing = False, rtProbes = [], rtStuck = [], wOfferAt = 0, wOfferLock = False, wAttemptAt = 0, rtCalls = [],
      rtSent = []\<rparr>"

text \<open>What the methods read beside the object: the clock, \<open>isMultiPeerFastMode(this)\<close>,
  \<open>matchMediaGraceAt\<close> of the page, whether a live remote video track exists, and the ICE module.\<close>

record rtc_env =
  evNow :: int
  evMulti :: bool
  evMatchAt :: int
  evRemoteLive :: bool
  evIce :: ice_state

definition set_pc :: "rtc_pc \<Rightarrow> rtc \<Rightarrow> rtc" where
  "set_pc p s = s\<lparr>rtPc := Some p\<rparr>"

definition has_remote :: "rtc \<Rightarrow> bool" where
  "has_remote s \<longleftrightarrow> rtGotAnswerAt s \<noteq> 0 \<or>
     (case rtPc s of None \<Rightarrow> False | Some p \<Rightarrow> pcCurRemote p \<noteq> None)"

text \<open>\<open>_emitSignal\<close>\<close>

definition emitSignal :: "int \<Rightarrow> rtc_signal \<Rightarrow> rtc \<Rightarrow> rtc" where
  "emitSignal now m s =
     (case m of
        SigOffer d \<Rightarrow>
          let hard = wOfferAt s
          in if \<not> rtEmittingRestart s \<and> hard \<noteq> 0 \<and> now - hard < 12000 \<and> rtEmitOk s then s
             else if \<not> rtEmittingRestart s \<and> hard \<noteq> 0 \<and> \<not> rtEmitOk s \<and> now - hard > 800
             then s\<lparr>wOfferAt := 0, wOfferLock := False, rtSent := (now, m) # rtSent s\<rparr>
             else s\<lparr>rtSent := (now, m) # rtSent s\<rparr>
      | _ \<Rightarrow> s\<lparr>rtSent := (now, m) # rtSent s\<rparr>)"

section \<open>The gates of an offer\<close>

datatype offer_skip =
    SkipAnswerOnly | SkipNoPc | SkipInFlight | SkipMatchOffered | SkipFirstPath | SkipAnswered
  | SkipGotAnswer | SkipSentThisPc | SkipIceInProgress | SkipGrace | SkipDebounce | SkipStable
  | SkipIceActive | SkipLockHeld | SkipLockRacing

text \<open>The match-level gate, outside calls of several people: it also frees stamps and locks that no
  emitted offer stands behind.\<close>

definition free_stamp :: "int \<Rightarrow> rtc \<Rightarrow> rtc" where
  "free_stamp now s =
     (if wOfferAt s \<noteq> 0 \<and> \<not> rtEmitOk s \<and> now - wOfferAt s > 500
      then s\<lparr>wOfferAt := 0, wOfferLock := False\<rparr> else s)"

definition free_lock :: "int \<Rightarrow> rtc \<Rightarrow> rtc" where
  "free_lock now s =
     (if wOfferLock s \<and> \<not> rtEmitOk s \<and> (wAttemptAt s = 0 \<or> now - wAttemptAt s > 500)
      then s\<lparr>wOfferLock := False, wAttemptAt := 0, wOfferAt := 0\<rparr> else s)"

definition gate_match :: "int \<Rightarrow> bool \<Rightarrow> rtc \<Rightarrow> offer_skip option \<times> rtc" where
  "gate_match now restart s =
     (let hard = wOfferAt s
      in if \<not> restart \<and> hard \<noteq> 0 \<and> now - hard < 12000 \<and> rtEmitOk s then (Some SkipMatchOffered, s)
         else let s' = (if restart then s else free_lock now (free_stamp now s))
              in if restart \<and> hard \<noteq> 0 \<and> now - hard < 45000 \<and> has_remote s' then (Some SkipFirstPath, s')
                 else (None, s'))"

text \<open>The gates on what this object already sent or received.\<close>

definition gate_sent :: "int \<Rightarrow> bool \<Rightarrow> rtc \<Rightarrow> offer_skip option \<times> rtc" where
  "gate_sent now restart s =
     (if \<not> restart \<and> rtAnsweredAt s \<noteq> 0 \<and> now - rtAnsweredAt s < 15000 then (Some SkipAnswered, s)
      else if \<not> restart \<and> rtGotAnswerAt s \<noteq> 0 \<and> now - rtGotAnswerAt s < 15000 then (Some SkipGotAnswer, s)
      else if \<not> restart \<and> rtSentOnce s \<and> rtEmitOk s then (Some SkipSentThisPc, s)
      else (None, if \<not> restart \<and> rtSentOnce s \<and> \<not> rtEmitOk s then s\<lparr>rtSentOnce := False\<rparr> else s))"

definition pc_age :: "int \<Rightarrow> rtc \<Rightarrow> int" where
  "pc_age now s = (if rtBornAt s \<noteq> 0 then now - rtBornAt s else 99999)"

definition offer_match_age :: "rtc_env \<Rightarrow> rtc \<Rightarrow> int" where
  "offer_match_age e s = (if evMatchAt e \<noteq> 0 then evNow e - evMatchAt e else pc_age (evNow e) s)"

definition offer_ice_grace :: "bool \<Rightarrow> rtc \<Rightarrow> int" where
  "offer_ice_grace earlyBlack s = (if earlyBlack then 45000 else if has_remote s then 45000 else 20000)"

text \<open>The gates on the connection itself.\<close>

definition gate_pc :: "rtc_env \<Rightarrow> bool \<Rightarrow> bool \<Rightarrow> rtc_pc \<Rightarrow> rtc \<Rightarrow> offer_skip option" where
  "gate_pc e restart earlyBlack p s =
     (if restart \<and> has_remote s \<and> (pcIce p = IceChecking \<or> pcIce p = IceNew \<or> pcConn p = ConnConnecting)
      then Some SkipIceInProgress
      else if restart \<and> min (pc_age (evNow e) s) (offer_match_age e s) < offer_ice_grace earlyBlack s
      then Some SkipGrace
      else if \<not> restart \<and> rtEmitOk s \<and> rtLastOfferAt s \<noteq> 0 \<and> evNow e - rtLastOfferAt s < 8000
      then Some SkipDebounce
      else if \<not> restart \<and> pcSignaling p = SdpStable \<and> pcCurRemote p \<noteq> None then Some SkipStable
      else if \<not> restart \<and> pcCurRemote p \<noteq> None \<and>
              (pcIce p = IceChecking \<or> pcIce p = IceConnected \<or> pcIce p = IceCompleted \<or>
               pcConn p = ConnConnecting \<or> pcConn p = ConnConnected)
      then Some SkipIceActive
      else None)"

text \<open>Taking the match lock, the last gate.\<close>

definition gate_lock :: "rtc_env \<Rightarrow> bool \<Rightarrow> rtc \<Rightarrow> offer_skip option \<times> rtc" where
  "gate_lock e restart s =
     (if restart \<or> evMulti e then (None, s)
      else if wOfferLock s \<and> rtEmitOk s then (Some SkipLockHeld, s)
      else if wOfferLock s \<and> wAttemptAt s \<noteq> 0 \<and> evNow e - wAttemptAt s < 500 then (Some SkipLockRacing, s)
      else (None, s\<lparr>wOfferLock := True, wAttemptAt := evNow e\<rparr>))"

text \<open>\<open>_createAndSendOffer\<close> up to its first await.\<close>

definition offer_gates :: "rtc_env \<Rightarrow> bool \<Rightarrow> bool \<Rightarrow> rtc \<Rightarrow> offer_skip option \<times> rtc" where
  "offer_gates e restart earlyBlack s =
     (if rtAnswerOnly s then (Some SkipAnswerOnly, s\<lparr>rtIsOfferer := False\<rparr>)
      else case rtPc s of
        None \<Rightarrow> (Some SkipNoPc, s)
      | Some p \<Rightarrow>
          if \<not> rtIsOfferer s then (Some SkipNoPc, s)
          else if rtInFlight s then (Some SkipInFlight, s)
          else case (if evMulti e then (None, s) else gate_match (evNow e) restart s) of
            (Some r, s1) \<Rightarrow> (Some r, s1)
          | (None, s1) \<Rightarrow>
              case gate_sent (evNow e) restart s1 of
                (Some r, s2) \<Rightarrow> (Some r, s2)
              | (None, s2) \<Rightarrow>
                  case gate_pc e restart earlyBlack p s2 of
                    Some r \<Rightarrow> (Some r, s2)
                  | None \<Rightarrow> gate_lock e restart s2)"

record offer_opts =
  ooRestart :: bool
  ooEarlyBlack :: bool
  ooRetry :: bool

definition createAndSendOffer :: "rtc_env \<Rightarrow> offer_opts \<Rightarrow> bool \<Rightarrow> rtc \<Rightarrow> offer_skip option \<times> rtc" where
  "createAndSendOffer e opts fromConnect s =
     (case offer_gates e (ooRestart opts) (ooEarlyBlack opts) s of
        (Some r, s') \<Rightarrow> (Some r, s')
      | (None, s') \<Rightarrow>
          (None, s'\<lparr>rtInFlight := True,
             rtCalls := rtCalls s' @ [\<lparr>ocGen = 0, ocRestart = ooRestart opts, ocEarlyBlack = ooEarlyBlack opts,
               ocRetry = ooRetry opts, ocConnect = fromConnect, ocStage = OfSync, ocHang = False\<rparr>]\<rparr>))"

section \<open>Connecting\<close>

definition ice_up :: "ice_conn \<Rightarrow> bool" where
  "ice_up i \<longleftrightarrow> i = IceConnected \<or> i = IceCompleted"

text \<open>The connection \<open>connect\<close> keeps although it is in use, and the one it replaces because its
  candidates are not those of a relay-only call.\<close>

definition needs_relay_rebuild :: "rtc_env \<Rightarrow> rtc \<Rightarrow> bool" where
  "needs_relay_rebuild e s \<longleftrightarrow>
     isRelayMediaMode (evIce e) \<and>
     (case rtPc s of None \<Rightarrow> False
      | Some p \<Rightarrow> \<not> rtRelayPc s \<and> \<not> ice_up (pcIce p) \<and> \<not> evRemoteLive e)"

definition pc_in_use :: "rtc_env \<Rightarrow> rtc \<Rightarrow> bool" where
  "pc_in_use e s \<longleftrightarrow>
     (case rtPc s of None \<Rightarrow> False
      | Some p \<Rightarrow>
          pcSignaling p \<noteq> SdpClosed \<and> pcConn p \<noteq> ConnClosed \<and>
          \<not> (isRelayMediaMode (evIce e) \<and> \<not> rtRelayPc s) \<and>
          (pcLocal p \<noteq> None \<or> pcRemote p \<noteq> None \<or> rtInFlight s \<or> pcSignaling p = SdpLocalOffer \<or>
           pcSignaling p = SdpRemoteOffer \<or> ice_up (pcIce p) \<or> pcConn p = ConnConnected))"

text \<open>The module state after \<open>connect\<close> fetched a connection, and the configuration a cold one is made
  with: a call of several people asks for every kind of candidate even under a relay-only policy.\<close>

definition connect_warm :: "rtc_env \<Rightarrow> ice_state \<times> nat option" where
  "connect_warm e =
     (let ice = applyIceDirectPreference (applyIceDirectPreference (evIce e));
          want = (if isRelayMediaMode ice then PolicyRelay else PolicyAll);
          (ice', w) = (if evMulti e then (ice, None)
                       else if iceWarmPolicy ice = Some want then takeWarmPc (evMulti e) ice
                       else (clearIceWarm ice, None))
      in (snd (applyPendingWarmPrimed ice'), w))"

definition connect_config :: "rtc_env \<Rightarrow> ice_state \<Rightarrow> rtc_config" where
  "connect_config e ice =
     (let cfg = getIceConfig ice
      in if evMulti e \<and> rcPolicy cfg = Some PolicyRelay
         then cfg\<lparr>rcPolicy := Some PolicyAll, rcPoolSize := 0\<rparr> else cfg)"

text \<open>The fields of a new connection; \<open>born\<close> is what it shows, a warm one or a fresh one.\<close>

definition new_connection :: "rtc_env \<Rightarrow> ice_state \<Rightarrow> rtc_pc \<Rightarrow> rtc \<Rightarrow> rtc" where
  "new_connection e ice born s =
     s\<lparr>rtPc := Some born, rtPendingIce := [], rtBornAt := evNow e,
       rtRelayPc := (rcPolicy (getIceConfig ice) = Some PolicyRelay \<or> isRelayMediaMode ice \<or> evMulti e),
       rtInFlight := False, rtSentOnce := False, rtEmitOk := False, rtAnsweredAt := 0, rtGotAnswerAt := 0,
       rtLastOfferAt := 0, rtRemoteOfferSince := 0, rtIceEverOk := False\<rparr>"

definition arm_offer_watchdog :: "rtc \<Rightarrow> rtc" where
  "arm_offer_watchdog s = s\<lparr>rtWatch := (\<not> rtAnswerOnly s \<and> rtIsOfferer s)\<rparr>"

definition plain_offer :: offer_opts where
  "plain_offer = \<lparr>ooRestart = False, ooEarlyBlack = False, ooRetry = False\<rparr>"

text \<open>Once a connection is there the offerer offers; the watchdog goes when that call is over.\<close>

definition connect_offer :: "rtc_env \<Rightarrow> rtc \<Rightarrow> rtc" where
  "connect_offer e s =
     (if rtIsOfferer s then
        (case createAndSendOffer e plain_offer True (arm_offer_watchdog s) of
           (Some r, s') \<Rightarrow> s'\<lparr>rtWatch := False\<rparr>
         | (None, s') \<Rightarrow> s')
      else s)"

definition rtc_connect :: "rtc_env \<Rightarrow> rtc_pc \<Rightarrow> rtc \<Rightarrow> ice_state \<times> rtc" where
  "rtc_connect e born s =
     (let make = (\<lambda>s'. let ice = fst (connect_warm e)
                        in (ice, connect_offer (e\<lparr>evIce := ice\<rparr>) (new_connection e ice born (s'\<lparr>rtPc := None\<rparr>))))
      in if needs_relay_rebuild e s then make (s\<lparr>rtPc := None, rtInFlight := False, rtSentOnce := False\<rparr>)
         else if pc_in_use e s then
           (applyIceDirectPreference (evIce e),
            if rtIsOfferer s \<and> \<not> rtSentOnce s \<and> \<not> rtInFlight s then snd (createAndSendOffer e plain_offer False s)
            else s)
         else make s)"

text \<open>The watchdog of the offerer.\<close>

definition offer_watchdog :: "rtc_env \<Rightarrow> rtc \<Rightarrow> rtc" where
  "offer_watchdog e s0 =
     (let s = s0\<lparr>rtWatch := False\<rparr>
      in case rtPc s of
           None \<Rightarrow> s
         | Some p \<Rightarrow>
             if pcRemote p \<noteq> None \<or> pcCurRemote p \<noteq> None \<or> rtSentOnce s \<or> rtInFlight s then s
             else if rtRemoteOfferSince s \<noteq> 0 \<and> evNow e - rtRemoteOfferSince s < 4000 then s
             else if rtAnsweredAt s \<noteq> 0 \<or> \<not> rtIsOfferer s \<or> evRemoteLive e then s
             else snd (createAndSendOffer e plain_offer False s))"

section \<open>One offer, from await to await\<close>

text \<open>What goes out in an offer or an answer.\<close>

definition outgoing_sdp :: "ice_state \<Rightarrow> string \<Rightarrow> string" where
  "outgoing_sdp ice sdp0 =
     (let sdp = stripMdnsHostCandidatesFromSdp sdp0
      in if hideIpRelayOnlyEnabled ice \<or> sessionForceRelay ice then
           (let s = stripNonRelayCandidatesFromSdp sdp
            in if shouldPreferUdpRelay ice then stripTcpRelayCandidatesFromSdp s else s)
         else if hideIpRelayOnlyEnabled ice \<or> sessionForceRelay ice then stripHostCandidatesFromSdp sdp
         else sdp)"

definition outgoing :: "ice_state \<Rightarrow> description \<Rightarrow> description" where
  "outgoing ice d =
     (case dsSdp d of
        None \<Rightarrow> d
      | Some sdp \<Rightarrow> if sdp = '''' then d else \<lparr>dsType = dsType d, dsSdp = Some (outgoing_sdp ice sdp)\<rparr>)"

text \<open>The \<open>finally\<close> block, the caller's clearing of its flag or timer, and the \<open>catch\<close> block before it.\<close>

definition upd_call :: "nat \<Rightarrow> (offer_call \<Rightarrow> offer_call) \<Rightarrow> rtc \<Rightarrow> rtc" where
  "upd_call i f s = (if i < length (rtCalls s) then s\<lparr>rtCalls := (rtCalls s)[i := f (rtCalls s ! i)]\<rparr> else s)"

definition free_unsent :: "rtc \<Rightarrow> rtc" where
  "free_unsent s = (if rtEmitOk s then s else s\<lparr>wOfferLock := False, wAttemptAt := 0, wOfferAt := 0\<rparr>)"

definition offer_finally :: "nat \<Rightarrow> rtc \<Rightarrow> rtc" where
  "offer_finally i s0 =
     (let c = rtCalls s0 ! i;
          s1 = (upd_call i (\<lambda>c. c\<lparr>ocStage := OfDone, ocHang := False\<rparr>) s0)\<lparr>rtInFlight := False\<rparr>;
          s2 = (if ocRestart c then s1\<lparr>rtEmittingRestart := False\<rparr> else free_unsent s1)
      in if ocConnect c then s2\<lparr>rtWatch := False\<rparr> else s2)"

definition offer_failed :: "nat \<Rightarrow> rtc \<Rightarrow> rtc" where
  "offer_failed i s0 =
     (let s1 = s0\<lparr>rtEmitOk := False\<rparr>
      in offer_finally i
           (if ocRestart (rtCalls s0 ! i) then s1
            else s1\<lparr>rtSentOnce := False, wAttemptAt := 0, wOfferLock := False\<rparr>))"

text \<open>The tracks are in: the call takes its generation, arms the hang timer and asks for an offer.\<close>

definition offer_synced :: "nat \<Rightarrow> rtc \<Rightarrow> rtc" where
  "offer_synced i s0 =
     (let s = upd_call i (\<lambda>c. c\<lparr>ocGen := rtGen s0 + 1, ocStage := OfCreate, ocHang := True\<rparr>) (s0\<lparr>rtGen := rtGen s0 + 1\<rparr>)
      in if rtPc s = None then offer_failed i s else s)"

text \<open>The hang timer, one second later.\<close>

definition offer_hang :: "nat \<Rightarrow> rtc \<Rightarrow> rtc" where
  "offer_hang i s0 =
     (let c = rtCalls s0 ! i; s = upd_call i (\<lambda>c. c\<lparr>ocHang := False\<rparr>) s0
      in if rtGen s \<noteq> ocGen c \<or> rtEmitOk s then s
         else let s1 = s\<lparr>rtInFlight := False\<rparr>
              in if ocRestart c then s1
                 else s1\<lparr>rtSentOnce := False, rtLastOfferAt := 0, wAttemptAt := 0, wOfferLock := False, wOfferAt := 0\<rparr>)"

definition offer_created :: "nat \<Rightarrow> rtc \<Rightarrow> rtc" where
  "offer_created i s =
     (if rtGen s \<noteq> ocGen (rtCalls s ! i) then offer_finally i s
      else if rtPc s = None then offer_failed i s
      else upd_call i (\<lambda>c. c\<lparr>ocStage := OfSetLocal\<rparr>) s)"

definition offer_local_set :: "nat \<Rightarrow> rtc \<Rightarrow> rtc" where
  "offer_local_set i s =
     (if rtGen s \<noteq> ocGen (rtCalls s ! i) then offer_finally i s
      else upd_call i (\<lambda>c. c\<lparr>ocStage := OfGather\<rparr>) s)"

text \<open>No relay candidate after the wait, in a relay-only call of two: close, connect again, and come
  back as a retry.\<close>

definition offer_rebuilds :: "rtc_env \<Rightarrow> nat \<Rightarrow> offer_call \<Rightarrow> bool" where
  "offer_rebuilds e n c \<longleftrightarrow>
     shouldWaitForFirstRelay (evIce e) \<and> n = 0 \<and> \<not> ocRetry c \<and> isRelayMediaMode (evIce e) \<and> \<not> evMulti e"

definition offer_rebuild :: "rtc_env \<Rightarrow> rtc_pc \<Rightarrow> nat \<Rightarrow> rtc \<Rightarrow> rtc" where
  "offer_rebuild e born i s0 =
     (let s = (upd_call i (\<lambda>c. c\<lparr>ocStage := OfReconnect\<rparr>) s0)
              \<lparr>rtPc := None, rtRelayPc := False, rtInFlight := False, rtSentOnce := False, rtEmitOk := False,
               wOfferLock := False, wOfferAt := 0\<rparr>;
          ice = clearIceWarm (applyIceDirectPreference (evIce e))
      in snd (rtc_connect (e\<lparr>evIce := ice\<rparr>) born s))"

definition offer_emit :: "rtc_env \<Rightarrow> description \<Rightarrow> nat \<Rightarrow> rtc \<Rightarrow> rtc" where
  "offer_emit e made i s =
     (if rtGen s \<noteq> ocGen (rtCalls s ! i) then offer_finally i s
      else case rtPc s of
        None \<Rightarrow> offer_failed i s
      | Some p \<Rightarrow>
          let d = outgoing (evIce e) (case pcLocal p of None \<Rightarrow> made | Some d \<Rightarrow> d);
              s1 = (emitSignal (evNow e) (SigOffer d) s)\<lparr>rtLastOfferAt := evNow e, rtEmitOk := True\<rparr>;
              s2 = (if ocRestart (rtCalls s ! i) then s1
                    else s1\<lparr>rtSentOnce := True, wOfferAt := evNow e, wAttemptAt := evNow e, wOfferLock := True\<rparr>)
          in offer_finally i (s2\<lparr>rtStuck := [2000, 6000, 20000], rtWatch := False\<rparr>))"

text \<open>\<open>n\<close> is the number of relay candidates found by the waits.\<close>

definition offer_gathered :: "rtc_env \<Rightarrow> rtc_pc \<Rightarrow> nat \<Rightarrow> description \<Rightarrow> nat \<Rightarrow> rtc \<Rightarrow> rtc" where
  "offer_gathered e born n made i s =
     (if offer_rebuilds e n (rtCalls s ! i) then offer_rebuild e born i s else offer_emit e made i s)"

text \<open>Back from the second connection: the retry is started and this call ends.\<close>

definition offer_reconnected :: "rtc_env \<Rightarrow> nat \<Rightarrow> rtc \<Rightarrow> rtc" where
  "offer_reconnected e i s =
     (let c = rtCalls s ! i
      in case createAndSendOffer e \<lparr>ooRestart = ocRestart c, ooEarlyBlack = ocEarlyBlack c, ooRetry = True\<rparr>
                (ocConnect c) s of
           (Some r, s') \<Rightarrow> offer_finally i s'
         | (None, s') \<Rightarrow> (offer_finally i s')\<lparr>rtEmittingRestart := rtEmittingRestart s', rtWatch := rtWatch s'\<rparr>)"

section \<open>How long an offer waits for a relay candidate\<close>

text \<open>The waiting function itself never waits less than 250 ms.\<close>

definition gather_timeout :: "int \<Rightarrow> int" where
  "gather_timeout maxMs = max 250 maxMs"

definition secondRelayWaitMs :: "ice_state \<Rightarrow> bool \<Rightarrow> int" where
  "secondRelayWaitMs ice warmOk = (if isRelayMediaMode ice then (if warmOk then 280 else 320) else 280)"

text \<open>The longest wait of one offer or answer when no relay candidate shows up.\<close>

definition relay_wait_total :: "ice_state \<Rightarrow> bool \<Rightarrow> browser_env \<Rightarrow> bool \<Rightarrow> string list \<Rightarrow> int" where
  "relay_wait_total ice warmOk e multiPeerLink sdps =
     (if shouldWaitForFirstRelay ice
      then gather_timeout (firstRelayWait1Ms e multiPeerLink sdps (relayWaitBudgetMs ice) warmOk) +
           (if isMultiPeerFastMode e multiPeerLink then 0 else gather_timeout (secondRelayWaitMs ice warmOk))
      else 0)"

section \<open>ICE restarts\<close>

datatype restart_verdict =
    RsNoPc | RsUsed | RsChecking | RsGrace | RsInFlight | RsTooSoon | RsOffer "offer_skip option" | RsAnswerer

definition restart_match_age :: "rtc_env \<Rightarrow> int" where
  "restart_match_age e = (if evMatchAt e \<noteq> 0 then evNow e - evMatchAt e else 99999)"

definition restart_grace :: "bool \<Rightarrow> bool \<Rightarrow> rtc \<Rightarrow> int" where
  "restart_grace force earlyBlack s =
     (if earlyBlack then 18000 else if has_remote s then (if force then 18000 else 25000) else 12000)"

text \<open>The restart is counted before the offer is asked for. The answerer only marks its own side.\<close>

definition tryIceRestart :: "rtc_env \<Rightarrow> bool \<Rightarrow> bool \<Rightarrow> rtc \<Rightarrow> restart_verdict \<times> rtc" where
  "tryIceRestart e force earlyBlack s =
     (case rtPc s of
        None \<Rightarrow> (RsNoPc, s)
      | Some p \<Rightarrow>
          let now = evNow e; last = rtRestartAt s; count = rtRestartCount s
          in if count \<ge> 1 \<and> has_remote s \<and>
                \<not> (count < 2 \<and> rtIceEverOk s \<and> (pcIce p = IceFailed \<or> pcIce p = IceDisconnected))
             then (RsUsed, s)
             else if has_remote s \<and> (pcIce p = IceChecking \<or> pcIce p = IceNew \<or> pcConn p = ConnConnecting)
             then (RsChecking, s)
             else if min (pc_age now s) (restart_match_age e) < restart_grace force earlyBlack s
             then (RsGrace, s)
             else if last \<noteq> 0 \<and> now - last < 5000 \<and> count > 0 then (RsInFlight, s)
             else if now - last < 8000 then (RsTooSoon, s)
             else let s1 = s\<lparr>rtRestartAt := now, rtRestartCount := count + 1\<rparr>
                  in if rtIsOfferer s1 then
                       (case createAndSendOffer e \<lparr>ooRestart = True, ooEarlyBlack = earlyBlack, ooRetry = False\<rparr> False
                               (s1\<lparr>rtEmittingRestart := True\<rparr>) of
                          (Some r, s2) \<Rightarrow> (RsOffer (Some r), s2\<lparr>rtEmittingRestart := False\<rparr>)
                        | (None, s2) \<Rightarrow> (RsOffer None, s2))
                     else (RsAnswerer, s1))"

text \<open>Three probes after a disconnect, and what each does when its timer fires.\<close>

definition scheduleDisconnectedIceProbe :: "rtc \<Rightarrow> rtc" where
  "scheduleDisconnectedIceProbe s =
     (if rtProbing s then s
      else s\<lparr>rtProbing := True, rtProbes := [(2000, False), (6000, True), (12000, True)]\<rparr>)"

definition clearDisconnectedIceProbe :: "rtc \<Rightarrow> rtc" where
  "clearDisconnectedIceProbe s = s\<lparr>rtProbing := False, rtProbes := []\<rparr>"

definition disc_probe :: "rtc_env \<Rightarrow> int \<times> bool \<Rightarrow> rtc \<Rightarrow> rtc" where
  "disc_probe e pr s0 =
     (let s1 = s0\<lparr>rtProbes := removeAll pr (rtProbes s0)\<rparr>;
          s = (if fst pr = 12000 then s1\<lparr>rtProbing := False\<rparr> else s1)
      in case rtPc s of
           None \<Rightarrow> s
         | Some p \<Rightarrow>
             if pcIce p = IceDisconnected \<or> pcConn p = ConnDisconnected \<or> pcIce p = IceFailed \<or> pcConn p = ConnFailed
             then snd (tryIceRestart e (snd pr) False s) else s)"

text \<open>The black-screen watch: only its last timer may restart. \<open>framed\<close>: a remote frame was shown.\<close>

definition black_watch :: "rtc_env \<Rightarrow> bool \<Rightarrow> int \<Rightarrow> rtc \<Rightarrow> rtc" where
  "black_watch e framed ms s0 =
     (let s = s0\<lparr>rtStuck := removeAll ms (rtStuck s0)\<rparr>
      in case rtPc s of
           None \<Rightarrow> s
         | Some p \<Rightarrow>
             if framed \<or> (pcCurRemote p = None \<and> pcRemote p = None) then s
             else if ms = 20000 \<and> (pcIce p = IceFailed \<or> pcIce p = IceDisconnected \<or> pcIce p = IceClosed)
             then snd (tryIceRestart e True True s) else s)"

text \<open>\<open>onconnectionstatechange\<close> and \<open>oniceconnectionstatechange\<close>, on the view the browser shows.\<close>

definition on_connection_state :: "rtc \<Rightarrow> rtc" where
  "on_connection_state s =
     (case rtPc s of None \<Rightarrow> s
      | Some p \<Rightarrow> if pcConn p = ConnConnected then s\<lparr>rtIceEverOk := True\<rparr> else s)"

definition on_ice_state :: "rtc_env \<Rightarrow> rtc \<Rightarrow> rtc" where
  "on_ice_state e s0 =
     (case rtPc s0 of
        None \<Rightarrow> s0
      | Some p \<Rightarrow>
          let s = (if ice_up (pcIce p) then s0\<lparr>rtIceEverOk := True\<rparr> else s0);
              s1 = (if pcIce p = IceFailed then snd (tryIceRestart e False False s)
                    else if pcIce p = IceDisconnected then scheduleDisconnectedIceProbe s else s)
          in if ice_up (pcIce p) then (clearDisconnectedIceProbe s1)\<lparr>rtRestartCount := 0\<rparr> else s1)"

section \<open>Renegotiation after a track went from receive-only to sending\<close>

definition promoteVideoSend :: "rtc_env \<Rightarrow> bool \<Rightarrow> rtc \<Rightarrow> offer_skip option option \<times> rtc" where
  "promoteVideoSend e flipped s =
     (case rtPc s of
        None \<Rightarrow> (None, s)
      | Some p \<Rightarrow>
          if flipped \<and> rtIsOfferer s \<and> \<not> rtPromoted s \<and> rtGotAnswerAt s \<noteq> 0 \<and> rtSentOnce s \<and> pcSignaling p = SdpStable
          then (case createAndSendOffer e plain_offer False (s\<lparr>rtPromoted := True\<rparr>) of (r, s') \<Rightarrow> (Some r, s'))
          else (None, s))"

section \<open>Hanging up\<close>

text \<open>The generation is not touched: an offer in progress goes on.\<close>

definition closeCall :: "int \<Rightarrow> bool \<Rightarrow> rtc \<Rightarrow> rtc" where
  "closeCall now sendBye s0 =
     (let s1 = (clearDisconnectedIceProbe s0)\<lparr>rtStuck := []\<rparr>;
          s2 = (if sendBye then emitSignal now SigBye s1 else s1)
      in s2\<lparr>rtPc := None\<rparr>)"

section \<open>The hand of the page\<close>

text \<open>
  The page (\<open>ui/live.js\<close>) reads and writes fields of a connection, and the three stamps belong to the page:
  other connections and the page itself write them too (\<open>page_stamps\<close>). Here are the places that write a
  connection from outside: the waves of \<open>armOfferKickWatch\<close>, \<open>kickSoloWebRtc\<close> on a connection that is there,
  its time budget, and the roles of a call of several people. The page's own conditions (a match, the
  offering role in it) decide whether these run at all, so they are events.
\<close>

definition page_stamps :: "int \<Rightarrow> bool \<Rightarrow> int \<Rightarrow> rtc \<Rightarrow> rtc" where
  "page_stamps stamp lock attempt s = s\<lparr>wOfferAt := stamp, wOfferLock := lock, wAttemptAt := attempt\<rparr>"

text \<open>A local offer that has not left goes out as it stands, without the edits of \<open>outgoing\<close> but one.\<close>

definition reemit_desc :: "ice_state \<Rightarrow> description \<Rightarrow> description" where
  "reemit_desc ice d =
     (case dsSdp d of
        None \<Rightarrow> d
      | Some sdp \<Rightarrow> if (hideIpRelayOnlyEnabled ice \<or> sessionForceRelay ice) \<and> sdp \<noteq> ''''
                    then \<lparr>dsType = dsType d, dsSdp = Some (stripNonRelayCandidatesFromSdp sdp)\<rparr> else d)"

definition reemit_local :: "rtc_env \<Rightarrow> description \<Rightarrow> rtc \<Rightarrow> rtc" where
  "reemit_local e d s =
     (emitSignal (evNow e) (SigOffer (reemit_desc (evIce e) d)) s)
       \<lparr>rtEmitOk := True, rtSentOnce := True, rtLastOfferAt := evNow e, wOfferAt := evNow e, wOfferLock := True\<rparr>"

definition local_offer :: "rtc \<Rightarrow> description option" where
  "local_offer s =
     (case rtPc s of None \<Rightarrow> None
      | Some p \<Rightarrow> (case pcLocal p of None \<Rightarrow> None | Some d \<Rightarrow> if dsType d = ''offer'' then Some d else None))"

definition no_local :: "rtc \<Rightarrow> bool" where
  "no_local s = (case rtPc s of None \<Rightarrow> True | Some p \<Rightarrow> pcLocal p = None)"

definition real_sdp :: "rtc \<Rightarrow> bool" where
  "real_sdp s \<longleftrightarrow> rtEmitOk s \<or> rtGotAnswerAt s \<noteq> 0 \<or>
     (case rtPc s of None \<Rightarrow> False | Some p \<Rightarrow> pcCurRemote p \<noteq> None \<or> pcRemote p \<noteq> None)"

text \<open>One wave of \<open>armOfferKickWatch\<close>: send the stuck offer, or tear the connection down for a new kick.\<close>

definition kick_reemit :: "rtc_env \<Rightarrow> rtc \<Rightarrow> rtc" where
  "kick_reemit e s =
     (if real_sdp s then s
      else case local_offer s of None \<Rightarrow> s
        | Some d \<Rightarrow> (reemit_local e d (page_stamps 0 False 0 s))\<lparr>wAttemptAt := evNow e\<rparr>)"

definition kick_tear :: "int \<Rightarrow> rtc \<Rightarrow> rtc" where
  "kick_tear now s =
     (if rtEmitOk s then s
      else page_stamps 0 False 0
        (closeCall now False (s\<lparr>rtSentOnce := False, rtEmitOk := False, rtInFlight := False, rtLastOfferAt := 0\<rparr>)))"

text \<open>\<open>kickSoloWebRtc\<close> on an existing connection: the stuck offer, the first offer, and a young one.\<close>

definition solo_reemit :: "rtc_env \<Rightarrow> rtc \<Rightarrow> rtc" where
  "solo_reemit e s =
     (if rtEmitOk s \<or> rtGotAnswerAt s \<noteq> 0 then s
      else case local_offer s of None \<Rightarrow> s
        | Some d \<Rightarrow> reemit_local e d (s\<lparr>wOfferAt := 0, wOfferLock := False\<rparr>))"

definition solo_first :: "rtc_env \<Rightarrow> rtc \<Rightarrow> rtc" where
  "solo_first e s =
     (if rtEmitOk s \<or> rtInFlight s \<or> \<not> no_local s then s
      else snd (createAndSendOffer e plain_offer False (s\<lparr>wOfferLock := False, wOfferAt := 0\<rparr>)))"

definition solo_young :: "rtc_env \<Rightarrow> rtc \<Rightarrow> rtc" where
  "solo_young e s0 =
     (if rtInFlight s0 then s0
      else let s = s0\<lparr>rtIsOfferer := True\<rparr>
           in if \<not> rtEmitOk s \<and> \<not> (wOfferAt s \<noteq> 0 \<or> wOfferLock s) \<and> no_local s
              then snd (createAndSendOffer e plain_offer False (s\<lparr>rtSentOnce := False\<rparr>)) else s)"

definition solo_budget :: "rtc \<Rightarrow> rtc" where
  "solo_budget s =
     (if rtEmitOk s then s
      else page_stamps 0 False 0 (s\<lparr>rtInFlight := False, rtSentOnce := False, rtLastOfferAt := 0\<rparr>))"

text \<open>The roles the page gives: an extra that is to offer (\<open>works\<close>: its path works), the links that
  \<open>joinPeers\<close> starts (\<open>inbound\<close>: the partner has offered already), and plain settings.\<close>

definition force_extra :: "bool \<Rightarrow> rtc \<Rightarrow> rtc" where
  "force_extra works s =
     (if works \<or> rtEmitOk s then s
      else s\<lparr>rtIsOfferer := True, rtAnswerOnly := False, rtInFlight := False\<rparr>)"

definition join_role :: "bool \<Rightarrow> rtc \<Rightarrow> rtc" where
  "join_role inbound s =
     (if inbound then s\<lparr>rtIsOfferer := False\<rparr>
      else if rtEmitOk s then s
      else s\<lparr>rtIsOfferer := True, rtEmitOk := False, rtSentOnce := False\<rparr>)"

datatype page_op =
    PgStamps int bool int
  | PgKick rtc_env
  | PgTear int
  | PgSolo rtc_env
  | PgFirst rtc_env
  | PgYoung rtc_env
  | PgBudget
  | PgExtra bool
  | PgJoin bool
  | PgOfferer bool
  | PgAnswerOnly
  | PgRecovered

fun page_step :: "rtc \<Rightarrow> page_op \<Rightarrow> rtc" where
  "page_step s (PgStamps stamp lock attempt) = page_stamps stamp lock attempt s"
| "page_step s (PgKick e) = kick_reemit e s"
| "page_step s (PgTear now) = kick_tear now s"
| "page_step s (PgSolo e) = solo_reemit e s"
| "page_step s (PgFirst e) = solo_first e s"
| "page_step s (PgYoung e) = solo_young e s"
| "page_step s PgBudget = solo_budget s"
| "page_step s (PgExtra works) = force_extra works s"
| "page_step s (PgJoin inbound) = join_role inbound s"
| "page_step s (PgOfferer on) = s\<lparr>rtIsOfferer := on\<rparr>"
| "page_step s PgAnswerOnly = s\<lparr>rtAnswerOnly := True, rtIsOfferer := False\<rparr>"
| "page_step s PgRecovered = s\<lparr>rtRestartCount := 0\<rparr>"

section \<open>The object as a step relation\<close>

datatype rtc_event =
    EvConnect rtc_env rtc_pc
  | EvOffer rtc_env
  | EvView rtc_pc
  | EvSynced nat
  | EvCreated nat
  | EvLocalSet nat
  | EvGathered rtc_env rtc_pc nat description nat
  | EvReconnected rtc_env nat
  | EvHang nat
  | EvRejected nat
  | EvWatchdog rtc_env
  | EvRestart rtc_env bool
  | EvProbe rtc_env "int \<times> bool"
  | EvBlackWatch rtc_env bool int
  | EvIceState rtc_env
  | EvConnState
  | EvPromote rtc_env bool
  | EvClose int bool
  | EvPage page_op

definition at_stage :: "nat \<Rightarrow> offer_stage \<Rightarrow> rtc \<Rightarrow> bool" where
  "at_stage i st s \<longleftrightarrow> i < length (rtCalls s) \<and> ocStage (rtCalls s ! i) = st"

fun rtc_step :: "rtc \<Rightarrow> rtc_event \<Rightarrow> rtc" where
  "rtc_step s (EvConnect e born) = snd (rtc_connect e born s)"
| "rtc_step s (EvOffer e) = snd (createAndSendOffer e plain_offer False s)"
| "rtc_step s (EvView p) = (if rtPc s = None then s else set_pc p s)"
| "rtc_step s (EvSynced i) = (if at_stage i OfSync s then offer_synced i s else s)"
| "rtc_step s (EvCreated i) = (if at_stage i OfCreate s then offer_created i s else s)"
| "rtc_step s (EvLocalSet i) = (if at_stage i OfSetLocal s then offer_local_set i s else s)"
| "rtc_step s (EvGathered e born n made i) = (if at_stage i OfGather s then offer_gathered e born n made i s else s)"
| "rtc_step s (EvReconnected e i) = (if at_stage i OfReconnect s then offer_reconnected e i s else s)"
| "rtc_step s (EvHang i) = (if i < length (rtCalls s) \<and> ocHang (rtCalls s ! i) then offer_hang i s else s)"
| "rtc_step s (EvRejected i) = (if at_stage i OfCreate s \<or> at_stage i OfSetLocal s then offer_failed i s else s)"
| "rtc_step s (EvWatchdog e) = (if rtWatch s then offer_watchdog e s else s)"
| "rtc_step s (EvRestart e force) = snd (tryIceRestart e force False s)"
| "rtc_step s (EvProbe e pr) = (if pr \<in> set (rtProbes s) then disc_probe e pr s else s)"
| "rtc_step s (EvBlackWatch e framed ms) = (if ms \<in> set (rtStuck s) then black_watch e framed ms s else s)"
| "rtc_step s (EvIceState e) = on_ice_state e s"
| "rtc_step s EvConnState = on_connection_state s"
| "rtc_step s (EvPromote e flipped) = snd (promoteVideoSend e flipped s)"
| "rtc_step s (EvClose now sendBye) = closeCall now sendBye s"
| "rtc_step s (EvPage op) = page_step s op"

definition rtc_run :: "rtc \<Rightarrow> rtc_event list \<Rightarrow> rtc" where
  "rtc_run s es = foldl rtc_step s es"

section \<open>What the gates touch\<close>

text \<open>A gate may free or take the match stamps, drop the sent latch and, for an answer-only client, the
  offering role; it keeps everything else.\<close>

definition gate_keeps :: "rtc \<Rightarrow> rtc \<Rightarrow> bool" where
  "gate_keeps s s' \<longleftrightarrow>
     s' = s\<lparr>rtIsOfferer := rtIsOfferer s', rtSentOnce := rtSentOnce s', wOfferAt := wOfferAt s',
            wOfferLock := wOfferLock s', wAttemptAt := wAttemptAt s'\<rparr> \<and>
     (if rtEmitOk s then wOfferAt s' = wOfferAt s \<and> rtSentOnce s' = rtSentOnce s else True)"

lemma gate_keeps_refl [simp]: "gate_keeps s s"
  by (simp add: gate_keeps_def)

lemma gate_keeps_trans:
  assumes "gate_keeps s s1" "gate_keeps s1 s2"
  shows "gate_keeps s s2"
proof -
  have a: "s1 = s\<lparr>rtIsOfferer := rtIsOfferer s1, rtSentOnce := rtSentOnce s1, wOfferAt := wOfferAt s1,
      wOfferLock := wOfferLock s1, wAttemptAt := wAttemptAt s1\<rparr>"
    using assms(1) by (simp add: gate_keeps_def)
  have b: "s2 = s1\<lparr>rtIsOfferer := rtIsOfferer s2, rtSentOnce := rtSentOnce s2, wOfferAt := wOfferAt s2,
      wOfferLock := wOfferLock s2, wAttemptAt := wAttemptAt s2\<rparr>"
    using assms(2) by (simp add: gate_keeps_def)
  have ok: "rtEmitOk s1 = rtEmitOk s"
    by (subst a) simp
  have "s2 = s\<lparr>rtIsOfferer := rtIsOfferer s2, rtSentOnce := rtSentOnce s2, wOfferAt := wOfferAt s2,
      wOfferLock := wOfferLock s2, wAttemptAt := wAttemptAt s2\<rparr>"
    by (subst b, subst a) simp
  moreover have "if rtEmitOk s then wOfferAt s2 = wOfferAt s \<and> rtSentOnce s2 = rtSentOnce s else True"
    using assms ok unfolding gate_keeps_def by (simp split: if_splits)
  ultimately show ?thesis
    by (simp add: gate_keeps_def)
qed

lemma gate_keeps_sel:
  assumes "gate_keeps s s'"
  shows "rtPc s' = rtPc s" "rtCalls s' = rtCalls s" "rtSent s' = rtSent s" "rtEmitOk s' = rtEmitOk s"
    "rtInFlight s' = rtInFlight s" "rtEmittingRestart s' = rtEmittingRestart s"
    "rtGotAnswerAt s' = rtGotAnswerAt s" "rtAnsweredAt s' = rtAnsweredAt s" "rtRestartCount s' = rtRestartCount s"
    "rtIceEverOk s' = rtIceEverOk s" "rtGen s' = rtGen s" "rtBornAt s' = rtBornAt s"
    "has_remote s' = has_remote s" "rtRestartAt s' = rtRestartAt s" "rtPendingIce s' = rtPendingIce s"
    "rtEmitOk s \<Longrightarrow> wOfferAt s' = wOfferAt s"
proof -
  have a: "s' = s\<lparr>rtIsOfferer := rtIsOfferer s', rtSentOnce := rtSentOnce s', wOfferAt := wOfferAt s',
      wOfferLock := wOfferLock s', wAttemptAt := wAttemptAt s'\<rparr>"
    using assms by (simp add: gate_keeps_def)
  show "rtPc s' = rtPc s" "rtCalls s' = rtCalls s" "rtSent s' = rtSent s" "rtEmitOk s' = rtEmitOk s"
    "rtInFlight s' = rtInFlight s" "rtEmittingRestart s' = rtEmittingRestart s"
    "rtGotAnswerAt s' = rtGotAnswerAt s" "rtAnsweredAt s' = rtAnsweredAt s" "rtRestartCount s' = rtRestartCount s"
    "rtIceEverOk s' = rtIceEverOk s" "rtGen s' = rtGen s" "rtBornAt s' = rtBornAt s"
    "has_remote s' = has_remote s" "rtRestartAt s' = rtRestartAt s" "rtPendingIce s' = rtPendingIce s"
    by (subst a, simp add: has_remote_def)+
  show "rtEmitOk s \<Longrightarrow> wOfferAt s' = wOfferAt s"
    using assms by (simp add: gate_keeps_def)
qed

lemma gate_match_keeps: "gate_keeps s (snd (gate_match now r s))"
  by (simp add: gate_match_def gate_keeps_def free_stamp_def free_lock_def Let_def)

lemma gate_sent_keeps: "gate_keeps s (snd (gate_sent now r s))"
  by (simp add: gate_sent_def gate_keeps_def)

lemma gate_lock_keeps: "gate_keeps s (snd (gate_lock e r s))"
  by (simp add: gate_lock_def gate_keeps_def)

lemma offer_gates_keeps: "gate_keeps s (snd (offer_gates e r b s))"
proof -
  define g1 where "g1 = (if evMulti e then (None, s) else gate_match (evNow e) r s)"
  have k1: "gate_keeps s (snd g1)"
    by (simp add: g1_def gate_match_keeps)
  have k2: "gate_keeps s (snd (gate_sent (evNow e) r (snd g1)))"
    by (rule gate_keeps_trans [OF k1 gate_sent_keeps])
  have k3: "gate_keeps s (snd (gate_lock e r (snd (gate_sent (evNow e) r (snd g1)))))"
    by (rule gate_keeps_trans [OF k2 gate_lock_keeps])
  have "gate_keeps s (s\<lparr>rtIsOfferer := False\<rparr>)"
    by (simp add: gate_keeps_def)
  then show ?thesis
    using k1 k2 k3 unfolding offer_gates_def g1_def [symmetric]
    by (auto split: option.split prod.split)
qed

lemma createAndSendOffer_cases:
  obtains r s' where "createAndSendOffer e opts fc s = (Some r, s')" "gate_keeps s s'"
  | s' c where "createAndSendOffer e opts fc s = (None, s'\<lparr>rtInFlight := True, rtCalls := rtCalls s' @ [c]\<rparr>)"
      "offer_gates e (ooRestart opts) (ooEarlyBlack opts) s = (None, s')" "gate_keeps s s'"
      "c = \<lparr>ocGen = 0, ocRestart = ooRestart opts, ocEarlyBlack = ooEarlyBlack opts, ocRetry = ooRetry opts,
            ocConnect = fc, ocStage = OfSync, ocHang = False\<rparr>"
proof -
  obtain r s' where g: "offer_gates e (ooRestart opts) (ooEarlyBlack opts) s = (r, s')"
    by (cases "offer_gates e (ooRestart opts) (ooEarlyBlack opts) s")
  then have k: "gate_keeps s s'"
    using offer_gates_keeps [of s e "ooRestart opts" "ooEarlyBlack opts"] by simp
  show thesis
  proof (cases r)
    case (Some x)
    then show thesis
      using that(1) [of x s'] g k by (simp add: createAndSendOffer_def)
  next
    case None
    then show thesis
      using that(2) [OF _ _ k refl] g by (simp add: createAndSendOffer_def)
  qed
qed

text \<open>What a call that passed the gates knows.\<close>

lemma offer_gates_pass:
  assumes "offer_gates e r b s = (None, s')"
  obtains p s2 where "\<not> rtAnswerOnly s" "rtPc s = Some p" "rtIsOfferer s" "\<not> rtInFlight s" "gate_keeps s s2"
    "gate_pc e r b p s2 = None" "\<not> (\<not> r \<and> rtSentOnce s \<and> rtEmitOk s)"
proof -
  have ao: "\<not> rtAnswerOnly s"
    using assms by (auto simp: offer_gates_def)
  obtain p where p: "rtPc s = Some p"
    using assms ao by (cases "rtPc s") (auto simp: offer_gates_def)
  have off: "rtIsOfferer s" "\<not> rtInFlight s"
    using assms ao p by (auto simp: offer_gates_def split: if_splits)
  define g1 where "g1 = (if evMulti e then (None, s) else gate_match (evNow e) r s)"
  have k1: "gate_keeps s (snd g1)"
    by (simp add: g1_def gate_match_keeps)
  define g2 where "g2 = gate_sent (evNow e) r (snd g1)"
  have k2: "gate_keeps s (snd g2)"
    unfolding g2_def by (rule gate_keeps_trans [OF k1 gate_sent_keeps])
  have eq: "offer_gates e r b s =
      (case fst g1 of Some x \<Rightarrow> (Some x, snd g1)
       | None \<Rightarrow> (case fst g2 of Some x \<Rightarrow> (Some x, snd g2)
           | None \<Rightarrow> (case gate_pc e r b p (snd g2) of Some x \<Rightarrow> (Some x, snd g2) | None \<Rightarrow> gate_lock e r (snd g2))))"
    unfolding offer_gates_def g2_def g1_def [symmetric] using ao p off
    by (cases g1; cases "gate_sent (evNow e) r (snd g1)") (simp split: option.split)
  have "fst g1 = None" "fst g2 = None" and g: "gate_pc e r b p (snd g2) = None"
    using assms unfolding eq by (auto split: option.splits)
  then have "\<not> (\<not> r \<and> rtSentOnce (snd g1) \<and> rtEmitOk (snd g1))"
    by (auto simp: g2_def gate_sent_def split: if_splits)
  moreover have "rtEmitOk (snd g1) = rtEmitOk s"
    by (rule gate_keeps_sel(4) [OF k1])
  moreover have "rtSentOnce (snd g1) = rtSentOnce s"
    by (simp add: g1_def gate_match_def free_stamp_def free_lock_def Let_def)
  ultimately show thesis
    using that [OF ao p off k2 g] by simp
qed

lemma createAndSendOffer_refused:
  assumes "\<And>s'. offer_gates e (ooRestart opts) (ooEarlyBlack opts) s \<noteq> (None, s')"
  obtains r s' where "createAndSendOffer e opts fc s = (Some r, s')" "gate_keeps s s'"
proof (rule createAndSendOffer_cases [of e opts fc s])
  fix s' c
  assume "offer_gates e (ooRestart opts) (ooEarlyBlack opts) s = (None, s')"
  with assms [of s'] show thesis by contradiction
qed (rule that)

section \<open>Renegotiation and restarts\<close>

lemma promote_never_offers:
  "case rtPc s of
     None \<Rightarrow> promoteVideoSend e flipped s = (None, s)
   | Some p \<Rightarrow>
       if pcCurRemote p \<noteq> None
       then fst (promoteVideoSend e flipped s) \<noteq> Some None \<and>
            rtCalls (snd (promoteVideoSend e flipped s)) = rtCalls s \<and>
            rtSent (snd (promoteVideoSend e flipped s)) = rtSent s
       else True"
proof (cases "rtPc s")
  case None
  then show ?thesis by (simp add: promoteVideoSend_def)
next
  case (Some p)
  show ?thesis
  proof (cases "pcCurRemote p \<noteq> None \<and> pcSignaling p = SdpStable")
    case True
    then have "gate_pc e False b p s' \<noteq> None" for b s'
      by (simp add: gate_pc_def)
    have refuse: "offer_gates e False False (s\<lparr>rtPromoted := True\<rparr>) \<noteq> (None, s')" for s'
    proof
      assume "offer_gates e False False (s\<lparr>rtPromoted := True\<rparr>) = (None, s')"
      then obtain q s2 where "rtPc s = Some q" "gate_pc e False False q s2 = None"
        by (rule offer_gates_pass) simp
      moreover from \<open>\<And>s' b. gate_pc e False b p s' \<noteq> None\<close> have "gate_pc e False False p s2 \<noteq> None" .
      ultimately show False using Some by simp
    qed
    obtain r s' where "createAndSendOffer e plain_offer False (s\<lparr>rtPromoted := True\<rparr>) = (Some r, s')"
      "gate_keeps (s\<lparr>rtPromoted := True\<rparr>) s'"
      by (rule createAndSendOffer_refused [of e plain_offer "s\<lparr>rtPromoted := True\<rparr>" False])
        (simp_all add: plain_offer_def refuse)
    with gate_keeps_sel(2,3) [OF this(2)] Some show ?thesis
      by (simp add: promoteVideoSend_def)
  next
    case False
    with Some show ?thesis
      by (auto simp: promoteVideoSend_def)
  qed
qed

text \<open>The restart of an established call asks for an offer that the gates refuse for 45 seconds.\<close>

lemma restart_refused:
  assumes "rtIsOfferer s" "has_remote s" "pc_age (evNow e) s < 45000"
  shows "offer_gates e True b s \<noteq> (None, s')"
proof
  assume "offer_gates e True b s = (None, s')"
  then obtain p s2 where k: "gate_keeps s s2" and g: "gate_pc e True b p s2 = None"
    by (rule offer_gates_pass)
  have "pc_age (evNow e) s2 = pc_age (evNow e) s"
    using gate_keeps_sel(12) [OF k] by (simp add: pc_age_def)
  then have "has_remote s2" "pc_age (evNow e) s2 < 45000"
    using assms gate_keeps_sel(13) [OF k] by simp_all
  with g show False
    by (auto simp: gate_pc_def offer_ice_grace_def split: if_splits)
qed

lemma early_restart_wasted:
  "if rtIsOfferer s \<and> has_remote s \<and> \<not> rtIceEverOk s \<and> pc_age (evNow e) s < 45000
   then case tryIceRestart e force early s of
     (v, s') \<Rightarrow>
       rtCalls s' = rtCalls s \<and> rtSent s' = rtSent s \<and>
       (if s' = s then v \<notin> range RsOffer
        else rtRestartCount s' = rtRestartCount s + 1 \<and>
             (if rtRestartCount s \<ge> 0 then tryIceRestart e2 force2 early2 s' = (RsUsed, s') else True))
   else True"
proof (cases "rtIsOfferer s \<and> has_remote s \<and> \<not> rtIceEverOk s \<and> pc_age (evNow e) s < 45000")
  case True
  define s1 where "s1 = s\<lparr>rtRestartAt := evNow e, rtRestartCount := rtRestartCount s + 1, rtEmittingRestart := True\<rparr>"
  define opts where "opts = \<lparr>ooRestart = True, ooEarlyBlack = early, ooRetry = False\<rparr>"
  have "pc_age (evNow e) s1 = pc_age (evNow e) s"
    by (simp add: s1_def pc_age_def)
  then have s1: "rtIsOfferer s1" "has_remote s1" "pc_age (evNow e) s1 < 45000"
    using True by (simp_all add: s1_def has_remote_def)
  obtain r s2 where c: "createAndSendOffer e opts False s1 = (Some r, s2)" and k: "gate_keeps s1 s2"
    by (rule createAndSendOffer_refused [of e opts s1 False]) (simp_all add: opts_def restart_refused [OF s1])
  have sel: "rtCalls s2 = rtCalls s" "rtSent s2 = rtSent s" "rtRestartCount s2 = rtRestartCount s + 1"
    "has_remote s2" "\<not> rtIceEverOk s2" "rtPc s2 = rtPc s"
    using gate_keeps_sel(1,2,3,9,10,13) [OF k] True by (simp_all add: s1_def has_remote_def)
  define s3 where "s3 = s2\<lparr>rtEmittingRestart := False\<rparr>"
  have s3: "rtCalls s3 = rtCalls s" "rtSent s3 = rtSent s" "rtRestartCount s3 = rtRestartCount s + 1"
    "has_remote s3" "\<not> rtIceEverOk s3" "rtPc s3 = rtPc s"
    using sel by (simp_all add: s3_def has_remote_def)
  have ne: "s3 \<noteq> s"
    using s3(3) by auto
  have used: "tryIceRestart e2 force2 early2 s3 = (RsUsed, s3)" if "rtRestartCount s \<ge> 0" "rtPc s \<noteq> None"
    using that s3 by (auto simp: tryIceRestart_def Let_def)
  show ?thesis
  proof (cases "rtPc s")
    case None
    then show ?thesis by (auto simp: tryIceRestart_def)
  next
    case (Some p)
    have "tryIceRestart e force early s = (RsOffer (Some r), s3) \<or>
      (\<exists>v. v \<notin> range RsOffer \<and> tryIceRestart e force early s = (v, s))"
      using Some True c unfolding tryIceRestart_def opts_def s1_def s3_def
      by (auto simp: Let_def)
    then show ?thesis
      using True s3 ne used Some by auto
  qed
qed (simp only: if_False)

section \<open>Offers on the wire are apart\<close>

fun is_offer :: "rtc_signal \<Rightarrow> bool" where
  "is_offer (SigOffer d) = True"
| "is_offer m = False"

text \<open>The times of the offers given to \<open>onSignal\<close>, newest first.\<close>

definition offer_times :: "(int \<times> rtc_signal) list \<Rightarrow> int list" where
  "offer_times ms = map fst (filter (\<lambda>m. is_offer (snd m)) ms)"

fun offers_apart :: "int list \<Rightarrow> bool" where
  "offers_apart (x # y # zs) = (y + 12000 \<le> x \<and> offers_apart (y # zs))"
| "offers_apart zs = True"

fun newest_by :: "int \<Rightarrow> int list \<Rightarrow> bool" where
  "newest_by t (x # xs) = (x \<le> t)"
| "newest_by t [] = True"

lemma apart_Cons: "newest_by w xs \<Longrightarrow> w + 12000 \<le> t \<Longrightarrow> offers_apart xs \<Longrightarrow> offers_apart (t # xs)"
  by (cases xs) auto

lemma newest_by_mono: "newest_by w xs \<Longrightarrow> w \<le> t \<Longrightarrow> newest_by t xs"
  by (cases xs) auto

text \<open>Events on one connection: no restart, no rejected promise, no rebuild or tear-down. Whoever else in the
  page writes the stamp of the match, be it another connection that sends its offer, does not set it back
  once this connection's offer is out.\<close>

fun plain_page :: "int \<Rightarrow> rtc \<Rightarrow> page_op \<Rightarrow> bool" where
  "plain_page before s (PgStamps stamp lock attempt) = (rtEmitOk s \<longrightarrow> wOfferAt s \<le> stamp)"
| "plain_page before s (PgKick e) = (before \<le> evNow e \<and> 0 < evNow e)"
| "plain_page before s (PgSolo e) = (before \<le> evNow e \<and> 0 < evNow e)"
| "plain_page before s (PgTear now) = False"
| "plain_page before s op = True"

fun plain_event :: "int \<Rightarrow> rtc \<Rightarrow> rtc_event \<Rightarrow> bool" where
  "plain_event before s (EvConnect e b) = False"
| "plain_event before s (EvClose now b) = False"
| "plain_event before s (EvRejected i) = False"
| "plain_event before s (EvRestart e f) = False"
| "plain_event before s (EvProbe e pr) = False"
| "plain_event before s (EvBlackWatch e f ms) = (ms \<noteq> 20000)"
| "plain_event before s (EvIceState e) = (case rtPc s of None \<Rightarrow> True | Some p \<Rightarrow> pcIce p \<noteq> IceFailed)"
| "plain_event before s (EvGathered e b n d i) =
     (before \<le> evNow e \<and> 0 < evNow e \<and> \<not> (i < length (rtCalls s) \<and> offer_rebuilds e n (rtCalls s ! i)))"
| "plain_event before s (EvPage op) = plain_page before s op"
| "plain_event before s ev = True"

fun event_time :: "int \<Rightarrow> rtc_event \<Rightarrow> int" where
  "event_time before (EvGathered e b n d i) = evNow e"
| "event_time before (EvPage (PgKick e)) = evNow e"
| "event_time before (EvPage (PgSolo e)) = evNow e"
| "event_time before ev = before"

fun plain_run :: "int \<Rightarrow> rtc \<Rightarrow> rtc_event list \<Rightarrow> bool" where
  "plain_run before s [] = True"
| "plain_run before s (ev # es) = (plain_event before s ev \<and> plain_run (event_time before ev) (rtc_step s ev) es)"

definition apart_inv :: "int \<Rightarrow> rtc \<Rightarrow> bool" where
  "apart_inv before s \<longleftrightarrow>
     \<not> rtEmittingRestart s \<and> list_all (\<lambda>c. \<not> ocRestart c) (rtCalls s) \<and> rtPc s \<noteq> None \<and>
     offers_apart (offer_times (rtSent s)) \<and>
     (if rtEmitOk s
      then 0 < wOfferAt s \<and> newest_by (wOfferAt s) (offer_times (rtSent s)) \<and> newest_by before (offer_times (rtSent s))
      else offer_times (rtSent s) = [])"

lemma apart_gates: "apart_inv before s \<Longrightarrow> gate_keeps s s' \<Longrightarrow> apart_inv before s'"
  using gate_keeps_sel [of s s'] by (simp add: apart_inv_def)

lemma apart_offer:
  assumes "apart_inv before s" "\<not> ooRestart opts"
  shows "apart_inv before (snd (createAndSendOffer e opts fc s))"
proof (rule createAndSendOffer_cases [of e opts fc s])
  fix r s' assume "createAndSendOffer e opts fc s = (Some r, s')" "gate_keeps s s'"
  with apart_gates assms(1) show ?thesis by simp
next
  fix s' c
  assume c: "createAndSendOffer e opts fc s = (None, s'\<lparr>rtInFlight := True, rtCalls := rtCalls s' @ [c]\<rparr>)"
    "gate_keeps s s'"
    "c = \<lparr>ocGen = 0, ocRestart = ooRestart opts, ocEarlyBlack = ooEarlyBlack opts, ocRetry = ooRetry opts,
          ocConnect = fc, ocStage = OfSync, ocHang = False\<rparr>"
  have "apart_inv before s'"
    using apart_gates assms(1) c(2) .
  with c assms(2) show ?thesis by (simp add: apart_inv_def)
qed

lemma upd_call_sel [simp]:
  "rtPc (upd_call i f s) = rtPc s" "rtSent (upd_call i f s) = rtSent s" "rtEmitOk (upd_call i f s) = rtEmitOk s"
  "wOfferAt (upd_call i f s) = wOfferAt s" "rtEmittingRestart (upd_call i f s) = rtEmittingRestart s"
  "rtGen (upd_call i f s) = rtGen s" "length (rtCalls (upd_call i f s)) = length (rtCalls s)"
  "rtIsOfferer (upd_call i f s) = rtIsOfferer s" "rtAnswerOnly (upd_call i f s) = rtAnswerOnly s"
  "rtInFlight (upd_call i f s) = rtInFlight s" "wOfferLock (upd_call i f s) = wOfferLock s"
  by (simp_all add: upd_call_def)

lemma upd_call_nth:
  "i < length (rtCalls s) \<Longrightarrow> rtCalls (upd_call i f s) ! j = (if j = i then f (rtCalls s ! i) else rtCalls s ! j)"
  by (simp add: upd_call_def nth_list_update)

lemma upd_call_all:
  "list_all P (rtCalls s) \<Longrightarrow> (\<And>c. P c \<Longrightarrow> P (f c)) \<Longrightarrow> list_all P (rtCalls (upd_call i f s))"
  by (simp add: upd_call_def list_all_length nth_list_update)

lemma apart_upd: "apart_inv before s \<Longrightarrow> (\<And>c. ocRestart (f c) = ocRestart c) \<Longrightarrow> apart_inv before (upd_call i f s)"
  unfolding apart_inv_def by (simp add: upd_call_all)

lemma apart_finally: "apart_inv before s \<Longrightarrow> apart_inv before (offer_finally i s)"
  using apart_upd [of before s "\<lambda>c. c\<lparr>ocStage := OfDone, ocHang := False\<rparr>" i]
  unfolding offer_finally_def free_unsent_def Let_def apart_inv_def by (auto split: if_splits)

lemma apart_fields:
  "apart_inv before s \<Longrightarrow> rtPc s' \<noteq> None \<Longrightarrow> rtCalls s' = rtCalls s \<Longrightarrow> rtSent s' = rtSent s \<Longrightarrow> rtEmitOk s' = rtEmitOk s \<Longrightarrow>
   (rtEmitOk s \<Longrightarrow> wOfferAt s' = wOfferAt s) \<Longrightarrow> rtEmittingRestart s' = rtEmittingRestart s \<Longrightarrow> apart_inv before s'"
  by (simp add: apart_inv_def)

lemma apart_hang: "apart_inv before s \<Longrightarrow> apart_inv before (offer_hang i s)"
proof -
  assume a: "apart_inv before s"
  have "apart_inv before (upd_call i (\<lambda>c. c\<lparr>ocHang := False\<rparr>) s)" (is "apart_inv before ?u")
    by (rule apart_upd [OF a]) simp
  moreover have "rtPc s \<noteq> None"
    using a by (simp add: apart_inv_def)
  ultimately show ?thesis
    unfolding offer_hang_def Let_def by (auto intro: apart_fields [of before ?u])
qed

lemma apart_later: "apart_inv before s \<Longrightarrow> before \<le> before' \<Longrightarrow> apart_inv before' s"
  by (auto simp: apart_inv_def intro: newest_by_mono split: if_splits)

lemma apart_emit:
  assumes a: "apart_inv before s" and i: "i < length (rtCalls s)" and t: "before \<le> evNow e" "0 < evNow e"
  shows "apart_inv (evNow e) (offer_emit e made i s)"
proof (cases "rtGen s \<noteq> ocGen (rtCalls s ! i)")
  case True
  then show ?thesis
    using apart_finally [OF apart_later [OF a t(1)]] by (simp add: offer_emit_def)
next
  case False
  obtain p where p: "rtPc s = Some p"
    using a by (auto simp: apart_inv_def)
  define d where "d = outgoing (evIce e) (case pcLocal p of None \<Rightarrow> made | Some d \<Rightarrow> d)"
  define s2 where "s2 = (emitSignal (evNow e) (SigOffer d) s)
     \<lparr>rtLastOfferAt := evNow e, rtEmitOk := True, rtSentOnce := True, wOfferAt := evNow e, wAttemptAt := evNow e,
      wOfferLock := True, rtStuck := [2000, 6000, 20000], rtWatch := False\<rparr>"
  have nr: "\<not> ocRestart (rtCalls s ! i)"
    using a i by (simp add: apart_inv_def list_all_length)
  have eq: "offer_emit e made i s = offer_finally i s2"
    using False p nr by (simp add: offer_emit_def s2_def d_def Let_def)
  have flag: "\<not> rtEmittingRestart s"
    using a by (simp add: apart_inv_def)
  have sent: "rtSent s2 = (if rtEmitOk s \<and> evNow e - wOfferAt s < 12000 then rtSent s
      else (evNow e, SigOffer d) # rtSent s)"
    using a flag by (auto simp: s2_def emitSignal_def Let_def apart_inv_def)
  have other: "rtCalls s2 = rtCalls s" "rtPc s2 = Some p" "rtEmitOk s2" "wOfferAt s2 = evNow e"
    "\<not> rtEmittingRestart s2"
    using p flag by (simp_all add: s2_def emitSignal_def Let_def)
  have "apart_inv (evNow e) s2"
    using a t sent other unfolding apart_inv_def
    by (auto simp: offer_times_def intro: apart_Cons newest_by_mono [of before] split: if_splits)
  then show ?thesis
    unfolding eq by (rule apart_finally)
qed

lemma apart_promote: "apart_inv before s \<Longrightarrow> apart_inv before (snd (promoteVideoSend e flipped s))"
proof -
  assume a: "apart_inv before s"
  then have "rtPc s \<noteq> None" by (simp add: apart_inv_def)
  then have "apart_inv before (s\<lparr>rtPromoted := True\<rparr>)"
    by (intro apart_fields [OF a]) simp_all
  then have "apart_inv before (snd (createAndSendOffer e plain_offer False (s\<lparr>rtPromoted := True\<rparr>)))"
    by (rule apart_offer) (simp add: plain_offer_def)
  with a show ?thesis
    unfolding promoteVideoSend_def by (simp add: case_prod_unfold split: option.split)
qed

lemma apart_watchdog: "apart_inv before s \<Longrightarrow> apart_inv before (offer_watchdog e s)"
proof -
  assume a: "apart_inv before s"
  then have "rtPc s \<noteq> None" by (simp add: apart_inv_def)
  then have w: "apart_inv before (s\<lparr>rtWatch := False\<rparr>)"
    by (intro apart_fields [OF a]) simp_all
  then have "apart_inv before (snd (createAndSendOffer e plain_offer False (s\<lparr>rtWatch := False\<rparr>)))"
    by (rule apart_offer) (simp add: plain_offer_def)
  with w show ?thesis
    unfolding offer_watchdog_def Let_def by (simp split: option.split)
qed

lemma apart_reconnected:
  assumes a: "apart_inv before s" and i: "i < length (rtCalls s)"
  shows "apart_inv before (offer_reconnected e i s)"
proof -
  define c where "c = rtCalls s ! i"
  define opts where "opts = \<lparr>ooRestart = ocRestart c, ooEarlyBlack = ocEarlyBlack c, ooRetry = True\<rparr>"
  have "\<not> ooRestart opts"
    using a i by (simp add: apart_inv_def list_all_length opts_def c_def)
  then have o: "apart_inv before (snd (createAndSendOffer e opts (ocConnect c) s))" (is "apart_inv before ?s'")
    by (rule apart_offer [OF a])
  have f: "apart_inv before (offer_finally i ?s')"
    by (rule apart_finally [OF o])
  have pc: "rtPc (offer_finally i ?s') \<noteq> None" "rtEmittingRestart (offer_finally i ?s') = rtEmittingRestart ?s'"
    using f o by (auto simp: apart_inv_def)
  have "apart_inv before ((offer_finally i ?s')\<lparr>rtEmittingRestart := rtEmittingRestart ?s', rtWatch := rtWatch ?s'\<rparr>)"
    by (rule apart_fields [OF f]) (simp_all add: pc)
  with f show ?thesis
    unfolding offer_reconnected_def Let_def opts_def c_def
    by (simp add: case_prod_unfold split: option.split)
qed

lemma apart_ice_state:
  assumes a: "apart_inv before s" and "rtPc s = Some p" "pcIce p \<noteq> IceFailed"
  shows "apart_inv before (on_ice_state e s)"
  using assms unfolding on_ice_state_def Let_def
  by (intro apart_fields [OF a])
    (auto simp: scheduleDisconnectedIceProbe_def clearDisconnectedIceProbe_def)

text \<open>The page sends only what has not left yet.\<close>

lemma apart_reemit:
  assumes a: "apart_inv before s" and "\<not> rtEmitOk s" "wOfferAt s = 0" "0 < evNow e"
  shows "apart_inv (evNow e) (reemit_local e d s)"
  using assms by (simp add: apart_inv_def reemit_local_def emitSignal_def Let_def offer_times_def)

lemma apart_page:
  assumes a: "apart_inv before s" and op: "plain_page before s op"
  shows "apart_inv (event_time before (EvPage op)) (page_step s op)"
proof -
  obtain p where p: "rtPc s = Some p"
    using a by (auto simp: apart_inv_def)
  have set: "apart_inv before s'" if "rtPc s' = rtPc s" "rtCalls s' = rtCalls s" "rtSent s' = rtSent s"
    "rtEmitOk s' = rtEmitOk s" "rtEmitOk s \<Longrightarrow> wOfferAt s' = wOfferAt s" "rtEmittingRestart s' = rtEmittingRestart s" for s'
    by (rule apart_fields [OF a _ that(2-6)]) (simp_all add: that p)
  have first: "apart_inv before (snd (createAndSendOffer e plain_offer False s'))" if "apart_inv before s'" for e s'
    by (rule apart_offer [OF that]) (simp add: plain_offer_def)
  show ?thesis
  proof (cases op)
    case (PgStamps stamp lock attempt)
    with a op show ?thesis
      by (auto simp: apart_inv_def page_stamps_def intro: newest_by_mono)
  next
    case (PgKick e)
    have "apart_inv (evNow e) ((reemit_local e d (page_stamps 0 False 0 s))\<lparr>wAttemptAt := evNow e\<rparr>)" if "\<not> rtEmitOk s" for d
    proof -
      have "apart_inv before (page_stamps 0 False 0 s)"
        by (rule set) (simp_all add: page_stamps_def that)
      from apart_reemit [OF this, of e d] that op PgKick
      have r: "apart_inv (evNow e) (reemit_local e d (page_stamps 0 False 0 s))"
        by (simp add: page_stamps_def)
      then have "rtPc (reemit_local e d (page_stamps 0 False 0 s)) \<noteq> None" by (simp add: apart_inv_def)
      then show ?thesis by (intro apart_fields [OF r]) simp_all
    qed
    moreover have "apart_inv (evNow e) s"
      by (rule apart_later [OF a]) (use op PgKick in simp)
    ultimately show ?thesis
      using PgKick by (auto simp: kick_reemit_def real_sdp_def split: option.split)
  next
    case (PgSolo e)
    have "apart_inv (evNow e) (reemit_local e d (s\<lparr>wOfferAt := 0, wOfferLock := False\<rparr>))" if "\<not> rtEmitOk s" for d
    proof -
      have "apart_inv before (s\<lparr>wOfferAt := 0, wOfferLock := False\<rparr>)"
        by (rule set) (simp_all add: that)
      from apart_reemit [OF this, of e d] that op PgSolo show ?thesis by simp
    qed
    moreover have "apart_inv (evNow e) s"
      by (rule apart_later [OF a]) (use op PgSolo in simp)
    ultimately show ?thesis
      using PgSolo by (auto simp: solo_reemit_def split: option.split)
  next
    case (PgFirst e)
    have "apart_inv before (s\<lparr>wOfferLock := False, wOfferAt := 0\<rparr>)" if "\<not> rtEmitOk s"
      by (rule set) (simp_all add: that)
    with PgFirst a first show ?thesis by (simp add: solo_first_def)
  next
    case (PgYoung e)
    have "apart_inv before (s\<lparr>rtIsOfferer := True\<rparr>)" "apart_inv before (s\<lparr>rtIsOfferer := True, rtSentOnce := False\<rparr>)"
      by (rule set; simp)+
    with PgYoung a first show ?thesis by (simp add: solo_young_def Let_def)
  next
    case PgBudget
    have "apart_inv before (page_stamps 0 False 0 (s\<lparr>rtInFlight := False, rtSentOnce := False, rtLastOfferAt := 0\<rparr>))" if "\<not> rtEmitOk s"
      by (rule set) (simp_all add: page_stamps_def that)
    with PgBudget a show ?thesis by (simp add: solo_budget_def)
  next
    case (PgExtra c)
    have "apart_inv before (s\<lparr>rtIsOfferer := True, rtAnswerOnly := False, rtInFlight := False\<rparr>)"
      by (rule set) simp_all
    with PgExtra a show ?thesis by (simp add: force_extra_def)
  next
    case (PgJoin inbound)
    have "apart_inv before (s\<lparr>rtIsOfferer := False\<rparr>)"
      "\<not> rtEmitOk s \<Longrightarrow> apart_inv before (s\<lparr>rtIsOfferer := True, rtEmitOk := False, rtSentOnce := False\<rparr>)"
      by (rule set; simp)+
    with PgJoin a show ?thesis by (simp add: join_role_def)
  next
    case (PgOfferer on)
    have "apart_inv before (s\<lparr>rtIsOfferer := on\<rparr>)" by (rule set) simp_all
    with PgOfferer show ?thesis by simp
  next
    case PgAnswerOnly
    have "apart_inv before (s\<lparr>rtAnswerOnly := True, rtIsOfferer := False\<rparr>)" by (rule set) simp_all
    with PgAnswerOnly show ?thesis by simp
  next
    case PgRecovered
    have "apart_inv before (s\<lparr>rtRestartCount := 0\<rparr>)" by (rule set) simp_all
    with PgRecovered show ?thesis by simp
  qed (use op in simp)
qed

lemma apart_step:
  assumes a: "apart_inv before s" and ev: "plain_event before s ev"
  shows "apart_inv (event_time before ev) (rtc_step s ev)"
proof -
  obtain p where p: "rtPc s = Some p"
    using a by (auto simp: apart_inv_def)
  show ?thesis
  proof (cases ev)
    case (EvOffer e)
    then show ?thesis using apart_offer [OF a, of plain_offer] by (simp add: plain_offer_def)
  next
    case (EvView q)
    then show ?thesis using a p by (simp add: set_pc_def apart_inv_def)
  next
    case (EvSynced i)
    have "apart_inv before (s\<lparr>rtGen := rtGen s + 1\<rparr>)"
      by (rule apart_fields [OF a]) (simp_all add: p)
    then have "apart_inv before (upd_call i (\<lambda>c. c\<lparr>ocGen := rtGen s + 1, ocStage := OfCreate, ocHang := True\<rparr>)
        (s\<lparr>rtGen := rtGen s + 1\<rparr>))"
      by (rule apart_upd) simp
    with EvSynced a p show ?thesis by (simp add: offer_synced_def Let_def)
  next
    case (EvCreated i)
    then show ?thesis using apart_finally [OF a] apart_upd [OF a] a p by (simp add: offer_created_def)
  next
    case (EvLocalSet i)
    then show ?thesis using apart_finally [OF a] apart_upd [OF a] a p by (simp add: offer_local_set_def)
  next
    case (EvGathered e b n d i)
    have t: "before \<le> evNow e" "0 < evNow e"
      using ev EvGathered by simp_all
    show ?thesis
    proof (cases "at_stage i OfGather s")
      case True
      then have "\<not> offer_rebuilds e n (rtCalls s ! i)" "i < length (rtCalls s)"
        using ev EvGathered by (simp_all add: at_stage_def)
      with True EvGathered apart_emit [OF a _ t] show ?thesis by (simp add: offer_gathered_def)
    next
      case False
      with EvGathered apart_later [OF a t(1)] show ?thesis by simp
    qed
  next
    case (EvReconnected e i)
    then show ?thesis using apart_reconnected [OF a] a by (simp add: at_stage_def)
  next
    case (EvHang i)
    then show ?thesis using apart_hang [OF a] a by simp
  next
    case (EvWatchdog e)
    then show ?thesis using apart_watchdog [OF a] a by simp
  next
    case (EvBlackWatch e f ms)
    have "apart_inv before (s\<lparr>rtStuck := removeAll ms (rtStuck s)\<rparr>)"
      by (rule apart_fields [OF a]) (simp_all add: p)
    with EvBlackWatch ev a p show ?thesis by (simp add: black_watch_def Let_def)
  next
    case (EvIceState e)
    with ev p show ?thesis using apart_ice_state [OF a p] by simp
  next
    case EvConnState
    have "apart_inv before (s\<lparr>rtIceEverOk := True\<rparr>)"
      by (rule apart_fields [OF a]) (simp_all add: p)
    with EvConnState a p show ?thesis by (simp add: on_connection_state_def)
  next
    case (EvPromote e f)
    then show ?thesis using apart_promote [OF a] by simp
  next
    case (EvPage op)
    with ev apart_page [OF a] show ?thesis by simp
  qed (use ev in simp_all)
qed

lemma apart_run: "apart_inv before s \<Longrightarrow> plain_run before s es \<Longrightarrow> offers_apart (offer_times (rtSent (foldl rtc_step s es)))"
proof (induction es arbitrary: before s)
  case Nil
  then show ?case by (simp add: apart_inv_def)
next
  case (Cons ev es)
  then have "apart_inv (event_time before ev) (rtc_step s ev)"
    by (simp add: apart_step)
  with Cons show ?case by simp
qed

lemma connect_makes:
  "rtPc s = None \<Longrightarrow> rtc_connect e born s =
     (let ice = fst (connect_warm e)
      in (ice, connect_offer (e\<lparr>evIce := ice\<rparr>) (new_connection e ice born s)))"
  by (simp add: rtc_connect_def needs_relay_rebuild_def pc_in_use_def Let_def new_connection_def)

lemma apart_connect: "apart_inv before (snd (rtc_connect e born (page_stamps stamp lock attempt (new_rtc offerer))))"
proof -
  define ice where "ice = fst (connect_warm e)"
  define s1 where "s1 = new_connection e ice born (page_stamps stamp lock attempt (new_rtc offerer))"
  have j: "apart_inv before s1" "apart_inv before (arm_offer_watchdog s1)"
    by (simp_all add: s1_def new_connection_def new_rtc_def page_stamps_def arm_offer_watchdog_def apart_inv_def offer_times_def)
  have o: "apart_inv before (snd (createAndSendOffer (e\<lparr>evIce := ice\<rparr>) plain_offer True (arm_offer_watchdog s1)))"
    by (rule apart_offer [OF j(2)]) (simp add: plain_offer_def)
  have pc: "rtPc (snd (createAndSendOffer (e\<lparr>evIce := ice\<rparr>) plain_offer True (arm_offer_watchdog s1))) \<noteq> None"
    using o by (simp add: apart_inv_def)
  have "apart_inv before (connect_offer (e\<lparr>evIce := ice\<rparr>) s1)"
    using j o apart_fields [OF o] pc unfolding connect_offer_def
    by (simp add: case_prod_unfold split: option.split)
  then show ?thesis
    by (subst connect_makes) (simp_all add: new_rtc_def page_stamps_def s1_def ice_def Let_def)
qed

section \<open>Rebuilding for want of a relay\<close>

text \<open>Call \<open>k\<close> of the page waits for a relay candidate and nothing has gone out yet.\<close>

definition waiting_call :: "nat \<Rightarrow> rtc \<Rightarrow> bool" where
  "waiting_call k s \<longleftrightarrow>
     length (rtCalls s) = k + 1 \<and> at_stage k OfGather s \<and> ocGen (rtCalls s ! k) = rtGen s \<and>
     \<not> ocRestart (rtCalls s ! k) \<and> \<not> ocRetry (rtCalls s ! k) \<and> rtIsOfferer s \<and> \<not> rtAnswerOnly s \<and>
     rtPc s \<noteq> None \<and> rtSent s = []"

definition rebuild_round :: "rtc_env \<Rightarrow> description \<Rightarrow> nat \<Rightarrow> rtc_event list" where
  "rebuild_round e made k =
     [EvGathered e fresh_pc 0 made k, EvSynced (k + 1), EvCreated (k + 1), EvLocalSet (k + 1)]"

text \<open>A first offer on a new connection passes every gate.\<close>

lemma first_offer_passes:
  assumes "rtPc s = Some p" "pcCurRemote p = None" "rtIsOfferer s" "\<not> rtAnswerOnly s" "\<not> rtInFlight s"
    "wOfferAt s = 0" "\<not> wOfferLock s" "rtAnsweredAt s = 0" "rtGotAnswerAt s = 0" "\<not> rtSentOnce s" "\<not> rtEmitOk s"
  shows "createAndSendOffer e plain_offer fc s =
    (None, (if evMulti e then s else s\<lparr>wOfferLock := True, wAttemptAt := evNow e\<rparr>)
       \<lparr>rtInFlight := True, rtCalls := rtCalls s @ [\<lparr>ocGen = 0, ocRestart = False, ocEarlyBlack = False,
          ocRetry = False, ocConnect = fc, ocStage = OfSync, ocHang = False\<rparr>]\<rparr>)"
  using assms
  by (simp add: createAndSendOffer_def offer_gates_def gate_match_def gate_sent_def gate_pc_def gate_lock_def
      free_stamp_def free_lock_def plain_offer_def Let_def)

lemma first_offer_ready:
  assumes "at_stage k OfSync s" "rtPc s \<noteq> None"
  shows "rtc_step (rtc_step (rtc_step s (EvSynced k)) (EvCreated k)) (EvLocalSet k) =
    upd_call k (\<lambda>c. c\<lparr>ocGen := rtGen s + 1, ocStage := OfGather, ocHang := True\<rparr>) (s\<lparr>rtGen := rtGen s + 1\<rparr>)"
proof -
  define s1 where "s1 = upd_call k (\<lambda>c. c\<lparr>ocGen := rtGen s + 1, ocStage := OfCreate, ocHang := True\<rparr>) (s\<lparr>rtGen := rtGen s + 1\<rparr>)"
  have 1: "rtc_step s (EvSynced k) = s1"
    using assms by (auto simp: offer_synced_def s1_def Let_def at_stage_def)
  have a1: "at_stage k OfCreate s1" "ocGen (rtCalls s1 ! k) = rtGen s1" "rtPc s1 \<noteq> None"
    using assms by (simp_all add: s1_def at_stage_def upd_call_nth)
  define s2 where "s2 = upd_call k (\<lambda>c. c\<lparr>ocStage := OfSetLocal\<rparr>) s1"
  have 2: "rtc_step s1 (EvCreated k) = s2"
    using a1 by (auto simp: offer_created_def s2_def)
  have a2: "at_stage k OfSetLocal s2" "ocGen (rtCalls s2 ! k) = rtGen s2"
    using a1 by (simp_all add: s2_def at_stage_def upd_call_nth)
  have "rtc_step s2 (EvLocalSet k) = upd_call k (\<lambda>c. c\<lparr>ocStage := OfGather\<rparr>) s2"
    using a2 by (simp add: offer_local_set_def)
  with 1 2 show ?thesis
    using assms(1) by (cases "rtCalls s ! k") (simp add: s2_def s1_def upd_call_def at_stage_def)
qed

lemma rebuild_round_waits:
  assumes w: "waiting_call k s" and e: "isRelayMediaMode (evIce e)" "shouldWaitForFirstRelay (evIce e)" "\<not> evMulti e"
  shows "waiting_call (k + 1) (foldl rtc_step s (rebuild_round e made k))"
proof -
  define e' where "e' = e\<lparr>evIce := clearIceWarm (applyIceDirectPreference (evIce e))\<rparr>"
  define ice where "ice = fst (connect_warm e')"
  define s0 where "s0 = (upd_call k (\<lambda>c. c\<lparr>ocStage := OfReconnect\<rparr>) s)
     \<lparr>rtPc := None, rtRelayPc := False, rtInFlight := False, rtSentOnce := False, rtEmitOk := False,
      wOfferLock := False, wOfferAt := 0\<rparr>"
  define s1 where "s1 = arm_offer_watchdog (new_connection e' ice fresh_pc s0)"
  have off: "rtIsOfferer s" "\<not> rtAnswerOnly s"
    using w by (simp_all add: waiting_call_def)
  have n1: "rtPc s1 = Some fresh_pc" "rtIsOfferer s1" "\<not> rtAnswerOnly s1" "\<not> rtInFlight s1" "wOfferAt s1 = 0"
    "\<not> wOfferLock s1" "rtAnsweredAt s1 = 0" "rtGotAnswerAt s1 = 0" "\<not> rtSentOnce s1" "\<not> rtEmitOk s1"
    "rtSent s1 = []" "length (rtCalls s1) = k + 1" "rtGen s1 = rtGen s"
    using off w by (simp_all add: s1_def s0_def new_connection_def arm_offer_watchdog_def waiting_call_def)
  define s2 where "s2 = snd (createAndSendOffer (e'\<lparr>evIce := ice\<rparr>) plain_offer True s1)"
  have made: "createAndSendOffer (e'\<lparr>evIce := ice\<rparr>) plain_offer True s1 = (None, s2)"
    by (simp add: s2_def first_offer_passes [OF n1(1) _ n1(2-10)] fresh_pc_def)
  have n2: "rtPc s2 = Some fresh_pc" "rtIsOfferer s2" "\<not> rtAnswerOnly s2" "rtSent s2 = []"
    "length (rtCalls s2) = k + 2" "at_stage (k + 1) OfSync s2" "\<not> ocRestart (rtCalls s2 ! (k + 1))"
    "\<not> ocRetry (rtCalls s2 ! (k + 1))"
    using n1 unfolding s2_def
    by (simp_all add: first_offer_passes [OF n1(1) _ n1(2-10)] fresh_pc_def at_stage_def nth_append)
  have "rtc_step s (EvGathered e fresh_pc 0 made k) = snd (rtc_connect e' fresh_pc s0)"
    using w e by (simp add: waiting_call_def offer_gathered_def offer_rebuilds_def offer_rebuild_def Let_def e'_def s0_def)
  also have "\<dots> = connect_offer (e'\<lparr>evIce := ice\<rparr>) (new_connection e' ice fresh_pc s0)"
    by (subst connect_makes) (simp_all add: s0_def ice_def Let_def)
  also have "\<dots> = s2"
    using made off by (simp add: connect_offer_def s1_def new_connection_def s0_def)
  finally have step: "rtc_step s (EvGathered e fresh_pc 0 made k) = s2" .
  have "foldl rtc_step s (rebuild_round e made k) =
      upd_call (k + 1) (\<lambda>c. c\<lparr>ocGen := rtGen s2 + 1, ocStage := OfGather, ocHang := True\<rparr>) (s2\<lparr>rtGen := rtGen s2 + 1\<rparr>)"
    unfolding rebuild_round_def foldl.simps step
    by (rule first_offer_ready) (use n2 in simp_all)
  with n2 show ?thesis
    by (simp add: waiting_call_def at_stage_def upd_call_nth)
qed

lemma rebuild_rounds_wait:
  assumes "waiting_call k s"
    and "\<And>j. isRelayMediaMode (evIce (E j)) \<and> shouldWaitForFirstRelay (evIce (E j)) \<and> \<not> evMulti (E j)"
  shows "waiting_call (k + n) (foldl rtc_step s (concat (map (\<lambda>j. rebuild_round (E j) made j) [k..<k + n])))"
proof (induction n)
  case 0
  then show ?case using assms(1) by simp
next
  case (Suc n)
  then show ?case
    using rebuild_round_waits [OF Suc, of "E (k + n)" made] assms(2) [of "k + n"] by simp
qed

lemma first_connection_waits:
  assumes "\<not> evMulti e"
  shows "waiting_call 0 (foldl rtc_step (new_rtc True) [EvConnect e fresh_pc, EvSynced 0, EvCreated 0, EvLocalSet 0])"
proof -
  define ice where "ice = fst (connect_warm e)"
  define s1 where "s1 = arm_offer_watchdog (new_connection e ice fresh_pc (new_rtc True))"
  have n1: "rtPc s1 = Some fresh_pc" "rtIsOfferer s1" "\<not> rtAnswerOnly s1" "\<not> rtInFlight s1" "wOfferAt s1 = 0"
    "\<not> wOfferLock s1" "rtAnsweredAt s1 = 0" "rtGotAnswerAt s1 = 0" "\<not> rtSentOnce s1" "\<not> rtEmitOk s1"
    "rtSent s1 = []" "rtCalls s1 = []" "rtGen s1 = 0"
    by (simp_all add: s1_def new_rtc_def new_connection_def arm_offer_watchdog_def)
  define s2 where "s2 = snd (createAndSendOffer (e\<lparr>evIce := ice\<rparr>) plain_offer True s1)"
  have made: "createAndSendOffer (e\<lparr>evIce := ice\<rparr>) plain_offer True s1 = (None, s2)"
    by (simp add: s2_def first_offer_passes [OF n1(1) _ n1(2-10)] fresh_pc_def)
  have n2: "rtPc s2 = Some fresh_pc" "rtIsOfferer s2" "\<not> rtAnswerOnly s2" "rtSent s2 = []"
    "length (rtCalls s2) = 1" "at_stage 0 OfSync s2" "\<not> ocRestart (rtCalls s2 ! 0)" "\<not> ocRetry (rtCalls s2 ! 0)"
    using n1 unfolding s2_def
    by (simp_all add: first_offer_passes [OF n1(1) _ n1(2-10)] fresh_pc_def at_stage_def)
  have "rtc_step (new_rtc True) (EvConnect e fresh_pc) = connect_offer (e\<lparr>evIce := ice\<rparr>) (new_connection e ice fresh_pc (new_rtc True))"
    by (simp add: connect_makes new_rtc_def ice_def Let_def)
  also have "\<dots> = s2"
    using made by (simp add: connect_offer_def s1_def new_connection_def new_rtc_def)
  finally have step: "rtc_step (new_rtc True) (EvConnect e fresh_pc) = s2" .
  have "foldl rtc_step (new_rtc True) [EvConnect e fresh_pc, EvSynced 0, EvCreated 0, EvLocalSet 0] =
      upd_call 0 (\<lambda>c. c\<lparr>ocGen := rtGen s2 + 1, ocStage := OfGather, ocHang := True\<rparr>) (s2\<lparr>rtGen := rtGen s2 + 1\<rparr>)"
    unfolding foldl.simps step by (rule first_offer_ready) (use n2 in simp_all)
  with n2 show ?thesis
    by (simp add: waiting_call_def at_stage_def upd_call_nth)
qed

section \<open>What goes out under Hide IP\<close>

lemma outgoing_sdp_fail_open:
  assumes "sdp \<noteq> ''''" "filter (\<lambda>l. has_typ ''relay'' l) (js_lines sdp) = []"
  shows "filter host_line (js_lines (outgoing_sdp ice sdp)) = filter (\<lambda>l. host_line l \<and> \<not> mdns_line l) (js_lines sdp)
    \<or> (sessionForceRelay ice = False \<and> hideIpRelayOnlyEnabled ice = False)"
proof -
  define m where "m = stripMdnsHostCandidatesFromSdp sdp"
  have m: "js_lines m = (let ls = filter (\<lambda>l. \<not> mdns_line l) (js_lines sdp) in if ls = [] then [''''] else ls)"
    by (simp add: m_def strip_mdns_lines)
  have none: "filter (\<lambda>l. has_typ ''relay'' l) (js_lines m) = []"
    using assms(2) by (simp add: m Let_def filter_empty_conv)
  then have r: "stripNonRelayCandidatesFromSdp m = m"
    by (simp add: stripNonRelayCandidatesFromSdp_def filter_empty_conv)
  have t: "stripTcpRelayCandidatesFromSdp m = m"
    using none by (simp add: stripTcpRelayCandidatesFromSdp_def countTypRelayInSdp_def filter_empty_conv)
  have "filter host_line (js_lines m) = filter (\<lambda>l. host_line l \<and> \<not> mdns_line l) (js_lines sdp)"
    by (auto simp: m Let_def filter_empty_conv host_line_def conj_commute)
  then show ?thesis
    by (simp add: outgoing_sdp_def Let_def m_def [symmetric] r t)
qed

text \<open>The re-sending of the page skips the other edits: without a relay candidate, or outside a relay-only call,
  the description goes out as it is, with the mDNS and host addresses that \<open>outgoing\<close> takes out.\<close>

lemma reemit_unedited:
  assumes "\<not> (hideIpRelayOnlyEnabled ice \<or> sessionForceRelay ice) \<or> filter (has_typ ''relay'') (js_lines sdp) = []"
  shows "reemit_desc ice \<lparr>dsType = t, dsSdp = Some sdp\<rparr> = \<lparr>dsType = t, dsSdp = Some sdp\<rparr>"
  using assms by (auto simp: reemit_desc_def stripNonRelayCandidatesFromSdp_def filter_empty_conv)

section \<open>Properties\<close>

lemma relay_mode_flags: "isRelayMediaMode ice \<longleftrightarrow> hideIpRelayOnlyEnabled ice \<or> sessionForceRelay ice"
  by (simp add: isRelayMediaMode_def hideIpRelayOnlyEnabled_def)

text \<open>C8: On one connection, made while the stamps of the page hold whatever they hold, any two offers that
  leave are at least 12 seconds apart, however the awaits of hung and repeated calls interleave with the
  watchdog, the other callers, the page's own re-sending of a stuck offer and the offers of other
  connections. That is as long as no promise of the browser is rejected, no restart, rebuild or tear-down is
  started, and nobody in the page sets the stamp of the match back once an offer of this connection is out.\<close>

theorem offers_spaced:
  "let s = rtc_step (page_stamps stamp lock attempt (new_rtc offerer)) (EvConnect e born)
   in if plain_run 0 s es then offers_apart (offer_times (rtSent (rtc_run s es))) else True"
  unfolding rtc_run_def Let_def using apart_run [OF apart_connect] by simp

definition ex_env :: "int \<Rightarrow> rtc_env" where
  "ex_env t = \<lparr>evNow = t, evMulti = False, evMatchAt = 0, evRemoteLive = False,
     evIce = new_ice_state \<lparr>preferDirectOnly = False, hideIpRelayOnly = False\<rparr>\<rparr>"

definition ex_offer :: description where
  "ex_offer = \<lparr>dsType = ''offer'', dsSdp = Some ''v=0''\<rparr>"

definition ex_offering :: rtc_pc where
  "ex_offering = fresh_pc\<lparr>pcSignaling := SdpLocalOffer, pcLocal := Some ex_offer\<rparr>"

text \<open>The page does clear the stamps when a third person joins (\<open>joinPeers\<close>, \<open>forceEmitExtraOffers\<close>), and so does
  another connection whose offer fails. Then the last guard is off, and a second call that was already
  past the gates sends its offer two tenths of a second after the first; with the stamps left alone it
  does not.\<close>

definition two_calls :: "rtc_event list" where
  "two_calls =
     [EvConnect (ex_env 1000) fresh_pc, EvSynced 0, EvHang 0, EvOffer (ex_env 2010), EvSynced 1, EvHang 1,
      EvOffer (ex_env 3020), EvCreated 1, EvView ex_offering, EvLocalSet 1, EvGathered (ex_env 3100) fresh_pc 0 ex_offer 1,
      EvSynced 2, EvCreated 2, EvLocalSet 2]"

lemma cleared_stamp_reoffers:
  "offer_times (rtSent (rtc_run (new_rtc True)
     (two_calls @ [EvGathered (ex_env 3300) fresh_pc 0 ex_offer 2]))) = [3100]"
  "offer_times (rtSent (rtc_run (new_rtc True)
     (two_calls @ [EvPage (PgStamps 0 False 0), EvGathered (ex_env 3300) fresh_pc 0 ex_offer 2]))) = [3300, 3100]"
  by code_simp+

text \<open>Without the condition on rejected promises two offers can leave within half a second on one connection: when the
  first \<open>createOffer\<close>, hung and given up, is rejected after the second one was sent, its \<open>catch\<close> block
  clears the marks of the second.\<close>

theorem stale_failure_reoffers:
  "offer_times (rtSent (rtc_run (new_rtc True)
     [EvConnect (ex_env 1000) fresh_pc, EvSynced 0, EvHang 0, EvOffer (ex_env 2010), EvSynced 1, EvCreated 1,
      EvView ex_offering, EvLocalSet 1, EvGathered (ex_env 2300) fresh_pc 0 ex_offer 1, EvRejected 0,
      EvOffer (ex_env 2400), EvSynced 2, EvCreated 2, EvLocalSet 2,
      EvGathered (ex_env 2700) fresh_pc 0 ex_offer 2])) = [2700, 2300]"
  by code_simp

text \<open>In a relay-only call of two whose TURN server does not answer, the object alone never sends its offer in
  this schedule: each call rebuilds the connection, the rebuilt connection starts its own first call, and
  only the callers above it are marked as retries. After any number of rebuilds nothing was sent and one
  more call waits. What may still send the offer is the page, in the waves of its first seconds
  (\<open>kick_reemit\<close>).\<close>

theorem rebuild_never_ends:
  "if isRelayMediaMode (evIce e) \<and> shouldWaitForFirstRelay (evIce e) \<and> \<not> evMulti e
   then let s = rtc_run (new_rtc True)
          ([EvConnect e fresh_pc, EvSynced 0, EvCreated 0, EvLocalSet 0] @
           concat (map (\<lambda>k. rebuild_round (e\<lparr>evNow := clock k\<rparr>) made k) [0..<n]))
        in rtSent s = [] \<and> length (rtCalls s) = n + 1 \<and> at_stage n OfGather s
   else True"
proof (cases "isRelayMediaMode (evIce e) \<and> shouldWaitForFirstRelay (evIce e) \<and> \<not> evMulti e")
  case True
  then have "waiting_call (0 + n) (foldl rtc_step
      (foldl rtc_step (new_rtc True) [EvConnect e fresh_pc, EvSynced 0, EvCreated 0, EvLocalSet 0])
      (concat (map (\<lambda>k. rebuild_round (e\<lparr>evNow := clock k\<rparr>) made k) [0..<0 + n])))"
    by (intro rebuild_rounds_wait first_connection_waits) simp_all
  with True show ?thesis
    unfolding rtc_run_def foldl_append by (simp add: waiting_call_def Let_def del: foldl.simps)
qed (simp only: if_False)

text \<open>During the first 45 seconds of an established connection that never had a working path, an ICE
  restart of the offerer sends nothing. It is refused at once, or the offer it counted is refused by
  the longer grace of the offer itself; after that every later restart is refused as used up.\<close>

theorem early_restart_is_lost:
  "if rtIsOfferer s \<and> has_remote s \<and> \<not> rtIceEverOk s \<and> pc_age (evNow e) s < 45000
   then case tryIceRestart e force early s of
     (v, s') \<Rightarrow>
       rtCalls s' = rtCalls s \<and> rtSent s' = rtSent s \<and>
       (if s' = s then v \<notin> range RsOffer
        else rtRestartCount s' = rtRestartCount s + 1 \<and>
             (if rtRestartCount s \<ge> 0 then tryIceRestart e2 force2 early2 s' = (RsUsed, s') else True))
   else True"
  by (rule early_restart_wasted)

text \<open>The renegotiation meant to announce that a receive-only video slot now sends never happens on a
  connection with a remote description: it asks for a plain offer, which the gates refuse.\<close>

theorem promoted_renegotiation_refused:
  "case rtPc s of
     None \<Rightarrow> promoteVideoSend e flipped s = (None, s)
   | Some p \<Rightarrow>
       if pcCurRemote p \<noteq> None
       then fst (promoteVideoSend e flipped s) \<noteq> Some None \<and>
            rtCalls (snd (promoteVideoSend e flipped s)) = rtCalls s \<and>
            rtSent (snd (promoteVideoSend e flipped s)) = rtSent s
       else True"
  by (rule promote_never_offers)

text \<open>C20: Hide IP does not hold in a call of several people: the connection is made with a policy that
  gathers every kind of candidate, and a description that has no relay candidate yet goes out with
  all its host addresses but the mDNS ones.\<close>

theorem hide_ip_fails_open:
  "if hideIpRelayOnlyEnabled ice \<and> evMulti e \<and> sdp \<noteq> '''' \<and> filter (has_typ ''relay'') (js_lines sdp) = []
   then rcPolicy (connect_config e ice) \<noteq> Some PolicyRelay \<and>
        filter host_line (js_lines (outgoing_sdp ice sdp)) = filter (\<lambda>l. host_line l \<and> \<not> mdns_line l) (js_lines sdp)
   else True"
proof (cases "hideIpRelayOnlyEnabled ice \<and> evMulti e \<and> sdp \<noteq> '''' \<and> filter (has_typ ''relay'') (js_lines sdp) = []")
  case True
  then have "filter host_line (js_lines (outgoing_sdp ice sdp)) = filter (\<lambda>l. host_line l \<and> \<not> mdns_line l) (js_lines sdp)"
    using outgoing_sdp_fail_open [of sdp ice] by simp
  moreover have "rcPolicy (connect_config e ice) \<noteq> Some PolicyRelay"
    using True by (simp add: connect_config_def Let_def)
  ultimately show ?thesis by simp
qed (simp only: if_False)

text \<open>The exact longest wait for a relay candidate: at most 800 ms. In a call of several people it does not
  depend on whether a sibling already has one, because the wait itself is never shorter than 250 ms.\<close>

theorem relay_wait_exact:
  "relay_wait_total ice warmOk e multiPeerLink sdps =
     (if \<not> shouldWaitForFirstRelay ice then 0
      else if isMultiPeerFastMode e multiPeerLink then (if \<not> warmOk then 250 else if isRelayMediaMode ice then 320 else 300)
      else if \<not> isRelayMediaMode ice then 580 else if warmOk then 600 else 800)"
  by (auto simp: relay_wait_total_def firstRelayWait1Ms_def gather_timeout_def secondRelayWaitMs_def
      relayWaitBudgetMs_def relay_mode_flags)

end
