(* ===== verification/Signals.thy ===== *)
theory Signals
  imports Offers
begin

text \<open>
  The answering side of \<open>class RouletteWebRtc\<close>: \<open>handleRemoteSignal\<close> with its offers, answers, candidates
  and hang-ups, the queue of early candidates and the filters on candidates in both directions. As
  on the offering side a handler is cut at its awaits and several may be in progress; what the
  browser shows and returns comes with the events.
\<close>

section \<open>Candidates\<close>

text \<open>\<open>c.candidate\<close> of a parsed candidate; the test \<open>!c?.candidate\<close> is that it is empty.\<close>

definition candidate_field :: "ice_candidate \<Rightarrow> string" where
  "candidate_field c = (case c of CandObject typ (Some s) \<Rightarrow> s | _ \<Rightarrow> '''')"

definition filters_relay :: "ice_state \<Rightarrow> bool" where
  "filters_relay ice \<longleftrightarrow> hideIpRelayOnlyEnabled ice \<or> sessionForceRelay ice"

definition strips_host :: "ice_state \<Rightarrow> bool" where
  "strips_host ice \<longleftrightarrow> hideIpRelayOnlyEnabled ice \<or> sessionForceRelay ice"

text \<open>\<open>onicecandidate\<close>: what trickles out.\<close>

definition trickles :: "ice_state \<Rightarrow> ice_candidate \<Rightarrow> bool" where
  "trickles ice c =
     (if c = NoCandidate then False
      else if filters_relay ice \<and> \<not> isRelayIceCandidate c then False
      else if shouldPreferUdpRelay ice \<and> isRelayIceCandidate c \<and> \<not> isUdpRelayIceCandidate c then False
      else if strips_host ice \<and> isHostIceCandidate c then False
      else \<not> isMdnsHostIceCandidate c)"

definition on_ice_candidate :: "rtc_env \<Rightarrow> ice_candidate \<Rightarrow> rtc \<Rightarrow> rtc" where
  "on_ice_candidate e c s = (if trickles (evIce e) c then emitSignal (evNow e) (SigIce c) s else s)"

text \<open>What is taken in, and what a flush of the queue keeps.\<close>

definition takes_candidate :: "ice_state \<Rightarrow> ice_candidate \<Rightarrow> bool" where
  "takes_candidate ice c =
     (if filters_relay ice \<and> candidate_field c \<noteq> '''' \<and> \<not> isRelayIceCandidate c then False
      else if shouldPreferUdpRelay ice \<and> candidate_field c \<noteq> '''' \<and> isRelayIceCandidate c \<and> \<not> isUdpRelayIceCandidate c
      then False
      else if candidate_field c \<noteq> '''' \<and> isMdnsHostIceCandidate c then False
      else \<not> (strips_host ice \<and> filters_relay ice \<and> candidate_field c \<noteq> '''' \<and> isHostIceCandidate c))"

definition flush_batch :: "ice_state \<Rightarrow> ice_candidate list \<Rightarrow> ice_candidate list" where
  "flush_batch ice batch =
     (if filters_relay ice
      then filter (\<lambda>c. candidate_field c = '''' \<or>
             isRelayIceCandidate c \<and> (\<not> shouldPreferUdpRelay ice \<or> isUdpRelayIceCandidate c)) batch
      else filter (\<lambda>c. candidate_field c = '''' \<or> \<not> isMdnsHostIceCandidate c) batch)"

section \<open>The handlers\<close>

datatype remote_signal =
    InOffer description | InAnswer description | InIce ice_candidate | InBye | InAvPath

text \<open>A handler in progress: the signal, the signalling state it read before the glare test, the answer
  the browser made and the await it stands at.\<close>

datatype in_stage = InConnect | InRebuilt | InRollback | InRecreated | InSetOffer | InCreate | InSetLocal | InGather
  | InSetAnswer | InDone

record in_job =
  ijSignal :: remote_signal
  ijState :: sdp_state
  ijMade :: description
  ijStage :: in_stage

text \<open>The object, the handlers in progress, and the candidates handed to the connection, newest first.\<close>

record peer_link =
  lkRtc :: rtc
  lkJobs :: "in_job list"
  lkAdded :: "ice_candidate list"

definition new_peer_link :: "rtc \<Rightarrow> peer_link" where
  "new_peer_link s = \<lparr>lkRtc = s, lkJobs = [], lkAdded = []\<rparr>"

definition upd_rtc :: "(rtc \<Rightarrow> rtc) \<Rightarrow> peer_link \<Rightarrow> peer_link" where
  "upd_rtc f l = l\<lparr>lkRtc := f (lkRtc l)\<rparr>"

definition upd_job :: "nat \<Rightarrow> (in_job \<Rightarrow> in_job) \<Rightarrow> peer_link \<Rightarrow> peer_link" where
  "upd_job j f l = (if j < length (lkJobs l) then l\<lparr>lkJobs := (lkJobs l)[j := f (lkJobs l ! j)]\<rparr> else l)"

definition to_stage :: "nat \<Rightarrow> in_stage \<Rightarrow> peer_link \<Rightarrow> peer_link" where
  "to_stage j st = upd_job j (\<lambda>x. x\<lparr>ijStage := st\<rparr>)"

text \<open>\<open>_flushPendingIce\<close>\<close>

definition flushPendingIce :: "ice_state \<Rightarrow> peer_link \<Rightarrow> peer_link" where
  "flushPendingIce ice l =
     (let batch = rtPendingIce (lkRtc l); l1 = upd_rtc (\<lambda>s. s\<lparr>rtPendingIce := []\<rparr>) l
      in if batch = [] \<or> rtPc (lkRtc l) = None then l1
         else l1\<lparr>lkAdded := rev (flush_batch ice batch) @ lkAdded l1\<rparr>)"

text \<open>An offer, before the tests that may ignore it: the connection is replaced when its candidates are
  not those of a relay-only call, and a local offer is rolled back.\<close>

definition offer_replaces_pc :: "rtc_env \<Rightarrow> rtc \<Rightarrow> bool" where
  "offer_replaces_pc e s \<longleftrightarrow>
     (let ice = applyIceDirectPreference (evIce e)
      in case rtPc s of
           None \<Rightarrow> False
         | Some p \<Rightarrow>
             filters_relay ice \<and> rcPolicy (getIceConfig ice) = Some PolicyRelay \<and> \<not> rtRelayPc s \<or>
             isRelayMediaMode ice \<and> rtAnsweredAt s = 0 \<and> (pcSignaling p = SdpLocalOffer \<or> pcLocal p \<noteq> None))"

definition sdp_head :: "description \<Rightarrow> string" where
  "sdp_head d = take 200 (opt_text (dsSdp d))"

datatype offer_answer = OaDuplicate | OaAnsweredRecently | OaNegotiated | OaAccept

text \<open>\<open>painted\<close>: a remote frame is on the screen. \<open>st\<close> is the signalling state from before a rollback.\<close>

definition remote_offer_verdict :: "rtc_env \<Rightarrow> bool \<Rightarrow> sdp_state \<Rightarrow> description \<Rightarrow> rtc_pc \<Rightarrow> rtc \<Rightarrow> offer_answer" where
  "remote_offer_verdict e painted st raw p s =
     (if pcRemote p \<noteq> None \<and> st = SdpRemoteOffer \<and> rtLastRemoteSdp s \<noteq> '''' \<and> opt_text (dsSdp raw) \<noteq> '''' \<and>
         sdp_head raw = rtLastRemoteSdp s
      then OaDuplicate
      else if pcCurRemote p \<noteq> None \<and> pcCurLocal p \<noteq> None \<and> rtAnsweredAt s \<noteq> 0 \<and> evNow e - rtAnsweredAt s < 12000
      then OaAnsweredRecently
      else if pcCurRemote p \<noteq> None \<and> pcCurLocal p \<noteq> None \<and>
              (pcIce p = IceChecking \<or> ice_up (pcIce p) \<or> pcConn p = ConnConnecting \<or> pcConn p = ConnConnected) \<and>
              \<not> (\<not> painted \<and> rtAnsweredAt s \<noteq> 0 \<and> evNow e - rtAnsweredAt s > 18000)
      then OaNegotiated
      else OaAccept)"

definition offer_apply :: "rtc_env \<Rightarrow> bool \<Rightarrow> nat \<Rightarrow> description \<Rightarrow> peer_link \<Rightarrow> peer_link" where
  "offer_apply e painted j raw l =
     (case rtPc (lkRtc l) of
        None \<Rightarrow> to_stage j InDone l
      | Some p \<Rightarrow>
          if remote_offer_verdict e painted (ijState (lkJobs l ! j)) raw p (lkRtc l) \<noteq> OaAccept then to_stage j InDone l
          else to_stage j InSetOffer
            (if opt_text (dsSdp raw) = '''' then l else upd_rtc (\<lambda>s. s\<lparr>rtLastRemoteSdp := sdp_head raw\<rparr>) l))"

definition offer_glare :: "rtc_env \<Rightarrow> bool \<Rightarrow> nat \<Rightarrow> description \<Rightarrow> peer_link \<Rightarrow> peer_link" where
  "offer_glare e painted j raw l =
     (case rtPc (lkRtc l) of
        None \<Rightarrow> to_stage j InDone l
      | Some p \<Rightarrow>
          let l1 = upd_job j (\<lambda>x. x\<lparr>ijState := pcSignaling p\<rparr>) l
          in if pcSignaling p = SdpLocalOffer then to_stage j InRollback l1
             else offer_apply e painted j raw l1)"

definition offer_policy :: "rtc_env \<Rightarrow> rtc_pc \<Rightarrow> bool \<Rightarrow> nat \<Rightarrow> description \<Rightarrow> peer_link \<Rightarrow> peer_link" where
  "offer_policy e born painted j raw l =
     (if offer_replaces_pc e (lkRtc l) then
        to_stage j InRebuilt (upd_rtc (\<lambda>s. snd (rtc_connect (e\<lparr>evIce := applyIceDirectPreference (evIce e)\<rparr>) born
          (s\<lparr>rtPc := None, rtPendingIce := [], rtIsOfferer := False, rtRelayPc := False\<rparr>))) l)
      else offer_glare e painted j raw l)"

text \<open>The rollback came back; when it failed the connection is made anew.\<close>

definition offer_rolled :: "rtc_env \<Rightarrow> rtc_pc \<Rightarrow> bool \<Rightarrow> bool \<Rightarrow> nat \<Rightarrow> description \<Rightarrow> peer_link \<Rightarrow> peer_link" where
  "offer_rolled e born painted ok j raw l =
     (if ok then offer_apply e painted j raw l
      else to_stage j InRecreated (upd_rtc (\<lambda>s. snd (rtc_connect e born
             (s\<lparr>rtPc := None, rtPendingIce := [], rtIsOfferer := False\<rparr>))) l))"

text \<open>The remote offer is in: the client is the answerer from here on.\<close>

definition offer_set :: "rtc_env \<Rightarrow> nat \<Rightarrow> peer_link \<Rightarrow> peer_link" where
  "offer_set e j l =
     (let l1 = flushPendingIce (evIce e) (upd_rtc (\<lambda>s. s\<lparr>rtRemoteOfferSince := 0, rtIsOfferer := False\<rparr>) l)
      in if rtPc (lkRtc l1) = None then to_stage j InDone l1 else to_stage j InCreate l1)"

definition answer_made :: "description \<Rightarrow> nat \<Rightarrow> peer_link \<Rightarrow> peer_link" where
  "answer_made made j l = upd_job j (\<lambda>x. x\<lparr>ijMade := made, ijStage := InSetLocal\<rparr>) l"

definition answer_emit :: "rtc_env \<Rightarrow> nat \<Rightarrow> peer_link \<Rightarrow> peer_link" where
  "answer_emit e j l =
     (case rtPc (lkRtc l) of
        None \<Rightarrow> to_stage j InDone l
      | Some p \<Rightarrow>
          let d = (case pcLocal p of None \<Rightarrow> ijMade (lkJobs l ! j) | Some d \<Rightarrow> d)
          in to_stage j InDone (upd_rtc (\<lambda>s. (emitSignal (evNow e) (SigAnswer (outgoing (evIce e) d)) s)
               \<lparr>rtAnsweredAt := evNow e, rtWatch := False, rtSentOnce := True, rtStuck := [2000, 6000, 20000]\<rparr>) l))"

text \<open>An answer is applied only while one is awaited.\<close>

definition awaits_answer :: "rtc_pc \<Rightarrow> bool" where
  "awaits_answer p \<longleftrightarrow> pcSignaling p = SdpLocalOffer \<or> pcSignaling p = SdpStable \<and> pcCurRemote p = None"

definition answer_applied :: "rtc_env \<Rightarrow> bool \<Rightarrow> nat \<Rightarrow> peer_link \<Rightarrow> peer_link" where
  "answer_applied e flipped j l =
     (let l1 = upd_rtc (\<lambda>s. snd (promoteVideoSend e flipped
                 (s\<lparr>rtGotAnswerAt := evNow e, rtSentOnce := True, rtWatch := False\<rparr>))) l;
          l2 = upd_rtc (\<lambda>s. let at' = (if wOfferAt s \<noteq> 0 then wOfferAt s else evNow e)
                             in s\<lparr>wOfferAt := at', wAttemptAt := at'\<rparr>) l1
      in to_stage j InDone (flushPendingIce (evIce e) l2))"

text \<open>A candidate is dropped, queued until there is a remote description, or handed on.\<close>

definition ice_in :: "rtc_env \<Rightarrow> ice_candidate \<Rightarrow> peer_link \<Rightarrow> peer_link" where
  "ice_in e c l =
     (if \<not> takes_candidate (evIce e) c then l
      else if (case rtPc (lkRtc l) of None \<Rightarrow> True | Some p \<Rightarrow> pcRemote p = None)
      then upd_rtc (\<lambda>s. s\<lparr>rtPendingIce := rtPendingIce s @ [c]\<rparr>) l
      else l\<lparr>lkAdded := c # lkAdded l\<rparr>)"

text \<open>The rest of a handler once there is a connection.\<close>

definition handle_signal :: "rtc_env \<Rightarrow> rtc_pc \<Rightarrow> bool \<Rightarrow> nat \<Rightarrow> peer_link \<Rightarrow> peer_link" where
  "handle_signal e born painted j l =
     (case ijSignal (lkJobs l ! j) of
        InOffer raw \<Rightarrow> offer_policy e born painted j raw l
      | InAnswer raw \<Rightarrow>
          (case rtPc (lkRtc l) of
             None \<Rightarrow> to_stage j InDone l
           | Some p \<Rightarrow> if awaits_answer p then to_stage j InSetAnswer l else to_stage j InDone l)
      | InIce c \<Rightarrow> to_stage j InDone (ice_in e c l)
      | InBye \<Rightarrow> to_stage j InDone (upd_rtc (closeCall (evNow e) True) l)
      | InAvPath \<Rightarrow> to_stage j InDone l)"

text \<open>\<open>handleRemoteSignal\<close>: without a connection it first connects, whatever the signal.\<close>

definition handleRemoteSignal :: "rtc_env \<Rightarrow> rtc_pc \<Rightarrow> bool \<Rightarrow> remote_signal \<Rightarrow> peer_link \<Rightarrow> peer_link" where
  "handleRemoteSignal e born painted sig l =
     (if sig = InAvPath then l
      else let l1 = (case sig of InOffer raw \<Rightarrow> upd_rtc (\<lambda>s. s\<lparr>rtRemoteOfferSince := evNow e\<rparr>) l | _ \<Rightarrow> l);
               j = length (lkJobs l1);
               l2 = l1\<lparr>lkJobs := lkJobs l1 @ [\<lparr>ijSignal = sig, ijState = SdpStable,
                        ijMade = \<lparr>dsType = ''answer'', dsSdp = None\<rparr>, ijStage = InConnect\<rparr>]\<rparr>
           in if rtPc (lkRtc l2) = None then upd_rtc (\<lambda>s. snd (rtc_connect e born s)) l2
              else handle_signal e born painted j l2)"

section \<open>The client as a step relation\<close>

datatype peer_event =
    LkRtc rtc_event
  | LkCandidate rtc_env ice_candidate
  | LkSignal rtc_env rtc_pc bool remote_signal
  | LkConnected rtc_env rtc_pc bool nat
  | LkRebuilt rtc_env bool nat
  | LkRolled rtc_env rtc_pc bool bool nat
  | LkRecreated rtc_env bool nat
  | LkOfferSet rtc_env nat
  | LkAnswerMade description nat
  | LkAnswerLocal nat
  | LkAnswerGathered rtc_env nat
  | LkAnswerSet rtc_env bool nat
  | LkRejected nat

definition job_at :: "nat \<Rightarrow> in_stage \<Rightarrow> peer_link \<Rightarrow> bool" where
  "job_at j st l \<longleftrightarrow> j < length (lkJobs l) \<and> ijStage (lkJobs l ! j) = st"

definition job_offer :: "nat \<Rightarrow> peer_link \<Rightarrow> description" where
  "job_offer j l = (case ijSignal (lkJobs l ! j) of InOffer raw \<Rightarrow> raw | _ \<Rightarrow> \<lparr>dsType = ''offer'', dsSdp = None\<rparr>)"

fun peer_step :: "peer_link \<Rightarrow> peer_event \<Rightarrow> peer_link" where
  "peer_step l (LkRtc ev) = upd_rtc (\<lambda>s. rtc_step s ev) l"
| "peer_step l (LkCandidate e c) = upd_rtc (on_ice_candidate e c) l"
| "peer_step l (LkSignal e born painted sig) = handleRemoteSignal e born painted sig l"
| "peer_step l (LkConnected e born painted j) = (if job_at j InConnect l then handle_signal e born painted j l else l)"
| "peer_step l (LkRebuilt e painted j) = (if job_at j InRebuilt l then offer_glare e painted j (job_offer j l) l else l)"
| "peer_step l (LkRolled e born painted ok j) =
     (if job_at j InRollback l then offer_rolled e born painted ok j (job_offer j l) l else l)"
| "peer_step l (LkRecreated e painted j) = (if job_at j InRecreated l then offer_apply e painted j (job_offer j l) l else l)"
| "peer_step l (LkOfferSet e j) = (if job_at j InSetOffer l then offer_set e j l else l)"
| "peer_step l (LkAnswerMade made j) = (if job_at j InCreate l then answer_made made j l else l)"
| "peer_step l (LkAnswerLocal j) = (if job_at j InSetLocal l then to_stage j InGather l else l)"
| "peer_step l (LkAnswerGathered e j) = (if job_at j InGather l then answer_emit e j l else l)"
| "peer_step l (LkAnswerSet e flipped j) = (if job_at j InSetAnswer l then answer_applied e flipped j l else l)"
| "peer_step l (LkRejected j) =
     (if job_at j InSetOffer l \<or> job_at j InCreate l \<or> job_at j InSetAnswer l then to_stage j InDone l else l)"

definition peer_run :: "peer_link \<Rightarrow> peer_event list \<Rightarrow> peer_link" where
  "peer_run l es = foldl peer_step l es"

section \<open>Two connections on one page\<close>

text \<open>The demo page hands each signal straight to the other object, inside the call that sends it.
  \<open>demo_close n\<close> hangs up with room for \<open>n\<close> nested calls, \<open>None\<close> when that is not enough; without a
  connection the other side starts one before it reads the signal.\<close>

fun demo_close :: "nat \<Rightarrow> rtc_env \<Rightarrow> rtc \<times> rtc \<Rightarrow> (rtc \<times> rtc) option" where
  "demo_close 0 e p = None"
| "demo_close (Suc n) e (own, other) =
     (let own1 = emitSignal (evNow e) SigBye ((clearDisconnectedIceProbe own)\<lparr>rtStuck := []\<rparr>)
      in if rtPc other = None then Some (own1\<lparr>rtPc := None\<rparr>, snd (rtc_connect e fresh_pc other))
         else case demo_close n e (other, own1) of
           None \<Rightarrow> None
         | Some (other', own') \<Rightarrow> Some (own'\<lparr>rtPc := None\<rparr>, other'))"

section \<open>Who sends what\<close>

fun is_ice :: "rtc_signal \<Rightarrow> bool" where
  "is_ice (SigIce c) = True"
| "is_ice m = False"

definition ice_sent :: "rtc \<Rightarrow> (int \<times> rtc_signal) list" where
  "ice_sent s = filter (\<lambda>m. is_ice (snd m)) (rtSent s)"

lemma ice_sent_cong: "rtSent s' = rtSent s \<Longrightarrow> ice_sent s' = ice_sent s"
  by (simp add: ice_sent_def)

lemma ice_sent_emit [simp]: "\<not> is_ice m \<Longrightarrow> ice_sent (emitSignal now m s) = ice_sent s"
  by (cases m) (simp_all add: emitSignal_def ice_sent_def Let_def)

lemma ice_sent_fields [simp]:
  "ice_sent (s\<lparr>rtPc := x\<rparr>) = ice_sent s" "ice_sent (s\<lparr>rtInFlight := b\<rparr>) = ice_sent s"
  "ice_sent (s\<lparr>rtWatch := b\<rparr>) = ice_sent s" "ice_sent (s\<lparr>rtEmittingRestart := b\<rparr>) = ice_sent s"
  "ice_sent (s\<lparr>rtSentOnce := b\<rparr>) = ice_sent s" "ice_sent (s\<lparr>rtEmitOk := b\<rparr>) = ice_sent s"
  "ice_sent (s\<lparr>rtPromoted := b\<rparr>) = ice_sent s" "ice_sent (s\<lparr>rtStuck := ms\<rparr>) = ice_sent s"
  "ice_sent (s\<lparr>rtCalls := cs\<rparr>) = ice_sent s" "ice_sent (s\<lparr>rtGen := n\<rparr>) = ice_sent s"
  "ice_sent (s\<lparr>rtRelayPc := b\<rparr>) = ice_sent s" "ice_sent (s\<lparr>rtIceEverOk := b\<rparr>) = ice_sent s"
  "ice_sent (s\<lparr>wOfferAt := t\<rparr>) = ice_sent s" "ice_sent (s\<lparr>wOfferLock := b\<rparr>) = ice_sent s"
  "ice_sent (s\<lparr>wAttemptAt := t\<rparr>) = ice_sent s" "ice_sent (s\<lparr>rtLastOfferAt := t\<rparr>) = ice_sent s"
  "ice_sent (s\<lparr>rtProbes := ps\<rparr>) = ice_sent s" "ice_sent (s\<lparr>rtProbing := b\<rparr>) = ice_sent s"
  "ice_sent (s\<lparr>rtRestartAt := t\<rparr>) = ice_sent s" "ice_sent (s\<lparr>rtRestartCount := t\<rparr>) = ice_sent s"
  "ice_sent (s\<lparr>rtPendingIce := ics\<rparr>) = ice_sent s" "ice_sent (s\<lparr>rtIsOfferer := b\<rparr>) = ice_sent s"
  "ice_sent (s\<lparr>rtAnsweredAt := t\<rparr>) = ice_sent s" "ice_sent (s\<lparr>rtGotAnswerAt := t\<rparr>) = ice_sent s"
  "ice_sent (s\<lparr>rtRemoteOfferSince := t\<rparr>) = ice_sent s" "ice_sent (s\<lparr>rtLastRemoteSdp := sdp\<rparr>) = ice_sent s"
  "ice_sent (s\<lparr>rtBornAt := t\<rparr>) = ice_sent s"
  by (simp_all add: ice_sent_def)

lemma ice_sent_offer [simp]: "ice_sent (snd (createAndSendOffer e opts fc s)) = ice_sent s"
proof (rule createAndSendOffer_cases [of e opts fc s])
  fix r s' assume "createAndSendOffer e opts fc s = (Some r, s')" "gate_keeps s s'"
  then show ?thesis using gate_keeps_sel(3) [of s s'] by (simp add: ice_sent_def)
next
  fix s' c
  assume "createAndSendOffer e opts fc s = (None, s'\<lparr>rtInFlight := True, rtCalls := rtCalls s' @ [c]\<rparr>)" "gate_keeps s s'"
  then show ?thesis using gate_keeps_sel(3) [of s s'] by (simp add: ice_sent_def)
qed

lemma ice_sent_upd [simp]: "ice_sent (upd_call i f s) = ice_sent s"
  by (simp add: ice_sent_def)

lemma ice_sent_finally [simp]: "ice_sent (offer_finally i s) = ice_sent s"
  by (simp add: offer_finally_def free_unsent_def Let_def)

lemma ice_sent_failed [simp]: "ice_sent (offer_failed i s) = ice_sent s"
  by (simp add: offer_failed_def Let_def)

lemma ice_sent_connect [simp]: "ice_sent (snd (rtc_connect e born s)) = ice_sent s"
proof -
  have n: "ice_sent (new_connection e ice born s) = ice_sent s" for e ice s
    by (simp add: new_connection_def)
  have o: "ice_sent (connect_offer e s) = ice_sent s" for e s
    using ice_sent_offer [of e plain_offer True "arm_offer_watchdog s"]
    by (simp add: connect_offer_def arm_offer_watchdog_def case_prod_unfold split: option.split)
  show ?thesis
    by (simp add: rtc_connect_def Let_def n o)
qed

lemma ice_sent_restart [simp]: "ice_sent (snd (tryIceRestart e f b s)) = ice_sent s"
  using ice_sent_offer [of e "\<lparr>ooRestart = True, ooEarlyBlack = b, ooRetry = False\<rparr>" False
    "s\<lparr>rtRestartAt := evNow e, rtRestartCount := rtRestartCount s + 1, rtEmittingRestart := True\<rparr>"]
  unfolding tryIceRestart_def Let_def by (simp add: case_prod_unfold split: option.split)

lemma ice_sent_promote [simp]: "ice_sent (snd (promoteVideoSend e f s)) = ice_sent s"
  by (simp add: promoteVideoSend_def case_prod_unfold split: option.split)

lemma ice_sent_emit_offer [simp]: "ice_sent (offer_emit e made i s) = ice_sent s"
  by (simp add: offer_emit_def Let_def split: option.split)

lemma ice_sent_probe [simp]: "ice_sent (clearDisconnectedIceProbe s) = ice_sent s"
  "ice_sent (scheduleDisconnectedIceProbe s) = ice_sent s"
  by (simp_all add: clearDisconnectedIceProbe_def scheduleDisconnectedIceProbe_def)

lemma ice_sent_close [simp]: "ice_sent (closeCall now b s) = ice_sent s"
  by (simp add: closeCall_def Let_def)

lemma ice_sent_page: "ice_sent (page_step s op) = ice_sent s"
proof -
  have r: "ice_sent (reemit_local e d t) = ice_sent t" for e d t
    by (simp add: reemit_local_def)
  have a: "ice_sent (t\<lparr>rtAnswerOnly := b\<rparr>) = ice_sent t" for t b
    by (simp add: ice_sent_def)
  show ?thesis
    by (cases op) (simp_all add: r a page_stamps_def kick_reemit_def kick_tear_def solo_reemit_def solo_first_def
        solo_young_def solo_budget_def force_extra_def join_role_def Let_def split: option.split)
qed

lemma ice_sent_step: "ice_sent (rtc_step s ev) = ice_sent s"
proof (cases ev)
  case (EvPage op)
  then show ?thesis by (simp add: ice_sent_page)
next
  case (EvReconnected e i)
  define c where "c = rtCalls s ! i"
  have "ice_sent (offer_reconnected e i s) = ice_sent s"
    unfolding offer_reconnected_def Let_def
    using ice_sent_offer [of e "\<lparr>ooRestart = ocRestart c, ooEarlyBlack = ocEarlyBlack c, ooRetry = True\<rparr>" "ocConnect c" s]
    by (simp add: case_prod_unfold c_def split: option.split)
  with EvReconnected show ?thesis by simp
next
  case (EvGathered e born n made i)
  then show ?thesis by (simp add: offer_gathered_def offer_rebuild_def Let_def)
next
  case (EvView p)
  then show ?thesis by (simp add: set_pc_def)
next
  case (EvWatchdog e)
  then show ?thesis by (simp add: offer_watchdog_def Let_def split: option.split)
next
  case (EvIceState e)
  then show ?thesis by (simp add: on_ice_state_def Let_def split: option.split)
next
  case (EvProbe e pr)
  then show ?thesis by (simp add: disc_probe_def Let_def split: option.split)
next
  case (EvBlackWatch e f ms)
  then show ?thesis by (simp add: black_watch_def Let_def split: option.split)
next
  case EvConnState
  then show ?thesis by (simp add: on_connection_state_def split: option.split)
qed (simp_all add: offer_synced_def offer_created_def offer_local_set_def offer_hang_def Let_def)

section \<open>Relay-only calls\<close>

definition relay_only_candidate :: "ice_candidate \<Rightarrow> bool" where
  "relay_only_candidate c \<longleftrightarrow> candidate_field c = '''' \<or> isUdpRelayIceCandidate c"

text \<open>Everything handed to the connection, and every candidate sent.\<close>

definition relay_only_link :: "peer_link \<Rightarrow> bool" where
  "relay_only_link l \<longleftrightarrow>
     list_all relay_only_candidate (lkAdded l) \<and>
     list_all (\<lambda>m. case snd m of SigIce c \<Rightarrow> isUdpRelayIceCandidate c | _ \<Rightarrow> True) (ice_sent (lkRtc l))"

text \<open>Events under Hide IP or session relay; the queue may have been filled before.\<close>

fun relay_event :: "peer_event \<Rightarrow> bool" where
  "relay_event (LkCandidate e c) = filters_relay (evIce e)"
| "relay_event (LkSignal e born painted sig) = filters_relay (evIce e)"
| "relay_event (LkConnected e born painted j) = filters_relay (evIce e)"
| "relay_event (LkOfferSet e j) = filters_relay (evIce e)"
| "relay_event (LkAnswerSet e flipped j) = filters_relay (evIce e)"
| "relay_event ev = True"

lemma filters_udp: "filters_relay ice \<Longrightarrow> shouldPreferUdpRelay ice"
  by (simp add: filters_relay_def shouldPreferUdpRelay_def)

lemma trickles_relay: "filters_relay ice \<Longrightarrow> trickles ice c \<Longrightarrow> isUdpRelayIceCandidate c"
  using filters_udp [of ice] by (auto simp: trickles_def split: if_splits)

lemma takes_relay: "filters_relay ice \<Longrightarrow> takes_candidate ice c \<Longrightarrow> relay_only_candidate c"
  using filters_udp [of ice] by (auto simp: takes_candidate_def relay_only_candidate_def split: if_splits)

lemma flush_relay: "filters_relay ice \<Longrightarrow> list_all relay_only_candidate (flush_batch ice batch)"
  using filters_udp [of ice] by (auto simp: flush_batch_def relay_only_candidate_def list_all_iff)

lemma relay_only_same:
  "relay_only_link l \<Longrightarrow> lkAdded l' = lkAdded l \<Longrightarrow> ice_sent (lkRtc l') = ice_sent (lkRtc l) \<Longrightarrow> relay_only_link l'"
  by (simp add: relay_only_link_def)

lemma upd_job_sel [simp]:
  "lkRtc (upd_job j f l) = lkRtc l" "lkAdded (upd_job j f l) = lkAdded l" "length (lkJobs (upd_job j f l)) = length (lkJobs l)"
  by (simp_all add: upd_job_def)

lemma to_stage_sel [simp]: "lkRtc (to_stage j st l) = lkRtc l" "lkAdded (to_stage j st l) = lkAdded l"
  by (simp_all add: to_stage_def)

lemma upd_rtc_sel [simp]: "lkRtc (upd_rtc f l) = f (lkRtc l)" "lkAdded (upd_rtc f l) = lkAdded l" "lkJobs (upd_rtc f l) = lkJobs l"
  by (simp_all add: upd_rtc_def)

lemma relay_flush: "relay_only_link l \<Longrightarrow> filters_relay ice \<Longrightarrow> relay_only_link (flushPendingIce ice l)"
  using flush_relay [of ice "rtPendingIce (lkRtc l)"]
  by (simp add: flushPendingIce_def Let_def relay_only_link_def)

lemma relay_stage: "relay_only_link l \<Longrightarrow> relay_only_link (to_stage j st l)"
  by (simp add: relay_only_link_def)

lemma relay_apply: "relay_only_link l \<Longrightarrow> relay_only_link (offer_apply e painted j raw l)"
  by (simp add: offer_apply_def relay_only_link_def split: option.split)

lemma relay_glare: "relay_only_link l \<Longrightarrow> relay_only_link (offer_glare e painted j raw l)"
  using relay_apply [of "upd_job j (\<lambda>x. x\<lparr>ijState := st\<rparr>) l" e painted j raw for st]
  by (simp add: offer_glare_def Let_def relay_only_link_def split: option.split)

lemma relay_policy: "relay_only_link l \<Longrightarrow> relay_only_link (offer_policy e born painted j raw l)"
  using relay_glare [of l e painted j raw]
  by (simp add: offer_policy_def relay_only_link_def)

lemma relay_ice_in: "relay_only_link l \<Longrightarrow> filters_relay (evIce e) \<Longrightarrow> relay_only_link (ice_in e c l)"
  using takes_relay [of "evIce e" c] by (simp add: ice_in_def relay_only_link_def)

lemma relay_handle: "relay_only_link l \<Longrightarrow> filters_relay (evIce e) \<Longrightarrow> relay_only_link (handle_signal e born painted j l)"
  using relay_policy [of l e born painted j] relay_ice_in [of l e]
  by (auto simp: handle_signal_def relay_only_link_def split: remote_signal.split option.split)

lemma relay_remote:
  assumes "relay_only_link l" "filters_relay (evIce e)"
  shows "relay_only_link (handleRemoteSignal e born painted sig l)"
proof (cases "sig = InAvPath")
  case False
  define l1 where "l1 = (case sig of InOffer raw \<Rightarrow> upd_rtc (\<lambda>s. s\<lparr>rtRemoteOfferSince := evNow e\<rparr>) l | _ \<Rightarrow> l)"
  define l2 where "l2 = l1\<lparr>lkJobs := lkJobs l1 @ [\<lparr>ijSignal = sig, ijState = SdpStable,
      ijMade = \<lparr>dsType = ''answer'', dsSdp = None\<rparr>, ijStage = InConnect\<rparr>]\<rparr>"
  have "relay_only_link l1"
    using assms(1) by (auto simp: l1_def relay_only_link_def split: remote_signal.split)
  then have l2: "relay_only_link l2"
    by (simp add: l2_def relay_only_link_def)
  then have "relay_only_link (upd_rtc (\<lambda>s. snd (rtc_connect e born s)) l2)"
    by (simp add: relay_only_link_def)
  with relay_handle [OF l2 assms(2)] False show ?thesis
    unfolding handleRemoteSignal_def Let_def by (fold l1_def) (fold l2_def, simp)
qed (use assms in \<open>simp add: handleRemoteSignal_def\<close>)

lemma relay_step: "relay_only_link l \<Longrightarrow> relay_event ev \<Longrightarrow> relay_only_link (peer_step l ev)"
proof (cases ev)
  case (LkRtc r)
  assume "relay_only_link l"
  with LkRtc show ?thesis by (simp add: relay_only_link_def ice_sent_step)
next
  case (LkCandidate e c)
  assume "relay_only_link l" "relay_event ev"
  with LkCandidate trickles_relay [of "evIce e" c] show ?thesis
    by (auto simp: on_ice_candidate_def relay_only_link_def emitSignal_def ice_sent_def)
next
  case (LkSignal e born painted sig)
  assume "relay_only_link l" "relay_event ev"
  with LkSignal relay_remote show ?thesis by simp
next
  case (LkConnected e born painted j)
  assume "relay_only_link l" "relay_event ev"
  with LkConnected relay_handle show ?thesis by simp
next
  case (LkRebuilt e painted j)
  assume "relay_only_link l"
  with LkRebuilt relay_glare show ?thesis by simp
next
  case (LkRolled e born painted ok j)
  assume "relay_only_link l"
  with LkRolled relay_apply [of l e painted j "job_offer j l"] show ?thesis
    by (simp add: offer_rolled_def relay_only_link_def)
next
  case (LkRecreated e painted j)
  assume "relay_only_link l"
  with LkRecreated relay_apply show ?thesis by simp
next
  case (LkOfferSet e j)
  assume l: "relay_only_link l" "relay_event ev"
  then have "relay_only_link (upd_rtc (\<lambda>s. s\<lparr>rtRemoteOfferSince := 0, rtIsOfferer := False\<rparr>) l)"
    by (simp add: relay_only_link_def)
  with l LkOfferSet relay_flush [OF this] show ?thesis by (simp add: offer_set_def Let_def relay_stage)
next
  case (LkAnswerGathered e j)
  assume "relay_only_link l"
  with LkAnswerGathered show ?thesis by (simp add: answer_emit_def Let_def relay_only_link_def split: option.split)
next
  case (LkAnswerSet e flipped j)
  assume l: "relay_only_link l" "relay_event ev"
  define l1 where "l1 = upd_rtc (\<lambda>s. let at' = (if wOfferAt s \<noteq> 0 then wOfferAt s else evNow e)
      in s\<lparr>wOfferAt := at', wAttemptAt := at'\<rparr>) (upd_rtc (\<lambda>s. snd (promoteVideoSend e flipped
      (s\<lparr>rtGotAnswerAt := evNow e, rtSentOnce := True, rtWatch := False\<rparr>))) l)"
  have "relay_only_link l1"
    using l(1) by (simp add: l1_def relay_only_link_def Let_def)
  with l LkAnswerSet relay_flush [OF this] show ?thesis
    by (simp add: answer_applied_def Let_def relay_stage l1_def)
qed (simp_all add: answer_made_def relay_only_link_def)

section \<open>A client that does not offer\<close>

text \<open>Neither an offerer nor in the middle of an offer; and a step that keeps this and sends no offer.\<close>

definition no_offers :: "rtc \<Rightarrow> bool" where
  "no_offers s \<longleftrightarrow> \<not> rtIsOfferer s \<and> list_all (\<lambda>c. ocStage c = OfDone) (rtCalls s)"

definition silent_step :: "rtc \<Rightarrow> rtc \<Rightarrow> bool" where
  "silent_step s s' \<longleftrightarrow> no_offers s' \<and> offer_times (rtSent s') = offer_times (rtSent s)"

lemma unsent_refl: "no_offers s \<Longrightarrow> silent_step s s"
  by (simp add: silent_step_def)

lemma unsent_trans: "silent_step s s1 \<Longrightarrow> silent_step s1 s2 \<Longrightarrow> silent_step s s2"
  by (simp add: silent_step_def)

lemma silent_fields:
  "no_offers s \<Longrightarrow> \<not> rtIsOfferer s' \<Longrightarrow> rtCalls s' = rtCalls s \<Longrightarrow> rtSent s' = rtSent s \<Longrightarrow> silent_step s s'"
  by (simp add: silent_step_def no_offers_def)

lemma silent_emit: "no_offers s \<Longrightarrow> \<not> is_offer m \<Longrightarrow> silent_step s (emitSignal now m s)"
  by (cases m) (simp_all add: silent_step_def emitSignal_def offer_times_def no_offers_def)

lemma no_offer_refused: "no_offers s \<Longrightarrow> \<exists>r. createAndSendOffer e opts fc s = (Some r, s)"
  by (auto simp: no_offers_def createAndSendOffer_def offer_gates_def split: option.split)

lemma silent_connect: "no_offers s \<Longrightarrow> silent_step s (snd (rtc_connect e born s))"
  by (rule silent_fields) (auto simp: rtc_connect_def Let_def connect_offer_def new_connection_def no_offers_def)

lemma silent_restart: "no_offers s \<Longrightarrow> silent_step s (snd (tryIceRestart e f b s))"
  by (rule silent_fields) (auto simp: tryIceRestart_def Let_def no_offers_def split: option.split)

lemma silent_promote: "no_offers s \<Longrightarrow> silent_step s (snd (promoteVideoSend e f s))"
  by (rule silent_fields) (auto simp: promoteVideoSend_def no_offers_def split: option.split)

lemma silent_close: "no_offers s \<Longrightarrow> silent_step s (closeCall now b s)"
proof -
  assume n: "no_offers s"
  define s1 where "s1 = (clearDisconnectedIceProbe s)\<lparr>rtStuck := []\<rparr>"
  have 1: "silent_step s s1"
    by (rule silent_fields [OF n]) (use n in \<open>simp_all add: s1_def clearDisconnectedIceProbe_def no_offers_def\<close>)
  define s2 where "s2 = (if b then emitSignal now SigBye s1 else s1)"
  have 2: "silent_step s s2"
    using 1 silent_emit [of s1 SigBye now] by (auto simp: s2_def silent_step_def)
  have "silent_step s2 (s2\<lparr>rtPc := None\<rparr>)"
    by (rule silent_fields) (use 2 in \<open>simp_all add: silent_step_def no_offers_def\<close>)
  moreover have "closeCall now b s = s2\<lparr>rtPc := None\<rparr>"
    by (simp only: closeCall_def Let_def s1_def s2_def)
  ultimately show ?thesis
    using unsent_trans [OF 2] by simp
qed

lemma silent_watchdog: "no_offers s \<Longrightarrow> silent_step s (offer_watchdog e s)"
  by (rule silent_fields) (auto simp: offer_watchdog_def Let_def no_offers_def split: option.split)

lemma silent_probe: "no_offers s \<Longrightarrow> silent_step s (disc_probe e pr s)"
proof -
  assume n: "no_offers s"
  define s1 where "s1 = s\<lparr>rtProbes := removeAll pr (rtProbes s)\<rparr>"
  define s2 where "s2 = (if fst pr = 12000 then s1\<lparr>rtProbing := False\<rparr> else s1)"
  have 2: "silent_step s s2"
    by (rule silent_fields [OF n]) (use n in \<open>simp_all add: s1_def s2_def no_offers_def\<close>)
  then have "silent_step s2 (snd (tryIceRestart e (snd pr) False s2))"
    by (intro silent_restart) (simp add: silent_step_def)
  with 2 unsent_trans [OF 2 this] show ?thesis
    unfolding disc_probe_def Let_def by (fold s1_def) (fold s2_def, simp split: option.split)
qed

lemma silent_black: "no_offers s \<Longrightarrow> silent_step s (black_watch e f ms s)"
proof -
  assume n: "no_offers s"
  define s1 where "s1 = s\<lparr>rtStuck := removeAll ms (rtStuck s)\<rparr>"
  have 1: "silent_step s s1"
    by (rule silent_fields [OF n]) (use n in \<open>simp_all add: s1_def no_offers_def\<close>)
  then have "silent_step s1 (snd (tryIceRestart e True True s1))"
    by (intro silent_restart) (simp add: silent_step_def)
  with 1 unsent_trans [OF 1 this] show ?thesis
    unfolding black_watch_def Let_def by (fold s1_def) (simp split: option.split)
qed

lemma silent_ice_state: "no_offers s \<Longrightarrow> silent_step s (on_ice_state e s)"
proof (cases "rtPc s")
  case None
  assume "no_offers s"
  with None show ?thesis by (simp add: on_ice_state_def unsent_refl)
next
  case (Some p)
  assume n: "no_offers s"
  define s1 where "s1 = (if ice_up (pcIce p) then s\<lparr>rtIceEverOk := True\<rparr> else s)"
  have 1: "silent_step s s1"
    by (rule silent_fields [OF n]) (use n in \<open>simp_all add: s1_def no_offers_def\<close>)
  then have n1: "no_offers s1" by (simp add: silent_step_def)
  define s2 where "s2 = (if pcIce p = IceFailed then snd (tryIceRestart e False False s1)
      else if pcIce p = IceDisconnected then scheduleDisconnectedIceProbe s1 else s1)"
  have "silent_step s1 (scheduleDisconnectedIceProbe s1)"
    by (rule silent_fields [OF n1]) (use n1 in \<open>simp_all add: scheduleDisconnectedIceProbe_def no_offers_def\<close>)
  then have 2: "silent_step s s2"
    using unsent_trans [OF 1] silent_restart [OF n1] 1 by (auto simp: s2_def)
  have "silent_step s2 ((clearDisconnectedIceProbe s2)\<lparr>rtRestartCount := 0\<rparr>)"
    by (rule silent_fields) (use 2 in \<open>simp_all add: clearDisconnectedIceProbe_def silent_step_def no_offers_def\<close>)
  moreover have "on_ice_state e s = (if ice_up (pcIce p) then (clearDisconnectedIceProbe s2)\<lparr>rtRestartCount := 0\<rparr> else s2)"
    by (simp only: on_ice_state_def Let_def Some option.case s1_def s2_def)
  ultimately show ?thesis
    using 2 unsent_trans [OF 2] by simp
qed

text \<open>What the page may do to a connection without making it offer. The others give the offering role or send
  the local offer: \<open>joinPeers\<close> and the kicks, which the page runs where it takes itself for the offerer.\<close>

fun page_silent :: "page_op \<Rightarrow> bool" where
  "page_silent (PgKick e) = False"
| "page_silent (PgSolo e) = False"
| "page_silent (PgYoung e) = False"
| "page_silent (PgExtra works) = False"
| "page_silent (PgJoin inbound) = inbound"
| "page_silent (PgOfferer on) = (\<not> on)"
| "page_silent op = True"

fun rtc_silent :: "rtc_event \<Rightarrow> bool" where
  "rtc_silent (EvPage op) = page_silent op"
| "rtc_silent ev = True"

lemma silent_page: "no_offers s \<Longrightarrow> page_silent op \<Longrightarrow> silent_step s (page_step s op)"
proof -
  assume n: "no_offers s" and op: "page_silent op"
  have set: "silent_step s s'" if "\<not> rtIsOfferer s'" "rtCalls s' = rtCalls s" "rtSent s' = rtSent s" for s'
    by (rule silent_fields [OF n that])
  have no: "\<not> rtIsOfferer s" using n by (simp add: no_offers_def)
  show ?thesis
  proof (cases op)
    case (PgStamps stamp lock attempt)
    have "silent_step s (page_stamps stamp lock attempt s)"
      by (rule set) (simp_all add: page_stamps_def no)
    with PgStamps show ?thesis by simp
  next
    case (PgTear now)
    define s1 where "s1 = s\<lparr>rtSentOnce := False, rtEmitOk := False, rtInFlight := False, rtLastOfferAt := 0\<rparr>"
    have 1: "silent_step s s1"
      by (rule set) (simp_all add: s1_def no)
    then have "no_offers s1" by (simp add: silent_step_def)
    then have "silent_step s1 (closeCall now False s1)" by (rule silent_close)
    with 1 have 2: "silent_step s (closeCall now False s1)" by (rule unsent_trans)
    then have "no_offers (closeCall now False s1)" by (simp add: silent_step_def)
    then have "silent_step (closeCall now False s1) (page_stamps 0 False 0 (closeCall now False s1))"
      by (rule silent_fields) (use 2 in \<open>simp_all add: silent_step_def no_offers_def page_stamps_def\<close>)
    with 2 have "silent_step s (page_stamps 0 False 0 (closeCall now False s1))" by (rule unsent_trans)
    with PgTear unsent_refl [OF n] show ?thesis by (simp add: kick_tear_def s1_def)
  next
    case (PgFirst e)
    define s1 where "s1 = s\<lparr>wOfferLock := False, wOfferAt := 0\<rparr>"
    have 1: "silent_step s s1"
      by (rule set) (simp_all add: s1_def no)
    then have "no_offers s1" by (simp add: silent_step_def)
    then obtain r where "createAndSendOffer e plain_offer False s1 = (Some r, s1)"
      using no_offer_refused by blast
    with PgFirst 1 unsent_refl [OF n] show ?thesis
      by (simp add: solo_first_def s1_def [symmetric])
  next
    case PgBudget
    have "silent_step s (page_stamps 0 False 0 (s\<lparr>rtInFlight := False, rtSentOnce := False, rtLastOfferAt := 0\<rparr>))"
      by (rule set) (simp_all add: page_stamps_def no)
    with PgBudget unsent_refl [OF n] show ?thesis by (simp add: solo_budget_def)
  next
    case (PgJoin inbound)
    have "silent_step s (s\<lparr>rtIsOfferer := False\<rparr>)"
      by (rule set) simp_all
    with PgJoin op show ?thesis by (simp add: join_role_def)
  next
    case (PgOfferer on)
    have "silent_step s (s\<lparr>rtIsOfferer := False\<rparr>)"
      by (rule set) simp_all
    with PgOfferer op show ?thesis by simp
  next
    case PgAnswerOnly
    have "silent_step s (s\<lparr>rtAnswerOnly := True, rtIsOfferer := False\<rparr>)"
      by (rule set) simp_all
    with PgAnswerOnly show ?thesis by simp
  next
    case PgRecovered
    have "silent_step s (s\<lparr>rtRestartCount := 0\<rparr>)"
      by (rule set) (simp_all add: no)
    with PgRecovered show ?thesis by simp
  qed (use op in simp_all)
qed

lemma silent_rtc_step: "no_offers s \<Longrightarrow> rtc_silent ev \<Longrightarrow> silent_step s (rtc_step s ev)"
proof -
  assume n: "no_offers s" and ev: "rtc_silent ev"
  have no: "\<not> at_stage i st s" if "st \<noteq> OfDone" for i st
    using n that by (auto simp: no_offers_def at_stage_def list_all_length)
  show ?thesis
  proof (cases ev)
    case (EvOffer e)
    with no_offer_refused [OF n, of e plain_offer False] unsent_refl [OF n] show ?thesis by auto
  next
    case (EvView p)
    then show ?thesis using n by (simp add: set_pc_def silent_fields no_offers_def silent_step_def)
  next
    case (EvHang i)
    have "silent_step s (offer_hang i s)"
      using n by (auto simp: offer_hang_def Let_def silent_step_def no_offers_def upd_call_all)
    with EvHang unsent_refl [OF n] show ?thesis by simp
  next
    case EvConnState
    then show ?thesis using n by (auto simp: on_connection_state_def silent_fields unsent_refl no_offers_def split: option.split)
  next
    case (EvPage op)
    with ev silent_page [OF n] show ?thesis by simp
  qed (use n no silent_connect silent_restart silent_promote silent_close silent_watchdog silent_probe silent_black
      silent_ice_state unsent_refl in simp_all)
qed

definition silent_link :: "peer_link \<Rightarrow> peer_link \<Rightarrow> bool" where
  "silent_link l l' \<longleftrightarrow> silent_step (lkRtc l) (lkRtc l')"

lemma silent_same: "no_offers (lkRtc l) \<Longrightarrow> lkRtc l' = lkRtc l \<Longrightarrow> silent_link l l'"
  by (simp add: silent_link_def unsent_refl)

lemma silent_link_fields:
  "no_offers (lkRtc l) \<Longrightarrow> \<not> rtIsOfferer (lkRtc l') \<Longrightarrow> rtCalls (lkRtc l') = rtCalls (lkRtc l) \<Longrightarrow>
   rtSent (lkRtc l') = rtSent (lkRtc l) \<Longrightarrow> silent_link l l'"
  by (simp add: silent_link_def silent_fields)

lemma silent_reconnect:
  assumes n: "no_offers s" and eq: "rtCalls s' = rtCalls s" "rtSent s' = rtSent s" "\<not> rtIsOfferer s'"
  shows "silent_step s (snd (rtc_connect e born s'))"
proof -
  have "silent_step s s'" by (rule silent_fields [OF n eq(3,1,2)])
  moreover from this have "silent_step s' (snd (rtc_connect e born s'))"
    by (intro silent_connect) (simp add: silent_step_def)
  ultimately show ?thesis by (rule unsent_trans)
qed

lemma silent_apply: "no_offers (lkRtc l) \<Longrightarrow> silent_link l (offer_apply e painted j raw l)"
  by (rule silent_link_fields) (auto simp: offer_apply_def no_offers_def split: option.split)

lemma silent_glare: "no_offers (lkRtc l) \<Longrightarrow> silent_link l (offer_glare e painted j raw l)"
  using silent_apply [of "upd_job j (\<lambda>x. x\<lparr>ijState := st\<rparr>) l" e painted j raw for st]
  by (auto simp: offer_glare_def Let_def silent_link_def unsent_refl split: option.split)

lemma silent_policy: "no_offers (lkRtc l) \<Longrightarrow> silent_link l (offer_policy e born painted j raw l)"
  using silent_glare [of l e painted j raw]
    silent_reconnect [of "lkRtc l" "(lkRtc l)\<lparr>rtPc := None, rtPendingIce := [], rtIsOfferer := False, rtRelayPc := False\<rparr>"]
  by (simp add: offer_policy_def silent_link_def)

lemma silent_flush: "no_offers (lkRtc l) \<Longrightarrow> silent_link l (flushPendingIce ice l)"
  by (rule silent_link_fields) (auto simp: flushPendingIce_def Let_def no_offers_def)

lemma silent_handle: "no_offers (lkRtc l) \<Longrightarrow> silent_link l (handle_signal e born painted j l)"
  using silent_policy [of l e born painted j] silent_close [of "lkRtc l" "evNow e" True]
    silent_link_fields [of l "ice_in e c l" for c]
  by (auto simp: handle_signal_def silent_link_def unsent_refl ice_in_def no_offers_def
      split: remote_signal.split option.split)

lemma silent_remote:
  assumes "no_offers (lkRtc l)"
  shows "silent_link l (handleRemoteSignal e born painted sig l)"
proof (cases "sig = InAvPath")
  case False
  define l1 where "l1 = (case sig of InOffer raw \<Rightarrow> upd_rtc (\<lambda>s. s\<lparr>rtRemoteOfferSince := evNow e\<rparr>) l | _ \<Rightarrow> l)"
  define l2 where "l2 = l1\<lparr>lkJobs := lkJobs l1 @ [\<lparr>ijSignal = sig, ijState = SdpStable,
      ijMade = \<lparr>dsType = ''answer'', dsSdp = None\<rparr>, ijStage = InConnect\<rparr>]\<rparr>"
  have l2: "silent_link l l2"
    by (rule silent_link_fields [OF assms])
      (use assms in \<open>auto simp: l2_def l1_def no_offers_def split: remote_signal.split\<close>)
  then have n2: "no_offers (lkRtc l2)"
    by (simp add: silent_link_def silent_step_def)
  have "silent_link l2 (upd_rtc (\<lambda>s. snd (rtc_connect e born s)) l2)"
    using silent_connect [OF n2] by (simp add: silent_link_def)
  with silent_handle [OF n2, of e born painted "length (lkJobs l1)"] l2 False show ?thesis
    unfolding handleRemoteSignal_def Let_def
    by (fold l1_def) (fold l2_def, auto simp: silent_link_def intro: unsent_trans)
qed (use assms in \<open>simp add: handleRemoteSignal_def silent_link_def unsent_refl\<close>)

lemma silent_applied:
  assumes n: "no_offers (lkRtc l)"
  shows "silent_link l (answer_applied e flipped j l)"
proof -
  define s1 where "s1 = (lkRtc l)\<lparr>rtGotAnswerAt := evNow e, rtSentOnce := True, rtWatch := False\<rparr>"
  have 1: "silent_step (lkRtc l) s1"
    by (rule silent_fields [OF n]) (use n in \<open>simp_all add: s1_def no_offers_def\<close>)
  then have 2: "silent_step (lkRtc l) (snd (promoteVideoSend e flipped s1))" (is "silent_step _ ?s2")
    using unsent_trans [OF 1] silent_promote by (simp add: silent_step_def)
  have "silent_step (lkRtc l) (lkRtc (answer_applied e flipped j l))"
    using 2 unfolding silent_step_def no_offers_def
    by (simp add: answer_applied_def flushPendingIce_def Let_def s1_def)
  then show ?thesis by (simp add: silent_link_def)
qed

lemma silent_set: "no_offers (lkRtc l) \<Longrightarrow> silent_link l (offer_set e j l)"
  by (rule silent_link_fields) (auto simp: offer_set_def flushPendingIce_def Let_def no_offers_def)

definition link_silent :: "peer_event \<Rightarrow> bool" where
  "link_silent ev = (case ev of LkRtc r \<Rightarrow> rtc_silent r | _ \<Rightarrow> True)"

lemma silent_link_step:
  assumes n: "no_offers (lkRtc l)" and ev: "link_silent ev"
  shows "silent_link l (peer_step l ev)"
proof (cases ev)
  case (LkRtc r)
  then show ?thesis using silent_rtc_step [OF n] ev by (simp add: silent_link_def link_silent_def)
next
  case (LkCandidate e c)
  then show ?thesis using silent_emit [OF n, of "SigIce c"] unsent_refl [OF n]
    by (simp add: silent_link_def on_ice_candidate_def)
next
  case (LkRolled e born painted ok j)
  have "silent_link l (offer_rolled e born painted ok j (job_offer j l) l)"
    using silent_apply [OF n] silent_reconnect [OF n, of "(lkRtc l)\<lparr>rtPc := None, rtPendingIce := [], rtIsOfferer := False\<rparr>"]
    by (simp add: offer_rolled_def silent_link_def)
  with LkRolled silent_same [OF n] show ?thesis by simp
next
  case (LkAnswerGathered e j)
  have "silent_link l (answer_emit e j l)"
    using n by (auto simp: answer_emit_def Let_def silent_link_def silent_step_def emitSignal_def offer_times_def
        no_offers_def split: option.split)
  with LkAnswerGathered silent_same [OF n] show ?thesis by simp
next
  case (LkAnswerMade made j)
  then show ?thesis using silent_same [OF n] by (simp add: answer_made_def)
qed (use silent_remote [OF n] silent_handle [OF n] silent_glare [OF n] silent_apply [OF n] silent_set [OF n]
    silent_applied [OF n] silent_same [OF n] in simp_all)

lemma silent_run: "no_offers (lkRtc l) \<Longrightarrow> list_all link_silent es \<Longrightarrow> silent_link l (foldl peer_step l es)"
proof (induction es arbitrary: l)
  case Nil
  then show ?case by (simp add: silent_link_def unsent_refl)
next
  case (Cons ev es)
  from silent_link_step [OF Cons.prems(1)] Cons.prems(2) have s: "silent_link l (peer_step l ev)" by simp
  then have "silent_link (peer_step l ev) (foldl peer_step (peer_step l ev) es)"
    using Cons.prems(2) by (intro Cons.IH) (simp_all add: silent_link_def silent_step_def)
  with s show ?case by (auto simp: silent_link_def intro: unsent_trans)
qed

lemma relay_run: "relay_only_link l \<Longrightarrow> list_all relay_event es \<Longrightarrow> relay_only_link (foldl peer_step l es)"
  by (induction es arbitrary: l) (simp_all add: relay_step)

section \<open>Properties\<close>

text \<open>C9: Under Hide IP or session relay every candidate that leaves the page and every candidate given to
  the connection is a UDP relay candidate (or an end mark), in every run and whatever was queued
  before the mode was switched on.\<close>

theorem only_relay_candidates:
  "if list_all relay_event es \<and> lkAdded l = [] \<and> ice_sent (lkRtc l) = []
   then relay_only_link (peer_run l es) else True"
  unfolding peer_run_def using relay_run [of l es] by (simp add: relay_only_link_def)

text \<open>C19: A client that has taken a remote offer never offers again by itself: from the moment the offer is set,
  with no offer of its own in progress, no restart, renegotiation, watchdog, reconnection or call of the page
  sends one, until the page gives the connection the offering role again or re-sends a local offer
  (\<open>page_silent\<close>: \<open>joinPeers\<close>, \<open>forceEmitExtraOffers\<close>, the kicks of the first seconds).\<close>

theorem answerer_never_offers:
  "if job_at j InSetOffer l \<and> list_all (\<lambda>c. ocStage c = OfDone) (rtCalls (lkRtc l)) \<and> list_all link_silent es
   then offer_times (rtSent (lkRtc (peer_run (peer_step l (LkOfferSet e j)) es))) = offer_times (rtSent (lkRtc l))
   else True"
proof (cases "job_at j InSetOffer l \<and> list_all (\<lambda>c. ocStage c = OfDone) (rtCalls (lkRtc l)) \<and> list_all link_silent es")
  case True
  define l1 where "l1 = peer_step l (LkOfferSet e j)"
  have n: "no_offers (lkRtc l1)" "rtSent (lkRtc l1) = rtSent (lkRtc l)"
    using True by (simp_all add: l1_def offer_set_def flushPendingIce_def Let_def no_offers_def)
  have "offer_times (rtSent (lkRtc (foldl peer_step l1 es))) = offer_times (rtSent (lkRtc l))"
    using silent_run [OF n(1), of es] n(2) True by (simp add: silent_link_def silent_step_def)
  with True show ?thesis
    by (simp add: peer_run_def l1_def)
qed (simp only: if_False)

text \<open>On the demo page, hanging up while both connections are open never comes to an end: each side
  answers a hang-up with a hang-up before it closes, whatever the depth allowed.\<close>

theorem demo_close_never_returns:
  "if rtPc own \<noteq> None \<and> rtPc other \<noteq> None then demo_close n e (own, other) = None else True"
proof (cases "rtPc own \<noteq> None \<and> rtPc other \<noteq> None")
  case True
  then have "demo_close n e (own, other) = None"
  proof (induction n arbitrary: own other)
    case (Suc n)
    define own1 where "own1 = emitSignal (evNow e) SigBye ((clearDisconnectedIceProbe own)\<lparr>rtStuck := []\<rparr>)"
    have "rtPc own1 \<noteq> None"
      using Suc.prems by (simp add: own1_def emitSignal_def clearDisconnectedIceProbe_def)
    with Suc.IH [of other own1] Suc.prems have "demo_close n e (other, own1) = None" by simp
    with Suc.prems show ?case by (simp add: Let_def own1_def [symmetric])
  qed simp
  then show ?thesis by simp
qed (simp only: if_False)

text \<open>Which offers of a partner a client that is connecting or connected refuses: all within 12 seconds
  of its own answer; after that all, unless it had answered more than 18 seconds ago and shows no
  picture. A client that offered itself and never answered refuses every one, for however long
  nothing is shown.\<close>

theorem renegotiation_refused:
  "case rtPc s of
     None \<Rightarrow> True
   | Some p \<Rightarrow>
       if pcCurRemote p \<noteq> None \<and> pcCurLocal p \<noteq> None \<and> st \<noteq> SdpRemoteOffer \<and>
          (pcIce p = IceChecking \<or> ice_up (pcIce p) \<or> pcConn p = ConnConnecting \<or> pcConn p = ConnConnected)
       then remote_offer_verdict e painted st raw p s =
         (if rtAnsweredAt s = 0 then OaNegotiated
          else if evNow e - rtAnsweredAt s < 12000 then OaAnsweredRecently
          else if painted \<or> evNow e - rtAnsweredAt s \<le> 18000 then OaNegotiated
          else OaAccept)
       else True"
  by (simp add: remote_offer_verdict_def split: option.split)

text \<open>Two clients that offered at the same time: \<open>me\<close> marks the descriptions of one client, \<open>you\<close> those
  of the other. The views are those of the browser's state machine: rolled back, remote offer set,
  answer set.\<close>

definition ex_desc :: "string \<Rightarrow> string \<Rightarrow> description" where
  "ex_desc typ who = \<lparr>dsType = typ, dsSdp = Some who\<rparr>"

definition ex_offered :: "string \<Rightarrow> peer_link" where
  "ex_offered me = new_peer_link (rtc_run (new_rtc True)
     [EvConnect (ex_env 1000) fresh_pc, EvSynced 0, EvCreated 0,
      EvView (fresh_pc\<lparr>pcSignaling := SdpLocalOffer, pcLocal := Some (ex_desc ''offer'' me)\<rparr>), EvLocalSet 0,
      EvGathered (ex_env 1500) fresh_pc 0 (ex_desc ''offer'' me) 0])"

definition ex_glare :: "string \<Rightarrow> string \<Rightarrow> peer_link" where
  "ex_glare me you = peer_run (ex_offered me)
     [LkSignal (ex_env 1600) fresh_pc False (InOffer (ex_desc ''offer'' you)), LkRtc (EvView fresh_pc),
      LkRolled (ex_env 1610) fresh_pc False True 0,
      LkRtc (EvView (fresh_pc\<lparr>pcSignaling := SdpRemoteOffer, pcRemote := Some (ex_desc ''offer'' you)\<rparr>)),
      LkOfferSet (ex_env 1620) 0, LkAnswerMade (ex_desc ''answer'' me) 0,
      LkRtc (EvView (fresh_pc\<lparr>pcLocal := Some (ex_desc ''answer'' me), pcRemote := Some (ex_desc ''offer'' you),
        pcCurLocal := Some (ex_desc ''answer'' me), pcCurRemote := Some (ex_desc ''offer'' you)\<rparr>)),
      LkAnswerLocal 0, LkAnswerGathered (ex_env 1700) 0,
      LkSignal (ex_env 1800) fresh_pc False (InAnswer (ex_desc ''answer'' you))]"

text \<open>What is left of a client: the signals it sent, the handlers in progress, when it got an answer,
  whether it offers, and what the browser shows.\<close>

definition link_left :: "peer_link \<Rightarrow> rtc_signal list \<times> in_stage list \<times> int \<times> bool \<times> offer_stage list \<times> rtc_pc option" where
  "link_left l = (map snd (rtSent (lkRtc l)), map ijStage (lkJobs l), rtGotAnswerAt (lkRtc l), rtIsOfferer (lkRtc l),
     map ocStage (rtCalls (lkRtc l)), rtPc (lkRtc l))"

definition ex_stranded :: "string \<Rightarrow> string \<Rightarrow> rtc_pc" where
  "ex_stranded me you = fresh_pc\<lparr>pcLocal := Some (ex_desc ''answer'' me), pcRemote := Some (ex_desc ''offer'' you),
     pcCurLocal := Some (ex_desc ''answer'' me), pcCurRemote := Some (ex_desc ''offer'' you)\<rparr>"

text \<open>When both offer, both roll back and answer, both ignore the answer to the offer they took back, and
  neither is left in the offering role: each has the other's discarded offer as its remote
  description.\<close>

theorem glare_strands_both:
  "link_left (ex_glare ''a'' ''b'') = ([SigAnswer (ex_desc ''answer'' ''a''), SigOffer (ex_desc ''offer'' ''a'')],
     [InDone, InDone], 0, False, [OfDone], Some (ex_stranded ''a'' ''b''))
   \<and> link_left (ex_glare ''b'' ''a'') = ([SigAnswer (ex_desc ''answer'' ''b''), SigOffer (ex_desc ''offer'' ''b'')],
     [InDone, InDone], 0, False, [OfDone], Some (ex_stranded ''b'' ''a''))"
  by (rule conjI; code_simp)

end
