(* ===== verification/Histories.thy ===== *)
theory Histories
  imports Complex_Main Contracts
begin

text \<open>
  The lists the phone keeps on the device: call history, match history, report log, names of
  blocked users, unread messages (\<open>calls/history.ts\<close>, \<open>calls/matchHistory.ts\<close>,
  \<open>safety/reportHistory.ts\<close>, \<open>safety/blocks.ts\<close>, \<open>friends/unread.ts\<close>), the partner pictures
  (\<open>calls/matchThumbs.ts\<close>) and the timer texts (\<open>live/callMetrics.ts\<close>). A stored list is \<open>None\<close>
  when the key is absent or does not parse.

  Every update reads the key, waits, and writes it back; \<open>io_step\<close> lets the updates overlap the way
  the storage does. A random part of an id is an argument, and integer-like user ids, which an
  object would list first, are not treated apart.
\<close>

section \<open>Overlapping updates\<close>

text \<open>\<open>IoBegin\<close> is the read of an update, \<open>IoCommit i\<close> the write of the i-th update still under way.\<close>

datatype 'j io_event = IoBegin 'j | IoCommit nat

record ('j, 's) local_io =
  ioStore :: 's
  ioOpen :: "('j \<times> 's) list"

text \<open>\<open>upd j m\<close> is what update \<open>j\<close> writes after it read \<open>m\<close>, if it writes.\<close>

definition io_step :: "('j \<Rightarrow> 's \<Rightarrow> 's option) \<Rightarrow> ('j, 's) local_io \<Rightarrow> 'j io_event \<Rightarrow> ('j, 's) local_io" where
  "io_step upd s e =
     (case e of
        IoBegin j \<Rightarrow> s\<lparr>ioOpen := ioOpen s @ [(j, ioStore s)]\<rparr>
      | IoCommit i \<Rightarrow>
          if i < length (ioOpen s)
          then \<lparr>ioStore = (case upd (fst (ioOpen s ! i)) (snd (ioOpen s ! i)) of None \<Rightarrow> ioStore s | Some m \<Rightarrow> m),
                ioOpen = take i (ioOpen s) @ drop (Suc i) (ioOpen s)\<rparr>
          else s)"

definition io_run :: "('j \<Rightarrow> 's \<Rightarrow> 's option) \<Rightarrow> 's \<Rightarrow> 'j io_event list \<Rightarrow> 's" where
  "io_run upd m es = ioStore (foldl (io_step upd) \<lparr>ioStore = m, ioOpen = []\<rparr> es)"

definition io_ok :: "('s \<Rightarrow> bool) \<Rightarrow> ('j, 's) local_io \<Rightarrow> bool" where
  "io_ok ok s \<longleftrightarrow> ok (ioStore s) \<and> list_all (\<lambda>p. ok (snd p)) (ioOpen s)"

text \<open>A store all of whose updates keep what is promised of its contents.\<close>

locale local_store =
  fixes upd :: "'j \<Rightarrow> 's \<Rightarrow> 's option"
    and ok :: "'s \<Rightarrow> bool"
  assumes upd_ok: "ok m \<Longrightarrow> upd j m = Some m' \<Longrightarrow> ok m'"
begin

lemma io_ok_step: "io_ok ok s \<Longrightarrow> io_ok ok (io_step upd s e)"
  by (auto simp: io_ok_def io_step_def list_all_iff dest: in_set_takeD in_set_dropD upd_ok
      split: io_event.split option.split)

end

sublocale local_store \<subseteq> io: event_machine "io_step upd" "io_ok ok"
  by unfold_locales (rule io_ok_step)

context local_store
begin

lemma run_ok: "ok m \<Longrightarrow> ok (io_run upd m es)"
  using io.inv_run [of "\<lparr>ioStore = m, ioOpen = []\<rparr>" es] by (simp add: io_ok_def io_run_def)

end

text \<open>One update after the other, and two that read before either wrote.\<close>

lemma run_one_by_one:
  "io_run upd m [IoBegin a, IoCommit 0, IoBegin b, IoCommit 0] =
     (let m1 = (case upd a m of None \<Rightarrow> m | Some x \<Rightarrow> x) in case upd b m1 of None \<Rightarrow> m1 | Some x \<Rightarrow> x)"
  by (auto simp: io_run_def io_step_def Let_def split: option.splits)

lemma run_overlapped:
  "io_run upd m [IoBegin a, IoBegin b, IoCommit 0, IoCommit 0] =
     (case upd b m of None \<Rightarrow> (case upd a m of None \<Rightarrow> m | Some x \<Rightarrow> x) | Some x \<Rightarrow> x)"
  by (auto simp: io_run_def io_step_def split: option.splits)

section \<open>Call history\<close>

datatype call_kind = CkMissed | CkNoAnswer | CkDeclined | CkBusy

record call_entry =
  ceId :: string
  ceKind :: call_kind
  ceT :: int
  ceUser :: string
  ceName :: string
  ceShort :: "string option"
  ceCode :: "string option"

definition CALL_MAX :: nat where
  "CALL_MAX = 40"

definition text_else :: "string \<Rightarrow> string \<Rightarrow> string" where
  "text_else s d = (if s = '''' then d else s)"

definition or_now :: "int option \<Rightarrow> int \<Rightarrow> int" where
  "or_now t now = (case t of None \<Rightarrow> now | Some x \<Rightarrow> if x = 0 then now else x)"

definition loadCallHistory :: "call_entry list option \<Rightarrow> call_entry list" where
  "loadCallHistory raw =
     (case raw of None \<Rightarrow> [] | Some arr \<Rightarrow> filter (\<lambda>h. ceUser h \<noteq> '''' \<and> ceT h \<noteq> 0) arr)"

text \<open>The argument of \<open>pushCallHistory\<close> is an entry whose time may be left out; its id is not used.\<close>

definition call_entry_of :: "int \<Rightarrow> string \<Rightarrow> call_entry \<Rightarrow> int option \<Rightarrow> call_entry" where
  "call_entry_of now uid p t = p\<lparr>ceId := uid, ceT := or_now t now, ceName := text_else (ceName p) ''Friend''\<rparr>"

definition same_call :: "call_entry \<Rightarrow> call_entry \<Rightarrow> bool" where
  "same_call h e \<longleftrightarrow> ceUser h = ceUser e \<and> ceKind h = ceKind e \<and> \<bar>ceT h - ceT e\<bar> < 20000"

definition pushCallHistory :: "int \<Rightarrow> string \<Rightarrow> call_entry \<Rightarrow> int option \<Rightarrow> call_entry list option \<Rightarrow> call_entry list option" where
  "pushCallHistory now uid p t raw =
     (let entry = call_entry_of now uid p t
      in Some (take CALL_MAX (entry # filter (\<lambda>h. \<not> same_call h entry) (loadCallHistory raw))))"

text \<open>The time of the last reading, when it is stored.\<close>

definition countUnreadMissed :: "int option \<Rightarrow> call_entry list option \<Rightarrow> nat" where
  "countUnreadMissed stamp raw =
     (let since = or_now stamp 0
      in length (filter (\<lambda>h. ceKind h = CkMissed \<and> ceT h > since) (loadCallHistory raw)))"

definition markMissedCallsRead :: "int \<Rightarrow> int option \<Rightarrow> int option" where
  "markMissedCallsRead now stamp = Some now"

definition kindLabel :: "call_kind \<Rightarrow> string" where
  "kindLabel k = (case k of CkMissed \<Rightarrow> ''Missed call'' | CkNoAnswer \<Rightarrow> ''No answer''
     | CkDeclined \<Rightarrow> ''Declined'' | CkBusy \<Rightarrow> ''Busy'')"

definition call_timed_out :: "string \<Rightarrow> bool" where
  "call_timed_out r \<longleftrightarrow> js_includes r ''expir'' \<or> js_includes r ''timeout'' \<or> js_includes r ''no answer''"

datatype call_role = RoleCallee | RoleCaller

definition historyKindFromReason :: "string \<Rightarrow> call_role \<Rightarrow> call_kind option" where
  "historyKindFromReason reason role =
     (let r = js_lower reason
      in case role of
           RoleCallee \<Rightarrow> if call_timed_out r \<or> r = ''cancelled'' \<or> js_includes r ''cancel'' then Some CkMissed else None
         | RoleCaller \<Rightarrow> if js_includes r ''declin'' then Some CkDeclined
                        else if js_includes r ''busy'' then Some CkBusy
                        else if call_timed_out r then Some CkNoAnswer
                        else None)"

datatype call_job = CjPush int string call_entry "int option" | CjClear

definition call_upd :: "call_job \<Rightarrow> call_entry list option \<Rightarrow> call_entry list option option" where
  "call_upd j raw = (case j of CjPush now uid p t \<Rightarrow> Some (pushCallHistory now uid p t raw) | CjClear \<Rightarrow> Some None)"

section \<open>Match history\<close>

record match_entry =
  meId :: string
  meT :: int
  meUser :: string
  meName :: string
  meShort :: "string option"
  meCode :: "string option"
  meMode :: "string option"
  meStars :: "int option"
  meTrust :: "int option"
  meFlag :: "string option"
  meSecs :: int

definition MATCH_MAX :: nat where
  "MATCH_MAX = 30"

definition loadMatchHistory :: "match_entry list option \<Rightarrow> match_entry list" where
  "loadMatchHistory raw =
     (case raw of None \<Rightarrow> [] | Some arr \<Rightarrow> filter (\<lambda>h. meUser h \<noteq> '''' \<and> meT h \<noteq> 0) arr)"

definition match_entry_of :: "int \<Rightarrow> string \<Rightarrow> match_entry \<Rightarrow> int option \<Rightarrow> rat \<Rightarrow> match_entry" where
  "match_entry_of now uid p t secs =
     p\<lparr>meId := uid, meT := or_now t now, meUser := js_trim (meUser p), meName := text_else (meName p) ''Partner'',
       meSecs := max 0 \<lfloor>secs\<rfloor>\<rparr>"

definition same_match :: "match_entry \<Rightarrow> match_entry \<Rightarrow> bool" where
  "same_match h e \<longleftrightarrow> meUser h = meUser e \<and> \<bar>meT h - meT e\<bar> < 60000"

definition pushMatchHistory ::
    "int \<Rightarrow> string \<Rightarrow> match_entry \<Rightarrow> int option \<Rightarrow> rat \<Rightarrow> match_entry list option \<Rightarrow> match_entry list option option" where
  "pushMatchHistory now uid p t secs raw =
     (if js_trim (meUser p) = '''' then None
      else let entry = match_entry_of now uid p t secs
           in Some (Some (take MATCH_MAX (entry # filter (\<lambda>h. \<not> same_match h entry) (loadMatchHistory raw)))))"

definition removeMatchHistory :: "string \<Rightarrow> match_entry list option \<Rightarrow> match_entry list option" where
  "removeMatchHistory uid raw = Some (take MATCH_MAX (filter (\<lambda>h. meId h \<noteq> uid) (loadMatchHistory raw)))"

datatype match_job = MjPush int string match_entry "int option" rat | MjRemove string | MjClear

definition match_upd :: "match_job \<Rightarrow> match_entry list option \<Rightarrow> match_entry list option option" where
  "match_upd j raw =
     (case j of MjPush now uid p t secs \<Rightarrow> pushMatchHistory now uid p t secs raw
      | MjRemove uid \<Rightarrow> Some (removeMatchHistory uid raw) | MjClear \<Rightarrow> Some None)"

section \<open>Report log\<close>

datatype report_kind = RkReport | RkBlock

record report_entry =
  reId :: string
  reT :: int
  reUser :: string
  reName :: string
  reKind :: report_kind
  reReason :: "string option"

definition loadReportHistory :: "report_entry list option \<Rightarrow> report_entry list" where
  "loadReportHistory raw = (case raw of None \<Rightarrow> [] | Some arr \<Rightarrow> filter (\<lambda>e. reUser e \<noteq> '''') arr)"

definition pushReportHistory :: "int \<Rightarrow> string \<Rightarrow> report_entry \<Rightarrow> int option \<Rightarrow> report_entry list option \<Rightarrow> report_entry list option" where
  "pushReportHistory now uid p t raw =
     (let entry = p\<lparr>reId := uid, reT := or_now t now, reName := text_else (reName p) (take 8 (reUser p))\<rparr>
      in Some (take 40 (entry # loadReportHistory raw)))"

section \<open>Names of blocked users\<close>

record blocked_entry =
  beUser :: string
  beName :: string
  beT :: int

definition loadMap :: "blocked_entry list option \<Rightarrow> (string, blocked_entry) jsmap" where
  "loadMap raw =
     (case raw of None \<Rightarrow> []
      | Some arr \<Rightarrow> fold (\<lambda>e out. if beUser e \<noteq> '''' then jset (beUser e) e out else out) arr [])"

definition saveMap :: "(string, blocked_entry) jsmap \<Rightarrow> blocked_entry list option" where
  "saveMap m = Some (take 200 (sort_key (\<lambda>e. - beT e) (jvals m)))"

definition label_of :: "(string, blocked_entry) jsmap \<Rightarrow> string \<Rightarrow> string" where
  "label_of m u = (case jget m u of None \<Rightarrow> '''' | Some e \<Rightarrow> beName e)"

definition rememberBlock :: "int \<Rightarrow> string \<Rightarrow> string \<Rightarrow> blocked_entry list option \<Rightarrow> blocked_entry list option option" where
  "rememberBlock now user name raw =
     (let uid = js_trim user; m = loadMap raw
      in if uid = '''' then None
         else Some (saveMap (jset uid
           \<lparr>beUser = uid, beName = text_else (js_trim name) (text_else (label_of m uid) (take 8 uid)), beT = now\<rparr> m)))"

definition forgetBlock :: "string \<Rightarrow> blocked_entry list option \<Rightarrow> blocked_entry list option option" where
  "forgetBlock user raw =
     (let uid = js_trim user in if uid = '''' then None else Some (saveMap (jdel uid (loadMap raw))))"

text \<open>The list shown: the ids of the hub with the local names, or everything that has a local name.\<close>

definition resolveBlockedList :: "string list \<Rightarrow> blocked_entry list option \<Rightarrow> blocked_entry list" where
  "resolveBlockedList hubIds raw =
     (let m = loadMap raw;
          ids = rev (remdups (rev (filter (\<lambda>u. u \<noteq> '''') (hubIds @ jkeys m))));
          active = (if hubIds \<noteq> [] then filter (\<lambda>u. u \<noteq> '''') hubIds else ids)
      in map (\<lambda>u. \<lparr>beUser = u, beName = text_else (label_of m u) (take 8 u),
                   beT = (case jget m u of None \<Rightarrow> 0 | Some e \<Rightarrow> beT e)\<rparr>) active)"

datatype block_job = BjRemember int string string | BjForget string

definition block_upd :: "block_job \<Rightarrow> blocked_entry list option \<Rightarrow> blocked_entry list option option" where
  "block_upd j raw = (case j of BjRemember now u n \<Rightarrow> rememberBlock now u n raw | BjForget u \<Rightarrow> forgetBlock u raw)"

section \<open>Unread messages\<close>

type_synonym unread_map = "(string, int) jsmap"

definition loadUnreadMap :: "unread_map option \<Rightarrow> unread_map" where
  "loadUnreadMap raw =
     (case raw of None \<Rightarrow> []
      | Some ob \<Rightarrow> map (\<lambda>(k, v). (k, min v 99)) (filter (\<lambda>(k, v). k \<noteq> '''' \<and> v > 0) ob))"

definition dm_count :: "unread_map \<Rightarrow> string \<Rightarrow> int" where
  "dm_count m u = (case jget m u of None \<Rightarrow> 0 | Some n \<Rightarrow> n)"

text \<open>The map the page shows next, and what is written.\<close>

definition bumpUnread :: "string \<Rightarrow> int \<Rightarrow> unread_map option \<Rightarrow> unread_map \<times> unread_map option option" where
  "bumpUnread user n raw =
     (let uid = js_trim user; m = loadUnreadMap raw
      in if uid = '''' then (m, None)
         else let m1 = jset uid (min 99 (dm_count m uid + max 1 n)) m in (m1, Some (Some m1)))"

definition markDmRead :: "string \<Rightarrow> unread_map option \<Rightarrow> unread_map \<times> unread_map option option" where
  "markDmRead user raw =
     (let uid = js_trim user; m = loadUnreadMap raw
      in if uid = '''' then (m, None)
         else if dm_count m uid \<noteq> 0 then let m1 = jdel uid m in (m1, Some (Some m1))
         else (m, None))"

definition totalUnread :: "unread_map \<Rightarrow> int" where
  "totalUnread m = sum_list (map (max 0) (jvals m))"

datatype dm_job = DmBump string int | DmRead string

definition dm_upd :: "dm_job \<Rightarrow> unread_map option \<Rightarrow> unread_map option option" where
  "dm_upd j raw = (case j of DmBump u n \<Rightarrow> snd (bumpUnread u n raw) | DmRead u \<Rightarrow> snd (markDmRead u raw))"

section \<open>Partner pictures\<close>

text \<open>The files of the directory and the index. Saves are taken one at a time; \<open>copies\<close> tells whether
  the copy succeeds, and a file that cannot be deleted is not modelled.\<close>

record thumb_state =
  thFiles :: "string list"
  thIndex :: "string list option"

definition THUMB_MAX :: nat where
  "THUMB_MAX = 48"

definition thumb_char :: "char \<Rightarrow> bool" where
  "thumb_char c \<longleftrightarrow> js_word c \<or> c = CHR ''-''"

definition thumbPath :: "string \<Rightarrow> string \<Rightarrow> string" where
  "thumbPath dir user = dir @ take 48 (map (\<lambda>c. if thumb_char c then c else CHR ''_'') user) @ ''.jpg''"

definition loadIndex :: "thumb_state \<Rightarrow> string list" where
  "loadIndex s = (case thIndex s of None \<Rightarrow> [] | Some ids \<Rightarrow> ids)"

function evict :: "string \<Rightarrow> string list \<Rightarrow> string list \<Rightarrow> string list \<times> string list" where
  "evict dir idx files =
     (if length idx > THUMB_MAX
      then evict dir (butlast idx) (if last idx = '''' then files else removeAll (thumbPath dir (last idx)) files)
      else (idx, files))"
  by auto

termination
  by (relation "measure (\<lambda>(dir, idx, files). length idx)") auto

declare evict.simps [simp del]

definition saveMatchThumbFromUri :: "string \<Rightarrow> bool \<Rightarrow> string \<Rightarrow> string \<Rightarrow> thumb_state \<Rightarrow> string option \<times> thumb_state" where
  "saveMatchThumbFromUri dir copies user source s =
     (let uid = js_trim user; dest = thumbPath dir uid
      in if uid = '''' \<or> source = '''' then (None, s)
         else if \<not> copies then (None, s)
         else case evict dir (uid # filter (\<lambda>x. x \<noteq> uid) (loadIndex s)) (List.insert dest (thFiles s)) of
                (idx, files) \<Rightarrow> (Some dest, \<lparr>thFiles = files, thIndex = Some (take THUMB_MAX idx)\<rparr>))"

definition getMatchThumbUri :: "string \<Rightarrow> string \<Rightarrow> thumb_state \<Rightarrow> string option" where
  "getMatchThumbUri dir user s =
     (let uid = js_trim user
      in if uid = '''' then None else if thumbPath dir uid \<in> set (thFiles s) then Some (thumbPath dir uid) else None)"

definition clearMatchThumbs :: "thumb_state \<Rightarrow> thumb_state" where
  "clearMatchThumbs s = \<lparr>thFiles = [], thIndex = None\<rparr>"

definition loadMatchThumbsMap :: "string \<Rightarrow> string list \<Rightarrow> thumb_state \<Rightarrow> (string, string) jsmap" where
  "loadMatchThumbsMap dir users s =
     fold (\<lambda>u out. case getMatchThumbUri dir u s of None \<Rightarrow> out | Some p \<Rightarrow> jset u p out) users []"

datatype thumb_op = ThSave bool string string | ThClear

definition thumb_step :: "string \<Rightarrow> thumb_state \<Rightarrow> thumb_op \<Rightarrow> thumb_state" where
  "thumb_step dir s x =
     (case x of ThSave copies user source \<Rightarrow> snd (saveMatchThumbFromUri dir copies user source s)
      | ThClear \<Rightarrow> clearMatchThumbs s)"

definition thumb_run :: "string \<Rightarrow> thumb_op list \<Rightarrow> thumb_state" where
  "thumb_run dir xs = foldl (thumb_step dir) \<lparr>thFiles = [], thIndex = None\<rparr> xs"

section \<open>Timer texts\<close>

definition formatCallTimer :: "rat \<Rightarrow> string" where
  "formatCallTimer elapsed =
     (let s = max 0 \<lfloor>elapsed\<rfloor>
      in if s \<le> 0 then ''''
         else show_int (s div 60) @ '':'' @ (if s mod 60 < 10 then ''0'' else '''') @ show_int (s mod 60))"

definition elapsedSince :: "int \<Rightarrow> int \<Rightarrow> int" where
  "elapsedSince startedAt now = (if startedAt = 0 then 0 else max 0 ((now - startedAt) div 1000))"

definition starProgress :: "rat \<Rightarrow> rat \<Rightarrow> rat" where
  "starProgress elapsed rateMin = (if rateMin \<le> 0 then 0 else min 1 (elapsed / rateMin))"

definition starNeedMinutes :: "rat \<Rightarrow> int" where
  "starNeedMinutes rateMin = max 1 \<lfloor>rateMin / 60 + 1 / 2\<rfloor>"


section \<open>What the stores keep\<close>

definition calls_ok :: "call_entry list option \<Rightarrow> bool" where
  "calls_ok raw = (case raw of None \<Rightarrow> True
     | Some l \<Rightarrow> sorted_wrt (\<lambda>e h. \<not> same_call h e) l \<and> length l \<le> CALL_MAX)"

definition matches_ok :: "match_entry list option \<Rightarrow> bool" where
  "matches_ok raw = (case raw of None \<Rightarrow> True
     | Some l \<Rightarrow> sorted_wrt (\<lambda>e h. \<not> same_match h e) l \<and> length l \<le> MATCH_MAX)"

definition labels_ok :: "blocked_entry list option \<Rightarrow> bool" where
  "labels_ok raw = (case raw of None \<Rightarrow> True
     | Some l \<Rightarrow> distinct (map beUser l) \<and> list_all (\<lambda>e. beUser e \<noteq> '''') l \<and> length l \<le> 200)"

definition counts_ok :: "unread_map option \<Rightarrow> bool" where
  "counts_ok raw = (case raw of None \<Rightarrow> True
     | Some m \<Rightarrow> jmap_ok m \<and> list_all (\<lambda>(u, n). u \<noteq> '''' \<and> 0 < n \<and> n \<le> 99) m)"

interpretation calls: local_store call_upd calls_ok
proof
  fix m j m' assume "calls_ok m" "call_upd j m = Some m'"
  then show "calls_ok m'"
    by (auto simp: call_upd_def pushCallHistory_def loadCallHistory_def calls_ok_def Let_def
        intro!: sorted_wrt_take intro: sorted_wrt_filter split: call_job.splits option.splits)
qed

interpretation matches: local_store match_upd matches_ok
proof
  fix m j m' assume "matches_ok m" "match_upd j m = Some m'"
  then show "matches_ok m'"
    by (auto simp: match_upd_def pushMatchHistory_def removeMatchHistory_def loadMatchHistory_def matches_ok_def Let_def
        intro!: sorted_wrt_take intro: sorted_wrt_filter split: match_job.splits option.splits if_splits)
qed

text \<open>The labels are kept under their own user.\<close>

definition labelled :: "(string, blocked_entry) jsmap \<Rightarrow> bool" where
  "labelled m \<longleftrightarrow> jmap_ok m \<and> list_all (\<lambda>(u, e). u \<noteq> '''' \<and> beUser e = u) m"

lemma labelled_jset: "labelled m \<Longrightarrow> u \<noteq> '''' \<Longrightarrow> beUser e = u \<Longrightarrow> labelled (jset u e m)"
  by (auto simp: labelled_def jmap_ok_def list_all_iff dest!: in_jset) (simp add: jset_def distinct_update)

lemma labelled_jdel: "labelled m \<Longrightarrow> labelled (jdel u m)"
  by (auto simp: labelled_def jmap_ok_def jdel_eq_filter list_all_iff distinct_map inj_on_def)

lemma labelled_loadMap: "labelled (loadMap raw)"
proof -
  have "labelled m \<Longrightarrow> labelled (fold (\<lambda>e out. if beUser e \<noteq> '''' then jset (beUser e) e out else out) arr m)" for arr m
    by (induction arr arbitrary: m) (simp_all add: labelled_jset)
  then show ?thesis
    by (cases raw) (simp_all add: loadMap_def labelled_def jmap_ok_def)
qed

lemma labelled_users: "labelled m \<Longrightarrow> map beUser (jvals m) = jkeys m"
  by (induction m) (auto simp: labelled_def jvals_def jmap_ok_def)

lemma saveMap_ok: "labelled m \<Longrightarrow> labels_ok (saveMap m)"
proof -
  assume m: "labelled m"
  have "distinct (map beUser (jvals m))"
    using m by (simp add: labelled_users) (simp add: labelled_def jmap_ok_def)
  moreover have "list_all (\<lambda>e. beUser e \<noteq> '''') (jvals m)"
    using m by (auto simp: labelled_def jvals_def list_all_iff)
  ultimately show ?thesis
    by (auto simp: labels_ok_def saveMap_def list_all_iff distinct_map inj_on_def take_map
        intro!: distinct_take dest!: in_set_takeD)
qed

interpretation labels: local_store block_upd labels_ok
proof
  fix m j m' assume "block_upd j m = Some m'"
  then show "labels_ok m'"
    by (auto simp: block_upd_def rememberBlock_def forgetBlock_def Let_def
        intro!: saveMap_ok labelled_jset labelled_jdel labelled_loadMap split: block_job.splits if_splits)
qed

section \<open>Counts\<close>

lemma jget_jset [simp]: "jget (jset k v m) k' = (if k' = k then Some v else jget m k')"
  by (simp add: jget_def jset_def update_conv')

lemma loaded_counts: "list_all (\<lambda>(u, n). u \<noteq> '''' \<and> 0 < n \<and> n \<le> 99) (loadUnreadMap raw)"
  by (auto simp: loadUnreadMap_def list_all_iff split: option.splits)

lemma count_range: "list_all (\<lambda>(u, n). u \<noteq> '''' \<and> 0 < n \<and> n \<le> 99) m \<Longrightarrow> 0 \<le> dm_count m u \<and> dm_count m u \<le> 99"
  by (auto simp: dm_count_def jget_def list_all_iff dest!: map_of_SomeD split: option.split)

lemma counts_jset:
  "list_all (\<lambda>(u, n). u \<noteq> '''' \<and> 0 < n \<and> n \<le> 99) m \<Longrightarrow> u \<noteq> '''' \<Longrightarrow> 0 < n \<Longrightarrow> n \<le> 99 \<Longrightarrow>
   list_all (\<lambda>(u, n). u \<noteq> '''' \<and> 0 < n \<and> n \<le> 99) (jset u n m)"
  by (auto simp: list_all_iff dest!: in_jset)

text \<open>What the next load sees of a bump.\<close>

lemma load_of_good:
  "list_all (\<lambda>(u, n). u \<noteq> '''' \<and> 0 < n \<and> n \<le> 99) m \<Longrightarrow> loadUnreadMap (Some m) = m"
proof -
  assume m: "list_all (\<lambda>(u, n). u \<noteq> '''' \<and> 0 < n \<and> n \<le> 99) m"
  then have "filter (\<lambda>(k, v). k \<noteq> '''' \<and> v > 0) m = m"
    by (auto simp: list_all_iff filter_id_conv)
  with m show ?thesis
    by (auto simp: loadUnreadMap_def list_all_iff intro!: map_idI)
qed

definition bumped :: "string \<Rightarrow> int \<Rightarrow> unread_map \<Rightarrow> unread_map" where
  "bumped u n m = jset u (min 99 (dm_count m u + max 1 n)) m"

lemma dm_upd_bump: "js_trim u \<noteq> '''' \<Longrightarrow>
    dm_upd (DmBump u n) raw = Some (Some (bumped (js_trim u) n (loadUnreadMap raw)))"
  by (simp add: dm_upd_def bumpUnread_def bumped_def Let_def)

lemma load_bumped: "u \<noteq> '''' \<Longrightarrow>
    loadUnreadMap (Some (bumped u n (loadUnreadMap raw))) = bumped u n (loadUnreadMap raw)"
  unfolding bumped_def
  using count_range [OF loaded_counts, of raw u] by (intro load_of_good counts_jset loaded_counts) auto

lemma count_bumped: "dm_count (bumped u n m) v = (if v = u then min 99 (dm_count m u + max 1 n) else dm_count m v)"
  by (simp add: bumped_def dm_count_def)

text \<open>Two messages that arrive one after the other both count. When the second is read from the
  storage before the first is written, the first is forgotten: the badge of its sender stays as it was.\<close>

theorem overlapped_messages_lost:
  "let a = js_trim u; b = js_trim v; before = dm_count (loadUnreadMap raw);
       orderly = dm_count (loadUnreadMap (io_run dm_upd raw [IoBegin (DmBump u 1), IoCommit 0, IoBegin (DmBump v 1), IoCommit 0]));
       overlapped = dm_count (loadUnreadMap (io_run dm_upd raw [IoBegin (DmBump u 1), IoBegin (DmBump v 1), IoCommit 0, IoCommit 0]))
   in if a \<noteq> '''' \<and> b \<noteq> ''''
      then orderly a = min 99 (before a + (if a = b then 2 else 1)) \<and> overlapped a = (if a = b then min 99 (before a + 1) else before a) \<and>
           orderly b = min 99 (before b + (if a = b then 2 else 1)) \<and> overlapped b = min 99 (before b + 1)
      else True"
proof (cases "js_trim u \<noteq> '''' \<and> js_trim v \<noteq> ''''")
  case True
  then have orderly: "loadUnreadMap (io_run dm_upd raw [IoBegin (DmBump u 1), IoCommit 0, IoBegin (DmBump v 1), IoCommit 0]) =
      bumped (js_trim v) 1 (bumped (js_trim u) 1 (loadUnreadMap raw))"
    using load_bumped [of "js_trim v" 1 "Some (bumped (js_trim u) 1 (loadUnreadMap raw))"]
    by (simp add: run_one_by_one dm_upd_bump load_bumped)
  have overlapped: "loadUnreadMap (io_run dm_upd raw [IoBegin (DmBump u 1), IoBegin (DmBump v 1), IoCommit 0, IoCommit 0]) =
      bumped (js_trim v) 1 (loadUnreadMap raw)"
    using True by (simp add: run_overlapped dm_upd_bump load_bumped)
  show ?thesis
    using True by (simp add: orderly overlapped count_bumped Let_def min_def)
qed (simp only: Let_def if_False)

text \<open>However updates overlap, no badge shows more than 99, and none is kept at zero.\<close>

interpretation badges: local_store dm_upd counts_ok
proof
  fix m j m' assume m: "counts_ok m" and upd: "dm_upd j m = Some m'"
  have ok: "jmap_ok (loadUnreadMap m)"
    using m by (cases m) (simp_all add: counts_ok_def load_of_good, simp add: loadUnreadMap_def jmap_ok_def)
  have range: "0 \<le> dm_count (loadUnreadMap m) u" for u
    using count_range [OF loaded_counts, of m u] by simp
  show "counts_ok m'"
  proof (cases j)
    case (DmBump u n)
    then show ?thesis
      using upd ok range [of "js_trim u"] counts_jset [OF loaded_counts [of m]]
      by (auto simp: dm_upd_def bumpUnread_def Let_def counts_ok_def jmap_ok_def jset_def distinct_update
          split: if_splits)
  next
    case (DmRead u)
    then show ?thesis
      using upd ok loaded_counts [of m]
      by (auto simp: dm_upd_def markDmRead_def Let_def counts_ok_def jmap_ok_def jdel_eq_filter distinct_map inj_on_def
          list_all_iff split: if_splits)
  qed
qed

section \<open>Properties of the lists\<close>

text \<open>C36: However pushes, removals and clearings overlap, no two entries of the call history with the same
  user and kind are less than 20 s apart and no two matches with the same user less than 60 s, and the
  lists hold at most 40 and 30 entries.\<close>

theorem histories_deduped:
  "calls_ok (io_run call_upd None es) \<and> matches_ok (io_run match_upd None es2)"
  using calls.run_ok [of None es] matches.run_ok [of None es2] by (simp add: calls_ok_def matches_ok_def)

text \<open>The blocked users shown are the hub's when it names any, in its order and with its repetitions;
  when it names none, they are everybody who has a local name. So the list of a user who unblocked
  the last one elsewhere never becomes empty.\<close>

theorem blocked_list_shown:
  "map beUser (resolveBlockedList hubIds raw) =
     (if hubIds = [] then jkeys (loadMap raw) else filter (\<lambda>u. u \<noteq> '''') hubIds)"
proof -
  have "filter (\<lambda>u. u \<noteq> '''') (jkeys (loadMap raw)) = jkeys (loadMap raw)" "distinct (jkeys (loadMap raw))"
    using labelled_loadMap [of raw] by (auto simp: labelled_def jmap_ok_def list_all_iff filter_id_conv)
  then show ?thesis
    by (simp add: resolveBlockedList_def Let_def comp_def distinct_remdups_id)
qed

text \<open>However updates overlap, every badge shows between 1 and 99.\<close>

lemma badges_bounded: "counts_ok (io_run dm_upd None es)"
  by (rule badges.run_ok) (simp add: counts_ok_def)

lemma labels_bounded: "labels_ok (io_run block_upd None es)"
  by (rule labels.run_ok) (simp add: labels_ok_def)

section \<open>Pictures and index\<close>










text \<open>Other ids share their files: the picture saved for one is shown for the other.\<close>

lemma picture_of_another:
  "getMatchThumbUri dir ''ab_12345'' (thumb_run dir [ThSave True ''ab.12345'' source]) =
     (if source = '''' then None else Some (thumbPath dir ''ab_12345''))"
proof -
  have "js_trim ''ab_12345'' = ''ab_12345''" "js_trim ''ab.12345'' = ''ab.12345''"
    "thumbPath dir ''ab.12345'' = thumbPath dir ''ab_12345''"
    by (simp_all add: js_trim_def js_space_def thumbPath_def thumb_char_def js_word_def char_range_def js_digit_def
        less_eq_char_def)
  then show ?thesis
    by (simp add: getMatchThumbUri_def thumb_run_def thumb_step_def saveMatchThumbFromUri_def loadIndex_def evict.simps
        THUMB_MAX_def Let_def)
qed

end
