(* ===== verification/Links.thy ===== *)
theory Links
  imports HubClient PeerIds Pairing
begin

text \<open>
  Deep links of the phone: friend invites and screens (\<open>linking/friendInvite.ts\<close>,
  \<open>linking/FriendInviteHandler.tsx\<close>, \<open>app/+native-intent.ts\<close>), and the search for a reachable hub
  (\<open>hubs/directory.ts\<close>). What \<open>new URL\<close> makes of a text is an argument, \<open>None\<close> when it throws; so
  are the answers of the network.
\<close>

section \<open>Friend codes\<close>

record app_url =
  auHost :: string
  auPath :: string
  auSearch :: string
  auParams :: "(string \<times> string) list"

type_synonym url_reader = "string \<Rightarrow> app_url option"

definition code_char :: "char \<Rightarrow> bool" where
  "code_char c \<longleftrightarrow> char_range (CHR ''A'') (CHR ''Z'') c \<or> js_digit c"

definition low_code_char :: "char \<Rightarrow> bool" where
  "low_code_char c \<longleftrightarrow> char_range (CHR ''a'') (CHR ''z'') c \<or> js_digit c"

definition RESERVED_APP_SEGMENTS :: "string list" where
  "RESERVED_APP_SEGMENTS = [''live'', ''friends'', ''settings'', ''rules'', ''index'', ''home'', ''friend'', ''add'',
     ''modal'', ''plus'', ''auth'', ''onboarding'']"

definition normalizeFriendCode :: "string \<Rightarrow> string" where
  "normalizeFriendCode raw = take 16 (filter code_char (js_upper (js_trim raw)))"

text \<open>\<open>CODE_RE\<close>\<close>

definition code_shape :: "string \<Rightarrow> bool" where
  "code_shape c \<longleftrightarrow> list_all code_char c \<and> 4 \<le> length c \<and> length c \<le> 16"

definition isValidFriendCode :: "string \<Rightarrow> bool" where
  "isValidFriendCode code = code_shape (normalizeFriendCode code)"

definition isReservedAppSegment :: "string \<Rightarrow> bool" where
  "isReservedAppSegment seg =
     (let s = filter low_code_char (js_lower (js_trim seg)) in s \<noteq> '''' \<and> s \<in> set RESERVED_APP_SEGMENTS)"

section \<open>Screens and invites\<close>

text \<open>\<open>searchParams.get\<close>, and the first of several that is not empty.\<close>

definition param :: "app_url \<Rightarrow> string \<Rightarrow> string" where
  "param u k = (case map_of (auParams u) k of None \<Rightarrow> '''' | Some v \<Rightarrow> v)"

definition first_param :: "app_url \<Rightarrow> string list \<Rightarrow> string" where
  "first_param u ks = (case filter (\<lambda>v. v \<noteq> '''') (map (param u) ks) of [] \<Rightarrow> '''' | v # _ \<Rightarrow> v)"

definition path_parts :: "app_url \<Rightarrow> string list" where
  "path_parts u = filter (\<lambda>p. p \<noteq> '''') (js_split (CHR ''/'') (auPath u))"

definition app_scheme :: "string \<Rightarrow> bool" where
  "app_scheme s = js_starts (js_lower s) ''ruletka:''"

text \<open>\<open>replace(/^ruletka:\/\//i, "https://ruletka.app/")\<close>\<close>

definition as_https :: "string \<Rightarrow> string" where
  "as_https s = (if js_starts (js_lower s) ''ruletka://'' then ''https://ruletka.app/'' @ drop 10 s else s)"

definition parseAppRouteUrl :: "url_reader \<Rightarrow> string option \<Rightarrow> (string \<times> (string, string) jsmap option) option" where
  "parseAppRouteUrl P url =
     (case url of None \<Rightarrow> None
      | Some raw \<Rightarrow>
          let s = js_trim raw
          in if s = '''' \<or> \<not> app_scheme s then None
             else case P (as_https s) of
                    None \<Rightarrow> None
                  | Some u \<Rightarrow>
                      if length (path_parts u) \<noteq> 1 then None
                      else let seg = js_lower (path_parts u ! 0)
                           in if seg \<notin> set RESERVED_APP_SEGMENTS then None
                              else if seg \<in> {''friend'', ''add'', ''modal'', ''plus''} then None
                              else if seg \<in> {''index'', ''home''} then Some (''/'', None)
                              else let params = fold (\<lambda>(k, v) m. if v \<noteq> '''' then jset k v m else m) (auParams u) []
                                   in Some (''/'' @ seg, if params \<noteq> [] then Some params else None))"

definition valid_or_empty :: "string \<Rightarrow> string" where
  "valid_or_empty raw = (let c = normalizeFriendCode raw in if isValidFriendCode c then c else '''')"

definition invite_of_app :: "app_url \<Rightarrow> string" where
  "invite_of_app u =
     (let q = first_param u [''friend'', ''code'', ''c'']; parts = path_parts u
      in if q \<noteq> '''' then valid_or_empty q
         else if length parts \<ge> 2 \<and> parts ! 0 \<in> {''friend'', ''add''} then valid_or_empty (parts ! 1)
         else if length parts = 1 then if isReservedAppSegment (parts ! 0) then '''' else valid_or_empty (parts ! 0)
         else '''')"

definition bare_invite :: "string \<Rightarrow> string" where
  "bare_invite s = (if isReservedAppSegment s then '''' else valid_or_empty s)"

definition parseFriendInviteUrl :: "url_reader \<Rightarrow> string option \<Rightarrow> string" where
  "parseFriendInviteUrl P url =
     (case url of None \<Rightarrow> ''''
      | Some raw \<Rightarrow>
          let s = js_trim raw
          in if s = '''' then ''''
             else if app_scheme s
             then (case P (as_https s) of None \<Rightarrow> bare_invite s | Some u \<Rightarrow> invite_of_app u)
             else (case P s of None \<Rightarrow> bare_invite s
                   | Some u \<Rightarrow> let q = first_param u [''friend'', ''code''] in if q \<noteq> '''' then valid_or_empty q else ''''))"

definition appFriendInviteUrl :: "string \<Rightarrow> string" where
  "appFriendInviteUrl code = ''ruletka://friend/'' @ normalizeFriendCode code"

text \<open>\<open>encodeURIComponent\<close>, of characters below 256 in UTF-8.\<close>

definition percent :: "nat \<Rightarrow> string" where
  "percent b = ''%'' @ js_upper [hex_digit (b div 16), hex_digit (b mod 16)]"

definition uri_char :: "char \<Rightarrow> string" where
  "uri_char c =
     (if js_word c \<or> c \<in> set ''-.!~*()'' \<or> c = CHR 0x27 then [c]
      else let n = of_char c in if n < 128 then percent n else percent (192 + n div 64) @ percent (128 + n mod 64))"

definition encodeURIComponent :: "string \<Rightarrow> string" where
  "encodeURIComponent s = concat (map uri_char s)"

definition webFriendInviteUrl :: "string \<Rightarrow> string \<Rightarrow> string" where
  "webFriendInviteUrl base code =
     strip_slash base @ ''/live.html?friend='' @ encodeURIComponent (normalizeFriendCode code) @ ''&ref=friend_invite''"

section \<open>The router and the handler\<close>

definition ROUTER_RESERVED :: "string list" where
  "ROUTER_RESERVED = [''live'', ''friends'', ''settings'', ''rules'', ''index'', ''home'']"

definition alnum :: "char \<Rightarrow> bool" where
  "alnum c \<longleftrightarrow> code_char c \<or> low_code_char c"

text \<open>\<open>/^[a-z0-9]{4,16}$/i\<close>\<close>

definition looks_like_code :: "string \<Rightarrow> bool" where
  "looks_like_code s \<longleftrightarrow> list_all alnum s \<and> 4 \<le> length s \<and> length s \<le> 16"

definition screen_path :: "string \<Rightarrow> string \<Rightarrow> string" where
  "screen_path seg q = (if seg \<in> {''index'', ''home''} then ''/'' @ q else ''/'' @ seg @ q)"

definition redirect_url :: "app_url \<Rightarrow> string" where
  "redirect_url u =
     (let parts = path_parts u; host = js_lower (auHost u)
      in if first_param u [''friend'', ''code'', ''c''] \<noteq> '''' then ''/friends''
         else if host = ''friend'' \<or> host = ''add'' then ''/friends''
         else if parts \<noteq> [] \<and> hd parts \<in> {''friend'', ''add''} then ''/friends''
         else if host \<noteq> '''' \<and> host \<in> set ROUTER_RESERVED \<and> parts = [] then screen_path host (auSearch u)
         else if length parts = 1 \<and> js_lower (hd parts) \<in> set ROUTER_RESERVED
         then screen_path (js_lower (hd parts)) (auSearch u)
         else if host \<noteq> '''' \<and> parts = [] \<and> looks_like_code host \<and> host \<notin> set ROUTER_RESERVED then ''/friends''
         else ''/'')"

definition me_scheme_to_https :: "string \<Rightarrow> string" where
  "me_scheme_to_https s =
     (if js_starts (js_lower s) ''me.ruletka.app://'' then ''https://ruletka.app/'' @ drop 17 s else s)"

text \<open>\<open>/^(friend|add)(\/|\?|$)/i\<close>\<close>

definition friend_path :: "string \<Rightarrow> bool" where
  "friend_path raw =
     list_ex (\<lambda>w. js_starts (js_lower raw) w \<and> (let r = drop (length w) raw in r = '''' \<or> hd r = CHR ''/'' \<or> hd r = CHR ''?''))
       [''friend'', ''add'']"

definition seg_char :: "char \<Rightarrow> bool" where
  "seg_char c \<longleftrightarrow> js_word c \<or> c = CHR ''-''"

text \<open>\<open>/^([A-Za-z0-9_-]+)(\?.*)?$/\<close>\<close>

definition one_segment :: "string \<Rightarrow> (string \<times> string) option" where
  "one_segment raw =
     (let m1 = takeWhile seg_char raw; m2 = dropWhile seg_char raw
      in if m1 \<noteq> '''' \<and> (m2 = '''' \<or> hd m2 = CHR ''?'' \<and> LF \<notin> set m2 \<and> CR \<notin> set m2) then Some (m1, m2) else None)"

definition redirect_rest :: "string \<Rightarrow> string" where
  "redirect_rest raw =
     (if js_includes raw ''://'' then ''/'' else if js_starts raw ''/'' then raw else ''/'' @ raw)"

definition redirectSystemPath :: "url_reader \<Rightarrow> string \<Rightarrow> string" where
  "redirectSystemPath P path =
     (let raw = js_trim path
      in if raw = '''' then raw
         else if js_starts raw ''/'' \<and> \<not> js_starts raw ''//''
         then if js_starts raw ''/ruletka:'' \<or> js_starts raw ''/me.ruletka'' then ''/'' else raw
         else if app_scheme raw \<or> js_starts (js_lower raw) ''me.ruletka.app:''
         then (case P (me_scheme_to_https (as_https raw)) of None \<Rightarrow> ''/'' | Some u \<Rightarrow> redirect_url u)
         else if friend_path raw then ''/friends''
         else case one_segment raw of
                None \<Rightarrow> redirect_rest raw
              | Some (m1, q) \<Rightarrow>
                  let seg = js_lower m1
                  in if seg \<in> set ROUTER_RESERVED then screen_path seg q
                     else if looks_like_code seg then ''/friends''
                     else redirect_rest raw)"

datatype link_action = LinkConsume string | LinkRoute string "(string, string) jsmap option"

text \<open>\<open>handle\<close>: the link last handled, with its time, is the state.\<close>

definition handle_link ::
    "url_reader \<Rightarrow> int \<Rightarrow> string option \<Rightarrow> (string \<times> int) option \<Rightarrow> link_action option \<times> (string \<times> int) option" where
  "handle_link P now url lastUrl =
     (case url of None \<Rightarrow> (None, lastUrl)
      | Some u \<Rightarrow>
          if u = '''' then (None, lastUrl)
          else if (case lastUrl of None \<Rightarrow> False | Some (v, t) \<Rightarrow> v = u \<and> now - t < 1500) then (None, lastUrl)
          else let code = parseFriendInviteUrl P url
               in (if code \<noteq> '''' then Some (LinkConsume code)
                   else map_option (\<lambda>(p, q). LinkRoute p q) (parseAppRouteUrl P url), Some (u, now)))"

text \<open>The code the hub provider keeps for later, if the given one is long enough.\<close>

definition consumeFriendInvite :: "string \<Rightarrow> string \<Rightarrow> string" where
  "consumeFriendInvite code pending =
     (let c = filter code_char (js_upper (js_trim code)) in if length c < 4 then pending else c)"

section \<open>The directory\<close>

definition PHONE_BUILTIN :: "string list" where
  "PHONE_BUILTIN = [''https://ruletka.vip'', ''https://ruletka.me'']"

text \<open>Protocol and origin.\<close>

type_synonym origin_reader = "string \<Rightarrow> (string \<times> string) option"

definition phoneBase :: "origin_reader \<Rightarrow> string \<Rightarrow> string" where
  "phoneBase Q url =
     (if url = '''' then ''''
      else case Q url of None \<Rightarrow> ''''
           | Some (protocol, origin) \<Rightarrow> if protocol \<noteq> ''http:'' \<and> protocol \<noteq> ''https:'' then '''' else origin)"

definition getSavedHub :: "origin_reader \<Rightarrow> string option \<Rightarrow> string" where
  "getSavedHub Q saved = phoneBase Q (case saved of None \<Rightarrow> '''' | Some b \<Rightarrow> b)"

definition setSavedHub :: "origin_reader \<Rightarrow> string \<Rightarrow> string option \<Rightarrow> string option" where
  "setSavedHub Q base saved = (let b = phoneBase Q base in if b \<noteq> '''' then Some b else None)"

datatype dir_reply = DirThrows | DirNotOk | DirHubs "string list"

definition add_hub :: "origin_reader \<Rightarrow> string \<Rightarrow> string list \<Rightarrow> string list" where
  "add_hub Q b out = (let n = phoneBase Q b in if n \<noteq> '''' \<and> n \<notin> set out then out @ [n] else out)"

text \<open>The loop over the seeds: \<open>fetch1\<close> asks \<open>/v1/directory\<close>, \<open>fetch2\<close> asks \<open>/hubs.json\<close>.\<close>

fun ask_seeds ::
    "origin_reader \<Rightarrow> (string \<Rightarrow> dir_reply) \<Rightarrow> (string \<Rightarrow> dir_reply) \<Rightarrow> string list \<Rightarrow> string list \<Rightarrow> string list" where
  "ask_seeds Q fetch1 fetch2 [] out = out"
| "ask_seeds Q fetch1 fetch2 (seed # seeds) out =
     (case fetch1 seed of
        DirNotOk \<Rightarrow> ask_seeds Q fetch1 fetch2 seeds out
      | DirHubs hs \<Rightarrow> fold (add_hub Q) hs out
      | DirThrows \<Rightarrow>
          (case fetch2 seed of
             DirNotOk \<Rightarrow> ask_seeds Q fetch1 fetch2 seeds out
           | DirHubs hs \<Rightarrow> fold (add_hub Q) hs out
           | DirThrows \<Rightarrow> ask_seeds Q fetch1 fetch2 seeds out))"

definition hub_seeds :: "origin_reader \<Rightarrow> url_parser \<Rightarrow> string \<Rightarrow> string option \<Rightarrow> string list" where
  "hub_seeds Q parse seedBase saved =
     fold (add_hub Q) ([seedBase, siblingHubBase parse seedBase, getSavedHub Q saved] @ PHONE_BUILTIN) []"

definition listCandidateHubs ::
    "origin_reader \<Rightarrow> url_parser \<Rightarrow> (string \<Rightarrow> dir_reply) \<Rightarrow> (string \<Rightarrow> dir_reply) \<Rightarrow> string \<Rightarrow> string option \<Rightarrow> string list" where
  "listCandidateHubs Q parse fetch1 fetch2 seedBase saved =
     (let out = hub_seeds Q parse seedBase saved in ask_seeds Q fetch1 fetch2 out out)"

text \<open>The answer of \<open>/health\<close>: none in time, an error status, or a body whose \<open>ok\<close> is false or not.\<close>

datatype health_reply = HealthThrows | HealthNotOk | HealthBody bool

definition probeHub :: "origin_reader \<Rightarrow> (string \<Rightarrow> health_reply) \<Rightarrow> string \<Rightarrow> bool" where
  "probeHub Q health base =
     (let b = phoneBase Q base
      in if b = '''' then False
         else case health b of HealthThrows \<Rightarrow> False | HealthNotOk \<Rightarrow> False | HealthBody okay \<Rightarrow> okay)"

fun first_healthy :: "origin_reader \<Rightarrow> (string \<Rightarrow> health_reply) \<Rightarrow> string list \<Rightarrow> string option" where
  "first_healthy Q health [] = None"
| "first_healthy Q health (b # bs) = (if probeHub Q health b then Some b else first_healthy Q health bs)"

definition pickHealthyHub ::
    "origin_reader \<Rightarrow> url_parser \<Rightarrow> (string \<Rightarrow> dir_reply) \<Rightarrow> (string \<Rightarrow> dir_reply) \<Rightarrow> (string \<Rightarrow> health_reply) \<Rightarrow>
     string \<Rightarrow> string option \<Rightarrow> string \<times> string option" where
  "pickHealthyHub Q parse fetch1 fetch2 health preferred saved =
     (case first_healthy Q health (listCandidateHubs Q parse fetch1 fetch2 preferred saved) of
        Some b \<Rightarrow> (b, setSavedHub Q b saved)
      | None \<Rightarrow> (if preferred \<noteq> '''' then preferred else PHONE_BUILTIN ! 0, saved))"

section \<open>Codes stay as they are\<close>

lemma code_char_range: "code_char c \<longleftrightarrow> 65 \<le> (of_char c :: nat) \<and> (of_char c :: nat) \<le> 90 \<or> 48 \<le> (of_char c :: nat) \<and> (of_char c :: nat) \<le> 57"
  by (simp add: code_char_def char_range_def js_digit_def less_eq_char_def)

lemma code_char_fixed: "code_char c \<Longrightarrow> upper_char c = c"
  by (auto simp: code_char_range upper_char_def char_range_def less_eq_char_def)

lemma alnum_plain: "alnum c \<Longrightarrow> \<not> js_space c \<and> c \<noteq> CHR ''/'' \<and> c \<noteq> CHR ''?'' \<and> c \<noteq> CHR ''&'' \<and> c \<noteq> CHR ''=''"
  by (auto simp: alnum_def low_code_char_def code_char_def char_range_def js_digit_def less_eq_char_def js_space_def)

lemma code_alnum: "list_all code_char s \<Longrightarrow> list_all alnum s"
  by (auto simp: alnum_def list_all_iff)

lemma alnum_trimmed: "list_all alnum c \<Longrightarrow> trimmed c"
  by (cases "c = []") (simp_all add: trimmed_def list_all_iff alnum_plain)

lemma trim_after: "trimmed p \<Longrightarrow> list_all alnum c \<Longrightarrow> js_trim (p @ c) = p @ c"
  by (simp add: js_trim_trimmed trimmed_append alnum_trimmed)

lemma normalized_code: "list_all code_char (normalizeFriendCode c)" "length (normalizeFriendCode c) \<le> 16"
  by (auto simp: normalizeFriendCode_def list_all_iff dest: in_set_takeD)

lemma normalize_again [simp]: "normalizeFriendCode (normalizeFriendCode c) = normalizeFriendCode c"
proof -
  define s where "s = normalizeFriendCode c"
  have s: "list_all code_char s" "length s \<le> 16"
    by (simp_all add: s_def normalized_code)
  have "js_trim s = s"
    using s by (intro js_trim_trimmed alnum_trimmed code_alnum)
  moreover have "js_upper s = s"
    using s by (auto simp: js_upper_def list_all_iff code_char_fixed intro!: map_idI)
  moreover have "filter code_char s = s"
    using s by (simp add: list_all_iff)
  ultimately have "normalizeFriendCode s = s"
    using s(2) by (simp add: normalizeFriendCode_def [of s])
  then show ?thesis by (simp add: s_def)
qed

lemma valid_normalized: "isValidFriendCode (normalizeFriendCode c) = isValidFriendCode c"
  by (simp add: isValidFriendCode_def)

lemma valid_or_empty_again: "valid_or_empty (normalizeFriendCode c) = valid_or_empty c"
  by (simp add: valid_or_empty_def)

lemma valid_or_empty_Nil [simp]: "valid_or_empty '''' = ''''"
  by (simp add: valid_or_empty_def normalizeFriendCode_def isValidFriendCode_def code_shape_def js_trim_def js_upper_def)

lemma split_plain: "CHR ''/'' \<notin> set c \<Longrightarrow> js_split (CHR ''/'') c = [c]"
  by (induction c) (auto split: list.split)

lemma encoded_code: "list_all code_char c \<Longrightarrow> encodeURIComponent c = c"
proof (induction c)
  case (Cons a c)
  then have "uri_char a = [a]"
    by (simp add: uri_char_def js_word_def code_char_def char_range_def) (auto simp: js_digit_def char_range_def)
  with Cons show ?case by (simp add: encodeURIComponent_def)
qed (simp add: encodeURIComponent_def)

lemma slash_free: "list_all alnum c \<Longrightarrow> CHR ''/'' \<notin> set c"
  using alnum_plain by (auto simp: list_all_iff)

section \<open>What the browser's parser does with the links\<close>

definition app_urls :: "url_reader \<Rightarrow> bool" where
  "app_urls P \<longleftrightarrow> (\<forall>c. list_all alnum c \<longrightarrow>
     P (''https://ruletka.app/'' @ c) =
       Some \<lparr>auHost = ''ruletka.app'', auPath = CHR ''/'' # c, auSearch = '''', auParams = []\<rparr> \<and>
     P (''https://ruletka.app/friend/'' @ c) =
       Some \<lparr>auHost = ''ruletka.app'', auPath = ''/friend/'' @ c, auSearch = '''', auParams = []\<rparr>)"

definition web_urls :: "url_reader \<Rightarrow> string \<Rightarrow> bool" where
  "web_urls P base \<longleftrightarrow> (\<forall>c. list_all code_char c \<longrightarrow>
     map_option auParams (P (base @ ''/live.html?friend='' @ c @ ''&ref=friend_invite'')) =
       Some [(''friend'', c), (''ref'', ''friend_invite'')])"

lemma app_friend_url:
  "app_urls P \<Longrightarrow> parseFriendInviteUrl P (Some (appFriendInviteUrl code)) = valid_or_empty code"
proof -
  define c where "c = normalizeFriendCode code"
  have c: "list_all alnum c"
    by (simp add: c_def code_alnum normalized_code)
  have trim: "js_trim (''ruletka://friend/'' @ c) = ''ruletka://friend/'' @ c"
    by (rule trim_after) (simp_all add: c trimmed_def js_space_def)
  have reserved: "isReservedAppSegment ''friend''"
    by (simp add: isReservedAppSegment_def js_trim_def js_space_def js_lower_def lower_char_def char_range_def
        less_eq_char_def low_code_char_def js_digit_def RESERVED_APP_SEGMENTS_def)
  assume "app_urls P"
  then have "P (''https://ruletka.app/friend/'' @ c) =
      Some \<lparr>auHost = ''ruletka.app'', auPath = ''/friend/'' @ c, auSearch = '''', auParams = []\<rparr>"
    using c by (simp add: app_urls_def)
  then have "parseFriendInviteUrl P (Some (''ruletka://friend/'' @ c)) = valid_or_empty c"
    using trim reserved slash_free [OF c]
    by (simp add: parseFriendInviteUrl_def Let_def app_scheme_def as_https_def js_lower_def lower_char_def char_range_def
        less_eq_char_def invite_of_app_def first_param_def param_def path_parts_def split_plain)
  then show ?thesis
    by (simp add: appFriendInviteUrl_def c_def valid_or_empty_again)
qed

section \<open>A parser that does so\<close>

definition plain_url :: url_reader where
  "plain_url s =
     (if js_starts s ''https://''
      then let stop = (\<lambda>c. c \<noteq> CHR ''/'' \<and> c \<noteq> CHR ''?''); r = drop 8 s; rest = dropWhile stop r;
               query = dropWhile (\<lambda>c. c \<noteq> CHR ''?'') rest; path = takeWhile (\<lambda>c. c \<noteq> CHR ''?'') rest
           in Some \<lparr>auHost = takeWhile stop r, auPath = path, auSearch = query,
                auParams = (if query = '''' then []
                  else map (\<lambda>p. (takeWhile (\<lambda>c. c \<noteq> CHR ''='') p, drop 1 (dropWhile (\<lambda>c. c \<noteq> CHR ''='') p)))
                         (js_split (CHR ''&'') (drop 1 query)))\<rparr>
      else None)"

lemma split_at: "d \<notin> set c \<Longrightarrow> js_split d (c @ d # r) = c # js_split d r"
  by (induction c) (auto split: list.split)

lemma plain_app_urls: "app_urls plain_url"
proof -
  have "takeWhile (\<lambda>x. x \<noteq> CHR ''?'') c = c \<and> dropWhile (\<lambda>x. x \<noteq> CHR ''?'') c = []" if "list_all alnum c" for c
    using that alnum_plain by (auto simp: list_all_iff)
  then show ?thesis
    by (simp add: app_urls_def plain_url_def Let_def)
qed

lemma plain_web_urls: "web_urls plain_url ''https://ruletka.vip''"
proof -
  have "js_split (CHR ''&'') (''friend='' @ c @ ''&ref=friend_invite'') = [''friend='' @ c, ''ref=friend_invite'']"
    if "list_all code_char c" for c
    using that alnum_plain split_at [of "CHR ''&''" "''friend='' @ c" "''ref=friend_invite''"] code_alnum [OF that]
    by (auto simp: list_all_iff)
  then show ?thesis
    by (simp add: web_urls_def plain_url_def Let_def)
qed

section \<open>Properties\<close>

text \<open>C22: A code that is shared as a link, of the app or of the web page, is read back from it: in upper case,
  without anything but letters and digits, the first sixteen; a code of fewer than four is not.
  The parser is asked only what the URL standard says of such texts.\<close>

theorem invite_roundtrip:
  "app_urls P \<Longrightarrow> web_urls P (strip_slash base) \<Longrightarrow> strip_slash base = ''https://'' @ h \<Longrightarrow>
   (let code' = (if isValidFriendCode code then normalizeFriendCode code else '''')
    in parseFriendInviteUrl P (Some (appFriendInviteUrl code)) = code' \<and>
       parseFriendInviteUrl P (Some (webFriendInviteUrl base code)) = code')"
proof -
  assume P: "app_urls P" "web_urls P (strip_slash base)" and base: "strip_slash base = ''https://'' @ h"
  define c where "c = normalizeFriendCode code"
  have c: "list_all code_char c" "encodeURIComponent c = c"
    by (simp_all add: c_def normalized_code encoded_code)
  define s where "s = strip_slash base @ ''/live.html?friend='' @ c @ ''&ref=friend_invite''"
  obtain u where u: "P s = Some u" "auParams u = [(''friend'', c), (''ref'', ''friend_invite'')]"
    using P(2) c by (auto simp: web_urls_def s_def)
  have "js_trim s = s" "s \<noteq> ''''" "\<not> app_scheme s"
    by (simp_all add: s_def base js_trim_trimmed trimmed_def js_space_def app_scheme_def js_lower_def lower_char_def
        char_range_def less_eq_char_def)
  then have "parseFriendInviteUrl P (Some s) = valid_or_empty c"
    using u by (simp add: parseFriendInviteUrl_def Let_def first_param_def param_def)
  then show ?thesis
    using app_friend_url [OF P(1), of code] c
    by (simp add: webFriendInviteUrl_def s_def c_def valid_or_empty_again valid_normalized)
      (simp add: valid_or_empty_def valid_normalized Let_def)
qed

theorem invite_roundtrip_witness:
  "parseFriendInviteUrl plain_url (Some (webFriendInviteUrl ''https://ruletka.vip/'' ''ab-12cd'')) = ''AB12CD'' \<and>
   parseFriendInviteUrl plain_url (Some (appFriendInviteUrl '' ab12cd'')) = ''AB12CD''"
proof -
  have strip: "strip_slash ''https://ruletka.vip/'' = ''https://ruletka.vip''"
    by (simp add: strip_slash_def)
  have code: "normalizeFriendCode ''ab-12cd'' = ''AB12CD''" "normalizeFriendCode '' ab12cd'' = ''AB12CD''"
    "isValidFriendCode ''ab-12cd''" "isValidFriendCode '' ab12cd''"
    by code_simp+
  show ?thesis
    using invite_roundtrip [of plain_url "''https://ruletka.vip/''" "''ruletka.vip''" "''ab-12cd''"]
      invite_roundtrip [of plain_url "''https://ruletka.vip/''" "''ruletka.vip''" "'' ab12cd''"]
    by (simp add: strip plain_app_urls plain_web_urls code Let_def)
qed

lemma space_code: "js_space c \<longleftrightarrow> (of_char c :: nat) \<in> {9, 10, 11, 12, 13, 32, 160}"
proof -
  have "c = d \<longleftrightarrow> (of_char c :: nat) = of_char d" for d
    by simp
  then show ?thesis
    unfolding js_space_def by (simp only: insert_iff empty_iff) simp
qed

lemma lower_space: "js_space (lower_char c) = js_space c"
  by (auto simp: space_code lower_char_def char_range_def less_eq_char_def)

text \<open>The letters and digits of a word without spaces.\<close>

lemma reserved_seg: "js_lower seg \<in> set RESERVED_APP_SEGMENTS \<Longrightarrow> isReservedAppSegment seg"
proof -
  assume seg: "js_lower seg \<in> set RESERVED_APP_SEGMENTS"
  then have "filter low_code_char (js_lower seg) = js_lower seg" and ne: "seg \<noteq> ''''" and "\<not> js_space (hd (js_lower seg)) \<and> \<not> js_space (last (js_lower seg))"
    by (auto simp: RESERVED_APP_SEGMENTS_def low_code_char_def char_range_def less_eq_char_def js_space_def)
  moreover have "js_trim seg = seg"
  proof (rule js_trim_trimmed)
    from calculation show "trimmed seg"
      by (simp add: trimmed_def js_lower_def hd_map last_map lower_space)
  qed
  ultimately show ?thesis
    using seg by (simp add: isReservedAppSegment_def Let_def)
qed

text \<open>Whatever the parser makes of it, a link that opens a screen is never read as an invite by its path:
  only by a code in its query.\<close>

theorem screens_are_no_invites:
  "case parseAppRouteUrl P (Some url) of
     None \<Rightarrow> True
   | Some r \<Rightarrow> (case P (as_https (js_trim url)) of
         None \<Rightarrow> False
       | Some u \<Rightarrow> parseFriendInviteUrl P (Some url) = valid_or_empty (first_param u [''friend'', ''code'', ''c'']))"
proof (cases "parseAppRouteUrl P (Some url)")
  case (Some r)
  then obtain u where u: "P (as_https (js_trim url)) = Some u" "length (path_parts u) = 1"
      "js_lower (path_parts u ! 0) \<in> set RESERVED_APP_SEGMENTS" "js_trim url \<noteq> ''''" "app_scheme (js_trim url)"
    by (auto simp: parseAppRouteUrl_def Let_def split: if_splits option.splits)
  then show ?thesis
    using reserved_seg [OF u(3)] by (simp add: Some parseFriendInviteUrl_def invite_of_app_def Let_def)
qed simp

lemma lower_not: "list_all alnum c \<Longrightarrow> list_all alnum (js_lower c)"
  by (auto simp: list_all_iff js_lower_def alnum_def code_char_def low_code_char_def lower_char_def char_range_def
      js_digit_def less_eq_char_def)

text \<open>What becomes of a link that is a bare word: the handler takes it for a code when it is one and names
  no screen, but the router sends everything that names no screen home, the words \<open>friend\<close> and \<open>add\<close>
  apart, although it means to open the friends. The branch for bare codes asks for a code in the
  host of the address, which the rewriting has made \<open>ruletka.app\<close>.\<close>

theorem bare_code_goes_home:
  "app_urls P \<Longrightarrow> list_all alnum c \<Longrightarrow>
   redirectSystemPath P (''ruletka://'' @ c) =
     (if js_lower c \<in> set ROUTER_RESERVED then screen_path (js_lower c) ''''
      else if c \<in> {''friend'', ''add''} then ''/friends'' else ''/'') \<and>
   (if c = '''' then True
    else parseFriendInviteUrl P (Some (''ruletka://'' @ c)) = (if isReservedAppSegment c then '''' else valid_or_empty c))"
proof -
  assume "app_urls P" and c: "list_all alnum c"
  then have P: "P (''https://ruletka.app/'' @ c) =
      Some \<lparr>auHost = ''ruletka.app'', auPath = CHR ''/'' # c, auSearch = '''', auParams = []\<rparr>"
    by (simp add: app_urls_def)
  have trim: "js_trim (''ruletka://'' @ c) = ''ruletka://'' @ c"
    by (rule trim_after) (simp_all add: c trimmed_def js_space_def)
  have low: "js_lower ''ruletka.app'' = ''ruletka.app''" "js_lower (''ruletka://'' @ c) = ''ruletka://'' @ js_lower c"
    "js_lower (''https://ruletka.app/'' @ c) = ''https://ruletka.app/'' @ js_lower c"
    by (simp_all add: js_lower_def lower_char_def char_range_def less_eq_char_def)
  have host: "\<not> looks_like_code ''ruletka.app''"
    by (simp add: looks_like_code_def alnum_def code_char_def low_code_char_def char_range_def js_digit_def less_eq_char_def)
  have parts: "path_parts \<lparr>auHost = h, auPath = CHR ''/'' # c, auSearch = q, auParams = ps\<rparr> = (if c = '''' then [] else [c])" for h q ps
    using slash_free [OF c] by (simp add: path_parts_def split_plain)
  have "redirectSystemPath P (''ruletka://'' @ c) =
      redirect_url \<lparr>auHost = ''ruletka.app'', auPath = CHR ''/'' # c, auSearch = '''', auParams = []\<rparr>"
    using P trim low by (simp add: redirectSystemPath_def Let_def app_scheme_def as_https_def me_scheme_to_https_def)
  moreover have "js_lower '''' \<notin> set ROUTER_RESERVED"
    by (simp add: ROUTER_RESERVED_def)
  moreover have "''ruletka.app'' \<notin> set ROUTER_RESERVED"
    by (simp add: ROUTER_RESERVED_def)
  moreover have "parseFriendInviteUrl P (Some (''ruletka://'' @ c)) = (if isReservedAppSegment c then '''' else valid_or_empty c)"
    if "c \<noteq> ''''"
    using that P trim low parts
    by (simp add: parseFriendInviteUrl_def Let_def app_scheme_def as_https_def invite_of_app_def first_param_def param_def)
  moreover have "js_lower c \<notin> set ROUTER_RESERVED" if "c = ''friend'' \<or> c = ''add''"
    using that by (auto simp: ROUTER_RESERVED_def js_lower_def lower_char_def char_range_def less_eq_char_def)
  ultimately show ?thesis
    by (auto simp: redirect_url_def Let_def first_param_def param_def parts low host)
qed

theorem bare_code_goes_home_witness:
  "redirectSystemPath plain_url ''ruletka://AB12CD'' = ''/'' \<and>
   parseFriendInviteUrl plain_url (Some ''ruletka://AB12CD'') = ''AB12CD''"
proof -
  have c: "list_all alnum ''AB12CD''" "js_lower ''AB12CD'' \<notin> set ROUTER_RESERVED" "\<not> isReservedAppSegment ''AB12CD''"
    "valid_or_empty ''AB12CD'' = ''AB12CD''"
    by code_simp+
  show ?thesis
    using bare_code_goes_home [of plain_url "''AB12CD''"] c by (simp add: plain_app_urls)
qed

section \<open>The list of hubs\<close>

definition hub_list_ok :: "origin_reader \<Rightarrow> string list \<Rightarrow> bool" where
  "hub_list_ok Q out \<longleftrightarrow> distinct out \<and> list_all (\<lambda>b. b \<noteq> '''') out"

lemma add_hub_ok: "hub_list_ok Q out \<Longrightarrow> hub_list_ok Q (add_hub Q b out) \<and> prefix out (add_hub Q b out)"
  by (auto simp: hub_list_ok_def add_hub_def Let_def)

lemma add_hubs_ok: "hub_list_ok Q out \<Longrightarrow> hub_list_ok Q (fold (add_hub Q) bs out) \<and> prefix out (fold (add_hub Q) bs out)"
proof (induction bs arbitrary: out)
  case (Cons b bs)
  from add_hub_ok [OF Cons.prems, of b] Cons.IH [of "add_hub Q b out"] show ?case
    by (auto intro: prefix_order.trans)
qed simp

lemma ask_seeds_ok: "hub_list_ok Q out \<Longrightarrow>
    hub_list_ok Q (ask_seeds Q f1 f2 seeds out) \<and> prefix out (ask_seeds Q f1 f2 seeds out)"
  by (induction Q f1 f2 seeds out rule: ask_seeds.induct) (auto split: dir_reply.split simp: add_hubs_ok)

lemma first_healthy_sound: "first_healthy Q health bs = Some b \<Longrightarrow> b \<in> set bs \<and> probeHub Q health b"
  by (induction bs) (auto split: if_splits)

lemma first_healthy_none: "first_healthy Q health bs = None \<Longrightarrow> b \<in> set bs \<Longrightarrow> \<not> probeHub Q health b"
  by (induction bs) (auto split: if_splits)

text \<open>C38: The hub that is picked is the first healthy one of the seeds and the directory, each asked once; when
  none is healthy it is the preferred one, or the first built in, and nothing is saved.\<close>

theorem picked_hub:
  "let hubs = listCandidateHubs Q parse f1 f2 preferred saved;
       alive = filter (probeHub Q health) hubs
   in distinct hubs \<and> prefix (hub_seeds Q parse preferred saved) hubs \<and>
      pickHealthyHub Q parse f1 f2 health preferred saved =
        (if alive = [] then (if preferred = '''' then ''https://ruletka.vip'' else preferred, saved)
         else (hd alive, setSavedHub Q (hd alive) saved))"
proof -
  have seeds: "hub_list_ok Q (hub_seeds Q parse preferred saved)"
    unfolding hub_seeds_def by (rule conjunct1 [OF add_hubs_ok]) (simp add: hub_list_ok_def)
  have "first_healthy Q health bs = (case filter (probeHub Q health) bs of [] \<Rightarrow> None | b # _ \<Rightarrow> Some b)" for bs
    by (induction bs) simp_all
  then show ?thesis
    using ask_seeds_ok [OF seeds, of f1 f2 "hub_seeds Q parse preferred saved"]
    by (auto simp: listCandidateHubs_def Let_def pickHealthyHub_def PHONE_BUILTIN_def hub_list_ok_def split: list.split)
qed

text \<open>A seed that answers its directory with an error is not asked for the static list either: when all do,
  only the seeds are left, whatever their static lists hold.\<close>

theorem static_list_skipped:
  "listCandidateHubs Q parse (\<lambda>_. DirNotOk) f2 preferred saved = hub_seeds Q parse preferred saved"
proof -
  have "ask_seeds Q (\<lambda>_. DirNotOk) f2 seeds out = out" for seeds out
    by (induction seeds) simp_all
  then show ?thesis
    by (simp add: listCandidateHubs_def Let_def)
qed

end
