(* ===== verification/Prefs.thy ===== *)
theory Prefs
  imports Complex_Main Pairing Stage
begin

text \<open>
  What the phone remembers: match preferences with their one-shot migrations (\<open>prefs/store.ts\<close>),
  the identity (\<open>identity/store.ts\<close>, \<open>identity/avatar.ts\<close>), the self-view preferences
  (\<open>media/pipPrefs.ts\<close>), the what's-new card (\<open>boot/whatsNew.ts\<close>) and the call a notification
  announced (\<open>push/pendingCall.ts\<close>). The device storage is a record of its keys; a stored object is
  what \<open>JSON.parse\<close> gives, with its fields optional. Storage that throws is not modelled, except for
  the identity, which has a fallback for it.
\<close>

section \<open>Match preferences\<close>

datatype blur_mode = BlurOff | BlurIntro | BlurHold
datatype live_layout = LayoutNative | LayoutBrowser

record match_prefs =
  mpGender :: string
  mpLooking :: string
  mpHideIp :: bool
  mpFlag :: string
  mpNotify :: bool
  mpDataSaver :: bool
  mpBlur :: bool
  mpBlurMode :: blur_mode
  mpSnaps :: bool
  mpLayout :: live_layout
  mpLayoutExplicit :: "bool option"
  mpSwipe :: bool
  mpNoise :: bool
  mpAvatar :: string

text \<open>\<open>Partial<MatchPrefs>\<close>\<close>

record partial_prefs =
  ppGender :: "string option"
  ppLooking :: "string option"
  ppHideIp :: "bool option"
  ppFlag :: "string option"
  ppNotify :: "bool option"
  ppDataSaver :: "bool option"
  ppBlur :: "bool option"
  ppBlurMode :: "string option"
  ppSnaps :: "bool option"
  ppLayout :: "string option"
  ppLayoutExplicit :: "bool option"
  ppSwipe :: "bool option"
  ppNoise :: "bool option"
  ppAvatar :: "string option"

definition DEFAULTS :: match_prefs where
  "DEFAULTS = \<lparr>mpGender = '''', mpLooking = ''any'', mpHideIp = False, mpFlag = '''', mpNotify = True,
     mpDataSaver = False, mpBlur = True, mpBlurMode = BlurHold, mpSnaps = True, mpLayout = LayoutBrowser,
     mpLayoutExplicit = None, mpSwipe = True, mpNoise = True, mpAvatar = ''''\<rparr>"

definition blur_text :: "blur_mode \<Rightarrow> string" where
  "blur_text m = (case m of BlurOff \<Rightarrow> ''off'' | BlurIntro \<Rightarrow> ''intro'' | BlurHold \<Rightarrow> ''hold'')"

definition layout_text :: "live_layout \<Rightarrow> string" where
  "layout_text l = (case l of LayoutNative \<Rightarrow> ''native'' | LayoutBrowser \<Rightarrow> ''browser'')"

text \<open>What reading back a stored object gives.\<close>

definition as_stored :: "match_prefs \<Rightarrow> partial_prefs" where
  "as_stored p =
     \<lparr>ppGender = Some (mpGender p), ppLooking = Some (mpLooking p), ppHideIp = Some (mpHideIp p),
      ppFlag = Some (mpFlag p), ppNotify = Some (mpNotify p), ppDataSaver = Some (mpDataSaver p),
      ppBlur = Some (mpBlur p), ppBlurMode = Some (blur_text (mpBlurMode p)), ppSnaps = Some (mpSnaps p),
      ppLayout = Some (layout_text (mpLayout p)), ppLayoutExplicit = mpLayoutExplicit p, ppSwipe = Some (mpSwipe p),
      ppNoise = Some (mpNoise p), ppAvatar = Some (mpAvatar p)\<rparr>"

definition MAX_AVATAR_CHARS :: nat where
  "MAX_AVATAR_CHARS = 48000"

text \<open>\<open>/^data:image\/(jpeg|jpg|png|webp);base64,/i\<close>\<close>

definition isValidAvatarDataUrl :: "string \<Rightarrow> bool" where
  "isValidAvatarDataUrl s =
     (if s = '''' then False
      else if length s > MAX_AVATAR_CHARS then False
      else list_ex (\<lambda>t. js_starts (js_lower s) (''data:image/'' @ t @ '';base64,''))
             [''jpeg'', ''jpg'', ''png'', ''webp''])"

definition truthy_bool :: "bool option \<Rightarrow> bool" where
  "truthy_bool b = (b = Some True)"

definition unless_false :: "bool option \<Rightarrow> bool" where
  "unless_false b = (case b of None \<Rightarrow> True | Some x \<Rightarrow> x)"

definition text_or :: "string option \<Rightarrow> string \<Rightarrow> string" where
  "text_or s d = (case s of None \<Rightarrow> d | Some t \<Rightarrow> if t = '''' then d else t)"

definition normalizeBlurMode :: "partial_prefs \<Rightarrow> blur_mode" where
  "normalizeBlurMode j =
     (if ppBlurMode j = Some ''off'' then BlurOff
      else if ppBlurMode j = Some ''intro'' then BlurIntro
      else if ppBlurMode j = Some ''hold'' then BlurHold
      else if ppBlur j = Some False then BlurOff
      else BlurHold)"

definition flag_char :: "char \<Rightarrow> bool" where
  "flag_char c = char_range (CHR ''A'') (CHR ''Z'') c"

definition flag_of :: "string \<Rightarrow> string" where
  "flag_of s = take 2 (filter flag_char (js_upper (js_trim s)))"

definition prefsFromPartial :: "partial_prefs \<Rightarrow> blur_mode \<Rightarrow> match_prefs" where
  "prefsFromPartial j mode =
     \<lparr>mpGender = text_or (ppGender j) '''', mpLooking = text_or (ppLooking j) ''any'', mpHideIp = truthy_bool (ppHideIp j),
      mpFlag = flag_of (text_or (ppFlag j) ''''), mpNotify = unless_false (ppNotify j),
      mpDataSaver = truthy_bool (ppDataSaver j), mpBlur = (mode \<noteq> BlurOff), mpBlurMode = mode,
      mpSnaps = unless_false (ppSnaps j),
      mpLayout = (if truthy_bool (ppLayoutExplicit j) \<and> ppLayout j = Some ''native'' then LayoutNative else LayoutBrowser),
      mpLayoutExplicit = Some (truthy_bool (ppLayoutExplicit j)), mpSwipe = unless_false (ppSwipe j),
      mpNoise = unless_false (ppNoise j),
      mpAvatar = (if isValidAvatarDataUrl (text_or (ppAvatar j) '''') then text_or (ppAvatar j) '''' else '''')\<rparr>"

text \<open>The three keys. The stored text is absent, does not parse (\<open>Some None\<close>), or is an object.\<close>

record pref_store =
  psPrefs :: "partial_prefs option option"
  psConnectFix :: bool
  psUxIntro :: bool

definition put_prefs :: "match_prefs \<Rightarrow> pref_store \<Rightarrow> pref_store" where
  "put_prefs p s = s\<lparr>psPrefs := Some (Some (as_stored p))\<rparr>"

definition loadMatchPrefs :: "pref_store \<Rightarrow> match_prefs \<times> pref_store" where
  "loadMatchPrefs s0 =
     (case psPrefs s0 of
        None \<Rightarrow> (DEFAULTS, s0\<lparr>psUxIntro := True\<rparr>)
      | Some None \<Rightarrow> (DEFAULTS, s0)
      | Some (Some j) \<Rightarrow>
          let mode = normalizeBlurMode j;
              mode1 = (if \<not> psConnectFix s0 \<and> mode = BlurHold then BlurOff else mode);
              s1 = s0\<lparr>psConnectFix := True\<rparr>
          in if \<not> psUxIntro s1 \<and> mode1 = BlurOff then
               (let p = prefsFromPartial j BlurIntro in (p, put_prefs p (s1\<lparr>psUxIntro := True\<rparr>)))
             else let s2 = s1\<lparr>psUxIntro := True\<rparr>
                  in if mode1 = BlurOff \<and> mode = BlurHold then
                       (let p = prefsFromPartial j BlurOff in (p, put_prefs p s2))
                     else (prefsFromPartial j mode1, s2))"

definition saveMatchPrefs :: "match_prefs \<Rightarrow> pref_store \<Rightarrow> pref_store" where
  "saveMatchPrefs p s = put_prefs p (s\<lparr>psUxIntro := True\<rparr>)"

section \<open>Identity\<close>

record identity_store =
  idUser :: "string option"
  idName :: "string option"
  idRules :: "string option"

record local_identity =
  liUser :: string
  liName :: string

text \<open>Sixteen random bytes in five groups.\<close>

definition randomUserId :: "bytes \<Rightarrow> string" where
  "randomUserId rnd =
     (let h = hex rnd
      in take 8 h @ ''-'' @ take 4 (drop 8 h) @ ''-'' @ take 4 (drop 12 h) @ ''-'' @ take 4 (drop 16 h) @ ''-'' @ drop 20 h)"

text \<open>\<open>locked\<close>: the secure storage throws.\<close>

definition loadOrCreateIdentity :: "bool \<Rightarrow> bytes \<Rightarrow> identity_store \<Rightarrow> local_identity \<times> identity_store" where
  "loadOrCreateIdentity locked rnd s =
     (if locked then (\<lparr>liUser = randomUserId rnd, liName = ''anon''\<rparr>, s)
      else let s1 = (case idUser s of
                       None \<Rightarrow> s\<lparr>idUser := Some (randomUserId rnd)\<rparr>
                     | Some u \<Rightarrow> if u = '''' \<or> length u < 8 then s\<lparr>idUser := Some (randomUserId rnd)\<rparr> else s);
               name = text_or (idName s1) '''';
               s2 = (if name = '''' then s1\<lparr>idName := Some ''anon''\<rparr> else s1)
           in (\<lparr>liUser = text_or (idUser s2) '''', liName = text_or (idName s2) ''''\<rparr>, s2))"

definition setDisplayName :: "string \<Rightarrow> identity_store \<Rightarrow> identity_store" where
  "setDisplayName name s = s\<lparr>idName := Some (take 32 (if name = '''' then ''anon'' else name))\<rparr>"

definition replaceIdentity :: "string \<Rightarrow> string \<Rightarrow> identity_store \<Rightarrow> string + (local_identity \<times> identity_store)" where
  "replaceIdentity user name s =
     (let u = js_trim user
      in if length u < 8 then Inl ''bad user_id''
         else let n = take 32 (if name = '''' then ''anon'' else name)
              in Inr (\<lparr>liUser = u, liName = n\<rparr>, s\<lparr>idUser := Some u, idName := Some n\<rparr>))"

definition rulesAccepted :: "identity_store \<Rightarrow> bool" where
  "rulesAccepted s = (idRules s = Some ''1'')"

definition setRulesAccepted :: "identity_store \<Rightarrow> identity_store" where
  "setRulesAccepted s = s\<lparr>idRules := Some ''1''\<rparr>"

section \<open>The self view\<close>

text \<open>The stored object: numbers, flags and texts that may be absent.\<close>

record stored_pip =
  spX :: "rat option"
  spY :: "rat option"
  spHint :: "bool option"
  spCorner :: "string option"
  spView :: "string option"

record pip_prefs =
  pfX :: rat
  pfY :: rat
  pfHint :: bool
  pfCorner :: "pip_corner option"
  pfView :: "stage_view option"

definition corner_text :: "pip_corner \<Rightarrow> string" where
  "corner_text c = (case c of TL \<Rightarrow> ''tl'' | TR \<Rightarrow> ''tr'' | BL \<Rightarrow> ''bl'' | BR \<Rightarrow> ''br'')"

definition view_text :: "stage_view \<Rightarrow> string" where
  "view_text v = (case v of ViewPip \<Rightarrow> ''pip'' | ViewSplit \<Rightarrow> ''split'')"

definition loadPipPrefs :: "stored_pip option \<Rightarrow> pip_prefs option" where
  "loadPipPrefs raw =
     (case raw of None \<Rightarrow> None
      | Some j \<Rightarrow> Some \<lparr>pfX = (case spX j of None \<Rightarrow> -1 | Some x \<Rightarrow> x), pfY = (case spY j of None \<Rightarrow> -1 | Some y \<Rightarrow> y),
          pfHint = truthy_bool (spHint j), pfCorner = parseCorner (text_or (spCorner j) ''''),
          pfView = parseStageView (text_or (spView j) '''')\<rparr>)"

text \<open>\<open>Partial<PipPrefs>\<close>: a corner or view may be given as null (\<open>Some None\<close>).\<close>

record pip_update =
  puX :: "rat option"
  puY :: "rat option"
  puHint :: "bool option"
  puCorner :: "pip_corner option option"
  puView :: "stage_view option option"

definition over :: "'a option \<Rightarrow> 'a \<Rightarrow> 'a" where
  "over u d = (case u of None \<Rightarrow> d | Some x \<Rightarrow> x)"

definition merge_pip :: "pip_update \<Rightarrow> pip_prefs \<Rightarrow> pip_prefs" where
  "merge_pip u p = \<lparr>pfX = over (puX u) (pfX p), pfY = over (puY u) (pfY p), pfHint = over (puHint u) (pfHint p),
     pfCorner = over (puCorner u) (pfCorner p), pfView = over (puView u) (pfView p)\<rparr>"

definition no_pip :: pip_prefs where
  "no_pip = \<lparr>pfX = -1, pfY = -1, pfHint = False, pfCorner = None, pfView = None\<rparr>"

definition store_pip :: "pip_prefs \<Rightarrow> stored_pip" where
  "store_pip p = \<lparr>spX = Some (pfX p), spY = Some (pfY p), spHint = Some (pfHint p),
     spCorner = map_option corner_text (pfCorner p), spView = map_option view_text (pfView p)\<rparr>"

definition savePipPrefs :: "pip_update \<Rightarrow> stored_pip option \<Rightarrow> stored_pip option" where
  "savePipPrefs u raw = Some (store_pip (merge_pip u (case loadPipPrefs raw of None \<Rightarrow> no_pip | Some p \<Rightarrow> p)))"

definition snapPipToCorner :: "rat \<Rightarrow> rat \<Rightarrow> rat \<Rightarrow> rat \<Rightarrow> rat \<Rightarrow> rat \<Rightarrow> rat \<Rightarrow> rat \<times> rat" where
  "snapPipToCorner x y stageW stageH pipW pipH pad =
     (let x1 = max pad (stageW - pipW - pad); y1 = max pad (stageH - pipH - pad)
      in (if x + pipW / 2 < stageW / 2 then pad else x1, if y + pipH / 2 < stageH / 2 then pad else y1))"

section \<open>What is new\<close>

text \<open>The configured version and build, each with its native fallback.\<close>

definition currentAppVersion :: "string \<Rightarrow> string \<Rightarrow> string \<Rightarrow> string \<Rightarrow> string" where
  "currentAppVersion configVer nativeVer configCode nativeCode =
     (let ver = (if configVer \<noteq> '''' then configVer else if nativeVer \<noteq> '''' then nativeVer else ''0'');
          code = (if configCode \<noteq> '''' then configCode else nativeCode)
      in if code \<noteq> '''' then ver @ ''+'' @ code else ver)"

definition shouldShowWhatsNew :: "string \<Rightarrow> string option \<Rightarrow> bool" where
  "shouldShowWhatsNew cur seen \<longleftrightarrow> cur \<noteq> '''' \<and> text_or seen '''' \<noteq> cur"

definition markWhatsNewSeen :: "string \<Rightarrow> string option \<Rightarrow> string option" where
  "markWhatsNewSeen cur seen = Some cur"

section \<open>The call behind a notification\<close>

record pending_call =
  pcFrom :: string
  pcName :: string
  pcJoin :: bool
  pcAt :: int

definition setPendingCallFromPush :: "int \<Rightarrow> (string \<times> string \<times> bool) option \<Rightarrow> pending_call option" where
  "setPendingCallFromPush now p =
     (case p of None \<Rightarrow> None
      | Some (from, name, join) \<Rightarrow>
          let c = \<lparr>pcFrom = js_trim from, pcName = take 40 (if name = '''' then ''Friend'' else name),
                   pcJoin = join, pcAt = now\<rparr>
          in if pcFrom c = '''' then None else Some c)"

text \<open>The answer is also what is kept.\<close>

definition getPendingCallFromPush :: "int \<Rightarrow> pending_call option \<Rightarrow> pending_call option" where
  "getPendingCallFromPush now p =
     (case p of None \<Rightarrow> None | Some c \<Rightarrow> if now - pcAt c > 60000 then None else Some c)"

section \<open>What is read back\<close>

lemma text_or_Some [simp]: "text_or (Some t) '''' = t" "text_or None d = d"
  by (simp_all add: text_or_def)

lemma unless_false_Some [simp]: "unless_false (Some b) = b" "unless_false None"
  by (simp_all add: unless_false_def)

lemma truthy_bool_Some [simp]: "truthy_bool (Some b) = b" "\<not> truthy_bool None"
  by (auto simp: truthy_bool_def)

lemma blur_read_back [simp]: "normalizeBlurMode (as_stored p) = mpBlurMode p"
  by (cases "mpBlurMode p") (simp_all add: normalizeBlurMode_def as_stored_def blur_text_def)

lemma layout_text_eq [simp]: "layout_text l = ''native'' \<longleftrightarrow> l = LayoutNative"
  by (cases l) (simp_all add: layout_text_def)

lemma flag_upper: "list_all flag_char (flag_of s)"
  by (auto simp: flag_of_def list_all_iff dest: in_set_takeD)

lemma flag_char_code: "flag_char c \<longleftrightarrow> 65 \<le> (of_char c :: nat) \<and> (of_char c :: nat) \<le> 90"
  by (simp add: flag_char_def char_range_def less_eq_char_def)

lemma flag_char_fixed: "flag_char c \<Longrightarrow> upper_char c = c \<and> \<not> js_space c"
  by (auto simp: flag_char_code upper_char_def js_space_def char_range_def less_eq_char_def)

lemma flag_flag [simp]: "flag_of (flag_of s) = flag_of s"
proof -
  define t where "t = flag_of s"
  have up: "list_all flag_char t" "length t \<le> 2"
    by (simp_all add: t_def flag_upper) (simp add: flag_of_def)
  have "js_trim t = t"
    by (rule js_trim_trimmed) (use up flag_char_fixed in \<open>auto simp: trimmed_def list_all_iff\<close>)
  moreover have "js_upper t = t"
    using up flag_char_fixed by (auto simp: js_upper_def list_all_iff intro: map_idI)
  moreover have "filter flag_char t = t"
    using up by (simp add: list_all_iff)
  ultimately have "flag_of t = t"
    using up by (simp add: flag_of_def [of t])
  then show ?thesis by (simp add: t_def)
qed

lemma text_or_text_or [simp]: "text_or (Some (text_or x d)) d = text_or x d"
  by (auto simp: text_or_def split: option.splits)

text \<open>Writing normalised preferences and reading them gives them back.\<close>

lemma prefs_read_back [simp]: "prefsFromPartial (as_stored (prefsFromPartial j m)) m' = prefsFromPartial j m'"
  by (simp add: prefsFromPartial_def as_stored_def)

lemma load_settled:
  "psConnectFix s \<Longrightarrow> psUxIntro s \<Longrightarrow> psPrefs s = Some (Some j) \<Longrightarrow>
   loadMatchPrefs s = (prefsFromPartial j (normalizeBlurMode j), s)"
  by (cases s; cases "normalizeBlurMode j") (simp_all add: loadMatchPrefs_def Let_def)

lemma default_load [simp]: "psPrefs s = None \<Longrightarrow> loadMatchPrefs s = (DEFAULTS, s\<lparr>psUxIntro := True\<rparr>)"
  by (simp add: loadMatchPrefs_def)

lemma normalised_mode [simp]: "mpBlurMode (prefsFromPartial j m) = m"
  by (simp add: prefsFromPartial_def)

lemma identity_length: "length rnd = 16 \<Longrightarrow> length (randomUserId rnd) = 36"
proof -
  assume "length rnd = 16"
  moreover have "length (hex rnd) = 2 * length rnd" for rnd
    by (induction rnd) (simp_all add: hex_def)
  ultimately show ?thesis by (simp add: randomUserId_def Let_def)
qed

lemma corner_read_back [simp]: "parseCorner (corner_text c) = Some c"
  by (cases c) (simp_all add: parseCorner_def corner_text_def)

lemma view_read_back [simp]: "parseStageView (view_text v) = Some v"
  by (cases v) (simp_all add: parseStageView_def view_text_def)

lemma parse_blank [simp]: "parseCorner '''' = None" "parseStageView '''' = None"
  by (simp_all add: parseCorner_def parseStageView_def)

lemma pip_read_back: "loadPipPrefs (Some (store_pip p)) = Some p"
  by (cases "pfCorner p"; cases "pfView p") (simp_all add: loadPipPrefs_def store_pip_def)

section \<open>Properties\<close>

text \<open>The veil over strangers that a fresh installation holds until it is lifted is switched off by the
  first save: the next load takes the stored choice for one that an old release forced on everybody,
  and writes it back as off, for good.\<close>

theorem default_veil_lost:
  "let (p, s1) = loadMatchPrefs \<lparr>psPrefs = None, psConnectFix = False, psUxIntro = False\<rparr>;
       s2 = saveMatchPrefs (p\<lparr>mpDataSaver := saver, mpGender := gender\<rparr>) s1
   in mpBlurMode p = BlurHold \<and> mpBlurMode (fst (loadMatchPrefs s2)) = BlurOff \<and>
      mpBlurMode (fst (loadMatchPrefs (snd (loadMatchPrefs s2)))) = BlurOff"
  by (simp add: Let_def DEFAULTS_def saveMatchPrefs_def put_prefs_def loadMatchPrefs_def)

text \<open>The choice that is saved is the one that is read, except a first choice of hold.\<close>

theorem saved_mode_read:
  "mpBlurMode (fst (loadMatchPrefs (saveMatchPrefs p s))) =
     (if \<not> psConnectFix s \<and> mpBlurMode p = BlurHold then BlurOff else mpBlurMode p)"
  by (simp add: saveMatchPrefs_def put_prefs_def loadMatchPrefs_def Let_def)

text \<open>The migrations run once: what a load returns is what every later load returns.\<close>

theorem load_is_stable:
  "fst (loadMatchPrefs (snd (loadMatchPrefs s))) = fst (loadMatchPrefs s)"
proof (cases "psPrefs s")
  case None
  then show ?thesis by simp
next
  case (Some raw)
  show ?thesis
  proof (cases raw)
    case None
    with Some show ?thesis by (simp add: loadMatchPrefs_def)
  next
    case j: (Some j)
    with Some show ?thesis
      by (cases "normalizeBlurMode j"; cases "psConnectFix s"; cases "psUxIntro s")
        (simp_all add: loadMatchPrefs_def [of s] load_settled put_prefs_def Let_def)
  qed
qed

text \<open>An unlocked device keeps its identity: once loaded, later loads give the same one whatever random
  bytes they are offered, with at least eight characters of user id and a name; and a profile that is
  taken over is what the next load gives.\<close>

theorem identity_kept:
  "if length rnd = 16
   then case loadOrCreateIdentity False rnd s of
     (i, s1) \<Rightarrow> loadOrCreateIdentity False rnd2 s1 = (i, s1) \<and> 8 \<le> length (liUser i) \<and> liName i \<noteq> '''' \<and>
       (case replaceIdentity user name s1 of
          Inl e \<Rightarrow> length (js_trim user) < 8
        | Inr (i2, s2) \<Rightarrow> loadOrCreateIdentity False rnd2 s2 = (i2, s2))
   else True"
proof (cases "length rnd = 16")
  case True
  define u where "u = (case idUser s of None \<Rightarrow> randomUserId rnd
      | Some u \<Rightarrow> if u = '''' \<or> length u < 8 then randomUserId rnd else u)"
  define n where "n = (if text_or (idName s) '''' = '''' then ''anon'' else text_or (idName s) '''')"
  define s1 where "s1 = s\<lparr>idUser := Some u, idName := Some n\<rparr>"
  have u: "8 \<le> length u"
    using identity_length [OF True] by (auto simp: u_def split: option.split)
  have n: "n \<noteq> ''''"
    by (simp add: n_def)
  have "idName s = Some n \<or> text_or (idName s) '''' = ''''"
    by (cases "idName s") (auto simp: n_def)
  then have load: "loadOrCreateIdentity False rnd s = (\<lparr>liUser = u, liName = n\<rparr>, s1)"
    by (cases "idUser s") (auto simp: loadOrCreateIdentity_def u_def s1_def n_def Let_def)
  have again: "loadOrCreateIdentity False rnd2 (t\<lparr>idUser := Some v, idName := Some m\<rparr>) =
      (\<lparr>liUser = v, liName = m\<rparr>, t\<lparr>idUser := Some v, idName := Some m\<rparr>)" if "8 \<le> length v" "m \<noteq> ''''" for t v m
    using that by (auto simp: loadOrCreateIdentity_def Let_def)
  have "take 32 (if name = '''' then ''anon'' else name) \<noteq> ''''"
    by simp
  then show ?thesis
    using True u n again [OF u n, of s] again [of "js_trim user" "take 32 (if name = '''' then ''anon'' else name)" s1]
    by (auto simp: load replaceIdentity_def Let_def s1_def not_less)
qed (simp only: if_False)

text \<open>Saving one of the self-view preferences keeps the others: what is loaded afterwards is what was
  loaded before with the given fields replaced.\<close>

theorem pip_prefs_merge:
  "loadPipPrefs (savePipPrefs u raw) =
     Some (merge_pip u (case loadPipPrefs raw of None \<Rightarrow> no_pip | Some p \<Rightarrow> p))"
  by (simp add: savePipPrefs_def pip_read_back)

text \<open>On a stage with room for the view, the older snapping rule puts it where the current one does when
  there are no insets.\<close>

theorem snap_is_nearest_corner:
  "if pad + pipW + pad \<le> stageW \<and> pad + pipH + pad \<le> stageH \<and> 0 \<le> pad
   then snapPipToCorner x y stageW stageH pipW pipH pad =
     (let b = pipBounds stageW stageH pipW pipH 0 0 pad in cornerToPos (nearestCorner x y pipW pipH b) b)
   else True"
  by (auto simp: snapPipToCorner_def pipBounds_def nearestCorner_def cornerToPos_def corner_at_def Let_def field_simps)

text \<open>A notification's call is offered for a minute at most, and only with a caller.\<close>

theorem pending_call_bounded:
  "case getPendingCallFromPush now (setPendingCallFromPush at' p) of
     None \<Rightarrow> True
   | Some c \<Rightarrow> pcFrom c \<noteq> '''' \<and> pcName c \<noteq> '''' \<and> length (pcName c) \<le> 40 \<and> now - at' \<le> 60000"
  by (auto simp: getPendingCallFromPush_def setPendingCallFromPush_def Let_def split: option.split)

text \<open>The card is shown until it was seen at this version.\<close>

theorem whats_new_once:
  "shouldShowWhatsNew v2 (markWhatsNewSeen v1 seen) \<longleftrightarrow> v2 \<noteq> '''' \<and> v1 \<noteq> v2"
  by (simp add: shouldShowWhatsNew_def markWhatsNewSeen_def)

end
