(* ===== verification/Backup.thy ===== *)
theory Backup
  imports Prefs Json
begin

text \<open>
  Profile backups: the encrypted envelope shared by the page (\<open>ui/live.js\<close>) and the phone
  (\<open>identity/profileBackup.ts\<close>), what each exports, and what each restores (\<open>live.js\<close>,
  \<open>app/settings.tsx\<close>). The ciphers and the text decoder are arguments; JSON and base64 are written
  out. Random bytes, the clock and the texts of the interface are arguments.
\<close>

section \<open>Base64\<close>

definition b64_char :: "nat \<Rightarrow> char" where
  "b64_char n = (if n < 26 then char_of (65 + n) else if n < 52 then char_of (71 + n)
     else if n < 62 then char_of (n - 4) else if n = 62 then CHR ''+'' else CHR ''/'')"

definition b64_val :: "char \<Rightarrow> nat option" where
  "b64_val c =
     (let n = of_char c
      in if char_range (CHR ''A'') (CHR ''Z'') c then Some (n - 65)
         else if char_range (CHR ''a'') (CHR ''z'') c then Some (n - 71)
         else if js_digit c then Some (n + 4)
         else if c = CHR ''+'' then Some 62 else if c = CHR ''/'' then Some 63 else None)"

fun b64_nums :: "nat list \<Rightarrow> nat list" where
  "b64_nums [] = []"
| "b64_nums [a] = [a div 4, (a mod 4) * 16]"
| "b64_nums [a, b] = [a div 4, (a mod 4) * 16 + b div 16, (b mod 16) * 4]"
| "b64_nums (a # b # c # r) = [a div 4, (a mod 4) * 16 + b div 16, (b mod 16) * 4 + c div 64, c mod 64] @ b64_nums r"

fun b64_bytes :: "nat list \<Rightarrow> nat list" where
  "b64_bytes (w # x # y # z # r) = [w * 4 + x div 16, (x mod 16) * 16 + y div 4, (y mod 4) * 64 + z] @ b64_bytes r"
| "b64_bytes [w, x, y] = [w * 4 + x div 16, (x mod 16) * 16 + y div 4]"
| "b64_bytes [w, x] = [w * 4 + x div 16]"
| "b64_bytes _ = []"

definition b64_pad :: "nat \<Rightarrow> string" where
  "b64_pad n = replicate ((3 - n mod 3) mod 3) (CHR ''='')"

definition b64FromBytes :: "bytes \<Rightarrow> string" where
  "b64FromBytes bs = map b64_char (b64_nums (map unat bs)) @ b64_pad (length bs)"

text \<open>\<open>atob\<close>: white space is skipped, padding may be missing, anything else throws.\<close>

definition strip_pad :: "string \<Rightarrow> string" where
  "strip_pad t =
     (if length t mod 4 = 0
      then take (length t - min 2 (length (takeWhile (\<lambda>c. c = CHR ''='') (rev t)))) t else t)"

definition bytesFromB64 :: "string \<Rightarrow> bytes option" where
  "bytesFromB64 s =
     (let t = strip_pad (filter (\<lambda>c. c \<notin> {CHR 0x09, LF, CHR 0x0C, CR, CHR '' ''}) s)
      in if length t mod 4 = 1 \<or> list_ex (\<lambda>c. b64_val c = None) t then None
         else Some (map of_nat (b64_bytes (map (\<lambda>c. the (b64_val c)) t))))"

section \<open>The envelope\<close>

text \<open>PBKDF2-SHA256 of password, salt and iterations; AES-GCM under key and nonce; the decoder of UTF-8.\<close>

record crypto =
  crKdf :: "bytes \<Rightarrow> bytes \<Rightarrow> int \<Rightarrow> bytes"
  crSeal :: "bytes \<Rightarrow> bytes \<Rightarrow> bytes \<Rightarrow> bytes"
  crUnseal :: "bytes \<Rightarrow> bytes \<Rightarrow> bytes \<Rightarrow> bytes option"
  crText :: "bytes \<Rightarrow> string"

definition PROFILE_FORMAT :: string where
  "PROFILE_FORMAT = ''ruletka-profile/1''"

definition PROFILE_FORMAT_ENC :: string where
  "PROFILE_FORMAT_ENC = ''ruletka-profile/2-enc''"

definition PROFILE_KDF_ITERS :: int where
  "PROFILE_KDF_ITERS = 310000"

definition sealed_fields :: "jsval \<Rightarrow> bool" where
  "sealed_fields d \<longleftrightarrow> js_truthy (vget d ''ciphertext'') \<and> js_truthy (vget d ''salt'') \<and> js_truthy (vget d ''iv'') \<and>
     (vget d ''cipher'' = JStr ''AES-GCM'' \<or> js_truthy (vget d ''kdf''))"

definition is_object :: "jsval \<Rightarrow> bool" where
  "is_object v = (case v of JArr _ \<Rightarrow> True | JObj _ \<Rightarrow> True | _ \<Rightarrow> False)"

definition phoneIsEncryptedProfile :: "jsval \<Rightarrow> bool" where
  "phoneIsEncryptedProfile d \<longleftrightarrow>
     is_object d \<and> (str_or (vget d ''format'') = PROFILE_FORMAT_ENC \<or> sealed_fields d)"

definition pageIsEncryptedProfile :: "jsval \<Rightarrow> bool" where
  "pageIsEncryptedProfile d \<longleftrightarrow>
     is_object d \<and> (str_or (vget d ''format'') \<in> {PROFILE_FORMAT_ENC, ''ruletka-profile/2''} \<or> sealed_fields d)"

definition deriveKey :: "crypto \<Rightarrow> string \<Rightarrow> bytes \<Rightarrow> int \<Rightarrow> bytes" where
  "deriveKey c password salt iterations =
     crKdf c (utf8 password) salt (max 100000 (if iterations > 0 then iterations else PROFILE_KDF_ITERS))"

text \<open>\<open>encryptProfile\<close> of the phone and \<open>encryptProfilePayload\<close> of the page, which differ in the note.\<close>

definition encryptProfile :: "crypto \<Rightarrow> bytes \<Rightarrow> bytes \<Rightarrow> string \<Rightarrow> string \<Rightarrow> jsval \<Rightarrow> string \<Rightarrow> jsval" where
  "encryptProfile c salt iv exported note profile password =
     (let key = deriveKey c password salt PROFILE_KDF_ITERS;
          ct = crSeal c key iv (utf8 (json_text profile))
      in JObj [(''format'', JStr PROFILE_FORMAT_ENC), (''v'', JNum 2), (''software'', JStr ''ruletka.vip''),
           (''exported_at'', JStr exported), (''kdf'', JStr ''PBKDF2''), (''hash'', JStr ''SHA-256''),
           (''iter'', JNum PROFILE_KDF_ITERS), (''cipher'', JStr ''AES-GCM''), (''salt'', JStr (b64FromBytes salt)),
           (''iv'', JStr (b64FromBytes iv)), (''ciphertext'', JStr (b64FromBytes ct)), (''note'', JStr note)])"

datatype backup_error = BadBase64 | BadEnvelope | WrongKey | BadJson | BadPayload

text \<open>What both sides do to get at the text of an envelope.\<close>

definition open_envelope :: "crypto \<Rightarrow> jsval \<Rightarrow> string \<Rightarrow> backup_error + string" where
  "open_envelope c env password =
     (case (bytesFromB64 (str_or (vget env ''salt'')), bytesFromB64 (str_or (vget env ''iv'')),
            bytesFromB64 (str_or (vget env ''ciphertext''))) of
        (Some salt, Some iv, Some ct) \<Rightarrow>
          if salt = [] \<or> iv = [] \<or> ct = [] then Inl BadEnvelope
          else (case crUnseal c (deriveKey c password salt (num_or (vget env ''iter'') PROFILE_KDF_ITERS)) iv ct of
                  None \<Rightarrow> Inl WrongKey
                | Some plain \<Rightarrow> Inr (crText c plain))
      | _ \<Rightarrow> Inl BadBase64)"

definition vdel :: "string \<Rightarrow> jsval \<Rightarrow> jsval" where
  "vdel k v = (case v of JObj ob \<Rightarrow> JObj (jdel k ob) | _ \<Rightarrow> v)"

definition vset :: "string \<Rightarrow> jsval \<Rightarrow> jsval \<Rightarrow> jsval" where
  "vset k x v = (case v of JObj ob \<Rightarrow> JObj (jset k x ob) | _ \<Rightarrow> v)"

text \<open>The phone.\<close>

definition decryptProfile :: "crypto \<Rightarrow> jsval \<Rightarrow> string \<Rightarrow> backup_error + jsval" where
  "decryptProfile c env password =
     (case open_envelope c env password of
        Inl e \<Rightarrow> Inl e
      | Inr t \<Rightarrow>
          (case json_parse t of
             None \<Rightarrow> Inl BadJson
           | Some data \<Rightarrow>
               if \<not> js_truthy (vget (vget data ''identity'') ''user_id'') then Inl BadPayload
               else let d = vdel ''myStars'' (vdel ''stars'' data)
                    in Inr (vset ''identity'' (vdel ''star_count'' (vdel ''stars'' (vget d ''identity''))) d)))"

text \<open>The page.\<close>

definition decryptProfilePayload :: "crypto \<Rightarrow> jsval \<Rightarrow> string \<Rightarrow> backup_error + jsval" where
  "decryptProfilePayload c env password =
     (case open_envelope c env password of
        Inl e \<Rightarrow> Inl e
      | Inr t \<Rightarrow>
          (case json_parse t of
             None \<Rightarrow> Inl BadJson
           | Some data \<Rightarrow> if is_object data then Inr data else Inl BadPayload))"

section \<open>The phone: export and import\<close>

definition buildPlainProfile :: "string \<Rightarrow> string \<Rightarrow> string \<Rightarrow> string \<Rightarrow> string \<Rightarrow> jsval \<Rightarrow> jsval" where
  "buildPlainProfile exported note user name code prefs =
     JObj [(''format'', JStr PROFILE_FORMAT), (''exported_at'', JStr exported), (''software'', JStr ''ruletka.vip''),
       (''note'', JStr note),
       (''identity'', JObj [(''user_id'', JStr user), (''name'', JStr (take 32 (if name = '''' then ''anon'' else name))),
          (''friend_code'', JStr code)]),
       (''prefs'', prefs)]"

text \<open>\<open>JSON.stringify\<close> of the preferences; an undefined field is left out.\<close>

definition prefs_json :: "match_prefs \<Rightarrow> jsval" where
  "prefs_json p =
     JObj ([(''gender'', JStr (mpGender p)), (''looking'', JStr (mpLooking p)), (''hideIp'', JBool (mpHideIp p)),
       (''flag'', JStr (mpFlag p)), (''notifyFriendCalls'', JBool (mpNotify p)), (''dataSaver'', JBool (mpDataSaver p)),
       (''blurStrangersMode'', JStr (blur_text (mpBlurMode p))), (''blurStrangers'', JBool (mpBlur p)),
       (''historySnaps'', JBool (mpSnaps p)), (''liveLayout'', JStr (layout_text (mpLayout p)))] @
      (case mpLayoutExplicit p of None \<Rightarrow> [] | Some b \<Rightarrow> [(''liveLayoutExplicit'', JBool b)]) @
      [(''swipeSkip'', JBool (mpSwipe p)), (''noiseReduction'', JBool (mpNoise p)), (''avatar'', JStr (mpAvatar p))])"

datatype export_result = ExWeak | ExPlain jsval | ExEncrypted jsval

definition exportBackup :: "crypto \<Rightarrow> bytes \<Rightarrow> bytes \<Rightarrow> string \<Rightarrow> string \<Rightarrow> string \<Rightarrow> jsval \<Rightarrow> export_result" where
  "exportBackup c salt iv exported note exportPw plain =
     (if 0 < length exportPw \<and> length exportPw < 8 then ExWeak
      else if exportPw \<noteq> '''' then ExEncrypted (encryptProfile c salt iv exported note plain exportPw)
      else ExPlain plain)"

definition not_undefined_or_true :: "jsval \<Rightarrow> bool" where
  "not_undefined_or_true v = (if v = JUndef then True else js_truthy v)"

text \<open>The preferences that an import saves.\<close>

definition prefs_of_backup :: "jsval \<Rightarrow> match_prefs" where
  "prefs_of_backup p =
     \<lparr>mpGender = str_or (vget p ''gender''),
      mpLooking = (if js_truthy (vget p ''looking'') then str_or (vget p ''looking'') else ''any''),
      mpHideIp = js_truthy (vget p ''hideIp''), mpFlag = '''', mpNotify = not_undefined_or_true (vget p ''notifyFriendCalls''),
      mpDataSaver = js_truthy (vget p ''dataSaver''), mpBlur = not_undefined_or_true (vget p ''blurStrangers''),
      mpBlurMode =
        (if vget p ''blurStrangersMode'' = JStr ''off'' then BlurOff
         else if vget p ''blurStrangersMode'' = JStr ''intro'' then BlurIntro
         else if vget p ''blurStrangersMode'' = JStr ''hold'' then BlurHold
         else if vget p ''blurStrangers'' = JBool False then BlurOff else BlurIntro),
      mpSnaps = not_undefined_or_true (vget p ''historySnaps''),
      mpLayout = (if vget p ''liveLayout'' = JStr ''browser'' then LayoutBrowser else LayoutNative),
      mpLayoutExplicit = None, mpSwipe = not_undefined_or_true (vget p ''swipeSkip''),
      mpNoise = not_undefined_or_true (vget p ''noiseReduction''),
      mpAvatar = (if isValidAvatarDataUrl (str_or (vget p ''avatar'')) then str_or (vget p ''avatar'') else '''')\<rparr>"

datatype import_result = ImNeedPassword | ImWrongPassword | ImBad | ImApply string string "match_prefs option"

definition profile_uid :: "jsval \<Rightarrow> jsval" where
  "profile_uid d = js_or (vget (vget d ''identity'') ''user_id'') (vget d ''user_id'')"

definition readable_profile :: "jsval \<Rightarrow> import_result" where
  "readable_profile d =
     (let uid = profile_uid d
      in if \<not> js_truthy uid \<or> length (js_string uid) < 8 then ImBad
         else ImApply (js_string uid)
                (take 32 (let n = js_or (vget (vget d ''identity'') ''name'') (vget d ''name'')
                          in if js_truthy n then js_string n else ''anon''))
                (if js_truthy (vget d ''prefs'') then Some (prefs_of_backup (vget d ''prefs'')) else None))"

definition importBackup :: "crypto \<Rightarrow> string \<Rightarrow> jsval \<Rightarrow> import_result" where
  "importBackup c importPw raw =
     (if phoneIsEncryptedProfile raw
      then let pw = js_trim importPw
           in if pw = '''' then ImNeedPassword
              else (case decryptProfile c raw pw of Inl e \<Rightarrow> ImWrongPassword | Inr d \<Rightarrow> readable_profile d)
      else readable_profile raw)"

text \<open>What happens when the import is confirmed.\<close>

definition apply_import :: "import_result \<Rightarrow> pref_store \<times> identity_store \<Rightarrow> pref_store \<times> identity_store" where
  "apply_import r s =
     (case r of
        ImApply uid name prefs \<Rightarrow>
          (case prefs of None \<Rightarrow> fst s | Some p \<Rightarrow> saveMatchPrefs p (fst s),
           case replaceIdentity uid name (snd s) of Inl e \<Rightarrow> snd s | Inr (i, ids) \<Rightarrow> ids)
      | _ \<Rightarrow> s)"

section \<open>Base64 is read back\<close>

lemma b64_triple:
  fixes a b c :: nat
  assumes "a < 256" "b < 256" "c < 256"
  shows "(a div 4) * 4 + ((a mod 4) * 16 + b div 16) div 16 = a"
    and "((a mod 4) * 16 + b div 16) mod 16 * 16 + ((b mod 16) * 4 + c div 64) div 4 = b"
    and "((b mod 16) * 4 + c div 64) mod 4 * 64 + c mod 64 = c"
    and "a div 4 < 64" "(a mod 4) * 16 + b div 16 < 64" "(b mod 16) * 4 + c div 64 < 64" "c mod 64 < 64"
proof -
  have "b div 16 < 16" "c div 64 < 4" "a mod 4 < 4" "b mod 16 < 16" "a div 4 < 64" "c mod 64 < 64"
    using assms by auto
  then show "(a div 4) * 4 + ((a mod 4) * 16 + b div 16) div 16 = a"
    "((a mod 4) * 16 + b div 16) mod 16 * 16 + ((b mod 16) * 4 + c div 64) div 4 = b"
    "((b mod 16) * 4 + c div 64) mod 4 * 64 + c mod 64 = c"
    "a div 4 < 64" "(a mod 4) * 16 + b div 16 < 64" "(b mod 16) * 4 + c div 64 < 64" "c mod 64 < 64"
    by simp_all
qed

lemma b64_bytes_nums: "list_all (\<lambda>a. a < 256) bs \<Longrightarrow> b64_bytes (b64_nums bs) = bs"
proof (induction bs rule: b64_nums.induct)
  case (4 a b c r)
  then have IH: "b64_bytes (b64_nums r) = r" and lt: "a < 256" "b < 256" "c < 256"
    by simp_all
  show ?case
    by (simp only: b64_nums.simps b64_bytes.simps append_Cons append_Nil IH b64_triple(1,2,3) [OF lt])
next
  case (2 a)
  then show ?case using b64_triple(1) [of a 0 0] by simp
next
  case (3 a b)
  then show ?case using b64_triple(1,2) [of a b 0] by simp
qed simp

lemma b64_nums_range: "list_all (\<lambda>a. a < 256) bs \<Longrightarrow> list_all (\<lambda>n. n < 64) (b64_nums bs)"
proof (induction bs rule: b64_nums.induct)
  case (4 a b c r)
  then show ?case using b64_triple [of a b c] by simp
next
  case (2 a)
  then show ?case using b64_triple [of a 0 0] by simp
next
  case (3 a b)
  then show ?case using b64_triple [of a b 0] by simp
qed simp

lemma length_b64_nums: "length (b64_nums bs) = 4 * (length bs div 3) + (if length bs mod 3 = 0 then 0 else length bs mod 3 + 1)"
  by (induction bs rule: b64_nums.induct) (simp_all add: div_if mod_if)

lemma of_char_b64: "n < 64 \<Longrightarrow> (of_char (b64_char n) :: nat) =
    (if n < 26 then 65 + n else if n < 52 then 71 + n else if n < 62 then n - 4 else if n = 62 then 43 else 47)"
  by (auto simp: b64_char_def)

lemma b64_val_char: "n < 64 \<Longrightarrow> b64_val (b64_char n) = Some n"
proof -
  assume n: "n < 64"
  have "b64_val (b64_char 62) = Some 62" "b64_val (b64_char 63) = Some 63"
    by (simp_all add: b64_char_def b64_val_def char_range_def js_digit_def less_eq_char_def)
  moreover from n have "n < 62 \<or> n = 62 \<or> n = 63" by auto
  moreover have "b64_val (b64_char n) = Some n" if "n < 62"
    using that n
    by (cases "n < 26"; cases "n < 52") (simp_all add: b64_val_def Let_def char_range_def js_digit_def less_eq_char_def of_char_b64,
        arith)
  ultimately show ?thesis by auto
qed

lemma strip_padded: "length (t @ b64_pad n) mod 4 = 0 \<Longrightarrow> CHR ''='' \<notin> set t \<Longrightarrow> strip_pad (t @ b64_pad n) = t"
proof -
  assume l: "length (t @ b64_pad n) mod 4 = 0" and t: "CHR ''='' \<notin> set t"
  define k where "k = (3 - n mod 3) mod 3"
  have "takeWhile (\<lambda>c. c = CHR ''='') (rev (t @ b64_pad n)) = replicate k (CHR ''='')"
  proof -
    have "takeWhile (\<lambda>c. c = CHR ''='') (rev t) = []"
      using t by (cases "rev t") (auto simp: takeWhile_eq_Nil_iff dest: arg_cong [of _ _ set])
    then show ?thesis
      unfolding b64_pad_def k_def [symmetric] rev_append rev_replicate by (subst takeWhile_append2) simp_all
  qed
  moreover have "k \<le> 2"
    by (simp add: k_def)
  ultimately show ?thesis
    using l by (simp add: strip_pad_def b64_pad_def k_def)
qed

lemma plain_b64: "n < 64 \<Longrightarrow> b64_char n \<notin> {CHR 0x09, LF, CHR 0x0C, CR, CHR '' '', CHR ''=''}"
proof -
  assume n: "n < 64"
  have "b64_val c = None" if "c \<in> {CHR 0x09, LF, CHR 0x0C, CR, CHR '' '', CHR ''=''}" for c
    using that by (auto simp: b64_val_def char_range_def js_digit_def less_eq_char_def)
  with b64_val_char [OF n] show ?thesis by (metis option.distinct(1))
qed

text \<open>What was written is read back.\<close>

lemma b64_roundtrip: "bytesFromB64 (b64FromBytes bs) = Some bs"
proof -
  define ns where "ns = b64_nums (map unat bs)"
  have small: "list_all (\<lambda>a. a < 256) (map unat bs)"
    by (auto simp: list_all_iff intro: order_less_le_trans [OF unsigned_less])
  then have range: "\<forall>n\<in>set ns. n < 64"
    using b64_nums_range [OF small] by (simp add: ns_def list_all_iff)
  have len: "length (map b64_char ns @ b64_pad (length bs)) mod 4 = 0" "length ns mod 4 \<noteq> 1"
  proof -
    have "length bs mod 3 \<in> {0, 1, 2}" by auto
    then show "length (map b64_char ns @ b64_pad (length bs)) mod 4 = 0" "length ns mod 4 \<noteq> 1"
      by (auto simp: ns_def length_b64_nums b64_pad_def)
  qed
  have "CHR ''='' \<notin> set (map b64_char ns)"
    using range plain_b64 by force
  then have strip: "strip_pad (map b64_char ns @ b64_pad (length bs)) = map b64_char ns"
    by (rule strip_padded [OF len(1)])
  have keep: "filter (\<lambda>c. c \<notin> {CHR 0x09, LF, CHR 0x0C, CR, CHR '' ''}) (b64FromBytes bs) = b64FromBytes bs"
    using range plain_b64 by (fastforce simp: b64FromBytes_def b64_pad_def ns_def filter_id_conv)
  have vals: "map (\<lambda>c. the (b64_val c)) (map b64_char ns) = ns" "\<not> list_ex (\<lambda>c. b64_val c = None) (map b64_char ns)"
    using range by (auto simp: b64_val_char list_ex_iff intro!: map_idI)
  have bytes: "map of_nat (b64_bytes ns) = bs"
    using b64_bytes_nums [OF small] by (simp add: ns_def comp_def)
  have stripped: "strip_pad (b64FromBytes bs) = map b64_char ns"
    by (simp add: b64FromBytes_def strip flip: ns_def)
  show ?thesis
    unfolding bytesFromB64_def Let_def keep stripped
    using len(2) vals(2) by (simp only: vals bytes length_map) simp
qed

section \<open>Restoring a backup\<close>

text \<open>What is asked of the ciphers: the key that sealed a text opens it; and of the decoder of texts.\<close>

definition crypto_ok :: "crypto \<Rightarrow> bool" where
  "crypto_ok c \<longleftrightarrow>
     (\<forall>k iv m. crUnseal c k iv (crSeal c k iv m) = Some m \<and> crSeal c k iv m \<noteq> []) \<and> (\<forall>s. crText c (utf8 s) = s)"

text \<open>Another password does not open what this one sealed under this salt.\<close>

definition refuses :: "crypto \<Rightarrow> bytes \<Rightarrow> string \<Rightarrow> string \<Rightarrow> bool" where
  "refuses c salt pw pw' \<longleftrightarrow>
     (\<forall>iv m. crUnseal c (deriveKey c pw' salt PROFILE_KDF_ITERS) iv
        (crSeal c (deriveKey c pw salt PROFILE_KDF_ITERS) iv m) = None)"

lemma sealed_envelope:
  "open_envelope c (encryptProfile c salt iv exported note profile pw) pw' =
     (let ct = crSeal c (deriveKey c pw salt PROFILE_KDF_ITERS) iv (utf8 (json_text profile))
      in if salt = [] \<or> iv = [] \<or> ct = [] then Inl BadEnvelope
         else (case crUnseal c (deriveKey c pw' salt PROFILE_KDF_ITERS) iv ct of
                 None \<Rightarrow> Inl WrongKey | Some plain \<Rightarrow> Inr (crText c plain)))"
proof -
  have str: "str_or (JStr s) = s" for s
    by (simp add: str_or_def)
  have "num_or (JNum PROFILE_KDF_ITERS) PROFILE_KDF_ITERS = PROFILE_KDF_ITERS"
    by (simp add: PROFILE_KDF_ITERS_def)
  then show ?thesis
    by (simp add: open_envelope_def encryptProfile_def Let_def vget_def str b64_roundtrip)
qed

lemma opened_envelope:
  "crypto_ok c \<Longrightarrow> salt \<noteq> [] \<Longrightarrow> iv \<noteq> [] \<Longrightarrow>
   open_envelope c (encryptProfile c salt iv exported note profile pw) pw = Inr (json_text profile)"
  by (simp add: sealed_envelope crypto_ok_def Let_def)

lemma refused_envelope:
  "crypto_ok c \<Longrightarrow> refuses c salt pw pw' \<Longrightarrow> salt \<noteq> [] \<Longrightarrow> iv \<noteq> [] \<Longrightarrow>
   open_envelope c (encryptProfile c salt iv exported note profile pw) pw' = Inl WrongKey"
  by (simp add: sealed_envelope refuses_def crypto_ok_def Let_def)

lemma sealed_is_encrypted: "phoneIsEncryptedProfile (encryptProfile c salt iv exported note profile pw)"
  by (simp add: phoneIsEncryptedProfile_def encryptProfile_def is_object_def vget_def str_or_def Let_def)

lemma json_ok_plain: "json_ok prefs \<Longrightarrow> json_ok (buildPlainProfile exported note user name code prefs)"
  by (simp add: buildPlainProfile_def)

lemma jdel_fresh: "k \<notin> set (jkeys m) \<Longrightarrow> jdel k m = m"
  by (auto simp: jdel_eq_filter filter_id_conv)

lemma js_truthy_str [simp]: "js_truthy (JStr s) \<longleftrightarrow> s \<noteq> ''''"
  by simp

lemma decrypted_plain:
  "crypto_ok c \<Longrightarrow> salt \<noteq> [] \<Longrightarrow> iv \<noteq> [] \<Longrightarrow> json_ok prefs \<Longrightarrow> user \<noteq> '''' \<Longrightarrow>
   (let p = buildPlainProfile exported note user name code prefs
    in decryptProfile c (encryptProfile c salt iv exported2 note2 p pw) pw = Inr p)"
  by (simp add: decryptProfile_def opened_envelope json_roundtrip json_ok_plain Let_def)
    (simp add: buildPlainProfile_def vget_def vdel_def vset_def jdel_eq_filter jset_def)

lemma readable_plain:
  "8 \<le> length user \<Longrightarrow>
   readable_profile (buildPlainProfile exported note user name code prefs) =
     ImApply user (take 32 (if name = '''' then ''anon'' else name))
       (if js_truthy prefs then Some (prefs_of_backup prefs) else None)"
proof -
  assume user: "8 \<le> length user"
  define n where "n = take 32 (if name = '''' then ''anon'' else name)"
  have "n \<noteq> ''''" "take 32 n = n" "user \<noteq> ''''"
    using user by (auto simp: n_def)
  then show ?thesis
    using user unfolding buildPlainProfile_def n_def [symmetric]
    by (simp add: readable_profile_def profile_uid_def vget_def js_or_def)
qed

text \<open>C23: A backup that the phone encrypted gives the identity and the preferences back under its password, but
  only a password without blanks around it: the export takes the password as it was typed, the import
  cuts it, and one that differs after the cut is refused as wrong.\<close>

theorem spaced_password_lost:
  "crypto_ok c \<Longrightarrow> salt \<noteq> [] \<Longrightarrow> iv \<noteq> [] \<Longrightarrow> json_ok prefs \<Longrightarrow> 8 \<le> length user \<Longrightarrow> 8 \<le> length pw \<Longrightarrow>
   (js_trim pw \<noteq> pw \<Longrightarrow> refuses c salt pw (js_trim pw)) \<Longrightarrow>
   (case exportBackup c salt iv exported note pw (buildPlainProfile exported note2 user name code prefs) of
      ExWeak \<Rightarrow> False
    | ExPlain p \<Rightarrow> False
    | ExEncrypted file \<Rightarrow>
        importBackup c pw file =
          (if js_trim pw = pw
           then ImApply user (take 32 (if name = '''' then ''anon'' else name))
                  (if js_truthy prefs then Some (prefs_of_backup prefs) else None)
           else if js_trim pw = '''' then ImNeedPassword else ImWrongPassword))"
proof -
  assume c: "crypto_ok c" "salt \<noteq> []" "iv \<noteq> []" and prefs: "json_ok prefs" and user: "8 \<le> length user"
    and pw: "8 \<le> length pw" and refused: "js_trim pw \<noteq> pw \<Longrightarrow> refuses c salt pw (js_trim pw)"
  have ne: "user \<noteq> ''''" "pw \<noteq> ''''"
    using user pw by auto
  let ?p = "buildPlainProfile exported note2 user name code prefs"
  let ?file = "encryptProfile c salt iv exported note ?p pw"
  have "importBackup c pw ?file =
      (if js_trim pw = pw then readable_profile ?p else if js_trim pw = '''' then ImNeedPassword else ImWrongPassword)"
  proof (cases "js_trim pw = pw")
    case True
    then show ?thesis
      using decrypted_plain [OF c prefs ne(1)] ne
      by (simp add: importBackup_def sealed_is_encrypted Let_def)
  next
    case False
    then show ?thesis
      using refused_envelope [OF c(1) refused [OF False] c(2,3)]
      by (simp add: importBackup_def sealed_is_encrypted decryptProfile_def Let_def)
  qed
  then show ?thesis
    using pw ne by (simp add: exportBackup_def readable_plain [OF user])
qed

text \<open>Ciphers that behave so, for concrete runs.\<close>

fun utf8_text :: "nat list \<Rightarrow> string" where
  "utf8_text [] = ''''"
| "utf8_text [a] = [char_of a]"
| "utf8_text (a # b # r) = (if a < 128 then char_of a # utf8_text (b # r) else char_of ((a - 192) * 64 + (b - 128)) # utf8_text r)"

definition toy_crypto :: crypto where
  "toy_crypto = \<lparr>crKdf = (\<lambda>pw salt n. pw @ salt), crSeal = (\<lambda>k iv m. of_nat (length k) # k @ m),
     crUnseal = (\<lambda>k iv m. if take (Suc (length k)) m = of_nat (length k) # k then Some (drop (Suc (length k)) m) else None),
     crText = (\<lambda>bs. utf8_text (map unat bs))\<rparr>"

lemma utf8_text_Cons: "a < 128 \<Longrightarrow> utf8_text (a # r) = char_of a # utf8_text r"
  by (cases r) simp_all

lemma utf8_text_utf8: "utf8_text (map unat (utf8 s)) = s"
proof (induction s)
  case (Cons c s)
  define n where "n = (of_char c :: nat)"
  have n: "n < 256" "char_of n = c"
    by (simp_all add: n_def)
  have "utf8 (c # s) = (if n < 128 then [of_nat n] else [of_nat (192 + n div 64), of_nat (128 + n mod 64)]) @ utf8 s"
    by (simp add: utf8_def n_def Let_def)
  moreover have "unat (of_nat n :: byte) = n" "unat (of_nat (192 + n div 64) :: byte) = 192 + n div 64"
    "unat (of_nat (128 + n mod 64) :: byte) = 128 + n mod 64"
    using n(1) by (simp_all only: unsigned_of_nat take_bit_eq_mod) (auto simp: mod_less)
  ultimately show ?case
    using Cons n by (simp add: utf8_text_Cons del: of_nat_add)
qed (simp add: utf8_def)

lemma toy_crypto_ok: "crypto_ok toy_crypto"
  by (simp add: crypto_ok_def toy_crypto_def utf8_text_utf8)

theorem spaced_password_lost_witness:
  "case exportBackup toy_crypto [1] [2] '''' '''' ''password '' (buildPlainProfile '''' '''' ''user-0001'' ''Ann'' '''' JNull) of
     ExEncrypted file \<Rightarrow> importBackup toy_crypto ''password '' file = ImWrongPassword | _ \<Rightarrow> False"
proof -
  have trim: "js_trim ''password '' = ''password''"
    by (simp add: js_trim_def js_space_def)
  have "refuses toy_crypto [1] ''password '' ''password''"
    by (simp add: refuses_def toy_crypto_def deriveKey_def utf8_def)
  moreover obtain f where sealed:
    "exportBackup toy_crypto [1] [2] '''' '''' ''password '' (buildPlainProfile '''' '''' ''user-0001'' ''Ann'' '''' JNull) = ExEncrypted f"
    by (simp add: exportBackup_def)
  ultimately show ?thesis
    using spaced_password_lost [of toy_crypto "[1]" "[2]" JNull "''user-0001''" "''password ''" "''Ann''" "''''" "''''" "''''" "''''"]
      toy_crypto_ok
    by (simp add: sealed trim)
qed

lemma vget_vdel: "vget (vdel k v) k' = (if k' = k then JUndef else vget v k')"
  by (cases v) (auto simp: vget_def vdel_def oget_def jget_def jdel_def delete_conv')

lemma vdel_obj: "(\<exists>ob. vdel k v = JObj ob) \<longleftrightarrow> (\<exists>ob. v = JObj ob)"
  by (cases v) (simp_all add: vdel_def)

lemma vget_vset: "\<exists>ob. v = JObj ob \<Longrightarrow> vget (vset k x v) k' = (if k' = k then x else vget v k')"
  by (auto simp: vget_def vset_def)

text \<open>The same envelope serves the page and the phone: what one sealed the other opens with the same
  password. The page gets the object back as it was; the phone without its star fields, and only when it
  names a user.\<close>

theorem backup_roundtrip:
  "crypto_ok c \<Longrightarrow> salt \<noteq> [] \<Longrightarrow> iv \<noteq> [] \<Longrightarrow> json_ok data \<Longrightarrow> is_object data \<Longrightarrow>
   (let file = encryptProfile c salt iv exported note data pw
    in decryptProfilePayload c file pw = Inr data \<and>
       (case decryptProfile c file pw of
          Inl e \<Rightarrow> e = BadPayload \<and> \<not> js_truthy (vget (vget data ''identity'') ''user_id'')
        | Inr d \<Rightarrow> vget d ''stars'' = JUndef \<and> vget d ''myStars'' = JUndef \<and>
            vget (vget d ''identity'') ''stars'' = JUndef \<and>
            vget (vget d ''identity'') ''user_id'' = vget (vget data ''identity'') ''user_id'' \<and>
            vget d ''prefs'' = vget data ''prefs''))"
proof -
  assume c: "crypto_ok c" "salt \<noteq> []" "iv \<noteq> []" and data: "json_ok data" "is_object data"
  have obj: "\<exists>ob. data = JObj ob" if "js_truthy (vget (vget data ''identity'') ''user_id'')"
    using that by (cases data) (simp_all add: vget_def)
  show ?thesis
    using data obj
    by (simp add: decryptProfilePayload_def decryptProfile_def opened_envelope [OF c] json_roundtrip Let_def)
      (simp add: vget_vset vdel_obj vget_vdel)
qed

theorem backup_roundtrip_witness:
  "decryptProfilePayload toy_crypto (encryptProfile toy_crypto [1] [2] '''' '''' (JObj [(''stars'', JNum 7)]) ''password'') ''password'' =
     Inr (JObj [(''stars'', JNum 7)])"
  using backup_roundtrip [of toy_crypto "[1]" "[2]" "JObj [(''stars'', JNum 7)]" "''''" "''''" "''password''"] toy_crypto_ok
  by (simp add: is_object_def Let_def)

section \<open>Importing preferences\<close>

lemma saved_then_loaded:
  "fst (loadMatchPrefs (saveMatchPrefs p s)) =
     prefsFromPartial (as_stored p) (if \<not> psConnectFix s \<and> mpBlurMode p = BlurHold then BlurOff else mpBlurMode p)"
  by (simp add: saveMatchPrefs_def put_prefs_def loadMatchPrefs_def Let_def)

lemma imported_prefs:
  "prefs_of_backup (prefs_json (prefsFromPartial j m)) = (prefsFromPartial j m)\<lparr>mpFlag := '''', mpLayoutExplicit := None\<rparr>"
proof -
  have modes: "blur_text b = ''off'' \<longleftrightarrow> b = BlurOff" "blur_text b = ''intro'' \<longleftrightarrow> b = BlurIntro" "blur_text b = ''hold'' \<longleftrightarrow> b = BlurHold"
    "layout_text l = ''browser'' \<longleftrightarrow> l = LayoutBrowser" for b l
    by (cases b; cases l; simp add: blur_text_def layout_text_def)+
  show ?thesis
    by (cases m) (simp_all add: prefs_of_backup_def prefs_json_def vget_def prefsFromPartial_def not_undefined_or_true_def
        str_or_def modes text_or_def split: option.split)
qed

text \<open>A backup restores the preferences on another phone except three: the flag is forgotten, the native
  layout becomes the browser's, and on a new installation the veil that is held is off.\<close>

theorem import_forgets:
  "let p = prefsFromPartial j m;
       q = fst (loadMatchPrefs (saveMatchPrefs (prefs_of_backup (prefs_json p)) s));
       mode = (if \<not> psConnectFix s \<and> m = BlurHold then BlurOff else m)
   in q = p\<lparr>mpFlag := '''', mpLayout := LayoutBrowser, mpLayoutExplicit := Some False, mpBlurMode := mode, mpBlur := (mode \<noteq> BlurOff)\<rparr>"
proof -
  have "flag_of '''' = ''''"
    by (simp add: flag_of_def js_trim_def js_upper_def)
  then show ?thesis
    unfolding Let_def imported_prefs saved_then_loaded
    by (simp add: prefsFromPartial_def as_stored_def)
qed

end
