(* ===== verification/PageProfile.thy ===== *)
theory PageProfile
  imports Backup
begin

text \<open>
  The profile file of the page, \<open>ui/live.js\<close>: what is exported, the gate of the export password, what an
  import strips and applies, and the list of friends kept for a new device. Values are what
  \<open>JSON.parse\<close> gives; an array where an object is expected is not modelled, and the dialogs, the
  clipboard and the file picker are left out.
\<close>

section \<open>Stars never travel\<close>

text \<open>\<open>PROFILE_STAR_DENY\<close>, and every key that contains the word.\<close>

definition PROFILE_STAR_DENY :: "string list" where
  "PROFILE_STAR_DENY = [''star'', ''stars'', ''mystar'', ''mystars'', ''my_star'', ''my_stars'', ''star_count'', ''star_counts'',
     ''star_edges'', ''star_effects'', ''hour_star'', ''reputation'', ''coin'', ''coins'']"

definition star_key :: "string \<Rightarrow> bool" where
  "star_key k \<longleftrightarrow> js_lower k \<in> set PROFILE_STAR_DENY \<or> js_includes (js_lower k) ''star''"

text \<open>The recursion stops below depth 6; the argument counts the levels that are left.\<close>

primrec scrub_levels :: "nat \<Rightarrow> jsval \<Rightarrow> jsval" where
  "scrub_levels 0 v = v"
| "scrub_levels (Suc n) v =
     (case v of
        JArr xs \<Rightarrow> JArr (map (scrub_levels n) xs)
      | JObj ob \<Rightarrow> JObj (map (\<lambda>(k, x). (k, scrub_levels n x)) (filter (\<lambda>(k, x). \<not> star_key k) ob))
      | _ \<Rightarrow> v)"

definition scrubStarsFromImportValue :: "nat \<Rightarrow> jsval \<Rightarrow> jsval" where
  "scrubStarsFromImportValue depth v = scrub_levels (7 - depth) v"

definition prefsForProfileExport :: "jsobj \<Rightarrow> jsobj" where
  "prefsForProfileExport p = filter (\<lambda>(k, v). \<not> star_key k) p"

section \<open>Friends\<close>

record friend_row =
  frUser :: string
  frName :: string
  frCode :: string
  frShort :: string
  frSaved :: int

definition friend_json :: "friend_row \<Rightarrow> jsval" where
  "friend_json r = JObj [(''user_id'', JStr (frUser r)), (''name'', JStr (frName r)), (''friend_code'', JStr (frCode r)),
     (''short_id'', JStr (frShort r)), (''saved_at'', JNum (frSaved r))]"

definition backup_row :: "int \<Rightarrow> jsval \<Rightarrow> friend_row" where
  "backup_row now f =
     \<lparr>frUser = js_string (vget f ''user_id''),
      frName = take 32 (str_or (js_or (vget f ''name'') (vget f ''short_id''))),
      frCode = js_upper (str_or (vget f ''friend_code'')), frShort = take 16 (str_or (vget f ''short_id'')), frSaved = now\<rparr>"

text \<open>The first row of every key, in the order of the list.\<close>

definition first_by :: "('r \<Rightarrow> string) \<Rightarrow> 'r list \<Rightarrow> 'r list" where
  "first_by key rows = jvals (fold (\<lambda>r m. if jhas m (key r) then m else jset (key r) r m) rows [])"

definition code_or_user :: "friend_row \<Rightarrow> string" where
  "code_or_user r = (if frCode r \<noteq> '''' then frCode r else frUser r)"

definition saveFriendsBackup :: "int \<Rightarrow> jsval list \<Rightarrow> friend_row list" where
  "saveFriendsBackup now fs =
     (let rows = map (backup_row now) (filter (\<lambda>f. js_truthy f \<and> js_truthy (vget f ''user_id'')) fs)
      in take 200 (first_by code_or_user (first_by frUser rows)))"

text \<open>\<open>nick\<close> is left out when it is empty.\<close>

definition export_friend :: "int \<Rightarrow> jsobj \<Rightarrow> jsval \<Rightarrow> jsval" where
  "export_friend now nicks f =
     (let uid = str_or (vget f ''user_id'');
          nick = take 32 (js_trim (str_or (js_or (oget nicks uid) (vget f ''nick''))))
      in JObj ([(''user_id'', JStr uid), (''name'', JStr (take 32 (str_or (js_or (vget f ''name'') (vget f ''short_id''))))),
           (''friend_code'', JStr (js_upper (str_or (vget f ''friend_code'')))),
           (''short_id'', JStr (take 16 (str_or (vget f ''short_id''))))] @
          (if nick \<noteq> '''' then [(''nick'', JStr nick)] else []) @
          [(''saved_at'', js_or (vget f ''saved_at'') (JNum now))]))"

definition friendsForProfileExport :: "int \<Rightarrow> jsobj \<Rightarrow> friend_row list \<Rightarrow> jsval list" where
  "friendsForProfileExport now nicks rows = map (\<lambda>r. export_friend now nicks (friend_json r)) rows"

text \<open>\<open>dedupeByUserId\<close>, with the ids seen so far.\<close>

fun dedupe_from :: "jsval list \<Rightarrow> jsval list \<Rightarrow> jsval list" where
  "dedupe_from seen [] = []"
| "dedupe_from seen (x # xs) =
     (let id = vget x ''user_id''
      in if \<not> js_truthy id \<or> id \<in> set seen then dedupe_from seen xs else x # dedupe_from (id # seen) xs)"

definition dedupeByUserId :: "jsval \<Rightarrow> jsval list" where
  "dedupeByUserId v = (case v of JArr xs \<Rightarrow> dedupe_from [] xs | _ \<Rightarrow> [])"

definition friendDisplayName :: "jsobj \<Rightarrow> jsval \<Rightarrow> string" where
  "friendDisplayName nicks f =
     (if \<not> js_truthy f then ''friend''
      else let nick = js_trim (str_or (oget nicks (str_or (vget f ''user_id''))))
           in if nick \<noteq> '''' then nick
              else let n = js_or (vget f ''name'') (vget f ''short_id'') in if js_truthy n then js_string n else ''friend'')"

definition setFriendNick :: "string \<Rightarrow> string \<Rightarrow> jsobj \<Rightarrow> jsobj" where
  "setFriendNick user nick nicks =
     (if user = '''' then nicks
      else let n = take 32 (js_trim nick) in if n = '''' then jdel user nicks else jset user (JStr n) nicks)"

section \<open>The export password\<close>

definition PROFILE_MIN_PASSWORD :: nat where
  "PROFILE_MIN_PASSWORD = 8"

definition lower_letter :: "char \<Rightarrow> bool" where
  "lower_letter c = char_range (CHR ''a'') (CHR ''z'') c"

definition capital_letter :: "char \<Rightarrow> bool" where
  "capital_letter c = char_range (CHR ''A'') (CHR ''Z'') c"

definition password_points :: "string \<Rightarrow> nat" where
  "password_points s =
     (if 8 \<le> length s then 1 else 0) + (if 12 \<le> length s then 1 else 0) +
     (if list_ex lower_letter s \<and> list_ex capital_letter s then 1 else 0) + (if list_ex js_digit s then 1 else 0) +
     (if list_ex (\<lambda>c. \<not> (lower_letter c \<or> capital_letter c \<or> js_digit c)) s then 1 else 0)"

definition scorePassword :: "string \<Rightarrow> nat" where
  "scorePassword pw = min 4 (password_points pw)"

definition strength_label :: "string \<Rightarrow> string" where
  "strength_label pw = [''Too weak'', ''Fair'', ''OK'', ''Strong'', ''Strong''] ! scorePassword pw"

datatype password_verdict = PwShort | PwWeak | PwMismatch | PwOk

definition export_password :: "string \<Rightarrow> string \<Rightarrow> password_verdict" where
  "export_password pw pw2 =
     (if length pw < PROFILE_MIN_PASSWORD then PwShort
      else if password_points pw < 2 then PwWeak
      else if pw \<noteq> pw2 then PwMismatch else PwOk)"

section \<open>The file\<close>

text \<open>What the page keeps. A hub is what the import asked \<open>RuletHub\<close> to keep.\<close>

record page_store =
  bkUser :: string
  bkName :: string
  bkPrefs :: jsobj
  bkHistory :: "jsval list"
  bkLang :: string
  bkRules :: bool
  bkHubBase :: string
  bkHubAuto :: bool
  bkFriendCode :: string
  bkFriends :: "friend_row list"
  bkNicks :: jsobj

definition MAX_HISTORY :: nat where
  "MAX_HISTORY = 80"

definition buildProfileExport :: "int \<Rightarrow> string \<Rightarrow> string \<Rightarrow> string \<Rightarrow> page_store \<Rightarrow> jsval" where
  "buildProfileExport now exported note starsNote s =
     JObj [(''format'', JStr PROFILE_FORMAT), (''exported_at'', JStr exported), (''software'', JStr ''ruletka.vip''),
       (''note'', JStr note), (''stars_note'', JStr starsNote),
       (''identity'', JObj [(''user_id'', JStr (bkUser s)), (''name'', JStr (take 32 (bkName s))), (''friend_code'', JStr (bkFriendCode s))]),
       (''friends'', JArr (friendsForProfileExport now (bkNicks s) (bkFriends s))), (''friend_nicks'', JObj (bkNicks s)),
       (''prefs'', JObj (prefsForProfileExport (bkPrefs s))), (''history'', JArr (take MAX_HISTORY (bkHistory s))),
       (''lang'', JStr (bkLang s)), (''rules_accepted'', JBool (bkRules s)),
       (''hub'', JObj [(''base'', JStr (bkHubBase s)), (''auto'', JBool (bkHubAuto s))])]"

definition looksLikeProfileBackup :: "jsval \<Rightarrow> bool" where
  "looksLikeProfileBackup ob =
     (if \<not> is_object ob then False
      else if pageIsEncryptedProfile ob then True
      else if js_starts (str_or (vget ob ''format'')) ''ruletka-profile'' then True
      else let uid = profile_uid ob in js_truthy uid \<and> 8 \<le> length (js_string uid))"

text \<open>The password dialog comes back until one opens the file; the list ends with the cancel button.\<close>

fun unlock :: "crypto \<Rightarrow> jsval \<Rightarrow> string list \<Rightarrow> jsval option" where
  "unlock c raw [] = None"
| "unlock c raw (pw # pws) =
     (case decryptProfilePayload c raw pw of Inl e \<Rightarrow> unlock c raw pws | Inr d \<Rightarrow> Some d)"

definition DELETED_KEYS :: "string list" where
  "DELETED_KEYS = [''stars'', ''myStars'', ''star_counts'', ''star_edges'', ''star_effects'', ''coins'']"

definition import_clean :: "jsval \<Rightarrow> jsval" where
  "import_clean data =
     (let d = fold vdel DELETED_KEYS (scrubStarsFromImportValue 0 data)
      in case vget d ''identity'' of
           JObj idn \<Rightarrow> vset ''identity'' (fold vdel [''stars'', ''star_count'', ''coins''] (JObj idn)) d
         | _ \<Rightarrow> d)"

definition import_uid :: "jsval \<Rightarrow> jsval" where
  "import_uid d = js_or (profile_uid d) (case vget d ''identity'' of JStr s \<Rightarrow> JStr s | _ \<Rightarrow> JStr '''')"

definition obj_fields :: "jsval \<Rightarrow> jsobj" where
  "obj_fields v = (case v of JObj ob \<Rightarrow> ob | _ \<Rightarrow> [])"

definition import_row_nicks :: "jsval list \<Rightarrow> jsobj \<Rightarrow> jsobj" where
  "import_row_nicks rows m =
     fold (\<lambda>f acc. if js_truthy (vget f ''user_id'') \<and> js_truthy (vget f ''nick'')
                   then jset (js_string (vget f ''user_id'')) (JStr (take 32 (js_string (vget f ''nick'')))) acc else acc) rows m"

definition import_nicks :: "jsobj \<Rightarrow> jsobj \<Rightarrow> jsobj" where
  "import_nicks given m =
     fold (\<lambda>(k, v) acc. if k \<noteq> '''' \<and> js_truthy v then jset k (JStr (take 32 (js_string v))) acc else acc) given m"

definition import_identity :: "jsval \<Rightarrow> jsval \<Rightarrow> page_store \<Rightarrow> page_store" where
  "import_identity uid d s =
     s\<lparr>bkUser := js_string uid,
       bkName := take 32 (js_trim (take 32 (str_or (js_or (vget (vget d ''identity'') ''name'') (vget d ''name'')))))\<rparr>"

definition import_settings :: "jsval \<Rightarrow> page_store \<Rightarrow> page_store" where
  "import_settings d s =
     s\<lparr>bkPrefs := (case vget d ''prefs'' of JObj ob \<Rightarrow> obj_fields (scrubStarsFromImportValue 0 (JObj ob)) | _ \<Rightarrow> bkPrefs s),
       bkHistory := (case vget d ''history'' of
          JArr hs \<Rightarrow> map (scrubStarsFromImportValue 1) (take MAX_HISTORY hs) | _ \<Rightarrow> bkHistory s),
       bkLang := (if js_truthy (vget d ''lang'') then js_string (vget d ''lang'') else bkLang s),
       bkRules := (js_truthy (vget d ''rules_accepted'') \<or> bkRules s),
       bkHubBase := (if js_truthy (vget (vget d ''hub'') ''base'') then js_string (vget (vget d ''hub'') ''base'') else bkHubBase s),
       bkHubAuto := (case vget (vget d ''hub'') ''auto'' of JBool b \<Rightarrow> b | _ \<Rightarrow> bkHubAuto s),
       bkFriendCode := (if js_truthy (vget (vget d ''identity'') ''friend_code'')
          then js_string (vget (vget d ''identity'') ''friend_code'') else bkFriendCode s)\<rparr>"

definition import_friends :: "int \<Rightarrow> jsval \<Rightarrow> page_store \<Rightarrow> page_store" where
  "import_friends now d s =
     (let s1 = (case vget d ''friends'' of
                  JArr (f # fs) \<Rightarrow>
                    (let rows = map (scrubStarsFromImportValue 1) (f # fs)
                     in s\<lparr>bkFriends := saveFriendsBackup now rows, bkNicks := import_row_nicks rows (bkNicks s)\<rparr>)
                | _ \<Rightarrow> s)
      in case vget d ''friend_nicks'' of
           JObj ob \<Rightarrow> s1\<lparr>bkNicks := import_nicks (obj_fields (scrubStarsFromImportValue 0 (JObj ob))) (bkNicks s1)\<rparr>
         | _ \<Rightarrow> s1)"

text \<open>\<open>None\<close>: the file is refused, or the user does not confirm.\<close>

definition applyImportedProfile :: "int \<Rightarrow> bool \<Rightarrow> jsval \<Rightarrow> page_store \<Rightarrow> page_store option" where
  "applyImportedProfile now confirmed data s =
     (if \<not> is_object data then None
      else let d = import_clean data; uid = import_uid d
           in if \<not> js_truthy uid \<or> length (js_string uid) < 8 then None
              else if js_truthy (vget d ''format'') \<and> vget d ''format'' \<noteq> JStr PROFILE_FORMAT \<and>
                \<not> pageIsEncryptedProfile d \<and> \<not> js_truthy (profile_uid d) then None
              else if \<not> confirmed then None
              else Some (import_friends now d (import_settings d (import_identity uid d s))))"

definition importProfileParsed :: "crypto \<Rightarrow> int \<Rightarrow> bool \<Rightarrow> string list \<Rightarrow> jsval \<Rightarrow> page_store \<Rightarrow> page_store option" where
  "importProfileParsed c now confirmed pws raw s =
     (if \<not> is_object raw then None
      else if pageIsEncryptedProfile raw
      then (case unlock c raw pws of None \<Rightarrow> None | Some d \<Rightarrow> applyImportedProfile now confirmed d s)
      else applyImportedProfile now confirmed raw s)"

section \<open>The reminder to export\<close>

definition EXPORT_NUDGE_RETRY_MS :: int where
  "EXPORT_NUDGE_RETRY_MS = 86400000"

definition exportNudgeDone :: "bool \<Rightarrow> int \<Rightarrow> int \<Rightarrow> bool" where
  "exportNudgeDone exported shownAt now \<longleftrightarrow> exported \<or> (shownAt \<noteq> 0 \<and> now - shownAt < EXPORT_NUDGE_RETRY_MS)"

section \<open>What an import strips\<close>

text \<open>No key of the uppermost levels is about stars or coins.\<close>

primrec star_free :: "nat \<Rightarrow> jsval \<Rightarrow> bool" where
  "star_free 0 v = True"
| "star_free (Suc n) v =
     (case v of
        JArr xs \<Rightarrow> list_all (star_free n) xs
      | JObj ob \<Rightarrow> list_all (\<lambda>(k, x). \<not> star_key k \<and> star_free n x) ob
      | _ \<Rightarrow> True)"

lemma star_free_scrub: "star_free n (scrub_levels n v)"
  by (induction n arbitrary: v) (auto simp: list_all_iff split: jsval.split)

lemma scrub_star_free: "star_free n v \<Longrightarrow> scrub_levels n v = v"
proof (induction n arbitrary: v)
  case (Suc n)
  show ?case
  proof (cases v)
    case (JObj ob)
    then have ob: "\<forall>p\<in>set ob. \<not> star_key (fst p) \<and> star_free n (snd p)"
      using Suc.prems by (auto simp: list_all_iff)
    then have "filter (\<lambda>(k, x). \<not> star_key k) ob = ob"
      by (auto simp: filter_id_conv)
    moreover have "map (\<lambda>(k, x). (k, scrub_levels n x)) ob = ob"
      using ob Suc.IH by (intro map_idI) auto
    ultimately show ?thesis by (simp add: JObj)
  next
    case (JArr xs)
    then show ?thesis
      using Suc by (simp add: list_all_iff map_idI)
  qed simp_all
qed simp

lemma star_free_less: "star_free (Suc n) v \<Longrightarrow> star_free n v"
proof (induction n arbitrary: v)
  case (Suc n)
  note deeper = Suc.prems [unfolded star_free.simps(2) [of "Suc n"]]
  show ?case
  proof (cases v)
    case (JObj ob)
    have "list_all (\<lambda>(k, x). \<not> star_key k \<and> star_free (Suc n) x) ob"
      using deeper by (simp only: JObj jsval.case)
    then have "list_all (\<lambda>(k, x). \<not> star_key k \<and> star_free n x) ob"
      by (rule list.pred_mono_strong) (auto dest: Suc.IH simp del: star_free.simps)
    then show ?thesis by (simp add: JObj)
  next
    case (JArr xs)
    have "list_all (star_free (Suc n)) xs"
      using deeper by (simp only: JArr jsval.case)
    then have "list_all (star_free n) xs"
      by (rule list.pred_mono_strong) (rule Suc.IH)
    then show ?thesis by (simp add: JArr)
  qed simp_all
qed simp

definition nested :: "nat \<Rightarrow> jsval \<Rightarrow> jsval" where
  "nested n v = ((\<lambda>x. JArr [x]) ^^ n) v"

lemma scrub_nested: "scrub_levels n (nested n v) = nested n v"
  unfolding nested_def by (induction n) simp_all

text \<open>C37: One pass of the scrub keeps no key about stars or coins down to the seventh level, changes
  nothing of a value that has none there, and looks no deeper: below seven lists such keys go through.
  An import makes one pass over the whole file and a second one, with its own seven levels, over its
  preferences, history, friends and nicknames (\<open>import_settings\<close>, \<open>import_friends\<close>).\<close>

theorem scrub_exact:
  "star_free 7 (scrubStarsFromImportValue 0 v) \<and>
   (if star_free 7 v then scrubStarsFromImportValue 0 v = v else True) \<and>
   scrubStarsFromImportValue 0 (nested 7 v) = nested 7 v"
  unfolding scrubStarsFromImportValue_def diff_zero
  using star_free_scrub [of 7 v] scrub_star_free [of 7 v] scrub_nested [of 7 v] by (simp del: scrub_levels.simps star_free.simps)

section \<open>The friends kept for a new device\<close>

lemma first_by_keys: "list_all (\<lambda>(k, r). k = key r) m \<Longrightarrow> jmap_ok m \<Longrightarrow>
    (let m' = fold (\<lambda>r m. if jhas m (key r) then m else jset (key r) r m) rows m
     in list_all (\<lambda>(k, r). k = key r) m' \<and> jmap_ok m' \<and> set (jvals m') \<subseteq> set (jvals m) \<union> set rows)"
proof (induction rows arbitrary: m)
  case (Cons r rows)
  let ?m = "if jhas m (key r) then m else jset (key r) r m"
  have "list_all (\<lambda>(k, r). k = key r) ?m" "jmap_ok ?m" "set (jvals ?m) \<subseteq> insert r (set (jvals m))"
    using Cons.prems by (auto simp: list_all_iff jmap_ok_def jset_def distinct_update dest!: in_jset [unfolded jset_def])
      (auto simp: jset_def [symmetric] dest: jvals_jset)
  with Cons.IH [of ?m] show ?case
    by (auto simp: Let_def)
qed simp

lemma first_by_distinct: "distinct (map key (first_by key rows)) \<and> set (first_by key rows) \<subseteq> set rows"
proof -
  define m where "m = fold (\<lambda>r m. if jhas m (key r) then m else jset (key r) r m) rows []"
  have m: "list_all (\<lambda>(k, r). k = key r) m" "jmap_ok m" "set (jvals m) \<subseteq> set rows"
    using first_by_keys [of key "[]" rows] by (simp_all add: m_def Let_def jmap_ok_def jvals_def)
  then have "map key (jvals m) = jkeys m"
    by (auto simp: jvals_def list_all_iff)
  with m show ?thesis
    unfolding first_by_def m_def [symmetric] by (simp add: jmap_ok_def)
qed

lemma distinct_sub: "distinct (map f xs) \<Longrightarrow> set ys \<subseteq> set xs \<Longrightarrow> distinct ys \<Longrightarrow> distinct (map f ys)"
  by (auto simp: distinct_map intro: inj_on_subset)

text \<open>Of the friends that are kept for a new device no two have the same user or the same friend code, there
  are at most 200, and every one was on the list with a user id.\<close>

theorem friends_backup_distinct:
  "let rows = saveFriendsBackup now fs
   in distinct (map frUser rows) \<and> distinct (filter (\<lambda>c. c \<noteq> '''') (map frCode rows)) \<and> length rows \<le> 200 \<and>
      set rows \<subseteq> backup_row now ` {f \<in> set fs. js_truthy (vget f ''user_id'')}"
proof -
  define rows where "rows = map (backup_row now) (filter (\<lambda>f. js_truthy f \<and> js_truthy (vget f ''user_id'')) fs)"
  define r1 where "r1 = first_by frUser rows"
  define r2 where "r2 = first_by code_or_user r1"
  have r1: "distinct (map frUser r1)" "set r1 \<subseteq> set rows" and r2: "distinct (map code_or_user r2)" "set r2 \<subseteq> set r1"
    using first_by_distinct [of frUser rows] first_by_distinct [of code_or_user r1] by (simp_all add: r1_def r2_def)
  have "distinct r2"
    using r2(1) by (simp add: distinct_map)
  with r1 r2 have users: "distinct (map frUser r2)"
    by (blast intro: distinct_sub)
  have codes: "map code_or_user (filter (\<lambda>r. frCode r \<noteq> '''') xs) = filter (\<lambda>c. c \<noteq> '''') (map frCode xs)" for xs
    by (induction xs) (simp_all add: code_or_user_def)
  have "distinct (map code_or_user (take 200 r2))"
    using r2(1) by (simp flip: take_map)
  then have "distinct (filter (\<lambda>c. c \<noteq> '''') (map frCode (take 200 r2)))"
    unfolding codes [symmetric] by (rule distinct_map_filter)
  moreover have "set (take 200 r2) \<subseteq> set rows"
    using r1(2) r2(2) set_take_subset [of 200 r2] by blast
  moreover have "distinct (map frUser (take 200 r2))"
    using users by (simp flip: take_map)
  ultimately show ?thesis
    by (auto simp: saveFriendsBackup_def Let_def rows_def r1_def r2_def)
qed

section \<open>Moving to another browser\<close>

lemma vget_scrub: "vget (scrub_levels (Suc n) (JObj ob)) k = (if star_key k then JUndef else scrub_levels n (vget (JObj ob) k))"
proof -
  have undef: "scrub_levels n JUndef = JUndef"
    by (cases n) simp_all
  show ?thesis
    by (induction ob) (auto simp: vget_def oget_def jget_def undef split: option.splits)
qed

lemma scrub_scalar: "scrub_levels n (JStr s) = JStr s"
  by (cases n) simp_all

lemma fold_vdel_get: "vget (fold vdel ks v) k = (if k \<in> set ks then JUndef else vget v k)"
  by (induction ks arbitrary: v) (auto simp: vget_vdel)

lemma fold_vdel_obj: "(\<exists>ob. fold vdel ks v = JObj ob) \<longleftrightarrow> (\<exists>ob. v = JObj ob)"
  by (induction ks arbitrary: v) (auto simp: vdel_obj)

lemma import_clean_field:
  "k \<notin> set DELETED_KEYS \<Longrightarrow> k \<noteq> ''identity'' \<Longrightarrow> vget (import_clean data) k = vget (scrubStarsFromImportValue 0 data) k"
proof -
  assume k: "k \<notin> set DELETED_KEYS" "k \<noteq> ''identity''"
  define d where "d = fold vdel DELETED_KEYS (scrubStarsFromImportValue 0 data)"
  have "\<exists>ob. d = JObj ob" if "vget d ''identity'' = JObj idn" for idn
    using that by (cases d) (simp_all add: vget_def)
  then have "vget (import_clean data) k = vget d k"
    using k by (auto simp: import_clean_def d_def [symmetric] Let_def vget_vset split: jsval.split)
  then show ?thesis
    using k by (simp add: d_def fold_vdel_get)
qed

lemma import_clean_identity:
  "k \<notin> {''stars'', ''star_count'', ''coins''} \<Longrightarrow>
   vget (vget (import_clean data) ''identity'') k = vget (vget (scrubStarsFromImportValue 0 data) ''identity'') k"
proof -
  assume k: "k \<notin> {''stars'', ''star_count'', ''coins''}"
  define d where "d = fold vdel DELETED_KEYS (scrubStarsFromImportValue 0 data)"
  have obj: "\<exists>ob. d = JObj ob" if "vget d ''identity'' = JObj idn" for idn
    using that by (cases d) (simp_all add: vget_def)
  have "vget (vget (import_clean data) ''identity'') k = vget (vget d ''identity'') k"
    using k obj fold_vdel_get [of "[''stars'', ''star_count'', ''coins'']"]
    by (auto simp: import_clean_def d_def [symmetric] Let_def vget_vset split: jsval.split simp del: fold.simps)
  moreover have "vget d ''identity'' = vget (scrubStarsFromImportValue 0 data) ''identity''"
    unfolding d_def fold_vdel_get by (simp add: DELETED_KEYS_def)
  ultimately show ?thesis by simp
qed

lemma plain_keys: "\<not> star_key ''identity''" "\<not> star_key ''user_id''" "\<not> star_key ''name''" "\<not> star_key ''prefs''"
    "\<not> star_key ''format''" "\<not> star_key ''friend_code''"
  by code_simp+

lemma unlock_after_wrong:
  "crypto_ok c \<Longrightarrow> salt \<noteq> [] \<Longrightarrow> iv \<noteq> [] \<Longrightarrow> list_all (refuses c salt pw) wrong \<Longrightarrow> json_ok data \<Longrightarrow> is_object data \<Longrightarrow>
   unlock c (encryptProfile c salt iv exported note data pw) (wrong @ pw # later) = Some data"
  by (induction wrong)
    (simp_all add: decryptProfilePayload_def opened_envelope refused_envelope json_roundtrip)

lemma sealed_is_page_encrypted: "pageIsEncryptedProfile (encryptProfile c salt iv exported note profile pw) \<and>
    is_object (encryptProfile c salt iv exported note profile pw)"
  by (simp add: pageIsEncryptedProfile_def encryptProfile_def is_object_def vget_def str_or_def Let_def)

definition keys_ok :: "page_store \<Rightarrow> bool" where
  "keys_ok s \<longleftrightarrow> json_ok (JObj (bkPrefs s)) \<and> json_ok (JObj (bkNicks s)) \<and> list_all json_ok (bkHistory s)"

lemma export_json_ok: "keys_ok s \<Longrightarrow> json_ok (buildProfileExport now exported memo starsNote s)"
proof -
  assume s: "keys_ok s"
  have "json_ok (export_friend now nicks (friend_json r))" for nicks r
  proof -
    have "js_or (JNum n) (JNum m) \<in> range JNum" for n m
      by (simp add: js_or_def)
    then show ?thesis
      by (auto simp: export_friend_def friend_json_def vget_def Let_def js_or_def)
  qed
  moreover have "distinct (map fst (filter P m))" if "distinct (map fst m)" for P and m :: jsobj
    using that by (rule distinct_map_filter)
  moreover have "list_all json_ok (take n hs)" if "list_all json_ok hs" for n hs
    using that by (auto simp: list_all_iff dest: in_set_takeD)
  ultimately show ?thesis
    using s by (auto simp: keys_ok_def buildProfileExport_def friendsForProfileExport_def prefsForProfileExport_def list_all_iff)
qed

lemma kept_prefs: "star_free (Suc n) (JObj p) \<Longrightarrow> prefsForProfileExport p = p"
  by (auto simp: prefsForProfileExport_def filter_id_conv list_all_iff)

lemma export_fields:
  "vget (buildProfileExport now exported memo starsNote s) ''prefs'' = JObj (prefsForProfileExport (bkPrefs s))"
  "vget (buildProfileExport now exported memo starsNote s) ''format'' = JStr PROFILE_FORMAT"
  "vget (vget (buildProfileExport now exported memo starsNote s) ''identity'') ''user_id'' = JStr (bkUser s)"
  "vget (vget (buildProfileExport now exported memo starsNote s) ''identity'') ''name'' = JStr (take 32 (bkName s))"
  "is_object (buildProfileExport now exported memo starsNote s)"
  "vget (buildProfileExport now exported memo starsNote s) ''name'' = JUndef"
  by (simp_all add: buildProfileExport_def vget_def is_object_def)

lemma import_keeps:
  "bkUser (import_friends now d s) = bkUser s" "bkName (import_friends now d s) = bkName s"
  "bkPrefs (import_friends now d s) = bkPrefs s"
  "bkUser (import_settings d s) = bkUser s" "bkName (import_settings d s) = bkName s"
  by (simp_all add: import_friends_def import_settings_def Let_def split: jsval.split list.split)

text \<open>What the import reads of the file.\<close>

lemma import_reads:
  fixes s :: page_store and now :: int and exported memo starsNote :: string
  assumes prefs: "star_free 7 (JObj (bkPrefs s))"
  defines "d \<equiv> import_clean (buildProfileExport now exported memo starsNote s)"
  shows "vget d ''prefs'' = JObj (bkPrefs s)" "vget d ''format'' = JStr PROFILE_FORMAT"
    "vget (vget d ''identity'') ''user_id'' = JStr (bkUser s)" "vget (vget d ''identity'') ''name'' = JStr (take 32 (bkName s))"
    "vget d ''name'' = JUndef"
proof -
  obtain ob where ob: "buildProfileExport now exported memo starsNote s = JObj ob"
    by (simp add: buildProfileExport_def)
  obtain idn where idn: "vget (JObj ob) ''identity'' = JObj idn"
    by (simp add: buildProfileExport_def vget_def flip: ob)
  note fields = export_fields [of now exported memo starsNote s, unfolded ob idn]
  have top: "vget (scrubStarsFromImportValue 0 (JObj ob)) k = scrub_levels 6 (vget (JObj ob) k)" if "\<not> star_key k" for k
    using that vget_scrub [of 6 ob k] by (simp add: scrubStarsFromImportValue_def del: scrub_levels.simps)
  have inner: "vget (vget (scrubStarsFromImportValue 0 (JObj ob)) ''identity'') k = scrub_levels 5 (vget (JObj idn) k)"
    if "\<not> star_key k" for k
    using that top [of "''identity''"] vget_scrub [of 5 idn k] by (simp add: idn plain_keys del: scrub_levels.simps)
  have six: "star_free 6 (JObj (bkPrefs s))"
    using star_free_less [of 6] prefs by (simp del: star_free.simps)
  have kept: "prefsForProfileExport (bkPrefs s) = bkPrefs s"
    using kept_prefs [of 6] prefs by (simp del: star_free.simps)
  show "vget d ''prefs'' = JObj (bkPrefs s)"
    unfolding d_def ob using fields(1) scrub_star_free [OF six]
    by (simp add: import_clean_field DELETED_KEYS_def top plain_keys kept del: scrub_levels.simps)
  show "vget d ''format'' = JStr PROFILE_FORMAT"
    unfolding d_def ob using fields(2)
    by (simp add: import_clean_field DELETED_KEYS_def top plain_keys scrub_scalar del: scrub_levels.simps)
  have "scrub_levels 6 JUndef = JUndef"
    by (simp add: numeral_eq_Suc)
  then show "vget d ''name'' = JUndef"
    unfolding d_def ob using fields(6)
    by (simp add: import_clean_field DELETED_KEYS_def top plain_keys del: scrub_levels.simps)
  show "vget (vget d ''identity'') ''user_id'' = JStr (bkUser s)" "vget (vget d ''identity'') ''name'' = JStr (take 32 (bkName s))"
    unfolding d_def ob using fields(3,4)
    by (simp_all add: import_clean_identity inner plain_keys scrub_scalar del: scrub_levels.simps)
qed

text \<open>C21: A profile that one browser encrypted and another opens, after any number of wrong passwords, gives the
  other the user id, the name without blanks around it and the preferences, if none of them is about
  stars.\<close>

theorem profile_moves:
  "crypto_ok c \<Longrightarrow> salt \<noteq> [] \<Longrightarrow> iv \<noteq> [] \<Longrightarrow> keys_ok s \<Longrightarrow> star_free 7 (JObj (bkPrefs s)) \<Longrightarrow> 8 \<le> length (bkUser s) \<Longrightarrow>
   list_all (refuses c salt pw) wrong \<Longrightarrow>
   (case importProfileParsed c now2 True (wrong @ pw # later)
           (encryptProfile c salt iv exported note2 (buildProfileExport now exported memo starsNote s) pw) t of
      None \<Rightarrow> False
    | Some t' \<Rightarrow> bkUser t' = bkUser s \<and> bkName t' = take 32 (js_trim (take 32 (bkName s))) \<and> bkPrefs t' = bkPrefs s)"
proof -
  assume c: "crypto_ok c" "salt \<noteq> []" "iv \<noteq> []" and s: "keys_ok s" "star_free 7 (JObj (bkPrefs s))" "8 \<le> length (bkUser s)"
    and wrong: "list_all (refuses c salt pw) wrong"
  let ?data = "buildProfileExport now exported memo starsNote s"
  define d where "d = import_clean ?data"
  note read = import_reads [OF s(2), of now exported memo starsNote, folded d_def]
  have user: "bkUser s \<noteq> ''''"
    using s(3) by auto
  have uid: "profile_uid d = JStr (bkUser s)"
    using user by (simp add: profile_uid_def read js_or_def)
  have scrub: "scrubStarsFromImportValue 0 (JObj (bkPrefs s)) = JObj (bkPrefs s)"
    using scrub_star_free [OF s(2)] by (simp add: scrubStarsFromImportValue_def del: scrub_levels.simps)
  have name: "str_or (js_or (JStr n) m) = (if n \<noteq> '''' then n else str_or m)" for n m
    by (simp add: js_or_def str_or_def)
  have "unlock c (encryptProfile c salt iv exported note2 ?data pw) (wrong @ pw # later) = Some ?data"
    by (rule unlock_after_wrong [OF c wrong export_json_ok [OF s(1)] export_fields(5)])
  then show ?thesis
    using s(3) user sealed_is_page_encrypted
    by (simp add: importProfileParsed_def applyImportedProfile_def export_fields(5) Let_def d_def [symmetric] import_uid_def uid
        js_or_def read import_keeps import_identity_def)
      (simp add: import_settings_def read scrub obj_fields_def str_or_def)
qed

theorem profile_moves_witness:
  "case importProfileParsed toy_crypto 5 True [''wrong'', ''password'']
        (encryptProfile toy_crypto [1] [2] '''' '''' (buildProfileExport 0 '''' '''' ''''
           \<lparr>bkUser = ''user-0001'', bkName = '' Ann'', bkPrefs = [(''theme'', JStr ''dark'')], bkHistory = [], bkLang = ''en'',
             bkRules = True, bkHubBase = '''', bkHubAuto = True, bkFriendCode = '''', bkFriends = [], bkNicks = []\<rparr>) ''password'')
        \<lparr>bkUser = ''user-0002'', bkName = ''Bob'', bkPrefs = [], bkHistory = [], bkLang = ''ru'',
          bkRules = False, bkHubBase = '''', bkHubAuto = True, bkFriendCode = '''', bkFriends = [], bkNicks = []\<rparr> of
     None \<Rightarrow> False
   | Some t' \<Rightarrow> bkUser t' = ''user-0001'' \<and> bkName t' = ''Ann'' \<and> bkPrefs t' = [(''theme'', JStr ''dark'')]"
proof -
  let ?s = "\<lparr>bkUser = ''user-0001'', bkName = '' Ann'', bkPrefs = [(''theme'', JStr ''dark'')], bkHistory = [], bkLang = ''en'',
      bkRules = True, bkHubBase = '''', bkHubAuto = True, bkFriendCode = '''', bkFriends = [], bkNicks = []\<rparr>"
  have "refuses toy_crypto [1] ''password'' ''wrong''"
    by (simp add: refuses_def toy_crypto_def deriveKey_def utf8_def)
  moreover have "keys_ok ?s"
    by (simp add: keys_ok_def)
  moreover have "star_free 7 (JObj (bkPrefs ?s))"
    by code_simp
  moreover have "js_trim '' Ann'' = ''Ann''"
    by (simp add: js_trim_def js_space_def)
  ultimately show ?thesis
    using profile_moves [of toy_crypto "[1]" "[2]" ?s "''password''" "[''wrong'']" 5 "[]" "''''" "''''" 0 "''''" "''''"
        "\<lparr>bkUser = ''user-0002'', bkName = ''Bob'', bkPrefs = [], bkHistory = [], bkLang = ''ru'',
          bkRules = False, bkHubBase = '''', bkHubAuto = True, bkFriendCode = '''', bkFriends = [], bkNicks = []\<rparr>"]
      toy_crypto_ok
    by (simp split: option.splits)
qed

text \<open>A password that the meter calls fair is refused.\<close>

lemma fair_password_refused:
  "strength_label pw = ''Fair'' \<Longrightarrow> export_password pw pw2 \<noteq> PwOk"
proof -
  have points: "password_points pw \<in> {0, 1, 2, 3, 4, 5}"
    by (simp add: password_points_def)
  assume "strength_label pw = ''Fair''"
  with points have "password_points pw = 1"
    by (auto simp: strength_label_def scorePassword_def)
  then show ?thesis
    by (simp add: export_password_def)
qed

end
