(* ===== verification/DeviceIdentity.thy ===== *)
theory DeviceIdentity
  imports Prefs JsVal
begin

text \<open>
  The identity of a browser, \<open>ui/identity.js\<close>: a user id in the local storage, and a key in IndexedDB
  that is bound to it; and the place that is looked up from the public address,
  \<open>mobile/src/identity/fillPublicGeo.ts\<close>. Key generation, hashing, random ids, the clock and network
  answers are arguments. A key row without its keys is not modelled.
\<close>

section \<open>The stored identity\<close>

text \<open>The text under \<open>ID_KEY\<close>: missing, unreadable, or an object; a missing user is the empty string.\<close>

datatype stored_identity = IdAbsent | IdBroken | IdStored string string

record device_store =
  dvStored :: stored_identity
  dvKey :: "(string \<times> string) option"

definition loadLegacy :: "int \<Rightarrow> string \<Rightarrow> device_store \<Rightarrow> (string \<times> string) \<times> device_store" where
  "loadLegacy now rnd s =
     (case dvStored s of
        IdBroken \<Rightarrow> ((''u-'' @ show_int now, ''''), s)
      | IdAbsent \<Rightarrow> ((rnd, ''''), s\<lparr>dvStored := IdStored rnd ''''\<rparr>)
      | IdStored u n \<Rightarrow> if u = '''' then ((rnd, n), s\<lparr>dvStored := IdStored rnd n\<rparr>) else ((u, n), s))"

text \<open>The fields that are given replace those that are stored.\<close>

definition saveLegacy :: "int \<Rightarrow> string \<Rightarrow> string option \<Rightarrow> string option \<Rightarrow> device_store \<Rightarrow> device_store" where
  "saveLegacy now rnd user name s =
     (case loadLegacy now rnd s of
        ((u, n), s1) \<Rightarrow>
          s1\<lparr>dvStored := IdStored (case user of None \<Rightarrow> u | Some x \<Rightarrow> x)
               (take 32 (js_trim (case name of None \<Rightarrow> n | Some x \<Rightarrow> x)))\<rparr>)"

text \<open>The browser has the interfaces; the database opens; the hash of a new public key.\<close>

record key_env =
  keSupported :: bool
  keOpens :: bool
  keHash :: string

record device_identity =
  diUser :: string
  diName :: string
  diCrypto :: bool
  diDerived :: "string option"

definition has_text :: "device_store \<Rightarrow> bool" where
  "has_text s \<longleftrightarrow> dvStored s \<noteq> IdAbsent"

definition keep_legacy :: "string \<Rightarrow> device_store \<Rightarrow> bool" where
  "keep_legacy u s \<longleftrightarrow> u \<noteq> '''' \<and> \<not> js_starts u ''u-fresh'' \<and> 8 \<le> length u \<and> has_text s"

definition ensureDeviceIdentity :: "int \<Rightarrow> string \<Rightarrow> key_env \<Rightarrow> device_store \<Rightarrow> device_identity \<times> device_store" where
  "ensureDeviceIdentity now rnd env s =
     (case loadLegacy now rnd s of
        ((u, n), s1) \<Rightarrow>
          if \<not> keSupported env \<or> \<not> keOpens env then (\<lparr>diUser = u, diName = n, diCrypto = False, diDerived = None\<rparr>, s1)
          else case dvKey s1 of
                 None \<Rightarrow>
                   let derived = ''k'' @ take 32 (keHash env);
                       keep = keep_legacy u s1;
                       user = (if keep then u else derived);
                       s2 = s1\<lparr>dvKey := Some (user, derived)\<rparr>;
                       s3 = (if keep then saveLegacy now rnd None None s2 else saveLegacy now rnd (Some user) (Some n) s2)
                   in (\<lparr>diUser = (if user = '''' then u else user), diName = n, diCrypto = True, diDerived = Some derived\<rparr>, s3)
               | Some (ru, rd) \<Rightarrow>
                   let s2 = (if ru \<noteq> '''' \<and> ru \<noteq> u then saveLegacy now rnd (Some ru) (Some n) s1 else s1)
                   in (\<lparr>diUser = (if ru = '''' then u else ru), diName = n, diCrypto = True,
                        diDerived = (if rd = '''' then None else Some rd)\<rparr>, s2))"

definition clearDeviceKeys :: "bool \<Rightarrow> device_store \<Rightarrow> device_store" where
  "clearDeviceKeys opens s = (if opens then s\<lparr>dvKey := None\<rparr> else s)"

section \<open>Visits\<close>

datatype identity_event =
    DvLoad int string
  | DvEnsure int string key_env
  | DvRename int string string

definition dv_step :: "device_store \<Rightarrow> identity_event \<Rightarrow> device_store" where
  "dv_step s e =
     (case e of
        DvLoad now rnd \<Rightarrow> snd (loadLegacy now rnd s)
      | DvEnsure now rnd env \<Rightarrow> snd (ensureDeviceIdentity now rnd env s)
      | DvRename now rnd name \<Rightarrow> saveLegacy now rnd None (Some name) s)"

definition dv_run :: "identity_event list \<Rightarrow> device_store \<Rightarrow> device_store" where
  "dv_run es s = foldl dv_step s es"

text \<open>What an import does: the keys are cleared, if the database opens, and the id is saved.\<close>

definition dv_import :: "bool \<Rightarrow> int \<Rightarrow> string \<Rightarrow> string \<Rightarrow> string \<Rightarrow> device_store \<Rightarrow> device_store" where
  "dv_import opens now rnd user name s = saveLegacy now rnd (Some user) (Some name) (clearDeviceKeys opens s)"

definition bound_to :: "string \<Rightarrow> device_store \<Rightarrow> bool" where
  "bound_to u s \<longleftrightarrow>
     (case dvStored s of IdStored v n \<Rightarrow> v = u | _ \<Rightarrow> False) \<and> (case dvKey s of None \<Rightarrow> True | Some (v, d) \<Rightarrow> v = u)"

definition lasting_id :: "string \<Rightarrow> bool" where
  "lasting_id u \<longleftrightarrow> 8 \<le> length u \<and> \<not> js_starts u ''u-fresh''"

lemma bound_load: "bound_to u s \<Longrightarrow> u \<noteq> '''' \<Longrightarrow> \<exists>n. loadLegacy now rnd s = ((u, n), s) \<and> dvStored s = IdStored u n"
  by (auto simp: bound_to_def loadLegacy_def split: stored_identity.splits)

lemma bound_save: "bound_to u s \<Longrightarrow> u \<noteq> '''' \<Longrightarrow> user = None \<or> user = Some u \<Longrightarrow> bound_to u (saveLegacy now rnd user name s)"
  using bound_load [of u s now rnd] by (auto simp: saveLegacy_def) (auto simp: bound_to_def)

lemma bound_ensure:
  "bound_to u s \<Longrightarrow> lasting_id u \<Longrightarrow>
   diUser (fst (ensureDeviceIdentity now rnd env s)) = u \<and> bound_to u (snd (ensureDeviceIdentity now rnd env s))"
proof -
  assume s: "bound_to u s" and u: "lasting_id u"
  then have ne: "u \<noteq> ''''"
    by (auto simp: lasting_id_def)
  obtain n where n: "loadLegacy now rnd s = ((u, n), s)" "dvStored s = IdStored u n"
    using bound_load [OF s ne] by blast
  have keep: "keep_legacy u s"
    using u ne n by (auto simp: keep_legacy_def lasting_id_def has_text_def)
  have key: "bound_to u (s\<lparr>dvKey := Some (u, d)\<rparr>)" for d
    using s by (simp add: bound_to_def)
  have kept: "keep_legacy u (s\<lparr>dvKey := k\<rparr>) = keep_legacy u s" for k
    by (simp add: keep_legacy_def has_text_def)
  show ?thesis
  proof (cases "dvKey s")
    case None
    then show ?thesis
      using s ne bound_save [OF key ne] by (simp add: ensureDeviceIdentity_def n keep kept Let_def)
  next
    case (Some k)
    with s obtain d where "k = (u, d)"
      by (cases k) (simp add: bound_to_def split: stored_identity.splits)
    with Some show ?thesis
      using s ne by (simp add: ensureDeviceIdentity_def n Let_def)
  qed
qed

lemma bound_run: "bound_to u s \<Longrightarrow> lasting_id u \<Longrightarrow> bound_to u (dv_run es s)"
  unfolding dv_run_def
proof (induction es arbitrary: s)
  case (Cons e es)
  have ne: "u \<noteq> ''''"
    using Cons.prems by (auto simp: lasting_id_def)
  have "bound_to u (dv_step s e)"
  proof (cases e)
    case (DvLoad now rnd)
    then show ?thesis
      using bound_load [OF Cons.prems(1) ne, of now rnd] Cons.prems(1) by (auto simp: dv_step_def)
  next
    case (DvEnsure now rnd env)
    then show ?thesis
      using bound_ensure [OF Cons.prems] by (simp add: dv_step_def)
  next
    case (DvRename now rnd name)
    then show ?thesis
      using bound_save [OF Cons.prems(1) ne] by (simp add: dv_step_def)
  qed
  with Cons show ?case by simp
qed simp

text \<open>A new installation never gets the id that is derived from its key, for which the key is made: the
  first look at the storage writes a random id, which is then kept as an established one, whatever
  loads, visits and renamings follow. An imported id stays as well, if the old key could be cleared.\<close>

theorem random_id_stays:
  "if lasting_id rnd
   then diUser (fst (ensureDeviceIdentity now2 rnd2 env
          (dv_run (DvEnsure now rnd env1 # es) \<lparr>dvStored = IdAbsent, dvKey = None\<rparr>))) = rnd \<and>
        diUser (fst (ensureDeviceIdentity now2 rnd2 env (dv_run es (dv_import True now rnd1 rnd name s)))) = rnd
   else True"
proof (cases "lasting_id rnd")
  case True
  then have ne: "rnd \<noteq> ''''"
    by (auto simp: lasting_id_def)
  have "ensureDeviceIdentity now rnd env1 \<lparr>dvStored = IdAbsent, dvKey = None\<rparr> =
      ensureDeviceIdentity now rnd env1 \<lparr>dvStored = IdStored rnd '''', dvKey = None\<rparr>"
    using ne by (simp add: ensureDeviceIdentity_def loadLegacy_def)
  then have "bound_to rnd (dv_step \<lparr>dvStored = IdAbsent, dvKey = None\<rparr> (DvEnsure now rnd env1))"
    using bound_ensure [OF _ True, of "\<lparr>dvStored = IdStored rnd '''', dvKey = None\<rparr>"] by (simp add: dv_step_def bound_to_def)
  moreover have "bound_to rnd (dv_import True now rnd1 rnd name s)"
    by (simp add: dv_import_def clearDeviceKeys_def saveLegacy_def bound_to_def loadLegacy_def split: stored_identity.split)
  ultimately show ?thesis
    using True bound_run [OF _ True] bound_ensure [OF _ True] by (simp add: dv_run_def)
qed (simp only: if_False)

text \<open>An import whose key could not be cleared is undone by the next visit.\<close>

lemma import_undone:
  "ru \<noteq> '''' \<Longrightarrow> ru \<noteq> user \<Longrightarrow> user \<noteq> '''' \<Longrightarrow> dvKey s = Some (ru, rd) \<Longrightarrow> keSupported env \<Longrightarrow> keOpens env \<Longrightarrow>
   diUser (fst (ensureDeviceIdentity now2 rnd2 env (dv_import False now rnd user name s))) = ru"
  by (simp add: dv_import_def clearDeviceKeys_def saveLegacy_def ensureDeviceIdentity_def loadLegacy_def Let_def
      split: stored_identity.split)

section \<open>The place behind an address\<close>

record public_geo =
  pgFlag :: string
  pgCountry :: string
  pgCity :: string

definition normalizeGeoHit :: "string \<Rightarrow> string \<Rightarrow> string \<Rightarrow> public_geo option" where
  "normalizeGeoHit flag country city =
     (let f = flag_of flag; co = js_trim country; ci = js_trim city
      in if f = '''' \<and> co = '''' \<and> ci = '''' then None else Some \<lparr>pgFlag = f, pgCountry = co, pgCity = ci\<rparr>)"

definition parseIpwho :: "jsval \<Rightarrow> public_geo option" where
  "parseIpwho ob =
     (if \<not> js_truthy ob \<or> vget ob ''success'' = JBool False then None
      else normalizeGeoHit (str_or (vget ob ''country_code'')) (str_or (vget ob ''country'')) (str_or (vget ob ''city'')))"

definition parseIpapi :: "jsval \<Rightarrow> public_geo option" where
  "parseIpapi ob =
     (if \<not> js_truthy ob \<or> js_truthy (vget ob ''error'') then None
      else normalizeGeoHit (str_or (vget ob ''country_code'')) (str_or (js_or (vget ob ''country_name'') (vget ob ''country'')))
             (str_or (vget ob ''city'')))"

text \<open>The two answers, null when the request fails; the second is asked only without the first.\<close>

definition fillPublicGeo :: "jsval \<Rightarrow> jsval \<Rightarrow> public_geo option" where
  "fillPublicGeo ipwho ipapi = (case parseIpwho ipwho of Some g \<Rightarrow> Some g | None \<Rightarrow> parseIpapi ipapi)"

lemma public_geo_says_something:
  "case fillPublicGeo a b of None \<Rightarrow> True
   | Some g \<Rightarrow> list_all flag_char (pgFlag g) \<and> (pgFlag g @ pgCountry g @ pgCity g \<noteq> '''')"
proof -
  have "normalizeGeoHit f co ci = Some g \<Longrightarrow> list_all flag_char (pgFlag g) \<and> (pgFlag g @ pgCountry g @ pgCity g \<noteq> '''')" for f co ci g
    by (auto simp: normalizeGeoHit_def Let_def flag_upper split: if_splits)
  then show ?thesis
    unfolding fillPublicGeo_def parseIpwho_def parseIpapi_def by (simp split: option.split)
qed

end
