(* ===== verification/PhoneIce.thy ===== *)
theory PhoneIce
  imports SdpFilters Recovery Json
begin

text \<open>
  The functions in front of \<open>class MediaSession\<close> in \<open>media/MediaSession.ts\<close> of the phone: ICE server
  lists, candidates, the edits of session descriptions, the wait for a first relay candidate, and the
  configuration a connection is made with. Most of them have a counterpart of the same name in the
  page's \<open>webrtc.js\<close> (\<open>IceServers\<close>, \<open>SdpFilters\<close>); the ones here are written from the phone's text,
  and lemmas say where the two agree.
\<close>

section \<open>Servers\<close>

text \<open>\<open>/\?transport=udp$/i\<close>, then \<open>/([?&])transport=udp(&)?/gi\<close>, then \<open>/[?&]$/\<close>.\<close>

definition query_sep :: "char \<Rightarrow> bool" where
  "query_sep c \<longleftrightarrow> c = CHR ''?'' \<or> c = CHR ''&''"

definition drop_udp_end :: "string \<Rightarrow> string" where
  "drop_udp_end s =
     (let n = length s - 14
      in if length s \<ge> 14 \<and> js_lower (drop n s) = ''?transport=udp'' then take n s else s)"

function drop_udp :: "string \<Rightarrow> string" where
  "drop_udp [] = []"
| "drop_udp (c # cs) =
     (if query_sep c \<and> starts_i cs ''transport=udp''
      then (let r = drop 13 cs
            in if js_starts r ''&'' then c # drop_udp (drop 1 r) else drop_udp r)
      else c # drop_udp cs)"
  by pat_completeness auto
termination by (relation "measure length") auto

definition drop_last_sep :: "string \<Rightarrow> string" where
  "drop_last_sep s = (if s \<noteq> [] \<and> query_sep (last s) then butlast s else s)"

definition normalizeIceUrl :: "string \<Rightarrow> string" where
  "normalizeIceUrl u =
     (let s = js_trim u
      in if s = '''' then s else drop_last_sep (drop_udp (drop_udp_end s)))"

definition phone_default_servers :: "ice_server list" where
  "phone_default_servers =
     [\<lparr>isUrls = OneUrl ''stun:stun.l.google.com:19302'', isUsername = None, isCredential = None\<rparr>]"

definition expandIceServers :: "ice_server list option \<Rightarrow> ice_server list" where
  "expandIceServers servers =
     (case servers of
        None \<Rightarrow> phone_default_servers
      | Some ss \<Rightarrow>
          if ss = [] then phone_default_servers
          else let out = concat (map (\<lambda>s. concat (map (\<lambda>u.
                     if u = '''' then []
                     else let nu = normalizeIceUrl u
                          in if nu = '''' then [] else [with_urls (OneUrl nu) s]) (urls_of s))) ss)
               in if out \<noteq> [] then out else phone_default_servers)"

datatype ice_filter = FilterAll | FilterTurn | FilterStun

definition filterIce :: "ice_server list option \<Rightarrow> ice_filter \<Rightarrow> ice_server list" where
  "filterIce servers mode =
     (let expanded = expandIceServers servers
      in case mode of
           FilterAll \<Rightarrow> expanded
         | FilterTurn \<Rightarrow> filter (\<lambda>s. let x = first_url s in js_starts x ''turn:'' \<or> js_starts x ''turns:'') expanded
         | FilterStun \<Rightarrow> filter (\<lambda>s. let x = first_url s
                in js_starts x ''stun:'' \<or> \<not> js_starts x ''turn:'' \<and> \<not> js_starts x ''turns:'') expanded)"

text \<open>\<open>preferTcpTurnFirst\<close>, whose order starts with UDP. The sort is stable.\<close>

definition tcp_first_score :: "ice_server \<Rightarrow> nat" where
  "tcp_first_score s = (let x = first_url s
     in if js_starts x ''turns:'' then 1
        else if js_starts x ''turn:'' \<and> \<not> js_includes x ''transport=tcp'' then 0
        else if js_starts x ''turn:'' \<and> js_includes x ''transport=tcp'' then 2
        else 3)"

definition preferTcpTurnFirst :: "ice_server list \<Rightarrow> ice_server list" where
  "preferTcpTurnFirst servers = sort_key tcp_first_score servers"

definition phone_udpTurnOnly :: "ice_server list \<Rightarrow> ice_server list" where
  "phone_udpTurnOnly servers =
     (let keep = filter (\<lambda>s. let u = first_url s
            in if \<not> (js_starts u ''turn:'' \<or> js_starts u ''turns:'') then False
               else if js_starts u ''turns:'' then True
               else if js_includes u ''transport=tcp'' then False
               else True) servers
      in if keep \<noteq> [] then keep else servers)"

section \<open>Candidates\<close>

text \<open>A candidate is any value: null, a string or an object of the platform or of \<open>JSON.parse\<close>.\<close>

definition candidate_text :: "jsval \<Rightarrow> string" where
  "candidate_text c = (case c of JStr s \<Rightarrow> s | _ \<Rightarrow> str_or (vget c ''candidate''))"

definition line_index :: "jsval \<Rightarrow> jsobj" where
  "line_index v =
     (case v of
        JNum n \<Rightarrow> [(''sdpMLineIndex'', JNum n)]
      | _ \<Rightarrow> if \<not> js_null v \<and> v \<noteq> JStr ''''
            then (case js_number v of None \<Rightarrow> [] | Some n \<Rightarrow> [(''sdpMLineIndex'', JNum n)])
            else [])"

definition plain_candidate :: "jsval \<Rightarrow> jsobj" where
  "plain_candidate c =
     [(''candidate'', JStr (str_or (vget c ''candidate''))), (''sdpMid'', js_nullish (vget c ''sdpMid'') JNull)] @
     line_index (vget c ''sdpMLineIndex'') @
     (if \<not> js_null (vget c ''usernameFragment'') then [(''usernameFragment'', vget c ''usernameFragment'')] else [])"

definition serializeIceCandidate :: "jsval \<Rightarrow> string" where
  "serializeIceCandidate c = (if \<not> js_truthy c then '''' else json_text (JObj (plain_candidate c)))"

definition phone_isMdnsHost :: "jsval \<Rightarrow> bool" where
  "phone_isMdnsHost c =
     (if js_null c then False
      else let s = candidate_text c
           in if s = '''' then False else has_local s \<and> has_typ ''host'' s)"

definition phone_isRelay :: "jsval \<Rightarrow> bool" where
  "phone_isRelay c =
     (if js_null c then False
      else case c of
        JStr s \<Rightarrow> has_typ ''relay'' s
      | _ \<Rightarrow>
          let typ = js_lower (str_or (js_or (vget c ''type'') (vget c ''candidateType'')))
          in if typ = ''relay'' then True
             else let s = str_or (vget c ''candidate'')
                  in if s = '''' then False else has_typ ''relay'' s)"

section \<open>Session descriptions\<close>

text \<open>The loops that build a list \<open>out\<close> of the lines they keep.\<close>

fun keep_lines :: "(string \<Rightarrow> bool) \<Rightarrow> string list \<Rightarrow> string list \<Rightarrow> string list" where
  "keep_lines bad [] out = out"
| "keep_lines bad (l # ls) out = (if bad l then keep_lines bad ls out else keep_lines bad ls (out @ [l]))"

definition phone_stripMdns :: "string \<Rightarrow> string" where
  "phone_stripMdns sdp =
     (if sdp = '''' then sdp
      else crlf_join (keep_lines (\<lambda>l. candidate_line l \<and> has_local l \<and> has_typ ''host'' l) (js_lines sdp) []))"

text \<open>\<open>/^m=video\b/i\<close> and the pass of \<open>forceVideoSendrecvSdp\<close> over the lines.\<close>

definition video_line :: "string \<Rightarrow> bool" where
  "video_line l \<longleftrightarrow> starts_i l ''m=video'' \<and> word_end (drop 7 l)"

abbreviation SENDRECV :: string where "SENDRECV \<equiv> ''a=sendrecv''"

fun force_lines :: "bool \<Rightarrow> bool \<Rightarrow> string list \<Rightarrow> string list" where
  "force_lines inVideo sawDir [] = (if inVideo \<and> \<not> sawDir then [SENDRECV] else [])"
| "force_lines inVideo sawDir (line # lines) =
     (if video_line line then line # force_lines True False lines
      else if m_line line then
        (if inVideo \<and> \<not> sawDir then [SENDRECV] else []) @ line # force_lines False sawDir lines
      else if inVideo \<and> direction_of line \<noteq> None then
        (if \<not> sawDir then SENDRECV # force_lines inVideo True lines else force_lines inVideo sawDir lines)
      else line # force_lines inVideo sawDir lines)"

definition forceVideoSendrecvSdp :: "string \<Rightarrow> string" where
  "forceVideoSendrecvSdp sdp =
     (if sdp = '''' then sdp else crlf_join (force_lines False False (js_lines sdp)))"

text \<open>The two counters of \<open>offerSdpLooksPureRelay\<close>.\<close>

fun count_kinds :: "string list \<Rightarrow> nat \<Rightarrow> nat \<Rightarrow> nat \<times> nat" where
  "count_kinds [] relay hostOrSrflx = (relay, hostOrSrflx)"
| "count_kinds (l # ls) relay hostOrSrflx =
     (if \<not> candidate_line l then count_kinds ls relay hostOrSrflx
      else if has_typ ''relay'' l then count_kinds ls (relay + 1) hostOrSrflx
      else if has_typ ''host'' l \<or> has_typ ''srflx'' l then count_kinds ls relay (hostOrSrflx + 1)
      else count_kinds ls relay hostOrSrflx)"

definition offerSdpLooksPureRelay :: "string \<Rightarrow> bool" where
  "offerSdpLooksPureRelay sdp =
     (if sdp = '''' then False
      else case count_kinds (js_lines sdp) 0 0 of (relay, hostOrSrflx) \<Rightarrow> relay > 0 \<and> hostOrSrflx = 0)"

definition phone_stripNonRelay :: "string \<Rightarrow> string" where
  "phone_stripNonRelay sdp =
     (if sdp = '''' then sdp
      else let lines = js_lines sdp;
               relayN = length (filter (\<lambda>l. candidate_line l \<and> has_typ ''relay'' l) lines);
               candN = length (filter candidate_line lines)
           in if relayN = 0 \<or> relayN = candN then sdp
              else crlf_join (keep_lines (\<lambda>l. candidate_line l \<and> \<not> has_typ ''relay'' l) lines []))"

text \<open>The filter the senders of an offer or an answer write out for host lines.\<close>

definition phone_stripHost :: "string \<Rightarrow> string" where
  "phone_stripHost sdp =
     crlf_join (filter (\<lambda>l. \<not> (candidate_line l \<and> has_typ ''host'' l)) (js_lines sdp))"

section \<open>Waiting for a relay candidate\<close>

text \<open>\<open>s.match(/\btyp\s+relay\b/gi).length\<close>: matches cannot overlap.\<close>

fun rx_count :: "(char option \<Rightarrow> string \<Rightarrow> bool) \<Rightarrow> char option \<Rightarrow> string \<Rightarrow> nat" where
  "rx_count m prev [] = (if m prev [] then 1 else 0)"
| "rx_count m prev (c # cs) = (if m prev (c # cs) then 1 else 0) + rx_count m (Some c) cs"

definition countRelay :: "string \<Rightarrow> nat" where
  "countRelay sdp = rx_count (typ_at ''relay'') None sdp"

text \<open>The interval: each tick comes with the time since the start and the description then; the result
  has the time it came. \<open>None\<close> is a promise not yet resolved.\<close>

fun relay_ticks :: "int \<Rightarrow> (int \<times> string) list \<Rightarrow> (nat \<times> int) option" where
  "relay_ticks maxMs [] = None"
| "relay_ticks maxMs ((t, sdp) # ticks) =
     (let n = countRelay sdp
      in if n > 0 \<or> t \<ge> maxMs then Some (n, t) else relay_ticks maxMs ticks)"

definition waitForIceGatherRelayOrDone :: "string option \<Rightarrow> int \<Rightarrow> (int \<times> string) list \<Rightarrow> (nat \<times> int) option" where
  "waitForIceGatherRelayOrDone pc maxMs ticks =
     (case pc of
        None \<Rightarrow> Some (0, 0)
      | Some sdp0 \<Rightarrow>
          if maxMs \<le> 0 then Some (0, 0)
          else let n0 = countRelay sdp0
               in if n0 > 0 then Some (n0, 0) else relay_ticks maxMs ticks)"

section \<open>The configuration of a connection\<close>

text \<open>\<open>pcConfig\<close>: the servers and whether the policy is \<open>relay\<close>. \<open>relayWanted\<close> is \<open>pureRelay\<close>.\<close>

definition phone_config :: "ice_server list option \<Rightarrow> bool \<Rightarrow> ice_server list \<times> bool" where
  "phone_config raw pureRelay =
     (let servers = preferTcpTurnFirst (filterIce raw (if pureRelay then FilterTurn else FilterAll))
      in if pureRelay then
           let servers2 = phone_udpTurnOnly servers
           in if servers2 = [] then (preferTcpTurnFirst (filterIce raw FilterAll), False)
              else (if length servers2 > 1 then take 1 servers2 else servers2, True)
         else (servers, False))"

section \<open>Where the phone and the page agree\<close>

lemma keep_lines_filter: "keep_lines bad ls out = out @ filter (\<lambda>l. \<not> bad l) ls"
  by (induction bad ls out rule: keep_lines.induct) auto

lemma stripMdns_agree: "phone_stripMdns sdp = stripMdnsHostCandidatesFromSdp sdp"
  by (simp add: phone_stripMdns_def stripMdnsHostCandidatesFromSdp_def drop_lines_def keep_lines_filter mdns_line_def)

lemma stripNonRelay_agree: "phone_stripNonRelay sdp = stripNonRelayCandidatesFromSdp sdp"
  by (simp add: phone_stripNonRelay_def stripNonRelayCandidatesFromSdp_def drop_lines_def keep_lines_filter
      non_relay_line_def Let_def)

lemma stripHost_agree: "sdp \<noteq> '''' \<Longrightarrow> phone_stripHost sdp = stripHostCandidatesFromSdp sdp"
  by (simp add: phone_stripHost_def stripHostCandidatesFromSdp_def drop_lines_def host_line_def)

lemma udpTurnOnly_agree: "phone_udpTurnOnly ss = udpTurnOnly ss"
proof -
  have "(\<lambda>s. let u = first_url s
            in if \<not> (js_starts u ''turn:'' \<or> js_starts u ''turns:'') then False
               else if js_starts u ''turns:'' then True
               else if js_includes u ''transport=tcp'' then False else True) = udp_turn_entry"
    by (auto simp: fun_eq_iff udp_turn_entry_def Let_def)
  then show ?thesis by (simp only: phone_udpTurnOnly_def udpTurnOnly_def)
qed

text \<open>The second alternative of the page's relay test adds nothing to the first.\<close>

lemma lower_low: "lower_char c = d \<Longrightarrow> of_char d < (65::nat) \<Longrightarrow> c = d"
proof (rule ccontr)
  assume eq: "lower_char c = d" and low: "of_char d < (65::nat)" and ne: "c \<noteq> d"
  then have r: "char_range (CHR ''A'') (CHR ''Z'') c" by (auto simp: lower_char_def split: if_splits)
  then have "65 \<le> (of_char c :: nat)" "(of_char c :: nat) \<le> 90" by (auto simp: char_range_def less_eq_char_def)
  moreover have "of_char (lower_char c) = (of_char c + 32 :: nat) mod 256" using r by (simp add: lower_char_def)
  ultimately show False using eq low by simp
qed

lemma lower_blank: "lower_char c = CHR '' '' \<Longrightarrow> c = CHR '' ''"
  by (drule lower_low) simp_all

lemma lower_split: "js_lower s = a @ b \<Longrightarrow> \<exists>a' b'. s = a' @ b' \<and> js_lower a' = a \<and> js_lower b' = b"
  by (rule exI [of _ "take (length a) s"], rule exI [of _ "drop (length a) s"])
    (simp add: js_lower_def flip: take_map drop_map)

lemma space_lower: "js_space c \<Longrightarrow> lower_char c = c"
  by (auto simp: js_space_def lower_char_def char_range_def less_eq_char_def)

lemma lower_Cons: "js_lower s = a # r \<Longrightarrow> \<exists>x u. s = x # u \<and> lower_char x = a \<and> js_lower u = r"
  by (cases s) (simp_all add: js_lower_def)

lemma relay_in_spaces: "js_lower s = a @ '' typ relay '' @ b \<Longrightarrow> has_typ ''relay'' s"
proof -
  assume "js_lower s = a @ '' typ relay '' @ b"
  from lower_split [OF this] obtain a' t where s: "s = a' @ t" and t: "js_lower t = '' typ relay '' @ b"
    by blast
  obtain c t1 where 1: "t = c # t1" "lower_char c = CHR '' ''" "js_lower t1 = ''typ relay '' @ b"
    using lower_Cons [of t] t by (metis append_Cons)
  obtain x t2 where 2: "t1 = x # t2" "lower_char x = CHR ''t''" "js_lower t2 = ''yp relay '' @ b"
    using lower_Cons [of t1] 1 by (metis append_Cons)
  obtain y t3 where 3: "t2 = y # t3" "lower_char y = CHR ''y''" "js_lower t3 = ''p relay '' @ b"
    using lower_Cons [of t2] 2 by (metis append_Cons)
  obtain z t4 where 4: "t3 = z # t4" "lower_char z = CHR ''p''" "js_lower t4 = '' relay '' @ b"
    using lower_Cons [of t3] 3 by (metis append_Cons)
  obtain w v where 5: "t4 = w # v" "lower_char w = CHR '' ''" "js_lower v = ''relay '' @ b"
    using lower_Cons [of t4] 4 by (metis append_Cons)
  note tv = 1(1) 2(1) 3(1) 4(1) 5(1) and c = 1(2) and w = 5(2) and xyz = 2(2) 3(2) 4(2) and lowv = 5(3)
  define u where "u = x # y # z # w # v"
  have u: "t = c # u" and v: "u = x # y # z # w # v" by (simp_all add: u_def tv)
  have c: "c = CHR '' ''" using lower_blank [OF c] .
  have w: "w = CHR '' ''" using lower_blank [OF w] .
  have nsp: "dropWhile js_space (w # v) = v"
  proof -
    obtain r v' where "v = r # v'" "lower_char r = CHR ''r''"
      using lowv by (auto simp: js_lower_def map_eq_Cons_conv)
    moreover from this have "\<not> js_space r" using space_lower [of r] by (auto simp: js_space_def)
    ultimately show ?thesis using w by (simp add: js_space_def)
  qed
  have wend: "word_end (drop 5 v)"
  proof -
    have "js_lower (drop 5 v) = CHR '' '' # b" using lowv by (simp add: js_lower_def flip: drop_map)
    then obtain d e where "drop 5 v = d # e" "lower_char d = CHR '' ''" by (auto simp: js_lower_def map_eq_Cons_conv)
    with lower_blank [of d] show ?thesis by (simp add: word_end_def js_word_def js_digit_def char_range_def less_eq_char_def)
  qed
  have "typ_at ''relay'' (Some c) u"
    unfolding typ_at_def Let_def v
    using nsp wend xyz lowv c w by (simp add: word_start_def js_word_def js_digit_def char_range_def less_eq_char_def js_lower_def numeral_eq_Suc)
  then show ?thesis
    unfolding has_typ_def rx_search_iff s u by (intro exI [of _ "a' @ [c]"] exI [of _ u]) simp
qed

lemma relay_text_typ: "relay_text s \<longleftrightarrow> has_typ ''relay'' s"
  unfolding relay_text_def js_includes_iff using relay_in_spaces by blast

text \<open>A candidate of the page as the value the phone sees.\<close>

definition candidate_value :: "ice_candidate \<Rightarrow> jsval" where
  "candidate_value c =
     (case c of
        NoCandidate \<Rightarrow> JNull
      | CandText s \<Rightarrow> JStr s
      | CandObject typ cand \<Rightarrow>
          JObj ((case typ of None \<Rightarrow> [] | Some t \<Rightarrow> [(''type'', JStr t)]) @
                (case cand of None \<Rightarrow> [] | Some s \<Rightarrow> [(''candidate'', JStr s)])))"

lemma relay_agree: "phone_isRelay (candidate_value c) = isRelayIceCandidate c"
  by (cases c) (auto simp: phone_isRelay_def isRelayIceCandidate_def candidate_value_def relay_text_typ vget_def
      js_or_def opt_text_def Let_def split: option.splits)

lemma mdns_agree: "phone_isMdnsHost (candidate_value c) = isMdnsHostIceCandidate c"
  by (cases c) (auto simp: phone_isMdnsHost_def isMdnsHostIceCandidate_def candidate_value_def iceCandidateText_def
      candidate_text_def vget_def opt_text_def Let_def split: option.splits)

section \<open>Sections of a description\<close>

text \<open>The lines before the first \<open>m=\<close> line, then one list per media section. The reference for the
  pass over the lines: in a video section the first direction becomes \<open>sendrecv\<close> and the others go; a
  section without one gets it at its end, unless the next section is video too.\<close>

fun sdp_sections :: "string list \<Rightarrow> string list list" where
  "sdp_sections [] = [[]]"
| "sdp_sections (l # ls) =
     (case sdp_sections ls of [] \<Rightarrow> [[l]]
      | s # ss \<Rightarrow> if m_line l then [] # (l # s) # ss else (l # s) # ss)"

definition no_direction :: "string \<Rightarrow> bool" where
  "no_direction l \<longleftrightarrow> direction_of l = None"

definition is_video :: "string list \<Rightarrow> bool" where
  "is_video s \<longleftrightarrow> s \<noteq> [] \<and> video_line (hd s)"

definition sendrecv_section :: "bool \<Rightarrow> string list \<Rightarrow> string list" where
  "sendrecv_section atEnd s =
     (if list_all no_direction s then s @ (if atEnd then [SENDRECV] else [])
      else takeWhile no_direction s @ SENDRECV # filter no_direction (dropWhile no_direction s))"

fun sendrecv_sections :: "string list list \<Rightarrow> string list list" where
  "sendrecv_sections [] = []"
| "sendrecv_sections (s # ss) =
     (if is_video s then sendrecv_section (case ss of [] \<Rightarrow> True | t # _ \<Rightarrow> \<not> is_video t) s else s) #
     sendrecv_sections ss"

lemma sections_not_Nil [simp]: "sdp_sections ls \<noteq> []"
  by (cases ls) (auto split: list.splits)

lemma video_m: "video_line l \<Longrightarrow> m_line l"
  by (auto simp: video_line_def m_line_def js_starts_iff)

lemma m_no_direction: "m_line l \<Longrightarrow> no_direction l"
  by (auto simp: m_line_def no_direction_def direction_of_def js_find_None_iff js_starts_iff)

text \<open>What the pass makes of the rest of the section it is in.\<close>

definition rest_of_video :: "bool \<Rightarrow> bool \<Rightarrow> string list \<Rightarrow> string list" where
  "rest_of_video saw atEnd s = (if saw then filter no_direction s else sendrecv_section atEnd s)"

lemma rest_Nil [simp]: "rest_of_video saw e [] = (if \<not> saw \<and> e then [SENDRECV] else [])"
  by (simp add: rest_of_video_def sendrecv_section_def)

lemma rest_other [simp]: "no_direction l \<Longrightarrow> rest_of_video saw e (l # s) = l # rest_of_video saw e s"
  by (auto simp: rest_of_video_def sendrecv_section_def)

lemma rest_direction [simp]: "\<not> no_direction l \<Longrightarrow>
    rest_of_video saw e (l # s) = (if saw then [] else [SENDRECV]) @ rest_of_video True e s"
  by (auto simp: rest_of_video_def sendrecv_section_def)

lemma section_rest: "sendrecv_section e s = rest_of_video False e s"
  by (simp add: rest_of_video_def)

lemma force_lines_sections:
  "sdp_sections ls = s # ss \<Longrightarrow>
     force_lines inV saw ls =
       (if inV then rest_of_video saw (case ss of [] \<Rightarrow> True | t # _ \<Rightarrow> \<not> is_video t) s else s) @
       concat (sendrecv_sections ss)"
proof (induction inV saw ls arbitrary: s ss rule: force_lines.induct)
  case (2 inV saw l ls)
  obtain s' ss' where sec: "sdp_sections ls = s' # ss'" by (cases "sdp_sections ls") auto
  consider "video_line l" | "\<not> video_line l" "m_line l" | "\<not> m_line l" "\<not> no_direction l" | "\<not> m_line l" "no_direction l"
    by blast
  then show ?case
  proof cases
    case 1
    then show ?thesis
      using 2 sec video_m [of l] m_no_direction [of l] by (auto simp: is_video_def section_rest)
  next
    case 2
    then show ?thesis
      using "2.IH" "2.prems" sec by (auto simp: is_video_def)
  next
    case 3
    then have "\<not> video_line l" using video_m by blast
    with 3 show ?thesis
      using "2.IH" "2.prems" sec by (auto simp: no_direction_def)
  next
    case 4
    then have "\<not> video_line l" using video_m by blast
    with 4 show ?thesis
      using "2.IH" "2.prems" sec by (auto simp: no_direction_def)
  qed
qed simp

lemma first_section: "sdp_sections ls = s # ss \<Longrightarrow> \<not> is_video s"
proof (induction ls arbitrary: s ss)
  case (Cons l ls)
  then show ?case
    using video_m [of l] by (auto simp: is_video_def split: list.splits if_splits)
qed (simp add: is_video_def)

lemma force_no_LF: "\<forall>l \<in> set ls. LF \<notin> set l \<Longrightarrow> \<forall>l \<in> set (force_lines inV saw ls). LF \<notin> set l"
  by (induction inV saw ls rule: force_lines.induct) auto

lemma force_Nil: "force_lines inV saw ls = [] \<Longrightarrow> ls = [] \<or> inV"
  by (cases ls) (auto split: if_splits)

text \<open>C29: The pass that forces an outbound video direction does to each media section what it is meant
  to: outside video nothing changes, and a video section ends up with one direction line, \<open>sendrecv\<close>,
  in the place of its first one or at the end of the section.\<close>

theorem sendrecv_by_section:
  "js_lines (forceVideoSendrecvSdp sdp) = concat (sendrecv_sections (sdp_sections (js_lines sdp)))"
proof -
  obtain s ss where sec: "sdp_sections (js_lines sdp) = s # ss" by (cases "sdp_sections (js_lines sdp)") auto
  have "js_lines (forceVideoSendrecvSdp sdp) = force_lines False False (js_lines sdp)"
  proof (cases "sdp = ''''")
    case True
    have "\<not> video_line ''''" "\<not> m_line ''''" by code_simp+
    with True show ?thesis by (simp add: forceVideoSendrecvSdp_def)
  next
    case False
    then show ?thesis
      unfolding forceVideoSendrecvSdp_def
      by (simp, intro js_lines_join force_no_LF) (auto dest: force_Nil js_lines_no_LF)
  qed
  then show ?thesis
    using force_lines_sections [OF sec, of False False] first_section [OF sec] sec by simp
qed

text \<open>A description ends with a line end, so a video section that is last and has no direction gets it
  after an empty line; and one followed by another video section gets none.\<close>

lemma sendrecv_after_blank:
  "forceVideoSendrecvSdp (''m=video 9'' @ [CR, LF]) = ''m=video 9'' @ [CR, LF] @ [CR, LF] @ SENDRECV"
  "forceVideoSendrecvSdp (crlf_join [''m=video 9'', ''m=video 9'', ''a=recvonly'']) =
     crlf_join [''m=video 9'', ''m=video 9'', SENDRECV]"
  by code_simp+

section \<open>Relay-only offers\<close>

lemma count_kinds_eq:
  "count_kinds ls r h =
     (r + length (filter (\<lambda>l. candidate_line l \<and> has_typ ''relay'' l) ls),
      h + length (filter (\<lambda>l. candidate_line l \<and> \<not> has_typ ''relay'' l \<and> (has_typ ''host'' l \<or> has_typ ''srflx'' l)) ls))"
  by (induction ls r h rule: count_kinds.induct) auto

lemma pure_offer_iff:
  "offerSdpLooksPureRelay sdp \<longleftrightarrow>
     list_ex (\<lambda>l. candidate_line l \<and> has_typ ''relay'' l) (js_lines sdp) \<and>
     list_all (\<lambda>l. candidate_line l \<and> \<not> has_typ ''relay'' l \<longrightarrow> \<not> has_typ ''host'' l \<and> \<not> has_typ ''srflx'' l) (js_lines sdp)"
  by (auto simp: offerSdpLooksPureRelay_def count_kinds_eq filter_empty_conv list_ex_iff list_all_iff)

text \<open>What the filter of relay candidates leaves is recognised exactly when it left any.\<close>

lemma stripped_offer_pure:
  "offerSdpLooksPureRelay (stripNonRelayCandidatesFromSdp sdp) \<longleftrightarrow>
     list_ex (\<lambda>l. candidate_line l \<and> has_typ ''relay'' l) (js_lines sdp)"
  unfolding pure_offer_iff strip_non_relay_lines
  by (auto simp: list_ex_iff list_all_iff filter_empty_conv non_relay_line_def)

section \<open>The wait is bounded\<close>

text \<open>Where a wait stops: \<open>earlier\<close> are the looks at the local description that let it go on.\<close>

definition stops_at :: "int \<Rightarrow> (int \<times> string) list \<Rightarrow> nat \<times> int \<Rightarrow> bool" where
  "stops_at maxMs looks r \<longleftrightarrow> (\<exists>earlier d later. looks = earlier @ (snd r, d) # later
     \<and> fst r = countRelay d \<and> (0 < fst r \<or> maxMs \<le> snd r)
     \<and> list_all (\<lambda>(u, x). countRelay x = 0 \<and> u < maxMs) earlier)"

lemma stops_here: "0 < countRelay d \<or> maxMs \<le> t \<Longrightarrow> stops_at maxMs ((t, d) # looks) (countRelay d, t)"
  unfolding stops_at_def by (rule exI [of _ "[]"]) simp

lemma stops_later:
  assumes "countRelay d = 0" "t < maxMs" "stops_at maxMs looks r"
  shows "stops_at maxMs ((t, d) # looks) r"
proof -
  obtain earlier e later where "looks = earlier @ (snd r, e) # later" "fst r = countRelay e"
    "0 < fst r \<or> maxMs \<le> snd r" "list_all (\<lambda>(u, x). countRelay x = 0 \<and> u < maxMs) earlier"
    using assms(3) by (auto simp: stops_at_def)
  with assms(1,2) show ?thesis
    unfolding stops_at_def by (intro exI [of _ "(t, d) # earlier"] exI [of _ e] exI [of _ later]) simp
qed

lemma relay_ticks_bounded:
  "steps_within 40 prev (map fst ticks) \<Longrightarrow> prev < maxMs \<Longrightarrow> ticks \<noteq> [] \<Longrightarrow> maxMs \<le> fst (last ticks) \<Longrightarrow>
     \<exists>r. relay_ticks maxMs ticks = Some r \<and> stops_at maxMs ticks r \<and> snd r < maxMs + 40"
proof (induction ticks arbitrary: prev)
  case (Cons a ticks)
  obtain t sdp where a: "a = (t, sdp)" by fastforce
  show ?case
  proof (cases "countRelay sdp > 0 \<or> t \<ge> maxMs")
    case True
    with Cons.prems a show ?thesis by (simp add: Let_def stops_here)
  next
    case False
    with Cons.prems a have "ticks \<noteq> []" by auto
    with False Cons.IH [of t] Cons.prems a show ?thesis by (auto simp: Let_def intro!: stops_later)
  qed
qed simp

text \<open>C30: The wait for a first relay candidate ends at the first look at the local description that
  shows one or finds the budget used up: it returns the count and the time of that look, and every
  earlier look showed none with budget left. With an interval that ticks every 40 ms at the latest
  it is over within 40 ms after its budget.\<close>

theorem relay_wait_bounded:
  assumes "steps_within 40 0 (map fst ticks)" and "ticks \<noteq> []" and "maxMs \<le> fst (last ticks)"
  shows "\<exists>n t. waitForIceGatherRelayOrDone (Some sdp) maxMs ticks = Some (n, t) \<and>
           (if maxMs \<le> 0 then n = 0 \<and> t = 0
            else t < maxMs + 40 \<and> stops_at maxMs ((0, sdp) # ticks) (n, t))"
proof -
  consider "maxMs \<le> 0" | "0 < maxMs" "0 < countRelay sdp" | "0 < maxMs" "countRelay sdp = 0" by linarith
  then show ?thesis
  proof cases
    case 3
    with relay_ticks_bounded [OF assms(1) _ assms(2,3)] show ?thesis
      by (auto simp: waitForIceGatherRelayOrDone_def intro: stops_later)
  qed (auto simp: waitForIceGatherRelayOrDone_def Let_def stops_here)
qed

theorem relay_wait_bounded_witness:
  "\<exists>n t. waitForIceGatherRelayOrDone (Some ''v=0'') 50 [(40, ''v=0''), (80, ''a=candidate:1 typ relay'')] = Some (n, t) \<and>
     (if (50::int) \<le> 0 then n = 0 \<and> t = 0
      else t < 50 + 40 \<and> stops_at 50 ((0, ''v=0'') # [(40, ''v=0''), (80, ''a=candidate:1 typ relay'')]) (n, t))"
  by (rule relay_wait_bounded) simp_all

section \<open>The server a relay-only connection asks\<close>

definition turn_entries :: "ice_server list option \<Rightarrow> ice_server list" where
  "turn_entries raw = filter (\<lambda>s. js_starts (first_url s) ''turn:'' \<or> js_starts (first_url s) ''turns:'') (expandIceServers raw)"

lemma score_plain: "tcp_first_score s = 0 \<longleftrightarrow> udp_plain s"
  by (auto simp: tcp_first_score_def udp_plain_def Let_def js_starts_iff)

lemma plain_kept: "udp_plain s \<Longrightarrow> udp_turn_entry s"
  by (auto simp: udp_plain_def udp_turn_entry_def Let_def)

lemma hd_least: "sorted (map f xs) \<Longrightarrow> x \<in> set xs \<Longrightarrow> (f (hd xs) :: nat) \<le> f x"
  by (cases xs) auto

lemma udp_first:
  assumes "sorted (map tcp_first_score ss)" and "ss \<noteq> []"
  shows "\<exists>s \<in> set ss. take 1 (udpTurnOnly ss) = [s] \<and> udp_plain s = list_ex udp_plain ss"
proof -
  let ?k = "udpTurnOnly ss"
  have k: "?k \<noteq> []" "set ?k \<subseteq> set ss" "sorted (map tcp_first_score ?k)"
    using assms by (auto simp: udpTurnOnly_def Let_def sorted_filter)
  have "udp_plain (hd ?k)" if p: "p \<in> set ss" "udp_plain p" for p
  proof -
    have "p \<in> set ?k" using p plain_kept by (auto simp: udpTurnOnly_def Let_def filter_empty_conv)
    then show ?thesis using hd_least [OF k(3)] p(2) score_plain by (metis le_zero_eq)
  qed
  then have "udp_plain (hd ?k) = list_ex udp_plain ss"
    using k hd_in_set by (auto simp: list_ex_iff)
  moreover have "take 1 ?k = [hd ?k]" using k(1) by (cases ?k) auto
  ultimately show ?thesis using k by (intro bexI [of _ "hd ?k"]) auto
qed

text \<open>C31: What a relay-only connection of the phone asks: one TURN server, over UDP whenever a URL allows it,
  and nothing else; but when the list has no TURN URL the connection is an ordinary one with every
  server, even for a user who hides the IP address.\<close>

theorem relay_config_choice:
  "if turn_entries raw = [] then phone_config raw True = (preferTcpTurnFirst (expandIceServers raw), False)
   else (\<exists>s \<in> set (turn_entries raw). phone_config raw True = ([s], True) \<and>
           udp_plain s = list_ex udp_plain (turn_entries raw))"
proof (cases "turn_entries raw = []")
  case True
  have "filterIce raw FilterTurn = turn_entries raw" "filterIce raw FilterAll = expandIceServers raw"
    by (simp_all add: filterIce_def turn_entries_def Let_def)
  with True show ?thesis
    by (simp add: phone_config_def udpTurnOnly_agree udpTurnOnly_def preferTcpTurnFirst_def)
next
  case False
  let ?ss = "preferTcpTurnFirst (turn_entries raw)"
  have ss: "sorted (map tcp_first_score ?ss)" "set ?ss = set (turn_entries raw)"
    by (simp_all add: preferTcpTurnFirst_def)
  with False have ne: "?ss \<noteq> []" by auto
  obtain s where s: "s \<in> set ?ss" "take 1 (udpTurnOnly ?ss) = [s]" "udp_plain s = list_ex udp_plain ?ss"
    using udp_first [OF ss(1) ne] by blast
  have "filterIce raw FilterTurn = turn_entries raw" by (simp add: filterIce_def turn_entries_def Let_def)
  then have "phone_config raw True = ([s], True)"
    using s(2) ne by (cases "udpTurnOnly ?ss") (auto simp: phone_config_def udpTurnOnly_agree Let_def)
  moreover have "udp_plain s = list_ex udp_plain (turn_entries raw)"
    using s(3) ss(2) by (simp add: list_ex_iff)
  ultimately show ?thesis using False s(1) ss(2) by auto
qed

section \<open>Sending a candidate\<close>

lemma line_index_cases: obtains "line_index v = []" | n where "line_index v = [(''sdpMLineIndex'', JNum n)]"
proof -
  have "line_index v = [] \<or> (\<exists>n. line_index v = [(''sdpMLineIndex'', JNum n)])"
    by (cases v) (simp_all add: line_index_def del: js_number.simps split: option.split)
  then show thesis using that by blast
qed

lemma plain_ok:
  assumes "json_ok (js_nullish (vget c ''sdpMid'') JNull)" "json_ok (js_nullish (vget c ''usernameFragment'') JNull)"
  shows "json_ok (JObj (plain_candidate c))"
  by (rule line_index_cases [of "vget c ''sdpMLineIndex''"])
    (use assms in \<open>auto simp: plain_candidate_def js_nullish_def\<close>)

text \<open>The other side reads back the candidate as it was sent: no index of a section is made up, and
  sending it on changes nothing. A \<open>type\<close> outside the text is lost.\<close>

lemma plain_twice:
  "plain_candidate (JObj (plain_candidate c)) = plain_candidate c"
proof -
  have num: "line_index (JNum n) = [(''sdpMLineIndex'', JNum n)]" "line_index JUndef = []" for n
    by (simp_all add: line_index_def)
  show ?thesis
    by (rule line_index_cases [of "vget c ''sdpMLineIndex''"])
      (simp_all add: plain_candidate_def vget_def js_nullish_def num)
qed

lemma serialize_roundtrip:
  assumes "js_truthy c" "json_ok (js_nullish (vget c ''sdpMid'') JNull)"
    "json_ok (js_nullish (vget c ''usernameFragment'') JNull)"
  shows "\<exists>c'. json_parse (serializeIceCandidate c) = Some c' \<and> serializeIceCandidate c' = serializeIceCandidate c"
  using assms plain_ok [of c] json_roundtrip [of "JObj (plain_candidate c)"]
  by (simp add: serializeIceCandidate_def plain_twice del: json_text.simps json_ok.simps)

lemma typed_relay_lost:
  "let c = JObj [(''type'', JStr ''relay''), (''candidate'', JStr ''candidate:1 1 udp 1 192.0.2.1 9'')]
   in phone_isRelay c \<and> \<not> phone_isRelay (JObj (plain_candidate c))"
  by code_simp

section \<open>Query parameters of a TURN URL\<close>

definition with_params :: "string \<Rightarrow> string list \<Rightarrow> string" where
  "with_params h ps = (if ps = [] then h else h @ CHR ''?'' # js_join ''&'' ps)"

definition no_sep :: "string \<Rightarrow> bool" where
  "no_sep s \<longleftrightarrow> list_all (\<lambda>c. \<not> query_sep c) s"

definition udp_param :: "string \<Rightarrow> bool" where
  "udp_param p \<longleftrightarrow> js_lower p = ''transport=udp''"

text \<open>A parameter as the servers' lists have them: not empty, and one that begins like the UDP transport is
  the UDP transport.\<close>

definition plain_param :: "string \<Rightarrow> bool" where
  "plain_param p \<longleftrightarrow> p \<noteq> '''' \<and> no_sep p \<and> (udp_param p \<or> \<not> starts_i p ''transport=udp'')"

definition amp :: "string list \<Rightarrow> string" where
  "amp ps = concat (map (\<lambda>p. CHR ''&'' # p) ps)"

lemma js_join_amp: "js_join ''&'' (p # ps) = p @ amp ps"
  by (induction ps arbitrary: p) (simp_all add: amp_def)

lemma amp_simps [simp]: "amp [] = []" "amp (p # ps) = CHR ''&'' # p @ amp ps"
  by (simp_all add: amp_def)

lemma amp_append: "amp (ps @ qs) = amp ps @ amp qs"
  by (simp add: amp_def)

lemma query_amp [simp]: "query_sep (CHR ''&'')" "query_sep (CHR ''?'')"
  by (simp_all add: query_sep_def)

declare drop_udp.simps(2) [simp del]

lemma drop_udp_keep: "\<not> (query_sep c \<and> starts_i cs ''transport=udp'') \<Longrightarrow> drop_udp (c # cs) = c # drop_udp cs"
  by (simp only: drop_udp.simps if_False)

lemma drop_udp_hit:
  "query_sep c \<Longrightarrow> starts_i cs ''transport=udp'' \<Longrightarrow>
     drop_udp (c # cs) = (if js_starts (drop 13 cs) ''&'' then c # drop_udp (drop 1 (drop 13 cs)) else drop_udp (drop 13 cs))"
  by (simp only: drop_udp.simps Let_def simp_thms if_True)

lemma drop_udp_no_sep: "no_sep s \<Longrightarrow> drop_udp (s @ t) = s @ drop_udp t"
  by (induction s) (simp_all add: no_sep_def drop_udp_keep)

lemma starts_within:
  "js_starts (js_lower (p @ r)) pat \<Longrightarrow> r = [] \<or> query_sep (hd r) \<Longrightarrow> no_sep pat \<Longrightarrow> js_starts (js_lower p) pat"
proof (induction p arbitrary: pat)
  case Nil
  then show ?case
    by (cases pat; cases r) (auto simp: js_lower_def lower_char_def char_range_def less_eq_char_def query_sep_def no_sep_def)
next
  case (Cons c p)
  then show ?case by (cases pat) (auto simp: js_lower_def no_sep_def)
qed

lemma no_sep_transport [simp]: "no_sep ''transport=udp''"
  by (simp add: no_sep_def query_sep_def)

lemma hd_amp: "amp ps = [] \<or> query_sep (hd (amp ps))"
  by (cases ps) auto

lemma drop_udp_plain:
  "query_sep c \<Longrightarrow> no_sep p \<Longrightarrow> \<not> starts_i p ''transport=udp'' \<Longrightarrow>
     drop_udp (c # p @ amp ps) = c # p @ drop_udp (amp ps)"
  using starts_within [OF _ hd_amp, of p ps "''transport=udp''"]
  by (subst drop_udp_keep) (auto simp: drop_udp_no_sep)

lemma drop_udp_amp: "list_all (\<lambda>p. plain_param p \<and> \<not> udp_param p) ps \<Longrightarrow> drop_udp (amp ps) = amp ps"
  by (induction ps) (auto simp: plain_param_def drop_udp_plain)

lemma drop_udp_param:
  assumes "query_sep c" "udp_param t" "list_all (\<lambda>p. plain_param p \<and> \<not> udp_param p) ps"
  shows "drop_udp (c # t @ amp ps) = (if ps = [] then [] else c # js_join ''&'' ps)"
proof -
  have len: "length t = 13" using arg_cong [OF assms(2) [unfolded udp_param_def], of length] by simp
  have "starts_i (t @ amp ps) ''transport=udp''"
    using assms(2) by (simp add: udp_param_def js_lower_append)
  moreover have "drop 13 (t @ amp ps) = amp ps" using len by simp
  ultimately have "drop_udp (c # t @ amp ps) = (if js_starts (amp ps) ''&'' then c # drop_udp (drop 1 (amp ps)) else drop_udp (amp ps))"
    using drop_udp_hit [OF assms(1)] by simp
  also have "\<dots> = (if ps = [] then [] else c # js_join ''&'' ps)"
  proof (cases ps)
    case (Cons q qs)
    with assms(3) show ?thesis by (simp add: drop_udp_no_sep plain_param_def drop_udp_amp js_join_amp)
  qed simp
  finally show ?thesis .
qed

lemma drop_udp_params:
  assumes "query_sep c" "list_all plain_param (p # ps)" "length (filter udp_param (p # ps)) \<le> 1"
  shows "drop_udp (c # p @ amp ps) =
    (let qs = filter (\<lambda>q. \<not> udp_param q) (p # ps) in if qs = [] then [] else c # js_join ''&'' qs)"
  using assms
proof (induction ps arbitrary: c p)
  case Nil
  then show ?case using drop_udp_param [of c p "[]"] drop_udp_plain [of c p "[]"] by (auto simp: plain_param_def)
next
  case (Cons q ps)
  show ?case
  proof (cases "udp_param p")
    case True
    then have "filter udp_param (q # ps) = []" using Cons.prems(3) by simp
    then have "\<forall>r \<in> set (q # ps). \<not> udp_param r" by (metis filter_empty_conv)
    then have rest: "list_all (\<lambda>r. plain_param r \<and> \<not> udp_param r) (q # ps)" "filter (\<lambda>r. \<not> udp_param r) (q # ps) = q # ps"
      using Cons.prems(2) by (auto simp: list_all_iff)
    then show ?thesis
      using drop_udp_param [OF Cons.prems(1) True rest(1)] True by (simp add: Let_def)
  next
    case False
    then have "drop_udp (c # p @ amp (q # ps)) = c # p @ drop_udp (CHR ''&'' # q @ amp ps)"
      using drop_udp_plain [OF Cons.prems(1), of p "q # ps"] Cons.prems(2) by (simp add: plain_param_def)
    also have "\<dots> = c # p @ (let qs = filter (\<lambda>r. \<not> udp_param r) (q # ps) in if qs = [] then [] else CHR ''&'' # js_join ''&'' qs)"
      using Cons.IH [of "CHR ''&''" q] Cons.prems False by simp
    also have "\<dots> = c # js_join ''&'' (p # filter (\<lambda>r. \<not> udp_param r) (q # ps))"
      by (cases "filter (\<lambda>r. \<not> udp_param r) (q # ps)") (simp_all add: js_join_amp Let_def)
    finally show ?thesis using False by (simp add: Let_def)
  qed
qed

text \<open>Cutting the parameter off the end first changes nothing: the scan would drop it too.\<close>

lemma drop_udp_end_scan:
  assumes "js_lower t = ''?transport=udp''"
  shows "drop_udp (u @ t) = drop_udp u"
proof -
  obtain t' where t': "t = CHR ''?'' # t'" "js_lower t' = ''transport=udp''"
  proof -
    obtain x t' where x: "t = x # t'" "lower_char x = CHR ''?''" "js_lower t' = ''transport=udp''"
      using lower_Cons [of t "CHR ''?''"] assms by auto
    moreover have "x = CHR ''?''"
      using lower_low [OF x(2)] by simp
    ultimately show thesis using that by blast
  qed
  have hit: "drop_udp t = []"
    using drop_udp_param [of "CHR ''?''" t' "[]"] t' by (simp add: udp_param_def)
  show ?thesis
  proof (induction u rule: drop_udp.induct)
    case 1
    then show ?case by (simp add: hit)
  next
    case (2 c cs)
    show ?case
    proof (cases "query_sep c \<and> starts_i cs ''transport=udp''")
      case True
      then have long: "length cs \<ge> 13"
        by (auto simp: js_starts_iff dest: arg_cong [of _ _ length])
      have "starts_i (cs @ t) ''transport=udp''" using True by (simp add: js_lower_append js_starts_append2)
      moreover have "js_starts (drop 13 cs @ t) ''&'' = js_starts (drop 13 cs) ''&''"
        by (cases "drop 13 cs") (simp_all add: t')
      moreover have "drop 1 (drop 13 cs @ t) = drop 1 (drop 13 cs) @ t" if "js_starts (drop 13 cs) ''&''"
        using that by (cases "drop 13 cs") auto
      ultimately show ?thesis
        using True 2 long drop_udp_hit [of c cs] drop_udp_hit [of c "cs @ t"] by (auto simp: Let_def)
    next
      case False
      then have "\<not> (query_sep c \<and> starts_i (cs @ t) ''transport=udp'')"
        using starts_within [of cs t "''transport=udp''"] by (auto simp: t')
      with False 2 show ?thesis by (simp add: drop_udp_keep)
    qed
  qed
qed

lemma drop_udp_end_first: "drop_udp (drop_udp_end s) = drop_udp s"
  using drop_udp_end_scan [of "drop (length s - 14) s" "take (length s - 14) s"]
  by (auto simp: drop_udp_end_def Let_def)

lemma last_param: "list_all plain_param qs \<Longrightarrow> qs \<noteq> [] \<Longrightarrow> js_join ''&'' qs \<noteq> [] \<and> \<not> query_sep (last (js_join ''&'' qs))"
proof (induction "''&''" qs rule: js_join.induct)
  case (2 x)
  then show ?case by (auto simp: plain_param_def no_sep_def list_all_iff)
qed auto

text \<open>Normalising a server URL takes the parameter \<open>transport=udp\<close> out of its query, wherever it stands,
  and keeps the host and the other parameters as they are and in order.\<close>

theorem normalize_url_drops_udp:
  assumes "h \<noteq> ''''" "no_sep h" "list_all plain_param ps" "length (filter udp_param ps) \<le> 1"
    "trimmed (with_params h ps)"
  shows "normalizeIceUrl (with_params h ps) = with_params h (filter (\<lambda>p. \<not> udp_param p) ps)"
proof -
  let ?qs = "filter (\<lambda>p. \<not> udp_param p) ps"
  have "drop_udp (with_params h ps) = with_params h ?qs"
  proof (cases ps)
    case Nil
    then show ?thesis using drop_udp_no_sep [OF assms(2), of "[]"] by (simp add: with_params_def)
  next
    case (Cons p ps')
    then show ?thesis
      using drop_udp_params [of "CHR ''?''" p ps'] assms
      by (simp add: with_params_def js_join_amp drop_udp_no_sep Let_def)
  qed
  moreover have "drop_last_sep (with_params h ?qs) = with_params h ?qs"
  proof (cases "?qs = []")
    case True
    then show ?thesis using assms(1,2) by (auto simp: drop_last_sep_def with_params_def no_sep_def list_all_iff)
  next
    case False
    then show ?thesis
      using last_param [of ?qs] assms(3) by (auto simp: drop_last_sep_def with_params_def list_all_iff)
  qed
  moreover have "with_params h ps \<noteq> ''''" using assms(1) by (simp add: with_params_def)
  ultimately show ?thesis
    using assms(5) by (simp add: normalizeIceUrl_def js_trim_trimmed drop_udp_end_first)
qed

theorem normalize_url_drops_udp_witness:
  "normalizeIceUrl (with_params ''turn:a.example:3478'' [''x=1'', ''Transport=UDP'', ''y=2'']) =
     with_params ''turn:a.example:3478'' (filter (\<lambda>p. \<not> udp_param p) [''x=1'', ''Transport=UDP'', ''y=2''])"
proof (rule normalize_url_drops_udp)
  show "list_all plain_param [''x=1'', ''Transport=UDP'', ''y=2'']" by code_simp
  show "length (filter udp_param [''x=1'', ''Transport=UDP'', ''y=2'']) \<le> 1" by code_simp
  show "trimmed (with_params ''turn:a.example:3478'' [''x=1'', ''Transport=UDP'', ''y=2''])" by code_simp
  show "no_sep ''turn:a.example:3478''" by code_simp
qed simp

text \<open>Two of them in a row leave one.\<close>

lemma two_udp_leave_one:
  "normalizeIceUrl ''turn:a.example?transport=udp&transport=udp&x=1'' = ''turn:a.example?transport=udp&x=1''"
  by code_simp

end
