(* ===== verification/PhoneSession.thy ===== *)
theory PhoneSession
  imports PhoneIce Offers PeerIds
begin

text \<open>
  The negotiation side of \<open>class MediaSession\<close> in \<open>media/MediaSession.ts\<close> of the phone: the relay policy
  and the connections made under it, the start and the end of a call, offers, ICE restarts and remote
  signals. As for the page (\<open>Offers\<close>, \<open>Signals\<close>), a peer connection is a view that may change at any
  moment, and an \<open>async\<close> method is cut at its awaits, so that calls overlap as they do on the phone.
  Binding of tracks, statistics, painting and quality are left out; \<open>PhoneTracks\<close> has the ownership of
  the camera and of its clones.
\<close>

section \<open>State\<close>

record phone_ice =
  piServers :: "ice_server list option"
  piTurn :: bool

text \<open>A connection: the object's identity, whether it was made with the policy \<open>relay\<close>, and what it shows.\<close>

record phone_pc =
  ppId :: nat
  ppRelay :: bool
  ppView :: rtc_pc

datatype phone_signal = PsOffer description | PsAnswer description | PsIce jsval | PsBye

text \<open>What \<open>onSignal\<close> was given: the call it was begun in, the call it was sent in, whether it restarts
  ICE, and the signal. A candidate goes out as its \<open>serializeIceCandidate\<close>.\<close>

record phone_sent =
  snBegun :: nat
  snGen :: nat
  snRestart :: bool
  snSignal :: phone_signal

datatype lo_stage = LoCreate | LoLocal | LoGather | LoDone

record lo_job =
  ljGen :: nat
  ljPc :: nat
  ljRestart :: bool
  ljMade :: description
  ljStage :: lo_stage

datatype start_stage = StConfig | StMedia | StOffer | StDone

datatype phone_remote = RmOffer description | RmAnswer description | RmIce jsval | RmBye | RmAvPath

datatype in_phase =
    PiQueued | PiRollback0 | PiPoll | PiMedia | PiRollback | PiCamera | PiSetOffer | PiSetOfferAgain | PiBind
  | PiCreate | PiLocal | PiGather | PiSetAnswer bool | PiDone

record phone_in =
  pjGen :: nat
  pjSignal :: phone_remote
  pjPc :: nat
  pjMade :: description
  pjPhase :: in_phase

text \<open>The fields of the object. Times are 0 when cleared. \<open>phWatch\<close> and \<open>phConnWatch\<close> are armed timers,
  \<open>phWatchCam\<close> counts watchdogs that wait for the camera and \<open>phWarming\<close> warm-ups that do; then the calls in
  progress and, newest first, what was sent and the candidates handed to a connection.\<close>

record phone =
  phIce :: "phone_ice option"
  phHideIp :: bool
  phForceOnce :: bool
  phSticky :: bool
  phPc :: "phone_pc option"
  phNextPc :: nat
  phRelayPc :: bool
  phWarmed :: bool
  phPrimed :: bool
  phHasRemote :: bool
  phIsOfferer :: bool
  phHubOfferer :: bool
  phMaking :: bool
  phLastOfferAt :: int
  phOfferSent :: bool
  phWatch :: bool
  phConnWatch :: bool
  phGen :: nat
  phGotAnswer :: bool
  phAnswered :: bool
  phStarting :: bool
  phStartingAt :: int
  phRemoteOfferAt :: int
  phPendingOffer :: int
  phRestartCount :: int
  phRestartAt :: int
  phPendingIce :: "jsval list"
  phGotVideo :: bool
  phCallStart :: int
  phMatchMark :: int
  phFrames :: bool
  phSecondary :: bool
  phWatchCam :: nat
  phWarming :: nat
  phOffers :: "lo_job list"
  phStarts :: "start_stage list"
  phInbox :: "phone_in list"
  phSent :: "phone_sent list"
  phAdded :: "jsval list"

definition new_phone :: phone where
  "new_phone =
     \<lparr>phIce = None, phHideIp = False, phForceOnce = False, phSticky = False, phPc = None, phNextPc = 0,
      phRelayPc = False, phWarmed = False, phPrimed = False, phHasRemote = False, phIsOfferer = False,
      phHubOfferer = False, phMaking = False, phLastOfferAt = 0, phOfferSent = False, phWatch = False,
      phConnWatch = False, phGen = 0, phGotAnswer = False, phAnswered = False, phStarting = False,
      phStartingAt = 0, phRemoteOfferAt = 0, phPendingOffer = 0, phRestartCount = 0, phRestartAt = 0,
      phPendingIce = [], phGotVideo = False, phCallStart = 0, phMatchMark = 0, phFrames = False,
      phSecondary = False, phWatchCam = 0, phWarming = 0, phOffers = [], phStarts = [], phInbox = [],
      phSent = [], phAdded = []\<rparr>"

text \<open>What the methods read beside the object: the clock, whether the native module is linked, whether a
  local stream and a live camera track are there, whether the connection has tracks, and whether it
  has \<open>restartIce\<close>.\<close>

record phone_env =
  meNow :: int
  meLinked :: bool
  meLocal :: bool
  meCam :: bool
  meTracks :: bool
  meRestartApi :: bool

section \<open>The relay policy\<close>

definition hasIceServers :: "phone \<Rightarrow> bool" where
  "hasIceServers s = (case phIce s of None \<Rightarrow> False
     | Some c \<Rightarrow> (case piServers c of None \<Rightarrow> False | Some l \<Rightarrow> l \<noteq> []))"

definition turn_flag :: "phone \<Rightarrow> bool" where
  "turn_flag s = (case phIce s of None \<Rightarrow> False | Some c \<Rightarrow> piTurn c)"

definition hasTurn :: "phone \<Rightarrow> bool" where
  "hasTurn s \<longleftrightarrow> turn_flag s \<and> hasIceServers s"

definition desiredRelayPolicy :: "phone \<Rightarrow> bool" where
  "desiredRelayPolicy s \<longleftrightarrow> (hasTurn s \<or> turn_flag s) \<and> (phHideIp s \<or> phForceOnce s \<or> phSticky s)"

definition shouldStripHost :: "phone \<Rightarrow> bool" where
  "shouldStripHost s \<longleftrightarrow> phHideIp s \<or> phForceOnce s \<or> phSticky s"

definition pcConfig :: "phone \<Rightarrow> ice_server list \<times> bool" where
  "pcConfig s = phone_config (case phIce s of None \<Rightarrow> None | Some c \<Rightarrow> piServers c)
     ((hasTurn s \<or> turn_flag s) \<and> (phHideIp s \<or> phForceOnce s \<or> phSticky s))"

definition inAnsweredCall :: "phone \<Rightarrow> bool" where
  "inAnsweredCall s \<longleftrightarrow> phHasRemote s \<or> phAnswered s"

definition isPcDead :: "phone_pc option \<Rightarrow> bool" where
  "isPcDead po = (case po of None \<Rightarrow> True
     | Some p \<Rightarrow> pcIce (ppView p) = IceClosed \<or> pcConn (ppView p) = ConnClosed \<or> pcSignaling (ppView p) = SdpClosed)"

definition pc_remote :: "phone \<Rightarrow> bool" where
  "pc_remote s = (case phPc s of None \<Rightarrow> False | Some p \<Rightarrow> pcRemote (ppView p) \<noteq> None)"

definition pc_local :: "phone \<Rightarrow> bool" where
  "pc_local s = (case phPc s of None \<Rightarrow> False | Some p \<Rightarrow> pcLocal (ppView p) \<noteq> None)"

definition pc_signaling :: "sdp_state \<Rightarrow> phone \<Rightarrow> bool" where
  "pc_signaling st s = (case phPc s of None \<Rightarrow> False | Some p \<Rightarrow> pcSignaling (ppView p) = st)"

text \<open>An offer of the other side is in the pipe.\<close>

definition offer_pending :: "int \<Rightarrow> int \<Rightarrow> phone \<Rightarrow> bool" where
  "offer_pending window now s \<longleftrightarrow> phPendingOffer s \<noteq> 0 \<and> now - phPendingOffer s < window"

definition hasLiveAnsweredIce :: "phone_env \<Rightarrow> phone \<Rightarrow> bool" where
  "hasLiveAnsweredIce e s =
     (case phPc s of None \<Rightarrow> False
      | Some p \<Rightarrow>
          if \<not> phHasRemote s \<and> pcRemote (ppView p) = None then False
          else if \<not> ice_up (pcIce (ppView p)) \<and> pcIce (ppView p) \<noteq> IceChecking then False
          else meTracks e)"

text \<open>\<open>dropDeadPc(why, { keepPendingIce, allowInCall })\<close>\<close>

definition dropDeadPc :: "bool \<Rightarrow> bool \<Rightarrow> phone \<Rightarrow> bool \<times> phone" where
  "dropDeadPc keepPendingIce allowInCall s =
     (case phPc s of None \<Rightarrow> (False, s)
      | Some p \<Rightarrow>
          if \<not> isPcDead (phPc s) then (False, s)
          else if inAnsweredCall s \<and> \<not> allowInCall \<and> pcSignaling (ppView p) \<noteq> SdpClosed \<and>
                  pcConn (ppView p) \<noteq> ConnClosed
          then (False, s)
          else (True, s\<lparr>phPc := None, phRelayPc := False, phWarmed := False, phPrimed := False, phHasRemote := False,
                  phPendingIce := (if keepPendingIce then phPendingIce s else [])\<rparr>))"

text \<open>The ICE state as the text \<open>shouldResetStuckExtraPc\<close> (\<open>PeerIds\<close>) reads; no connection is the empty text.\<close>

definition ice_text :: "phone_pc option \<Rightarrow> string" where
  "ice_text po = (case po of None \<Rightarrow> ''''
     | Some p \<Rightarrow> (case pcIce (ppView p) of IceNew \<Rightarrow> ''new'' | IceChecking \<Rightarrow> ''checking'' | IceConnected \<Rightarrow> ''connected''
         | IceCompleted \<Rightarrow> ''completed'' | IceDisconnected \<Rightarrow> ''disconnected'' | IceFailed \<Rightarrow> ''failed'' | IceClosed \<Rightarrow> ''closed''))"

definition resetStuckExtraPc :: "phone \<Rightarrow> bool \<times> phone" where
  "resetStuckExtraPc s =
     (if \<not> shouldResetStuckExtraPc (phSecondary s) (ice_text (phPc s)) (phGotVideo s)
      then (False, s)
      else (True, s\<lparr>phPc := None, phOfferSent := False, phRelayPc := False, phWarmed := False, phPrimed := False,
              phHasRemote := False, phAnswered := False, phGotAnswer := False, phMaking := False, phPendingOffer := 0\<rparr>))"

definition ensurePc :: "phone_env \<Rightarrow> phone \<Rightarrow> phone" where
  "ensurePc e s0 =
     (let s = (if \<not> inAnsweredCall s0 then snd (dropDeadPc False False s0) else s0)
      in if phPc s \<noteq> None then s
         else if \<not> meLinked e then s
         else let relay = snd (pcConfig s)
              in s\<lparr>phRelayPc := relay, phPc := Some \<lparr>ppId = phNextPc s, ppRelay = relay, ppView = fresh_pc\<rparr>,
                   phNextPc := phNextPc s + 1, phHasRemote := False, phPendingIce := []\<rparr>)"

definition ensureRelayPolicyPc :: "phone_env \<Rightarrow> phone \<Rightarrow> phone" where
  "ensureRelayPolicyPc e s =
     (let wantPure = desiredRelayPolicy s;
          remoteApplied = (phHasRemote s \<or> phAnswered s \<or> pc_remote s);
          midCreate = (phMaking s \<or> phOfferSent s);
          dirty = (phPc s \<noteq> None \<and> \<not> remoteApplied \<and> \<not> midCreate \<and> \<not> offer_pending 8000 (meNow e) s \<and>
                   (pc_local s \<or> pc_signaling SdpLocalOffer s));
          wrongPolicy = (phPc s \<noteq> None \<and> \<not> remoteApplied \<and> \<not> midCreate \<and> wantPure \<and> \<not> phRelayPc s)
      in if phPc s = None then ensurePc e s
         else let (dropped, s1) = (if \<not> inAnsweredCall s then dropDeadPc False False s else (False, s))
              in if dropped then ensurePc e s1
                 else if \<not> wrongPolicy \<and> \<not> dirty then s1
                 else ensurePc e (s1\<lparr>phPc := None, phWarmed := False, phPrimed := False, phPendingIce := [],
                        phMaking := False\<rparr>))"

definition setForceRelay :: "phone_env \<Rightarrow> bool \<Rightarrow> phone \<Rightarrow> phone" where
  "setForceRelay e next_on s0 =
     (let was = (phForceOnce s0 \<or> phSticky s0);
          s = s0\<lparr>phForceOnce := next_on, phSticky := next_on\<rparr>;
          wantPure = desiredRelayPolicy s
      in if next_on = was \<and> phPc s \<noteq> None \<and> phRelayPc s = wantPure then s
         else if next_on = was \<and> phPc s = None then s
         else if phHasRemote s \<or> phAnswered s \<or> phMaking s \<or> phOfferSent s \<or> phStarting s \<or>
                 offer_pending 8000 (meNow e) s \<or> phGotVideo s
         then (if next_on \<and> wantPure \<and> \<not> phHasRemote s \<and> \<not> phAnswered s \<and> \<not> phMaking s
               then ensureRelayPolicyPc e s else s)
         else if phRelayPc s = wantPure \<and> phPc s \<noteq> None then s
         else let s1 = s\<lparr>phPc := None, phRelayPc := False, phWarmed := False, phPendingIce := [], phMaking := False\<rparr>
              in if hasIceServers s1 then (ensurePc e s1)\<lparr>phWarmed := True\<rparr> else s1)"

definition forceRelayRebuild :: "phone \<Rightarrow> phone" where
  "forceRelayRebuild s =
     (if \<not> hasTurn s then s
      else s\<lparr>phForceOnce := True, phSticky := True, phPc := None, phRelayPc := False, phWarmed := False,
             phHasRemote := False, phPendingIce := [], phMaking := False, phGotVideo := False\<rparr>)"

definition setIceConfig :: "phone_ice \<Rightarrow> phone \<Rightarrow> phone" where
  "setIceConfig cfg s = s\<lparr>phIce := Some cfg\<rparr>"

definition setHideIp :: "bool \<Rightarrow> phone \<Rightarrow> phone" where
  "setHideIp on s = s\<lparr>phHideIp := on\<rparr>"

section \<open>Candidates\<close>

text \<open>\<open>onicecandidate\<close>\<close>

definition phone_trickles :: "phone \<Rightarrow> jsval \<Rightarrow> bool" where
  "phone_trickles s c =
     (if \<not> js_truthy c then False
      else if desiredRelayPolicy s \<and> \<not> phone_isRelay c then False
      else if shouldStripHost s \<and> has_typ ''host'' (str_or (vget c ''candidate'')) then False
      else if phone_isMdnsHost c \<or> phone_isMdnsHost (JStr (str_or (vget c ''candidate''))) then False
      else serializeIceCandidate c \<noteq> '''')"

definition send :: "nat \<Rightarrow> bool \<Rightarrow> phone_signal \<Rightarrow> phone \<Rightarrow> phone" where
  "send begun restart m s =
     s\<lparr>phSent := \<lparr>snBegun = begun, snGen = phGen s, snRestart = restart, snSignal = m\<rparr> # phSent s\<rparr>"

definition phone_candidate :: "jsval \<Rightarrow> phone \<Rightarrow> phone" where
  "phone_candidate c s = (if phone_trickles s c then send (phGen s) False (PsIce c) s else s)"

text \<open>A candidate of the other side, and the flush of the early ones.\<close>

definition has_candidate :: "jsval \<Rightarrow> bool" where
  "has_candidate c = js_truthy (vget c ''candidate'')"

definition phone_ice_in :: "jsval \<Rightarrow> phone \<Rightarrow> phone" where
  "phone_ice_in c s =
     (if desiredRelayPolicy s \<and> has_candidate c \<and> \<not> phone_isRelay c then s
      else if has_candidate c \<and> phone_isMdnsHost c then s
      else if phPc s = None \<or> \<not> phHasRemote s then s\<lparr>phPendingIce := phPendingIce s @ [c]\<rparr>
      else s\<lparr>phAdded := c # phAdded s\<rparr>)"

definition phone_flush :: "phone \<Rightarrow> phone" where
  "phone_flush s =
     (let batch = phPendingIce s;
          kept = (if desiredRelayPolicy s
                  then filter (\<lambda>c. \<not> js_truthy c \<or> \<not> has_candidate c \<or> phone_isRelay c) batch
                  else filter (\<lambda>c. \<not> js_truthy c \<or> \<not> has_candidate c \<or> \<not> phone_isMdnsHost c) batch)
      in s\<lparr>phPendingIce := [], phAdded := rev kept @ phAdded s\<rparr>)"

section \<open>Offers\<close>

text \<open>The edits of a description on its way out and on its way in.\<close>

definition phone_sdp :: "phone \<Rightarrow> string \<Rightarrow> string" where
  "phone_sdp s sdp0 =
     (let sdp = (if sdp0 \<noteq> '''' then phone_stripMdns sdp0 else sdp0)
      in if desiredRelayPolicy s \<and> sdp \<noteq> '''' then phone_stripNonRelay sdp
         else if shouldStripHost s \<and> sdp \<noteq> '''' then phone_stripHost sdp
         else sdp)"

datatype phone_skip =
    PkWasAnswerer | PkNoPc | PkMaking | PkSent | PkAnswered | PkHasRemote | PkGrace | PkDebounce | PkStable | PkHaveLocal

definition phone_age :: "int \<Rightarrow> phone \<Rightarrow> int" where
  "phone_age now s = (if phCallStart s \<noteq> 0 then now - phCallStart s else 99999)"

definition was_answerer :: "phone \<Rightarrow> bool" where
  "was_answerer s \<longleftrightarrow> phAnswered s \<or> phRemoteOfferAt s > 0 \<or> phHasRemote s \<and> \<not> phIsOfferer s"

definition phone_offer_gate :: "int \<Rightarrow> bool \<Rightarrow> phone \<Rightarrow> phone_skip option" where
  "phone_offer_gate now restart s =
     (case phPc s of None \<Rightarrow> Some PkNoPc
      | Some p \<Rightarrow>
          if phMaking s then Some PkMaking
          else if phOfferSent s \<and> \<not> restart then Some PkSent
          else if phGotAnswer s \<and> \<not> restart then Some PkAnswered
          else if phHasRemote s \<and> \<not> restart \<and> \<not> phIsOfferer s then Some PkHasRemote
          else if restart \<and> phone_age now s < 45000 then Some PkGrace
          else if \<not> restart \<and> phLastOfferAt s \<noteq> 0 \<and> now - phLastOfferAt s < 8000 then Some PkDebounce
          else if \<not> restart \<and> pcSignaling (ppView p) = SdpStable \<and> phHasRemote s then Some PkStable
          else if \<not> restart \<and> pcSignaling (ppView p) = SdpLocalOffer \<and> phLastOfferAt s \<noteq> 0 then Some PkHaveLocal
          else None)"

definition phone_offer :: "phone_env \<Rightarrow> bool \<Rightarrow> phone \<Rightarrow> phone_skip option \<times> phone" where
  "phone_offer e restart s0 =
     (if was_answerer s0 then (Some PkWasAnswerer, s0)
      else let s = ensurePc e (if desiredRelayPolicy s0 then ensureRelayPolicyPc e s0 else s0)
           in case phone_offer_gate (meNow e) restart s of
                Some r \<Rightarrow> (Some r, s)
              | None \<Rightarrow>
                  (None, s\<lparr>phOfferSent := (phOfferSent s \<or> \<not> restart),
                     phOffers := phOffers s @ [\<lparr>ljGen = phGen s, ljPc = (case phPc s of None \<Rightarrow> 0 | Some p \<Rightarrow> ppId p),
                       ljRestart = restart, ljMade = \<lparr>dsType = ''offer'', dsSdp = None\<rparr>, ljStage = LoCreate\<rparr>],
                     phMaking := True\<rparr>))"

text \<open>From await to await. A call is stale when the call it began in is over or its connection is gone; a
  stale one, too, clears \<open>makingOffer\<close> on its way out.\<close>

definition upd_offer :: "nat \<Rightarrow> (lo_job \<Rightarrow> lo_job) \<Rightarrow> phone \<Rightarrow> phone" where
  "upd_offer k f s = (if k < length (phOffers s) then s\<lparr>phOffers := (phOffers s)[k := f (phOffers s ! k)]\<rparr> else s)"

definition offer_at :: "nat \<Rightarrow> lo_stage \<Rightarrow> phone \<Rightarrow> bool" where
  "offer_at k st s \<longleftrightarrow> k < length (phOffers s) \<and> ljStage (phOffers s ! k) = st"

definition stale_offer :: "nat \<Rightarrow> phone \<Rightarrow> bool" where
  "stale_offer k s \<longleftrightarrow> ljGen (phOffers s ! k) \<noteq> phGen s \<or>
     (case phPc s of None \<Rightarrow> True | Some p \<Rightarrow> ppId p \<noteq> ljPc (phOffers s ! k))"

definition end_offer :: "nat \<Rightarrow> phone \<Rightarrow> phone" where
  "end_offer k s = (upd_offer k (\<lambda>j. j\<lparr>ljStage := LoDone\<rparr>) s)\<lparr>phMaking := False\<rparr>"

definition offer_refused :: "nat \<Rightarrow> phone \<Rightarrow> phone" where
  "offer_refused k s =
     end_offer k (if \<not> ljRestart (phOffers s ! k) \<and> ljGen (phOffers s ! k) = phGen s then s\<lparr>phOfferSent := False\<rparr> else s)"

definition offer_made :: "description \<Rightarrow> nat \<Rightarrow> phone \<Rightarrow> phone" where
  "offer_made made k s =
     (if stale_offer k s then end_offer k s
      else upd_offer k (\<lambda>j. j\<lparr>ljMade := made, ljStage := LoLocal\<rparr>) s)"

definition emit_offer :: "int \<Rightarrow> nat \<Rightarrow> phone \<Rightarrow> phone" where
  "emit_offer now k s =
     (let j = phOffers s ! k;
          off = (case phPc s of None \<Rightarrow> ljMade j
                 | Some p \<Rightarrow> (case pcLocal (ppView p) of None \<Rightarrow> ljMade j | Some d \<Rightarrow> d));
          sdp = phone_sdp s (opt_text (dsSdp off))
      in end_offer k
           (if sdp \<noteq> '''' then
              send (ljGen j) (ljRestart j)
                (PsOffer \<lparr>dsType = (if dsType off = '''' then ''offer'' else dsType off), dsSdp = Some sdp\<rparr>)
                (s\<lparr>phOfferSent := True, phLastOfferAt := now\<rparr>)
            else if \<not> ljRestart j then s\<lparr>phOfferSent := False\<rparr> else s))"

definition offer_local_done :: "int \<Rightarrow> nat \<Rightarrow> phone \<Rightarrow> phone" where
  "offer_local_done now k s =
     (if stale_offer k s then end_offer k s
      else if desiredRelayPolicy s then upd_offer k (\<lambda>j. j\<lparr>ljStage := LoGather\<rparr>) s
      else emit_offer now k s)"

definition offer_gather_done :: "int \<Rightarrow> nat \<Rightarrow> phone \<Rightarrow> phone" where
  "offer_gather_done now k s = (if stale_offer k s then end_offer k s else emit_offer now k s)"

section \<open>ICE restarts and timers\<close>

definition recent_remote_offer :: "int \<Rightarrow> int \<Rightarrow> phone \<Rightarrow> bool" where
  "recent_remote_offer window now s \<longleftrightarrow> phRemoteOfferAt s > 0 \<and> now - phRemoteOfferAt s < window"

definition ice_is :: "ice_conn \<Rightarrow> phone \<Rightarrow> bool" where
  "ice_is i s = (case phPc s of None \<Rightarrow> False | Some p \<Rightarrow> pcIce (ppView p) = i)"

definition conn_is :: "pc_conn \<Rightarrow> phone \<Rightarrow> bool" where
  "conn_is c s = (case phPc s of None \<Rightarrow> False | Some p \<Rightarrow> pcConn (ppView p) = c)"

text \<open>The gates of \<open>tryIceRestart\<close>; \<open>Some b\<close> is an early return of \<open>b\<close>.\<close>

definition restart_gate :: "int \<Rightarrow> bool \<Rightarrow> bool \<Rightarrow> phone \<Rightarrow> bool option" where
  "restart_gate now force earlyBlack s =
     (if \<not> force \<and> \<not> earlyBlack \<and> desiredRelayPolicy s \<and> phone_age now s < 9000 then Some False
      else if phRestartCount s \<ge> 1 \<and> phHasRemote s then Some False
      else if phFrames s \<and> phone_age now s < 18000 then Some False
      else if \<not> phFrames s \<and> phone_age now s < 20000 then Some False
      else if ice_is IceChecking s \<or> ice_is IceNew s \<or> conn_is ConnConnecting s then Some False
      else if phOfferSent s \<and> \<not> phGotAnswer s then Some False
      else if \<not> force \<and> now - phRestartAt s < 8000 then Some False
      else if force \<and> now - phRestartAt s < 5000 \<and> phRestartCount s > 0 then Some True
      else if phRestartCount s \<ge> (if force then 3 else 2) then Some False
      else if phPc s = None then Some False
      else None)"

definition phone_restart :: "phone_env \<Rightarrow> bool \<Rightarrow> bool \<Rightarrow> bool \<Rightarrow> phone \<Rightarrow> bool \<times> phone" where
  "phone_restart e force promote earlyBlack s0 =
     (let now = meNow e
      in case restart_gate now force earlyBlack s0 of
           Some b \<Rightarrow> (b, s0)
         | None \<Rightarrow>
             let s = s0\<lparr>phRestartAt := now, phRestartCount := phRestartCount s0 + 1\<rparr>;
                 recent = recent_remote_offer 6000 now s;
                 canPromote = (promote \<and> \<not> phHasRemote s \<and> \<not> recent \<and> \<not> phMaking s \<and> \<not> phSecondary s \<and> \<not> phAnswered s)
             in if phAnswered s \<or> phHasRemote s \<and> \<not> phIsOfferer s then (meRestartApi e, s)
                else if phIsOfferer s \<or> canPromote then
                  (True, snd (phone_offer e True (if canPromote then s\<lparr>phIsOfferer := True\<rparr> else s)))
                else if meRestartApi e then
                  (True, if force \<and> phRestartCount s \<ge> 3 \<and> \<not> phHasRemote s \<and> \<not> recent \<and> \<not> phMaking s \<and>
                            \<not> phSecondary s \<and> \<not> phAnswered s
                         then snd (phone_offer e True (s\<lparr>phIsOfferer := True\<rparr>)) else s)
                else (True, if \<not> phHasRemote s \<and> \<not> recent \<and> \<not> phSecondary s \<and> \<not> phAnswered s \<and> phIsOfferer s
                            then snd (phone_offer e True s) else s))"

text \<open>The watchdog of the offer: what it does after a wait for the camera, and when it fires.\<close>

definition watchdog_offer :: "phone_env \<Rightarrow> phone \<Rightarrow> phone" where
  "watchdog_offer e s =
     (if phOfferSent s \<or> phHasRemote s then s
      else if phAnswered s then s
      else if pc_remote s then s
      else if offer_pending 8000 (meNow e) s then s
      else let s1 = (if phPc s = None then ensurePc e s else s)
           in if \<not> phIsOfferer s1 then s1 else snd (phone_offer e False s1))"

definition phone_watchdog :: "phone_env \<Rightarrow> phone \<Rightarrow> phone" where
  "phone_watchdog e s0 =
     (let s = s0\<lparr>phWatch := False\<rparr>
      in if phAnswered s then s
         else if phSecondary s \<and> \<not> phIsOfferer s then s
         else if phOfferSent s \<or> phHasRemote s then s
         else if phGotVideo s then s
         else if pc_remote s then s
         else if phRemoteOfferAt s > 0 then s
         else if offer_pending 8000 (meNow e) s then
           (if \<not> phHasRemote s \<and> \<not> phAnswered s then s\<lparr>phWatch := True\<rparr> else s)
         else if \<not> phIsOfferer s \<and> \<not> phHubOfferer s then
           (let s1 = (if phPc s = None then ensurePc e s else s)
            in if \<not> phHasRemote s1 \<and> \<not> phAnswered s1 \<and> \<not> phOfferSent s1 then s1\<lparr>phWatch := True\<rparr> else s1)
         else if \<not> meLocal e \<and> \<not> phSecondary s then s\<lparr>phWatchCam := phWatchCam s + 1\<rparr>
         else watchdog_offer e s)"

text \<open>\<open>scheduleConnectingWatch\<close>: the timer when it fires.\<close>

definition phone_conn_watch :: "phone_env \<Rightarrow> phone \<Rightarrow> phone" where
  "phone_conn_watch e s0 =
     (let s = s0\<lparr>phConnWatch := False\<rparr>; now = meNow e;
          noRemote = (\<not> phHasRemote s \<and> \<not> phGotVideo s); age = phone_age now s;
          recent = recent_remote_offer 5000 now s
      in if phPc s = None then s
         else if conn_is ConnConnected s \<or> ice_is IceConnected s \<or> ice_is IceCompleted s \<or> phGotVideo s then s
         else if age < 10000 \<and> (ice_is IceNew s \<or> ice_is IceChecking s \<or> conn_is ConnConnecting s) \<and> \<not> noRemote
         then s\<lparr>phConnWatch := True\<rparr>
         else if conn_is ConnFailed s \<or> ice_is IceFailed s \<or> noRemote \<and> age \<ge> 9000 \<and> \<not> recent \<or>
                 (conn_is ConnDisconnected s \<or> ice_is IceDisconnected s) \<and> age \<ge> 9000
         then (let promote = (\<not> phIsOfferer s \<and> \<not> phAnswered s \<and> noRemote \<and> age \<ge> 25000 \<and> \<not> recent \<and> \<not> phMaking s)
               in (snd (phone_restart e True promote False s))\<lparr>phConnWatch := True\<rparr>)
         else if conn_is ConnConnecting s \<or> ice_is IceChecking s \<or> ice_is IceNew s then s\<lparr>phConnWatch := True\<rparr>
         else s)"

text \<open>A probe after a disconnect, and the black-screen watch (\<open>last\<close>: the offerer's timer at 45 s).\<close>

definition phone_probe :: "phone_env \<Rightarrow> phone \<Rightarrow> phone" where
  "phone_probe e s =
     (if phPc s = None then s
      else if ice_is IceFailed s \<or> conn_is ConnFailed s \<or>
              (ice_is IceDisconnected s \<or> conn_is ConnDisconnected s) \<and> phCallStart s \<noteq> 0 \<and>
              meNow e - phCallStart s > 3000
      then snd (phone_restart e True False False s) else s)"

definition phone_black_watch :: "phone_env \<Rightarrow> bool \<Rightarrow> phone \<Rightarrow> phone" where
  "phone_black_watch e restart s =
     (if phPc s = None then s
      else if phFrames s then s
      else if \<not> phHasRemote s \<and> \<not> pc_remote s then s
      else if restart \<and> \<not> phAnswered s then snd (phone_restart e True False True s) else s)"

definition phone_connected :: "phone \<Rightarrow> phone" where
  "phone_connected s = s\<lparr>phRestartCount := 0, phConnWatch := False\<rparr>"

section \<open>Warming up and hanging up\<close>

definition phone_warm :: "phone_env \<Rightarrow> bool \<Rightarrow> phone \<Rightarrow> phone" where
  "phone_warm e preferRelay s =
     (if phHasRemote s \<or> phAnswered s \<or> phMaking s \<or> phOfferSent s \<or> phStarting s \<or> offer_pending 8000 (meNow e) s then s
      else if pc_local s \<or> pc_remote s then s
      else if ice_is IceChecking s \<or> ice_is IceConnected s \<or> ice_is IceCompleted s \<or> conn_is ConnConnecting s \<or>
              conn_is ConnConnected s then s
      else if \<not> hasIceServers s then s
      else let s1 = (if preferRelay \<and> hasTurn s then s\<lparr>phForceOnce := True, phSticky := True\<rparr> else s);
               s2 = (if phPc s1 \<noteq> None \<and> phRelayPc s1 \<noteq> desiredRelayPolicy s1 \<and> \<not> phHasRemote s1 \<and> \<not> phAnswered s1 \<and>
                        \<not> phMaking s1
                     then s1\<lparr>phPc := None, phWarmed := False, phPrimed := False\<rparr> else s1);
               s3 = (if phPc s2 = None then ensurePc e s2 else s2)
           in s3\<lparr>phWarming := phWarming s3 + 1\<rparr>)"

definition warm_done :: "bool \<Rightarrow> phone \<Rightarrow> phone" where
  "warm_done ok s0 =
     (if phWarming s0 = 0 then s0
      else let s = s0\<lparr>phWarming := phWarming s0 - 1\<rparr>
           in if \<not> ok then s
              else let s1 = s\<lparr>phWarmed := True\<rparr>
                   in if hasTurn s1 \<and> (phRelayPc s1 \<or> phForceOnce s1) then s1\<lparr>phPrimed := False\<rparr> else s1)"

text \<open>\<open>closeCall\<close>; \<open>clear\<close> is its option \<open>clearForceRelay\<close>, \<open>preview\<close> says that a local stream is left.\<close>

definition phone_close :: "phone_env \<Rightarrow> bool \<Rightarrow> bool \<Rightarrow> bool option \<Rightarrow> bool \<Rightarrow> phone \<Rightarrow> phone" where
  "phone_close e keepLocal sendBye clear preview s0 =
     (let clearForce = (case clear of None \<Rightarrow> \<not> keepLocal | Some b \<Rightarrow> b);
          s1 = s0\<lparr>phPc := None, phRelayPc := False, phSecondary := False, phGen := phGen s0 + 1, phOfferSent := False,
                 phConnWatch := False, phWatch := False, phRestartCount := 0, phRestartAt := 0, phLastOfferAt := 0,
                 phRemoteOfferAt := 0, phPendingOffer := 0, phGotAnswer := False, phAnswered := False,
                 phHubOfferer := False, phIsOfferer := False, phStarting := False, phMaking := False,
                 phGotVideo := False, phPendingIce := [], phHasRemote := False, phWarmed := False,
                 phPrimed := False, phCallStart := 0, phMatchMark := 0, phFrames := False\<rparr>;
          s2 = (if clearForce \<and> \<not> phHideIp s1 then s1\<lparr>phForceOnce := False, phSticky := False\<rparr> else s1);
          s3 = (if sendBye then send (phGen s2) False PsBye s2 else s2)
      in if hasIceServers s3 \<and> keepLocal \<and> preview
         then phone_warm e (phHideIp s3 \<or> phSticky s3 \<or> phForceOnce s3) s3 else s3)"

section \<open>Starting a call\<close>

definition start_at :: "nat \<Rightarrow> start_stage \<Rightarrow> phone \<Rightarrow> bool" where
  "start_at k st s \<longleftrightarrow> k < length (phStarts s) \<and> phStarts s ! k = st"

definition start_to :: "nat \<Rightarrow> start_stage \<Rightarrow> phone \<Rightarrow> phone" where
  "start_to k st s = s\<lparr>phStarts := (phStarts s)[k := st]\<rparr>"

text \<open>The \<open>finally\<close> of \<open>startCall\<close>.\<close>

definition end_start :: "nat \<Rightarrow> phone \<Rightarrow> phone" where
  "end_start k s = (start_to k StDone s)\<lparr>phStarting := False, phStartingAt := 0\<rparr>"

definition watch_conn :: "phone \<Rightarrow> phone" where
  "watch_conn s = s\<lparr>phConnWatch := True\<rparr>"

definition pc_busy :: "phone \<Rightarrow> bool" where
  "pc_busy s \<longleftrightarrow> phPc s \<noteq> None \<and> \<not> isPcDead (phPc s) \<and>
     (phHasRemote s \<or> phMaking s \<or> pc_local s \<or> pc_remote s \<or>
      \<not> pc_signaling SdpStable s \<and> \<not> pc_signaling SdpClosed s)"

definition start_pc :: "phone_env \<Rightarrow> nat \<Rightarrow> phone \<Rightarrow> phone" where
  "start_pc e k s =
     (if pc_busy s \<or> offer_pending 8000 (meNow e) s then
        (if phIsOfferer s \<and> phPc s \<noteq> None \<and> \<not> pc_local s
         then start_to k StOffer (snd (phone_offer e False s))
         else end_start k (watch_conn s))
      else if phPc s \<noteq> None \<and> \<not> phWarmed s \<and> (phAnswered s \<or> phHasRemote s) then end_start k (watch_conn s)
      else let s1 = (if phPc s \<noteq> None \<and> \<not> phWarmed s
                     then s\<lparr>phPc := None, phWarmed := False, phHasRemote := False, phPendingIce := []\<rparr> else s);
               s2 = ensurePc e s1
           in if phPc s2 = None then end_start k s2
              else let s3 = s2\<lparr>phWarmed := False\<rparr>
                   in if phIsOfferer s3 then start_to k StOffer (snd (phone_offer e False s3))
                      else end_start k (watch_conn s3))"

definition start_policy :: "phone_env \<Rightarrow> nat \<Rightarrow> phone \<Rightarrow> phone" where
  "start_policy e k s0 =
     (let s1 = ensureRelayPolicyPc e s0;
          s = (if phPc s1 \<noteq> None \<and> \<not> phHasRemote s1 \<and> \<not> phAnswered s1 \<and> \<not> phMaking s1 \<and>
                  phRelayPc s1 \<noteq> desiredRelayPolicy s1
               then s1\<lparr>phPc := None, phWarmed := False, phPendingIce := [], phMaking := False\<rparr> else s1);
          waits = (if phSecondary s then \<not> hasIceServers s else if \<not> meCam e then True else \<not> hasIceServers s)
      in if waits then start_to k StMedia s else start_pc e k s)"

definition start_begin :: "phone_env \<Rightarrow> bool \<Rightarrow> phone \<Rightarrow> phone" where
  "start_begin e isOfferer s0 =
     (let s = s0\<lparr>phStarting := True, phStartingAt := meNow e,
                 phHubOfferer := (if phAnswered s0 then phHubOfferer s0 else isOfferer),
                 phIsOfferer := (if phAnswered s0 then False else isOfferer),
                 phGotVideo := False, phFrames := False, phCallStart := meNow e, phRestartCount := 0,
                 phGotAnswer := (phGotAnswer s0 \<and> phOfferSent s0), phWatch := True, phMatchMark := meNow e\<rparr>;
          k = length (phStarts s);
          wait = ((phForceOnce s \<or> phHideIp s) \<and> \<not> hasTurn s);
          s1 = s\<lparr>phStarts := phStarts s @ [StConfig]\<rparr>
      in if wait then s1 else start_policy e k s1)"

definition start_checks :: "phone_env \<Rightarrow> bool \<Rightarrow> bool \<Rightarrow> phone \<Rightarrow> phone" where
  "start_checks e isOfferer iceOk s =
     (let now = meNow e;
          alreadyLive = (phPc s \<noteq> None \<and> (phGotVideo s \<or> phHasRemote s \<and> iceOk \<or> pc_remote s \<and> iceOk));
          realOffer = (case phPc s of None \<Rightarrow> False
            | Some p \<Rightarrow> pcSignaling (ppView p) = SdpLocalOffer \<or>
                (case pcLocal (ppView p) of None \<Rightarrow> False | Some d \<Rightarrow> dsType d = ''offer''))
      in if \<not> isOfferer \<and> phPc s \<noteq> None \<and> offer_pending 1500 now s then watch_conn s
         else if phMaking s \<or> phOfferSent s \<or> phGotAnswer s \<or> realOffer then watch_conn s
         else if alreadyLive then watch_conn s
         else start_begin e isOfferer s)"

definition phone_start :: "phone_env \<Rightarrow> bool \<Rightarrow> bool option \<Rightarrow> phone \<Rightarrow> phone" where
  "phone_start e isOfferer force s0 =
     (let now = meNow e;
          s1 = (if force = Some True then setForceRelay e True s0 else s0)
      in if phStarting s1 \<and> \<not> (phStartingAt s1 \<noteq> 0 \<and> now - phStartingAt s1 > 2500) then s1
         else let s2 = s1\<lparr>phStarting := False\<rparr>;
                  s3 = (if \<not> inAnsweredCall s2 then snd (dropDeadPc False False s2) else s2);
                  iceOk = (ice_is IceConnected s3 \<or> ice_is IceCompleted s3 \<or> conn_is ConnConnected s3);
                  hasRemoteSdp = (phHasRemote s3 \<or> pc_remote s3);
                  justApplied = recent_remote_offer 8000 now s3;
                  (reset, s4) = (if \<not> justApplied then resetStuckExtraPc s3 else (False, s3));
                  offerAge = (if phRemoteOfferAt s4 > 0 then now - phRemoteOfferAt s4 else 99999)
              in if reset then start_checks e isOfferer iceOk s4
                 else if hasRemoteSdp \<and> phPc s4 \<noteq> None \<and> \<not> isOfferer then
                   (if iceOk \<and> offerAge > 3000
                    then start_checks e isOfferer iceOk
                           (ensurePc e (s4\<lparr>phPc := None, phHasRemote := False, phAnswered := False, phRemoteOfferAt := 0,
                              phPendingOffer := 0, phGotVideo := False\<rparr>))
                    else watch_conn s4)
                 else start_checks e isOfferer iceOk s4)"

section \<open>Remote signals\<close>

definition upd_in :: "nat \<Rightarrow> (phone_in \<Rightarrow> phone_in) \<Rightarrow> phone \<Rightarrow> phone" where
  "upd_in j f s = (if j < length (phInbox s) then s\<lparr>phInbox := (phInbox s)[j := f (phInbox s ! j)]\<rparr> else s)"

definition in_to :: "nat \<Rightarrow> in_phase \<Rightarrow> phone \<Rightarrow> phone" where
  "in_to j ph = upd_in j (\<lambda>x. x\<lparr>pjPhase := ph\<rparr>)"

definition in_at :: "nat \<Rightarrow> in_phase \<Rightarrow> phone \<Rightarrow> bool" where
  "in_at j ph s \<longleftrightarrow> j < length (phInbox s) \<and> pjPhase (phInbox s ! j) = ph"

definition in_sdp :: "nat \<Rightarrow> phone \<Rightarrow> string" where
  "in_sdp j s = (case pjSignal (phInbox s ! j) of RmOffer d \<Rightarrow> opt_text (dsSdp d) | _ \<Rightarrow> '''')"

definition in_offer :: "nat \<Rightarrow> phone \<Rightarrow> bool" where
  "in_offer j s = (case pjSignal (phInbox s ! j) of RmOffer d \<Rightarrow> True | _ \<Rightarrow> False)"

text \<open>The \<open>finally\<close> of the handler.\<close>

definition in_finish :: "nat \<Rightarrow> phone \<Rightarrow> phone" where
  "in_finish j s = in_to j PiDone (if in_offer j s then s\<lparr>phPendingOffer := 0\<rparr> else s)"

text \<open>\<open>handleRemoteSignal\<close>: an offer is marked before it is queued. A chain of handlers ends with the call.\<close>

definition phone_receive :: "int \<Rightarrow> phone_remote \<Rightarrow> phone \<Rightarrow> phone" where
  "phone_receive now sig s =
     (let s1 = (case sig of RmOffer d \<Rightarrow> s\<lparr>phPendingOffer := now\<rparr> | _ \<Rightarrow> s)
      in s1\<lparr>phInbox := phInbox s1 @ [\<lparr>pjGen = phGen s1, pjSignal = sig, pjPc = 0,
              pjMade = \<lparr>dsType = ''answer'', dsSdp = None\<rparr>, pjPhase = PiQueued\<rparr>]\<rparr>)"

definition in_turn :: "nat \<Rightarrow> phone \<Rightarrow> bool" where
  "in_turn j s \<longleftrightarrow> in_at j PiQueued s \<and>
     list_all (\<lambda>x. pjGen x = pjGen (phInbox s ! j) \<longrightarrow> pjPhase x = PiDone) (take j (phInbox s))"

text \<open>The offer is about to be applied: without a camera there is one more short wait for it.\<close>

definition offer_camera :: "phone_env \<Rightarrow> nat \<Rightarrow> phone \<Rightarrow> phone" where
  "offer_camera e j s =
     (if phPc s = None then in_finish j s
      else in_to j (if \<not> meLocal e \<and> \<not> phSecondary s then PiCamera else PiSetOffer) s)"

definition offer_apply_phone :: "phone_env \<Rightarrow> nat \<Rightarrow> phone \<Rightarrow> phone" where
  "offer_apply_phone e j s0 =
     (let s = s0\<lparr>phIsOfferer := False, phRemoteOfferAt := meNow e, phWatch := False\<rparr>;
          stuck = (phRemoteOfferAt s > 0 \<and> meNow e - phRemoteOfferAt s > 2000)
      in if phHasRemote s \<and> pc_remote s \<and> pc_signaling SdpRemoteOffer s \<and> \<not> stuck then in_finish j s
         else if phMaking s \<or> pc_signaling SdpLocalOffer s then in_to j PiRollback s
         else offer_camera e j s)"

definition without_pc :: "phone \<Rightarrow> phone" where
  "without_pc s = s\<lparr>phPc := None, phHasRemote := False, phPendingIce := []\<rparr>"

text \<open>The connection an offer is applied on: not a closed one, and for a relay-only call one made so.\<close>

definition in_policy :: "phone_env \<Rightarrow> bool \<Rightarrow> phone \<Rightarrow> phone" where
  "in_policy e offer s =
     (if offer \<and> \<not> phHasRemote s \<and> \<not> phAnswered s then
        (if desiredRelayPolicy s then
           (let t = ensureRelayPolicyPc e s
            in if phPc t \<noteq> None \<and> \<not> phRelayPc t
               then ensurePc e (t\<lparr>phPc := None, phWarmed := False, phPrimed := False, phPendingIce := []\<rparr>) else t)
         else if phPc s \<noteq> None \<and> \<not> phMaking s \<and> phRelayPc s \<noteq> desiredRelayPolicy s
         then s\<lparr>phPc := None, phWarmed := False, phPendingIce := []\<rparr> else s)
      else s)"

definition in_connection :: "phone_env \<Rightarrow> bool \<Rightarrow> phone \<Rightarrow> phone" where
  "in_connection e offer s0 =
     (let s1 = s0\<lparr>phCallStart := (if phCallStart s0 = 0 then meNow e else phCallStart s0)\<rparr>;
          s2 = (if offer \<and> \<not> inAnsweredCall s1 then snd (dropDeadPc True False s1) else s1);
          s3 = in_policy e offer s2
      in if phPc s3 = None then ensurePc e s3 else s3)"

definition in_apply :: "phone_env \<Rightarrow> nat \<Rightarrow> phone \<Rightarrow> phone" where
  "in_apply e j s0 =
     (let offer = in_offer j s0; s = in_connection e offer s0
      in case phPc s of
           None \<Rightarrow> in_to j PiDone s
         | Some p \<Rightarrow>
             if offer then offer_apply_phone e j s
             else in_to j (PiSetAnswer (pcCurRemote (ppView p) \<noteq> None)) s)"

definition in_media :: "phone_env \<Rightarrow> nat \<Rightarrow> phone \<Rightarrow> phone" where
  "in_media e j s =
     (let waits = (if in_offer j s
                   then (if phSecondary s then \<not> hasIceServers s else \<not> (meCam e \<and> hasIceServers s))
                   else \<not> (meCam e \<and> hasIceServers s) \<and> \<not> (meLocal e \<and> hasIceServers s))
      in if waits then in_to j PiMedia s else in_apply e j s)"

text \<open>The connect clock starts; an offer with relay candidates only arms the relay policy, and without that
  the handler would poll for the hub's word when no match is known.\<close>

definition in_prep :: "phone_env \<Rightarrow> nat \<Rightarrow> phone \<Rightarrow> phone" where
  "in_prep e j s0 =
     (let s = s0\<lparr>phMatchMark := (if phMatchMark s0 = 0 then meNow e else phMatchMark s0)\<rparr>
      in if in_offer j s \<and> \<not> phSticky s \<and> \<not> phForceOnce s \<and> \<not> phHideIp s then
           (let pure = (in_sdp j s \<noteq> '''' \<and> offerSdpLooksPureRelay (in_sdp j s));
                s1 = (if pure then setForceRelay e True s else s)
            in if \<not> pure \<and> \<not> phSticky s1 \<and> \<not> phForceOnce s1 then
                 (if \<not> (phMatchMark s1 > 0 \<or> phCallStart s1 > 0) then in_to j PiPoll s1 else in_media e j s1)
               else in_media e j s1)
         else in_media e j s)"

definition offer_second :: "phone_env \<Rightarrow> nat \<Rightarrow> phone \<Rightarrow> phone" where
  "offer_second e j s =
     (if hasLiveAnsweredIce e s \<and> phSecondary s then in_to j PiDone (s\<lparr>phPendingOffer := 0\<rparr>)
      else in_prep e j s)"

definition phone_handle :: "phone_env \<Rightarrow> bool \<Rightarrow> nat \<Rightarrow> phone \<Rightarrow> phone" where
  "phone_handle e preview j s =
     (case pjSignal (phInbox s ! j) of
        RmAvPath \<Rightarrow> in_to j PiDone s
      | RmBye \<Rightarrow> if \<not> meLinked e then in_to j PiDone s
                 else in_to j PiDone (phone_close e True False None preview s)
      | RmIce c \<Rightarrow> if \<not> meLinked e then in_to j PiDone s else in_to j PiDone (phone_ice_in c s)
      | RmAnswer d \<Rightarrow> if \<not> meLinked e then in_to j PiDone s else in_prep e j s
      | RmOffer d \<Rightarrow>
          if \<not> meLinked e then in_to j PiDone s
          else let s1 = snd (resetStuckExtraPc s)
               in if inAnsweredCall s1 then
                    (case resetStuckExtraPc s1 of
                       (True, s2) \<Rightarrow> offer_second e j s2
                     | (False, _) \<Rightarrow>
                         if phSecondary s1 then
                           (if phHasRemote s1 \<or> pc_remote s1 then in_to j PiDone (s1\<lparr>phPendingOffer := 0\<rparr>)
                            else offer_second e j (s1\<lparr>phAnswered := False\<rparr>))
                         else in_to j PiRollback0 s1)
                  else offer_second e j s1)"

text \<open>The offer of a rematch on a connection that was answered before: after the rollback.\<close>

definition in_rematch :: "phone_env \<Rightarrow> bool \<Rightarrow> nat \<Rightarrow> phone \<Rightarrow> phone" where
  "in_rematch e ok j s0 =
     (let s = (if ok then s0 else ensurePc e (s0\<lparr>phPc := None\<rparr>))
      in offer_second e j (s\<lparr>phHasRemote := False, phAnswered := False, phRemoteOfferAt := 0, phPendingOffer := 0,
                             phGotVideo := False\<rparr>))"

definition in_rolled :: "phone_env \<Rightarrow> bool \<Rightarrow> nat \<Rightarrow> phone \<Rightarrow> phone" where
  "in_rolled e ok j s = offer_camera e j (if ok then s else ensurePc e (without_pc s))"

text \<open>The remote offer is in: the phone is the answerer from here on.\<close>

definition offer_is_set :: "int \<Rightarrow> nat \<Rightarrow> phone \<Rightarrow> phone" where
  "offer_is_set now j s =
     (case phPc s of
        None \<Rightarrow> in_finish j s
      | Some p \<Rightarrow> upd_in j (\<lambda>x. x\<lparr>pjPc := ppId p, pjPhase := PiBind\<rparr>)
          (s\<lparr>phHasRemote := True, phAnswered := True, phIsOfferer := False, phPendingOffer := 0,
             phRemoteOfferAt := now, phWatch := False\<rparr>))"

definition in_set_offer :: "phone_env \<Rightarrow> bool \<Rightarrow> nat \<Rightarrow> phone \<Rightarrow> phone" where
  "in_set_offer e ok j s =
     (if ok then offer_is_set (meNow e) j s
      else let s1 = ensurePc e (without_pc s)
           in if phPc s1 = None then in_finish j s1 else in_to j PiSetOfferAgain s1)"

definition in_set_again :: "int \<Rightarrow> bool \<Rightarrow> nat \<Rightarrow> phone \<Rightarrow> phone" where
  "in_set_again now ok j s = (if ok then offer_is_set now j s else in_finish j s)"

definition in_bound :: "nat \<Rightarrow> phone \<Rightarrow> phone" where
  "in_bound j s = in_to j PiCreate (phone_flush s)"

text \<open>The answer is edited before it is set, and once more when it goes out: \<open>shown\<close> is the local description
  of the connection the handler holds, which need not be the session's any more.\<close>

definition video_sdp :: "string \<Rightarrow> string" where
  "video_sdp sdp = (if sdp \<noteq> '''' \<and> js_includes (js_lower sdp) ''m=video'' then forceVideoSendrecvSdp sdp else sdp)"

definition in_created :: "description \<Rightarrow> nat \<Rightarrow> phone \<Rightarrow> phone" where
  "in_created made j s =
     upd_in j (\<lambda>x. x\<lparr>pjMade := made\<lparr>dsSdp := map_option video_sdp (dsSdp made)\<rparr>, pjPhase := PiLocal\<rparr>) s"

definition emit_answer :: "description option \<Rightarrow> nat \<Rightarrow> phone \<Rightarrow> phone" where
  "emit_answer shown j s =
     (let x = phInbox s ! j;
          ans = (case shown of None \<Rightarrow> pjMade x | Some d \<Rightarrow> d);
          sdp = phone_sdp s (video_sdp (opt_text (dsSdp ans)))
      in in_finish j (watch_conn
           (if sdp \<noteq> '''' then
              send (pjGen x) False
                (PsAnswer \<lparr>dsType = (if dsType ans = '''' then ''answer'' else dsType ans), dsSdp = Some sdp\<rparr>)
                (s\<lparr>phAnswered := True, phIsOfferer := False\<rparr>)
            else s)))"

definition in_local :: "description option \<Rightarrow> nat \<Rightarrow> phone \<Rightarrow> phone" where
  "in_local shown j s = (if desiredRelayPolicy s then in_to j PiGather s else emit_answer shown j s)"

text \<open>An answer was applied, or the connection refused it.\<close>

definition in_answered :: "bool \<Rightarrow> nat \<Rightarrow> phone \<Rightarrow> phone" where
  "in_answered ok j s =
     (if ok then in_finish j (phone_flush (s\<lparr>phHasRemote := True, phGotAnswer := True\<rparr>)) else in_finish j s)"

section \<open>The session as a step relation\<close>

datatype phone_event =
    PhConfig phone_ice
  | PhHide bool
  | PhForce phone_env bool
  | PhRebuild
  | PhWarm phone_env bool
  | PhWarmed bool
  | PhStart phone_env bool "bool option"
  | PhStartConfig phone_env nat
  | PhStartMedia phone_env nat
  | PhStartOffered nat
  | PhClose phone_env bool bool "bool option" bool
  | PhView rtc_pc
  | PhVideo
  | PhFramed
  | PhConnected
  | PhSecondary bool
  | PhCandidate jsval
  | PhMade description nat
  | PhRefused nat
  | PhLocal int nat
  | PhGathered int nat
  | PhWatchdog phone_env
  | PhWatchdogCam phone_env
  | PhConnWatch phone_env
  | PhProbe phone_env
  | PhBlack phone_env bool
  | PhRestart phone_env bool
  | PhReceive int phone_remote
  | PhHandle phone_env bool nat
  | PhRematch phone_env bool nat
  | PhPolled phone_env nat
  | PhMedia phone_env nat
  | PhRolled phone_env bool nat
  | PhCamera nat
  | PhSetOffer phone_env bool nat
  | PhSetAgain int bool nat
  | PhBound nat
  | PhCreated description nat
  | PhCreateFailed nat
  | PhLocalSet "description option" nat
  | PhAnswerGathered "description option" nat
  | PhSetAnswer bool nat

fun phone_step :: "phone \<Rightarrow> phone_event \<Rightarrow> phone" where
  "phone_step s (PhConfig c) = setIceConfig c s"
| "phone_step s (PhHide on) = setHideIp on s"
| "phone_step s (PhForce e on) = setForceRelay e on s"
| "phone_step s PhRebuild = forceRelayRebuild s"
| "phone_step s (PhWarm e pr) = phone_warm e pr s"
| "phone_step s (PhWarmed ok) = warm_done ok s"
| "phone_step s (PhStart e off fr) = phone_start e off fr s"
| "phone_step s (PhStartConfig e k) = (if start_at k StConfig s then start_policy e k s else s)"
| "phone_step s (PhStartMedia e k) = (if start_at k StMedia s then start_pc e k s else s)"
| "phone_step s (PhStartOffered k) = (if start_at k StOffer s then end_start k (watch_conn s) else s)"
| "phone_step s (PhClose e kl bye cl pv) = phone_close e kl bye cl pv s"
| "phone_step s (PhView v) = (case phPc s of None \<Rightarrow> s | Some p \<Rightarrow> s\<lparr>phPc := Some (p\<lparr>ppView := v\<rparr>)\<rparr>)"
| "phone_step s PhVideo = s\<lparr>phGotVideo := True\<rparr>"
| "phone_step s PhFramed = s\<lparr>phFrames := True\<rparr>"
| "phone_step s PhConnected = phone_connected s"
| "phone_step s (PhSecondary on) = s\<lparr>phSecondary := on\<rparr>"
| "phone_step s (PhCandidate c) = phone_candidate c s"
| "phone_step s (PhMade d k) = (if offer_at k LoCreate s then offer_made d k s else s)"
| "phone_step s (PhRefused k) = (if offer_at k LoCreate s then offer_refused k s else s)"
| "phone_step s (PhLocal now k) = (if offer_at k LoLocal s then offer_local_done now k s else s)"
| "phone_step s (PhGathered now k) = (if offer_at k LoGather s then offer_gather_done now k s else s)"
| "phone_step s (PhWatchdog e) = (if phWatch s then phone_watchdog e s else s)"
| "phone_step s (PhWatchdogCam e) =
     (if phWatchCam s > 0 then watchdog_offer e (s\<lparr>phWatchCam := phWatchCam s - 1\<rparr>) else s)"
| "phone_step s (PhConnWatch e) = (if phConnWatch s then phone_conn_watch e s else s)"
| "phone_step s (PhProbe e) = phone_probe e s"
| "phone_step s (PhBlack e r) = phone_black_watch e r s"
| "phone_step s (PhRestart e force) = snd (phone_restart e force False False s)"
| "phone_step s (PhReceive now sig) = phone_receive now sig s"
| "phone_step s (PhHandle e pv j) = (if in_turn j s then phone_handle e pv j s else s)"
| "phone_step s (PhRematch e ok j) = (if in_at j PiRollback0 s then in_rematch e ok j s else s)"
| "phone_step s (PhPolled e j) = (if in_at j PiPoll s then in_media e j s else s)"
| "phone_step s (PhMedia e j) = (if in_at j PiMedia s then in_apply e j s else s)"
| "phone_step s (PhRolled e ok j) = (if in_at j PiRollback s then in_rolled e ok j s else s)"
| "phone_step s (PhCamera j) = (if in_at j PiCamera s then in_to j PiSetOffer s else s)"
| "phone_step s (PhSetOffer e ok j) = (if in_at j PiSetOffer s then in_set_offer e ok j s else s)"
| "phone_step s (PhSetAgain now ok j) = (if in_at j PiSetOfferAgain s then in_set_again now ok j s else s)"
| "phone_step s (PhBound j) = (if in_at j PiBind s then in_bound j s else s)"
| "phone_step s (PhCreated d j) = (if in_at j PiCreate s then in_created d j s else s)"
| "phone_step s (PhCreateFailed j) = (if in_at j PiCreate s then in_finish j s else s)"
| "phone_step s (PhLocalSet d j) = (if in_at j PiLocal s then in_local d j s else s)"
| "phone_step s (PhAnswerGathered d j) = (if in_at j PiGather s then emit_answer d j s else s)"
| "phone_step s (PhSetAnswer ok j) =
     (if in_at j (PiSetAnswer True) s \<or> in_at j (PiSetAnswer False) s then in_answered ok j s else s)"

definition phone_run :: "phone \<Rightarrow> phone_event list \<Rightarrow> phone" where
  "phone_run s es = foldl phone_step s es"

end
