(* ===== verification/PhoneCalls.thy ===== *)
theory PhoneCalls
  imports PhoneSession
begin

text \<open>
  What the session of the phone (\<open>PhoneSession\<close>) keeps over its runs, what a relay-only session lets
  out, and how a retry, a restart, a hang-up and a crossing of offers end.
\<close>

lemma phone_sdp_cong:
  "phIce t = phIce s \<Longrightarrow> phHideIp t = phHideIp s \<Longrightarrow> phForceOnce t = phForceOnce s \<Longrightarrow> phSticky t = phSticky s \<Longrightarrow>
     phone_sdp t = phone_sdp s"
proof -
  assume same: "phIce t = phIce s" "phHideIp t = phHideIp s" "phForceOnce t = phForceOnce s" "phSticky t = phSticky s"
  have "desiredRelayPolicy t = desiredRelayPolicy s" "shouldStripHost t = shouldStripHost s"
    by (simp_all add: same desiredRelayPolicy_def shouldStripHost_def hasTurn_def turn_flag_def hasIceServers_def)
  then show ?thesis by (simp add: fun_eq_iff phone_sdp_def Let_def)
qed

section \<open>Invariants of a session\<close>

text \<open>A property of the session that every event keeps: most fields do not touch it, and the few changes
  that do keep it. \<open>allowed\<close> are the events of a run.\<close>

locale session_law =
  fixes I :: "phone \<Rightarrow> bool" and allowed :: "phone_event \<Rightarrow> bool"
  assumes
    frame: "I (s\<lparr>phNextPc := vNextPc\<rparr>) = I s" "I (s\<lparr>phWarmed := vWarmed\<rparr>) = I s"
      "I (s\<lparr>phPrimed := vPrimed\<rparr>) = I s" "I (s\<lparr>phHasRemote := vHasRemote\<rparr>) = I s"
      "I (s\<lparr>phIsOfferer := vIsOfferer\<rparr>) = I s"
      "I (s\<lparr>phHubOfferer := vHubOfferer\<rparr>) = I s" "I (s\<lparr>phMaking := vMaking\<rparr>) = I s"
      "I (s\<lparr>phLastOfferAt := vLastOfferAt\<rparr>) = I s" "I (s\<lparr>phWatch := vWatch\<rparr>) = I s"
      "I (s\<lparr>phConnWatch := vConnWatch\<rparr>) = I s"
      "I (s\<lparr>phGotAnswer := vGotAnswer\<rparr>) = I s"
      "I (s\<lparr>phAnswered := vAnswered\<rparr>) = I s" "I (s\<lparr>phStarting := vStarting\<rparr>) = I s"
      "I (s\<lparr>phStartingAt := vStartingAt\<rparr>) = I s"
      "I (s\<lparr>phRemoteOfferAt := vRemoteOfferAt\<rparr>) = I s"
      "I (s\<lparr>phPendingOffer := vPendingOffer\<rparr>) = I s"
      "I (s\<lparr>phRestartCount := vRestartCount\<rparr>) = I s"
      "I (s\<lparr>phRestartAt := vRestartAt\<rparr>) = I s"
      "I (s\<lparr>phPendingIce := vPendingIce\<rparr>) = I s"
      "I (s\<lparr>phGotVideo := vGotVideo\<rparr>) = I s"
      "I (s\<lparr>phCallStart := vCallStart\<rparr>) = I s"
      "I (s\<lparr>phMatchMark := vMatchMark\<rparr>) = I s" "I (s\<lparr>phFrames := vFrames\<rparr>) = I s"
      "I (s\<lparr>phWatchCam := vWatchCam\<rparr>) = I s" "I (s\<lparr>phWarming := vWarming\<rparr>) = I s"
      "I (s\<lparr>phStarts := vStarts\<rparr>) = I s" "I (s\<lparr>phInbox := vInbox\<rparr>) = I s"
      "I (s\<lparr>phAdded := vAdded\<rparr>) = I s"
    and pc_gone: "I s \<Longrightarrow> I (s\<lparr>phPc := None\<rparr>)"
    and flag_gone: "I s \<Longrightarrow> phPc s = None \<Longrightarrow> I (s\<lparr>phRelayPc := False\<rparr>)"
    and pc_made: "I s \<Longrightarrow> phPc s = None \<Longrightarrow> r = snd (pcConfig s) \<Longrightarrow>
        I (s\<lparr>phRelayPc := r, phPc := Some \<lparr>ppId = i, ppRelay = r, ppView = fresh_pc\<rparr>\<rparr>)"
    and pc_view: "I s \<Longrightarrow> phPc s = Some p \<Longrightarrow> I (s\<lparr>phPc := Some (p\<lparr>ppView := v\<rparr>)\<rparr>)"
    and armed: "I s \<Longrightarrow> I (s\<lparr>phForceOnce := b, phSticky := b\<rparr>)"
    and extra_reset: "I s \<Longrightarrow> phSecondary s \<Longrightarrow> I (s\<lparr>phOfferSent := False\<rparr>)"
    and hung_up: "I s \<Longrightarrow> phPc s = None \<Longrightarrow>
        I (s\<lparr>phRelayPc := False, phSecondary := False, phGen := phGen s + 1, phOfferSent := False\<rparr>)"
    and bye: "I s \<Longrightarrow> I (send g False PsBye s)"
    and candidate: "I s \<Longrightarrow> phone_trickles s c \<Longrightarrow> I (send (phGen s) False (PsIce c) s)"
    and answer: "I s \<Longrightarrow> sdp = phone_sdp s raw \<Longrightarrow> sdp \<noteq> '''' \<Longrightarrow>
        I (send g False (PsAnswer \<lparr>dsType = t, dsSdp = Some sdp\<rparr>) s)"
    and begun: "I s \<Longrightarrow> phone_offer_gate now r s = None \<Longrightarrow> I (s\<lparr>phOfferSent := (phOfferSent s \<or> \<not> r),
        phOffers := phOffers s @ [\<lparr>ljGen = phGen s, ljPc = i, ljRestart = r, ljMade = d, ljStage = LoCreate\<rparr>]\<rparr>)"
    and ended: "I s \<Longrightarrow> k < length (phOffers s) \<Longrightarrow> I (s\<lparr>phOffers := (phOffers s)[k := (phOffers s ! k)\<lparr>ljStage := LoDone\<rparr>]\<rparr>)"
    and moved: "I s \<Longrightarrow> k < length (phOffers s) \<Longrightarrow> ljStage (phOffers s ! k) \<noteq> LoDone \<Longrightarrow> st \<noteq> LoDone \<Longrightarrow>
        I (s\<lparr>phOffers := (phOffers s)[k := (phOffers s ! k)\<lparr>ljMade := d, ljStage := st\<rparr>]\<rparr>)"
    and taken_back: "I s \<Longrightarrow> k < length (phOffers s) \<Longrightarrow> ljStage (phOffers s ! k) \<noteq> LoDone \<Longrightarrow> \<not> ljRestart (phOffers s ! k) \<Longrightarrow>
        ljGen (phOffers s ! k) = phGen s \<Longrightarrow>
        I (s\<lparr>phOfferSent := False, phOffers := (phOffers s)[k := (phOffers s ! k)\<lparr>ljStage := LoDone\<rparr>]\<rparr>)"
    and offered: "I s \<Longrightarrow> k < length (phOffers s) \<Longrightarrow> ljStage (phOffers s ! k) \<noteq> LoDone \<Longrightarrow>
        ljGen (phOffers s ! k) = phGen s \<Longrightarrow> sdp = phone_sdp s raw \<Longrightarrow> sdp \<noteq> '''' \<Longrightarrow>
        I ((send (ljGen (phOffers s ! k)) (ljRestart (phOffers s ! k)) (PsOffer \<lparr>dsType = t, dsSdp = Some sdp\<rparr>)
             (s\<lparr>phOfferSent := True\<rparr>))\<lparr>phOffers := (phOffers s)[k := (phOffers s ! k)\<lparr>ljStage := LoDone\<rparr>]\<rparr>)"
    and configured: "allowed (PhConfig cfg) \<Longrightarrow> I s \<Longrightarrow> I (s\<lparr>phIce := Some cfg\<rparr>)"
    and hidden: "allowed (PhHide on) \<Longrightarrow> I s \<Longrightarrow> I (s\<lparr>phHideIp := on\<rparr>)"
    and extra: "allowed (PhSecondary on) \<Longrightarrow> I s \<Longrightarrow> I (s\<lparr>phSecondary := on\<rparr>)"
begin

lemma either: "I s \<Longrightarrow> I t \<Longrightarrow> I (if b then s else t)"
  by simp

lemma pc_dropped: "I s \<Longrightarrow> I (snd (dropDeadPc k a s))"
  by (cases "phPc s") (auto simp: dropDeadPc_def frame intro!: flag_gone pc_gone)

lemma reset: "I s \<Longrightarrow> I (snd (resetStuckExtraPc s))"
proof (cases "shouldResetStuckExtraPc (phSecondary s) (ice_text (phPc s)) (phGotVideo s)")
  case True
  assume I: "I s"
  from True have sec: "phSecondary s" by (simp add: shouldResetStuckExtraPc_def split: if_splits)
  have "I (s\<lparr>phPc := None, phOfferSent := False, phRelayPc := False\<rparr>)"
    using I sec by (intro flag_gone extra_reset pc_gone) auto
  with True show ?thesis by (simp add: resetStuckExtraPc_def frame)
qed (simp add: resetStuckExtraPc_def)

lemma ensured: "I s \<Longrightarrow> I (ensurePc e s)"
proof -
  have new: "I (if phPc t \<noteq> None then t else if \<not> meLinked e then t
       else let relay = snd (pcConfig t)
            in t\<lparr>phRelayPc := relay, phPc := Some \<lparr>ppId = phNextPc t, ppRelay = relay, ppView = fresh_pc\<rparr>,
                 phNextPc := phNextPc t + 1, phHasRemote := False, phPendingIce := []\<rparr>)" if "I t" for t
    using that by (simp add: frame pc_made Let_def)
  assume "I s"
  then have "I (if \<not> inAnsweredCall s then snd (dropDeadPc False False s) else s)" by (simp add: pc_dropped)
  from new [OF this] show ?thesis by (simp only: ensurePc_def Let_def)
qed

lemma policy: "I s \<Longrightarrow> I (ensureRelayPolicyPc e s)"
  unfolding ensureRelayPolicyPc_def Let_def case_prod_unfold
  by (auto intro!: ensured pc_dropped pc_gone simp: frame)

lemma forced: "I s \<Longrightarrow> I (setForceRelay e on s)"
proof -
  assume "I s"
  then have "I (s\<lparr>phForceOnce := on, phSticky := on\<rparr>)" by (rule armed)
  moreover from pc_gone [OF this] have "I (s\<lparr>phForceOnce := on, phSticky := on, phPc := None, phRelayPc := False\<rparr>)"
    by (rule flag_gone) simp
  then have gone: "I (s\<lparr>phForceOnce := on, phSticky := on, phPc := None, phRelayPc := False, phWarmed := False,
      phPendingIce := [], phMaking := False\<rparr>)" by (simp only: frame)
  have warm: "I ((ensurePc e t)\<lparr>phWarmed := True\<rparr>)" if "I t" for t
    using ensured [OF that] by (simp only: frame)
  ultimately show ?thesis
    unfolding setForceRelay_def Let_def by (intro either policy warm gone)
qed

lemma rebuilt: "I s \<Longrightarrow> I (forceRelayRebuild s)"
proof -
  assume "I s"
  then have "I (s\<lparr>phForceOnce := True, phSticky := True, phPc := None, phRelayPc := False\<rparr>)"
    by (intro flag_gone pc_gone armed) simp_all
  with \<open>I s\<close> show ?thesis by (simp add: forceRelayRebuild_def frame)
qed

lemma offer_kept: "I s \<Longrightarrow> I (snd (phone_offer e r s))"
proof -
  assume I: "I s"
  let ?t = "ensurePc e (if desiredRelayPolicy s then ensureRelayPolicyPc e s else s)"
  have t: "I ?t" using I by (auto intro!: ensured policy)
  show ?thesis
  proof (cases "was_answerer s \<or> phone_offer_gate (meNow e) r ?t \<noteq> None")
    case True
    with I t show ?thesis by (auto simp: phone_offer_def Let_def)
  next
    case False
    then show ?thesis using begun [OF t, of "meNow e" r]
      by (simp add: phone_offer_def frame Let_def split del: if_split)
  qed
qed

text \<open>Timers and restarts only reach the state through an offer or a new connection.\<close>

lemma restarted: "I s \<Longrightarrow> I (snd (phone_restart e f p eb s))"
  unfolding phone_restart_def Let_def
  by (cases "restart_gate (meNow e) f eb s") (auto intro!: offer_kept simp: frame)

lemma watched: "I s \<Longrightarrow> I (watchdog_offer e s)" "I s \<Longrightarrow> I (phone_watchdog e s)"
proof -
  have 1: "I (watchdog_offer e t)" if "I t" for t
    using that unfolding watchdog_offer_def Let_def by (auto intro!: offer_kept ensured)
  then show "I s \<Longrightarrow> I (watchdog_offer e s)" .
  show "I s \<Longrightarrow> I (phone_watchdog e s)"
    unfolding phone_watchdog_def Let_def by (auto intro!: 1 ensured simp: frame)
qed

lemma timers: "I s \<Longrightarrow> I (phone_conn_watch e s)" "I s \<Longrightarrow> I (phone_probe e s)" "I s \<Longrightarrow> I (phone_black_watch e r s)"
  "I s \<Longrightarrow> I (phone_connected s)"
  unfolding phone_conn_watch_def phone_probe_def phone_black_watch_def phone_connected_def Let_def
  by (auto intro!: restarted simp: frame)

lemma warmed: "I s \<Longrightarrow> I (phone_warm e pr s)" "I s \<Longrightarrow> I (warm_done ok s)"
  unfolding phone_warm_def warm_done_def Let_def by (auto intro!: ensured pc_gone armed simp: frame)

lemma closed: "I s \<Longrightarrow> I (phone_close e kl sb cl pv s)"
proof -
  assume "I s"
  then have "I (s\<lparr>phPc := None\<rparr>)" by (rule pc_gone)
  from hung_up [OF this]
  have 1: "I (s\<lparr>phPc := None, phRelayPc := False, phSecondary := False, phGen := phGen s + 1, phOfferSent := False\<rparr>)" by simp
  have cleared: "I t \<Longrightarrow> I (if b then t\<lparr>phForceOnce := False, phSticky := False\<rparr> else t)" for t b
    by (simp add: armed)
  have said: "I t \<Longrightarrow> I (if sb then send (phGen t) False PsBye t else t)" for t
    by (simp add: bye)
  have rewarmed: "I t \<Longrightarrow> I (if b then phone_warm e p t else t)" for t b p
    by (simp add: warmed)
  show ?thesis
    unfolding phone_close_def Let_def by (rule rewarmed, rule said, rule cleared) (use 1 in \<open>simp only: frame\<close>)
qed

lemma start_moves: "I s \<Longrightarrow> I (start_to k st s)" "I s \<Longrightarrow> I (end_start k s)" "I s \<Longrightarrow> I (watch_conn s)"
  by (simp_all add: start_to_def end_start_def watch_conn_def frame)

lemma started_pc: "I s \<Longrightarrow> I (start_pc e k s)"
  unfolding start_pc_def Let_def by (auto intro!: start_moves offer_kept ensured pc_gone simp: frame)

lemma started: "I s \<Longrightarrow> I (start_policy e k s)" "I s \<Longrightarrow> I (phone_start e off fr s)"
proof -
  have pol: "I (start_policy e k t)" if "I t" for t k
    unfolding start_policy_def Let_def using policy [OF that, of e]
    by (auto intro!: start_moves started_pc pc_gone simp: frame)
  then show "I s \<Longrightarrow> I (start_policy e k s)" .
  have chk: "I (start_checks e off ok t)" if "I t" for t ok
    unfolding start_checks_def start_begin_def Let_def using that
    by (auto intro!: start_moves pol simp: frame)
  have new: "I (ensurePc e (t\<lparr>phPc := None, phHasRemote := False, phAnswered := False, phRemoteOfferAt := 0,
      phPendingOffer := 0, phGotVideo := False\<rparr>))" if "I t" for t
    using pc_gone [OF that] by (intro ensured) (simp only: frame)
  have res: "I (snd (if b then resetStuckExtraPc t else (False, t)))" if "I t" for t b
    using that by (simp add: reset)
  have idle: "I (t\<lparr>phStarting := False\<rparr>)" if "I t" for t
    using that by (simp only: frame)
  have one: "I (if fr = Some True then setForceRelay e True t else t)" if "I t" for t
    using that by (simp add: forced)
  have drop: "I (if b then snd (dropDeadPc False False t) else t)" if "I t" for t b
    using that by (simp add: pc_dropped)
  show "I s \<Longrightarrow> I (phone_start e off fr s)"
    unfolding phone_start_def Let_def case_prod_unfold
    by (intro either chk new start_moves(3) res drop idle one)
qed

text \<open>An offer from await to await.\<close>

lemma upd_offer_end: "I s \<Longrightarrow> I (end_offer k s)"
  using ended [of s k] by (auto simp: end_offer_def upd_offer_def frame)

lemma refused: "I s \<Longrightarrow> offer_at k LoCreate s \<Longrightarrow> I (offer_refused k s)"
  using taken_back [of s k] upd_offer_end [of s k]
  by (auto simp: offer_refused_def end_offer_def upd_offer_def offer_at_def frame)

lemma offer_to: "I s \<Longrightarrow> offer_at k st s \<Longrightarrow> st \<noteq> LoDone \<Longrightarrow> st' \<noteq> LoDone \<Longrightarrow>
    I (upd_offer k (\<lambda>j. j\<lparr>ljMade := f j, ljStage := st'\<rparr>) s)"
  using moved [of s k st'] by (auto simp: upd_offer_def offer_at_def)

lemma emitted:
  assumes "I s" "offer_at k st s" "st \<noteq> LoDone" "\<not> stale_offer k s"
  shows "I (emit_offer now k s)"
proof -
  have k: "k < length (phOffers s)" "ljStage (phOffers s ! k) \<noteq> LoDone" "ljGen (phOffers s ! k) = phGen s"
    using assms by (auto simp: offer_at_def stale_offer_def)
  have late: "t\<lparr>phLastOfferAt := now, phSent := x\<rparr> = t\<lparr>phSent := x, phLastOfferAt := now\<rparr>"
      "t\<lparr>phLastOfferAt := now, phOffers := y\<rparr> = t\<lparr>phOffers := y, phLastOfferAt := now\<rparr>" for t :: phone and x y
    by simp_all
  have off: "I ((send (ljGen (phOffers s ! k)) (ljRestart (phOffers s ! k)) (PsOffer \<lparr>dsType = t, dsSdp = Some sdp\<rparr>)
      (s\<lparr>phOfferSent := True\<rparr>))\<lparr>phOffers := (phOffers s)[k := (phOffers s ! k)\<lparr>ljStage := LoDone\<rparr>], phLastOfferAt := now, phMaking := False\<rparr>)"
    if "sdp = phone_sdp s raw" "sdp \<noteq> ''''" for t sdp raw
    using offered [OF assms(1) k that] by (simp add: frame)
  show ?thesis
    using off k taken_back [OF assms(1) k(1,2) _ k(3)] ended [OF assms(1) k(1)]
    by (auto simp: emit_offer_def Let_def end_offer_def upd_offer_def send_def late frame)
qed

lemma offer_steps:
  "I s \<Longrightarrow> offer_at k LoCreate s \<Longrightarrow> I (offer_made d k s)"
  "I s \<Longrightarrow> offer_at k LoLocal s \<Longrightarrow> I (offer_local_done now k s)"
  "I s \<Longrightarrow> offer_at k LoGather s \<Longrightarrow> I (offer_gather_done now k s)"
proof -
  show "I s \<Longrightarrow> offer_at k LoCreate s \<Longrightarrow> I (offer_made d k s)"
    using offer_to [of s k LoCreate LoLocal "\<lambda>j. d"] upd_offer_end [of s k] by (simp add: offer_made_def)
  show "I s \<Longrightarrow> offer_at k LoLocal s \<Longrightarrow> I (offer_local_done now k s)"
    using moved [of s k LoGather "ljMade (phOffers s ! k)"] upd_offer_end [of s k] emitted [of s k LoLocal now]
    by (auto simp: offer_local_done_def upd_offer_def offer_at_def)
  show "I s \<Longrightarrow> offer_at k LoGather s \<Longrightarrow> I (offer_gather_done now k s)"
    using upd_offer_end [of s k] emitted [of s k LoGather now] by (simp add: offer_gather_done_def)
qed

text \<open>Signals.\<close>

lemma inbox: "I s \<Longrightarrow> I (upd_in j f s)" "I s \<Longrightarrow> I (in_to j ph s)" "I s \<Longrightarrow> I (in_finish j s)" "I s \<Longrightarrow> I (phone_receive now sig s)"
proof -
  have u: "I t \<Longrightarrow> I (upd_in j g t)" for g t by (simp add: upd_in_def frame)
  then show "I s \<Longrightarrow> I (upd_in j f s)" "I s \<Longrightarrow> I (in_to j ph s)" "I s \<Longrightarrow> I (in_finish j s)"
    by (auto simp: in_to_def in_finish_def frame)
  show "I s \<Longrightarrow> I (phone_receive now sig s)"
    by (auto simp: phone_receive_def Let_def frame split: phone_remote.split)
qed

lemma ice_kept: "I s \<Longrightarrow> I (phone_ice_in c s)" "I s \<Longrightarrow> I (phone_flush s)" "I s \<Longrightarrow> I (phone_candidate c s)"
  by (auto simp: phone_ice_in_def phone_flush_def phone_candidate_def Let_def frame candidate)

lemma camera: "I s \<Longrightarrow> I (offer_camera e j s)"
  by (simp add: offer_camera_def inbox)

lemma connected: "I s \<Longrightarrow> I (in_policy e offer s)" "I s \<Longrightarrow> I (in_connection e offer s)"
proof -
  have pol: "I (in_policy e offer t)" if "I t" for t
    unfolding in_policy_def Let_def using that by (auto intro!: ensured policy pc_gone simp: frame)
  then show "I s \<Longrightarrow> I (in_policy e offer s)" .
  have ens: "I t \<Longrightarrow> I (if phPc t = None then ensurePc e t else t)" for t
    by (simp add: ensured)
  have drop: "I t \<Longrightarrow> I (if b then snd (dropDeadPc True False t) else t)" for t b
    by (simp add: pc_dropped)
  show "I s \<Longrightarrow> I (in_connection e offer s)"
    unfolding in_connection_def Let_def by (rule ens, rule pol, rule drop) (simp only: frame)
qed

lemma applied: "I s \<Longrightarrow> I (in_apply e j s)"
proof -
  have off: "I t \<Longrightarrow> I (offer_apply_phone e j t)" for t
    unfolding offer_apply_phone_def Let_def by (auto intro!: inbox camera simp: frame)
  assume "I s"
  from connected(2) [OF this] show ?thesis
    unfolding in_apply_def Let_def by (auto intro!: inbox off split: option.split)
qed

lemma media: "I s \<Longrightarrow> I (in_media e j s)"
  by (simp add: in_media_def Let_def inbox applied)

lemma prepared: "I s \<Longrightarrow> I (in_prep e j s)" "I s \<Longrightarrow> I (offer_second e j s)"
proof -
  have 1: "I t \<Longrightarrow> I (in_prep e j t)" for t
    unfolding in_prep_def Let_def by (auto intro!: media inbox forced simp: frame)
  then show "I s \<Longrightarrow> I (in_prep e j s)" .
  show "I s \<Longrightarrow> I (offer_second e j s)"
    by (auto simp: offer_second_def frame intro!: inbox 1)
qed

lemma handled: "I s \<Longrightarrow> I (phone_handle e pv j s)"
  using reset [of s] reset [of "snd (resetStuckExtraPc s)"]
  by (auto simp: phone_handle_def Let_def frame intro!: inbox closed ice_kept prepared
      split: phone_remote.split bool.splits prod.split)

lemma without: "I s \<Longrightarrow> I (without_pc s)"
  by (simp add: without_pc_def frame pc_gone)

lemma answering:
  "I s \<Longrightarrow> I (in_rematch e ok j s)" "I s \<Longrightarrow> I (in_rolled e ok j s)" "I s \<Longrightarrow> I (in_set_offer e ok j s)"
  "I s \<Longrightarrow> I (in_set_again now ok j s)" "I s \<Longrightarrow> I (in_bound j s)" "I s \<Longrightarrow> I (in_created d j s)"
  "I s \<Longrightarrow> I (emit_answer sh j s)" "I s \<Longrightarrow> I (in_local sh j s)" "I s \<Longrightarrow> I (in_answered ok j s)"
proof -
  have set: "I t \<Longrightarrow> I (offer_is_set n j t)" for t n
    by (auto simp: offer_is_set_def frame intro!: inbox split: option.split)
  have em: "I (emit_answer sh j t)" if "I t" for t
  proof -
    have sdp: "phone_sdp (t\<lparr>phAnswered := True, phIsOfferer := False\<rparr>) = phone_sdp t"
      by (rule phone_sdp_cong) simp_all
    have "I (t\<lparr>phAnswered := True, phIsOfferer := False\<rparr>)" using that by (simp add: frame)
    note sent = answer [OF this, unfolded sdp, OF refl]
    then show ?thesis
      unfolding emit_answer_def Let_def using that by (auto intro!: inbox start_moves)
  qed
  show "I s \<Longrightarrow> I (in_rematch e ok j s)"
    by (auto simp: in_rematch_def Let_def frame intro!: prepared ensured pc_gone)
  show "I s \<Longrightarrow> I (in_rolled e ok j s)"
    by (auto simp: in_rolled_def intro!: camera ensured without)
  show "I s \<Longrightarrow> I (in_set_offer e ok j s)"
    by (auto simp: in_set_offer_def Let_def intro!: set inbox ensured without)
  show "I s \<Longrightarrow> I (in_set_again now ok j s)"
    by (simp add: in_set_again_def set inbox)
  show "I s \<Longrightarrow> I (in_bound j s)" "I s \<Longrightarrow> I (in_created d j s)" "I s \<Longrightarrow> I (emit_answer sh j s)" "I s \<Longrightarrow> I (in_local sh j s)"
    by (simp_all add: in_bound_def in_created_def in_local_def inbox ice_kept em)
  show "I s \<Longrightarrow> I (in_answered ok j s)"
    by (auto simp: in_answered_def frame intro!: inbox ice_kept)
qed

lemma step: "I s \<Longrightarrow> allowed ev \<Longrightarrow> I (phone_step s ev)"
  by (cases ev) (auto simp: setIceConfig_def setHideIp_def frame intro!: configured hidden extra forced rebuilt warmed
      started started_pc start_moves closed pc_view timers ice_kept offer_steps refused watched restarted inbox handled
      prepared media applied answering split: option.split)

lemma run: "I s \<Longrightarrow> list_all allowed es \<Longrightarrow> I (phone_run s es)"
  unfolding phone_run_def by (induction es arbitrary: s) (simp_all add: step)

end

section \<open>The flags tell the truth\<close>

definition flags_ok :: "phone \<Rightarrow> bool" where
  "flags_ok s \<longleftrightarrow> phSticky s = phForceOnce s \<and> (case phPc s of None \<Rightarrow> True | Some p \<Rightarrow> phRelayPc s = ppRelay p)"

interpretation flags: session_law flags_ok "\<lambda>_. True"
  by unfold_locales (auto simp: flags_ok_def send_def split: option.splits)

text \<open>C18: The flag that says under which policy the connection was made is never wrong, and the two latches
  of the relay policy, the one-shot and the sticky one, are always the same.\<close>

theorem session_flags_true:
  "let s = phone_run new_phone es
   in phSticky s = phForceOnce s \<and> (case phPc s of None \<Rightarrow> True | Some p \<Rightarrow> phRelayPc s = ppRelay p)"
proof -
  have "flags_ok (phone_run new_phone es)"
    by (rule flags.run) (simp_all add: flags_ok_def new_phone_def list_all_iff)
  then show ?thesis by (simp add: flags_ok_def Let_def)
qed

section \<open>What a relay-only session lets out\<close>

definition relay_sdp :: "string \<Rightarrow> bool" where
  "relay_sdp sdp \<longleftrightarrow>
     (let cs = filter candidate_line (js_lines sdp)
      in list_all (\<lambda>l. \<not> mdns_line l) cs \<and> (if list_ex (has_typ ''relay'') cs then list_all (has_typ ''relay'') cs else True))"

definition relay_signal :: "phone_signal \<Rightarrow> bool" where
  "relay_signal m =
     (case m of
        PsIce c \<Rightarrow> phone_isRelay c \<and> \<not> has_typ ''host'' (str_or (vget c ''candidate''))
      | PsOffer d \<Rightarrow> relay_sdp (opt_text (dsSdp d))
      | PsAnswer d \<Rightarrow> relay_sdp (opt_text (dsSdp d))
      | PsBye \<Rightarrow> True)"

definition hidden_session :: "phone \<Rightarrow> bool" where
  "hidden_session s \<longleftrightarrow> phHideIp s \<and> turn_flag s \<and> list_all (\<lambda>m. relay_signal (snSignal m)) (phSent s)"

definition stays_hidden :: "phone_event \<Rightarrow> bool" where
  "stays_hidden ev = (case ev of PhConfig c \<Rightarrow> piTurn c | PhHide on \<Rightarrow> on | _ \<Rightarrow> True)"

lemma hidden_desired: "hidden_session s \<Longrightarrow> desiredRelayPolicy s \<and> shouldStripHost s"
  by (simp add: hidden_session_def desiredRelayPolicy_def shouldStripHost_def)

lemma relay_sdp_out:
  assumes "desiredRelayPolicy s" "phone_sdp s raw \<noteq> ''''"
  shows "relay_sdp (phone_sdp s raw)"
proof -
  have raw: "raw \<noteq> ''''" using assms(2) by (auto simp: phone_sdp_def Let_def phone_stripHost_def)
  let ?m = "stripMdnsHostCandidatesFromSdp raw"
  have m: "phone_sdp s raw = stripNonRelayCandidatesFromSdp ?m"
  proof (cases "?m = ''''")
    case True
    then show ?thesis
      using assms raw by (simp add: phone_sdp_def Let_def stripMdns_agree stripNonRelay_agree phone_stripHost_def)
  next
    case False
    then show ?thesis using assms raw by (simp add: phone_sdp_def Let_def stripMdns_agree stripNonRelay_agree)
  qed
  have no_mdns: "\<not> mdns_line l" if "l \<in> set (js_lines ?m)" for l
    using that raw by (auto simp: strip_mdns_lines Let_def mdns_line_def split: if_splits)
  show ?thesis
  proof (cases "filter (\<lambda>l. candidate_line l \<and> has_typ ''relay'' l) (js_lines ?m) = []")
    case True
    then have "\<not> list_ex (has_typ ''relay'') (filter candidate_line (js_lines ?m))"
      by (auto simp: list_ex_iff filter_empty_conv)
    moreover have "list_all (\<lambda>l. \<not> mdns_line l) (filter candidate_line (js_lines ?m))"
      using no_mdns by (simp add: list_all_iff)
    ultimately show ?thesis
      using True unfolding m relay_sdp_def Let_def strip_non_relay_lines by (simp only: if_True if_False simp_thms)
  next
    case False
    have "list_all (\<lambda>l. \<not> mdns_line l) (filter candidate_line (filter (\<lambda>l. \<not> non_relay_line l) (js_lines ?m)))"
      "list_all (has_typ ''relay'') (filter candidate_line (filter (\<lambda>l. \<not> non_relay_line l) (js_lines ?m)))"
      using no_mdns by (simp_all add: list_all_iff non_relay_line_def)
    with False show ?thesis
      unfolding m relay_sdp_def Let_def strip_non_relay_lines by (simp only: if_False if_cancel simp_thms)
  qed
qed

interpretation hidden: session_law hidden_session stays_hidden
proof unfold_locales
  fix s sdp raw g t assume "hidden_session s" "sdp = phone_sdp s raw" "sdp \<noteq> ''''"
  then show "hidden_session (send g False (PsAnswer \<lparr>dsType = t, dsSdp = Some sdp\<rparr>) s)"
    using relay_sdp_out [of s raw] hidden_desired [of s]
    by (simp add: hidden_session_def send_def relay_signal_def opt_text_def turn_flag_def)
next
  fix s c assume "hidden_session s" "phone_trickles s c"
  then show "hidden_session (send (phGen s) False (PsIce c) s)"
    using hidden_desired [of s]
    by (auto simp: hidden_session_def send_def relay_signal_def phone_trickles_def turn_flag_def split: if_splits)
next
  fix s k sdp raw t assume "hidden_session s" "sdp = phone_sdp s raw" "sdp \<noteq> ''''"
  then show "hidden_session ((send (ljGen (phOffers s ! k)) (ljRestart (phOffers s ! k)) (PsOffer \<lparr>dsType = t, dsSdp = Some sdp\<rparr>)
      (s\<lparr>phOfferSent := True\<rparr>))\<lparr>phOffers := (phOffers s)[k := (phOffers s ! k)\<lparr>ljStage := LoDone\<rparr>]\<rparr>)"
    using relay_sdp_out [of s raw] hidden_desired [of s]
    by (simp add: hidden_session_def send_def relay_signal_def opt_text_def turn_flag_def)
qed (auto simp: hidden_session_def send_def relay_signal_def turn_flag_def stays_hidden_def)

text \<open>C11: While the user hides the IP address and the hub offers TURN, whatever happens in the session, every
  candidate that leaves the phone is a relay candidate, and every offer and answer is free of mDNS names
  and, as soon as it has one relay candidate, of all others.\<close>

theorem hidden_session_relays_only:
  assumes "piTurn cfg" and "list_all stays_hidden es"
  shows "list_all (\<lambda>m. relay_signal (snSignal m)) (phSent (phone_run new_phone ([PhConfig cfg, PhHide True] @ es)))"
proof -
  have "hidden_session (phone_run new_phone [PhConfig cfg, PhHide True])"
    using assms(1) by (simp add: phone_run_def new_phone_def setIceConfig_def setHideIp_def hidden_session_def turn_flag_def)
  from hidden.run [OF this assms(2)] show ?thesis
    by (simp add: phone_run_def hidden_session_def)
qed

definition stun_only :: phone_ice where
  "stun_only = \<lparr>piServers = Some [\<lparr>isUrls = OneUrl ''stun:s.example'', isUsername = None, isCredential = None\<rparr>], piTurn = False\<rparr>"

definition with_turn :: phone_ice where
  "with_turn = \<lparr>piServers = Some [\<lparr>isUrls = OneUrl ''turn:t.example'', isUsername = None, isCredential = None\<rparr>], piTurn = True\<rparr>"

definition relay_cand :: jsval where
  "relay_cand = JObj [(''candidate'', JStr ''candidate:1 1 udp 9 192.0.2.9 9 typ relay'')]"

definition srflx_cand :: jsval where
  "srflx_cand = JObj [(''candidate'', JStr ''candidate:2 1 udp 9 198.51.100.7 9 typ srflx'')]"

theorem hidden_session_relays_only_witness:
  "list_all (\<lambda>m. relay_signal (snSignal m))
     (phSent (phone_run new_phone ([PhConfig with_turn, PhHide True] @ [PhCandidate relay_cand, PhCandidate srflx_cand]))) \<and>
   length (phSent (phone_run new_phone ([PhConfig with_turn, PhHide True] @ [PhCandidate relay_cand, PhCandidate srflx_cand]))) = 1"
proof
  show "list_all (\<lambda>m. relay_signal (snSignal m))
     (phSent (phone_run new_phone ([PhConfig with_turn, PhHide True] @ [PhCandidate relay_cand, PhCandidate srflx_cand])))"
    by (rule hidden_session_relays_only) (simp_all add: with_turn_def stays_hidden_def)
  show "length (phSent (phone_run new_phone ([PhConfig with_turn, PhHide True] @ [PhCandidate relay_cand, PhCandidate srflx_cand]))) = 1"
    by code_simp
qed

text \<open>Without TURN the same user sends the public address: only host candidates are held back.\<close>

lemma hide_ip_without_turn_leaks:
  "map snSignal (phSent (phone_run new_phone [PhConfig stun_only, PhHide True, PhCandidate srflx_cand])) = [PsIce srflx_cand]"
  by code_simp

section \<open>One first offer in a call\<close>

definition is_phone_offer :: "phone_signal \<Rightarrow> bool" where
  "is_phone_offer m = (case m of PsOffer d \<Rightarrow> True | _ \<Rightarrow> False)"

definition first_sent :: "nat \<Rightarrow> phone \<Rightarrow> nat" where
  "first_sent g s = length (filter (\<lambda>m. snGen m = g \<and> \<not> snRestart m \<and> is_phone_offer (snSignal m)) (phSent s))"

definition live_first :: "phone \<Rightarrow> lo_job \<Rightarrow> bool" where
  "live_first s j \<longleftrightarrow> ljGen j = phGen s \<and> \<not> ljRestart j \<and> ljStage j \<noteq> LoDone"

definition first_live :: "phone \<Rightarrow> nat" where
  "first_live s = length (filter (live_first s) (phOffers s))"

definition offers_ok :: "phone \<Rightarrow> bool" where
  "offers_ok s \<longleftrightarrow> \<not> phSecondary s \<and>
     list_all (\<lambda>j. ljGen j \<le> phGen s) (phOffers s) \<and>
     list_all (\<lambda>m. snGen m \<le> phGen s \<and> (is_phone_offer (snSignal m) \<longrightarrow> snBegun m = snGen m)) (phSent s) \<and>
     (\<forall>g. first_sent g s \<le> 1) \<and> first_live s + first_sent (phGen s) s \<le> 1 \<and>
     (first_live s + first_sent (phGen s) s > 0 \<longrightarrow> phOfferSent s)"

definition stays_primary :: "phone_event \<Rightarrow> bool" where
  "stays_primary ev \<longleftrightarrow> ev \<noteq> PhSecondary True"

lemma count_update:
  "k < length xs \<Longrightarrow>
     length (filter P (xs[k := y])) + (if P (xs ! k) then 1 else 0) = length (filter P xs) + (if P y then 1 else 0)"
proof (induction xs arbitrary: k)
  case (Cons x xs)
  then show ?case
  proof (cases k)
    case (Suc k')
    with Cons.prems Cons.IH [of k'] show ?thesis by (simp split: if_splits)
  qed simp
qed simp

lemma live_first_cong: "phGen t = phGen s \<Longrightarrow> live_first t = live_first s"
  by (simp add: live_first_def fun_eq_iff)

lemma live_count:
  assumes "k < length (phOffers s)" "phOffers t = (phOffers s)[k := y]" "phGen t = phGen s"
  shows "first_live t + (if live_first s (phOffers s ! k) then 1 else 0) = first_live s + (if live_first s y then 1 else 0)"
  unfolding first_live_def assms(2) live_first_cong [OF assms(3)] by (rule count_update [OF assms(1)])

lemma offers_ok_keep:
  "offers_ok s \<Longrightarrow> phSecondary t = phSecondary s \<Longrightarrow> phOffers t = phOffers s \<Longrightarrow> phGen t = phGen s \<Longrightarrow>
     phSent t = phSent s \<Longrightarrow> phOfferSent t = phOfferSent s \<Longrightarrow> offers_ok t"
  using live_first_cong [of t s] by (simp add: offers_ok_def first_sent_def first_live_def)

lemma offers_ok_said:
  "offers_ok s \<Longrightarrow> \<not> is_phone_offer m \<Longrightarrow> offers_ok (send g r m s)"
  using live_first_cong [of "send g r m s" s] by (simp add: offers_ok_def first_sent_def first_live_def send_def)

lemma job_gens: "list_all (\<lambda>j. ljGen j \<le> n) xs \<Longrightarrow> k < length xs \<Longrightarrow> ljGen y = ljGen (xs ! k) \<Longrightarrow>
    list_all (\<lambda>j. ljGen j \<le> n) (xs[k := y])"
  using set_update_subset_insert [of xs k y] nth_mem [of k xs] by (fastforce simp: list_all_iff)

interpretation offers: session_law offers_ok stays_primary
proof unfold_locales
  fix s b assume "offers_ok s" "phSecondary s"
  then show "offers_ok (s\<lparr>phOfferSent := False\<rparr>)" by (simp add: offers_ok_def)
next
  fix s assume s: "offers_ok s"
  have "first_sent (Suc (phGen s)) s = 0"
    using s by (auto simp: offers_ok_def first_sent_def filter_empty_conv list_all_iff)
  moreover have "filter (live_first (s\<lparr>phRelayPc := False, phSecondary := False, phGen := phGen s + 1, phOfferSent := False\<rparr>)) (phOffers s) = []"
    using s by (auto simp: offers_ok_def live_first_def filter_empty_conv list_all_iff)
  ultimately show "offers_ok (s\<lparr>phRelayPc := False, phSecondary := False, phGen := phGen s + 1, phOfferSent := False\<rparr>)"
    using s by (auto simp: offers_ok_def first_sent_def first_live_def list_all_iff)
next
  fix s now r i d
  assume s: "offers_ok s" and gate: "phone_offer_gate now r s = None"
  let ?j = "\<lparr>ljGen = phGen s, ljPc = i, ljRestart = r, ljMade = d, ljStage = LoCreate\<rparr>"
  let ?t = "s\<lparr>phOfferSent := (phOfferSent s \<or> \<not> r), phOffers := phOffers s @ [?j]\<rparr>"
  have fresh: "\<not> phOfferSent s" if "\<not> r"
    using gate that by (auto simp: phone_offer_gate_def split: option.splits if_splits)
  have "first_live ?t = first_live s + (if r then 0 else 1)"
    using live_first_cong [of ?t s] by (simp add: first_live_def) (simp add: live_first_def)
  with s fresh show "offers_ok ?t"
    by (auto simp: offers_ok_def first_sent_def)
next
  fix s k assume s: "offers_ok s" and k: "k < length (phOffers s)"
  let ?t = "s\<lparr>phOffers := (phOffers s)[k := (phOffers s ! k)\<lparr>ljStage := LoDone\<rparr>]\<rparr>"
  have "first_live ?t \<le> first_live s"
    using live_count [OF k, of ?t "(phOffers s ! k)\<lparr>ljStage := LoDone\<rparr>"] by (simp add: live_first_def split: if_splits)
  with s k show "offers_ok ?t"
    by (auto simp: offers_ok_def first_sent_def intro: job_gens)
next
  fix s k st d
  assume s: "offers_ok s" and k: "k < length (phOffers s)" "ljStage (phOffers s ! k) \<noteq> LoDone" and st: "st \<noteq> LoDone"
  let ?t = "s\<lparr>phOffers := (phOffers s)[k := (phOffers s ! k)\<lparr>ljMade := d, ljStage := st\<rparr>]\<rparr>"
  have "first_live ?t = first_live s"
    using live_count [OF k(1), of ?t "(phOffers s ! k)\<lparr>ljMade := d, ljStage := st\<rparr>"] k st by (simp add: live_first_def split: if_splits)
  with s k show "offers_ok ?t"
    by (auto simp: offers_ok_def first_sent_def intro: job_gens)
next
  fix s k
  assume s: "offers_ok s" and k: "k < length (phOffers s)" "ljStage (phOffers s ! k) \<noteq> LoDone"
    "\<not> ljRestart (phOffers s ! k)" "ljGen (phOffers s ! k) = phGen s"
  let ?t = "s\<lparr>phOfferSent := False, phOffers := (phOffers s)[k := (phOffers s ! k)\<lparr>ljStage := LoDone\<rparr>]\<rparr>"
  have live: "first_live ?t + 1 = first_live s"
    using live_count [OF k(1), of ?t "(phOffers s ! k)\<lparr>ljStage := LoDone\<rparr>"] k by (simp add: live_first_def)
  then have "first_live ?t = 0" "first_sent (phGen s) s = 0"
    using s by (auto simp: offers_ok_def)
  with s k show "offers_ok ?t"
    by (auto simp: offers_ok_def first_sent_def intro: job_gens)
next
  fix s k sdp t and raw :: string
  assume s: "offers_ok s" and k: "k < length (phOffers s)" "ljStage (phOffers s ! k) \<noteq> LoDone"
    "ljGen (phOffers s ! k) = phGen s"
  let ?j = "phOffers s ! k"
  let ?t = "(send (ljGen ?j) (ljRestart ?j) (PsOffer \<lparr>dsType = t, dsSdp = Some sdp\<rparr>) (s\<lparr>phOfferSent := True\<rparr>))
    \<lparr>phOffers := (phOffers s)[k := ?j\<lparr>ljStage := LoDone\<rparr>]\<rparr>"
  define u where "u = ?t"
  have u: "phOffers u = (phOffers s)[k := ?j\<lparr>ljStage := LoDone\<rparr>]" "phGen u = phGen s" "\<not> phSecondary u" "phOfferSent u"
    "phSent u = \<lparr>snBegun = ljGen ?j, snGen = phGen s, snRestart = ljRestart ?j, snSignal = PsOffer \<lparr>dsType = t, dsSdp = Some sdp\<rparr>\<rparr> # phSent s"
    using s by (simp_all add: u_def send_def offers_ok_def)
  have live: "first_live u + (if ljRestart ?j then 0 else 1) = first_live s"
    using live_count [OF k(1) u(1,2)] k by (simp add: live_first_def split: if_splits)
  have sent: "first_sent g u = first_sent g s + (if g = phGen s \<and> \<not> ljRestart ?j then 1 else 0)" for g
    by (simp add: first_sent_def u(5) is_phone_offer_def)
  have lists: "list_all (\<lambda>j. ljGen j \<le> phGen s) (phOffers u)"
    "list_all (\<lambda>m. snGen m \<le> phGen s \<and> (is_phone_offer (snSignal m) \<longrightarrow> snBegun m = snGen m)) (phSent u)"
    using s k by (auto simp: offers_ok_def u intro: job_gens)
  have one: "first_sent g s \<le> 1" "first_live s + first_sent (phGen s) s \<le> 1" for g
    using s by (auto simp: offers_ok_def)
  have "\<forall>g. first_sent g u \<le> 1" "first_live u + first_sent (phGen s) u \<le> 1"
    unfolding sent using live one by (auto split: if_splits)
  then have "offers_ok u"
    using lists u(2-4) by (simp add: offers_ok_def)
  then show "offers_ok ?t" by (simp add: u_def)
next
  fix on s assume on: "stays_primary (PhSecondary on)" and s: "offers_ok s"
  then have "phSecondary (s\<lparr>phSecondary := on\<rparr>) = phSecondary s"
    by (simp add: stays_primary_def offers_ok_def)
  from offers_ok_keep [OF s this] show "offers_ok (s\<lparr>phSecondary := on\<rparr>)" by simp
qed (auto simp: offers_ok_said is_phone_offer_def stays_primary_def elim: offers_ok_keep)

text \<open>C10: A session that is not an extra link of a call of several people sends at most one offer per call
  that is not an ICE restart, and never one that was begun in a call that is over.\<close>

theorem one_first_offer_per_call:
  assumes "list_all stays_primary es"
  shows "length (filter (\<lambda>m. snGen m = g \<and> \<not> snRestart m \<and> is_phone_offer (snSignal m)) (phSent (phone_run new_phone es))) \<le> 1 \<and>
         list_all (\<lambda>m. if is_phone_offer (snSignal m) then snBegun m = snGen m else True) (phSent (phone_run new_phone es))"
proof -
  have "offers_ok (phone_run new_phone es)"
    by (rule offers.run [OF _ assms]) (simp add: offers_ok_def new_phone_def first_sent_def first_live_def)
  then show ?thesis by (simp add: offers_ok_def first_sent_def list_all_iff)
qed

definition ready :: phone_env where
  "ready = \<lparr>meNow = 1000, meLinked = True, meLocal = True, meCam = True, meTracks = True, meRestartApi = True\<rparr>"

definition two_starts :: "phone_event list" where
  "two_starts =
     [PhConfig stun_only, PhStart ready True None, PhMade \<lparr>dsType = ''offer'', dsSdp = Some ''v=0''\<rparr> 0, PhLocal 1200 0,
      PhStartOffered 0, PhStart ready True None]"

theorem one_first_offer_per_call_witness:
  "length (filter (\<lambda>m. snGen m = 0 \<and> \<not> snRestart m \<and> is_phone_offer (snSignal m)) (phSent (phone_run new_phone two_starts))) \<le> 1 \<and>
   list_all (\<lambda>m. if is_phone_offer (snSignal m) then snBegun m = snGen m else True) (phSent (phone_run new_phone two_starts)) \<and>
   map (\<lambda>m. is_phone_offer (snSignal m)) (phSent (phone_run new_phone two_starts)) = [True]"
proof -
  have "list_all stays_primary two_starts" by (simp add: two_starts_def stays_primary_def)
  note one_first_offer_per_call [OF this, of 0]
  moreover have "map (\<lambda>m. is_phone_offer (snSignal m)) (phSent (phone_run new_phone two_starts)) = [True]" by code_simp
  ultimately show ?thesis by blast
qed

section \<open>A crossing of offers\<close>

text \<open>The phone, told to offer, has an offer in the making when the partner's offer comes in. It rolls back and
  answers; then its own offer is made, on the same connection in the same call, and goes out too.\<close>

definition partner_offer :: description where
  "partner_offer = \<lparr>dsType = ''offer'', dsSdp = Some ''v=0''\<rparr>"

definition own_desc :: "string \<Rightarrow> description" where
  "own_desc t = \<lparr>dsType = t, dsSdp = Some ''v=0''\<rparr>"

definition crossing :: "phone_event list" where
  "crossing =
     [PhConfig stun_only, PhStart ready True None, PhReceive 1100 (RmOffer partner_offer), PhHandle ready True 0,
      PhRolled ready True 0, PhSetOffer ready True 0, PhBound 0, PhCreated (own_desc ''answer'') 0, PhLocalSet None 0,
      PhMade (own_desc ''offer'') 0, PhLocal 1200 0]"

text \<open>So one side of a call may send an answer and after it an offer: nothing that answering does stops an
  offer that is under way.\<close>

theorem offer_after_answer:
  "map (\<lambda>m. (snGen m, snRestart m, snSignal m)) (rev (phSent (phone_run new_phone crossing))) =
     [(0, False, PsAnswer (own_desc ''answer'')), (0, False, PsOffer (own_desc ''offer''))]"
  by code_simp

section \<open>Offers that are stale or stuck\<close>

text \<open>A stale offer clears \<open>makingOffer\<close> also when a newer one is in the making.\<close>

lemma stale_offer_clears_making:
  "stale_offer k s \<Longrightarrow> \<not> phMaking (offer_made d k s)"
  by (simp add: offer_made_def end_offer_def)

section \<open>Two branches no run takes\<close>

text \<open>The wait for the hub's word on the relay policy is skipped when a match is known, and the connect clock
  that says so has just been set; and the age of the remote offer, tested against two seconds, has just
  been set to zero, so a connection stuck with a remote offer refuses every other.\<close>

lemma never_polls:
  "meNow e > 0 \<Longrightarrow> phMatchMark s \<ge> 0 \<Longrightarrow> phCallStart s \<ge> 0 \<Longrightarrow>
     in_prep e j s = (let s1 = s\<lparr>phMatchMark := (if phMatchMark s = 0 then meNow e else phMatchMark s)\<rparr>
        in in_media e j (if in_offer j s \<and> \<not> phSticky s \<and> \<not> phForceOnce s \<and> \<not> phHideIp s \<and> offerSdpLooksPureRelay (in_sdp j s)
                         then setForceRelay e True s1 else s1))"
  by (auto simp: in_prep_def Let_def in_offer_def in_sdp_def offerSdpLooksPureRelay_def)

lemma stuck_offer_refused:
  "phHasRemote s \<Longrightarrow> pc_remote s \<Longrightarrow> pc_signaling SdpRemoteOffer s \<Longrightarrow>
     phPc (offer_apply_phone e j s) = phPc s \<and> (j < length (phInbox s) \<longrightarrow> in_at j PiDone (offer_apply_phone e j s))"
  by (auto simp: offer_apply_phone_def Let_def pc_remote_def pc_signaling_def in_finish_def in_to_def upd_in_def in_at_def)

section \<open>An ICE restart that comes too early\<close>






definition failed_call :: phone where
  "failed_call = phone_run new_phone
     [PhConfig stun_only, PhStart ready True None, PhMade (own_desc ''offer'') 0, PhLocal 1200 0, PhStartOffered 0,
      PhReceive 1300 (RmAnswer (own_desc ''answer'')), PhHandle ready True 0, PhSetAnswer True 0,
      PhView (fresh_pc\<lparr>pcIce := IceFailed, pcConn := ConnFailed\<rparr>)]"


section \<open>A hard retry\<close>

text \<open>What \<open>runConnectRetry\<close> (\<open>Recovery\<close>) does to a session, operation by operation; \<open>turn\<close> is the \<open>has_turn\<close> of the
  configuration it fetched.\<close>

definition do_media_op :: "phone_env \<Rightarrow> bool \<Rightarrow> bool \<Rightarrow> media_op \<Rightarrow> phone \<Rightarrow> phone" where
  "do_media_op e turn preview op s =
     (case op of
        MoConfig k servers \<Rightarrow> if k = 1 then setIceConfig \<lparr>piServers = servers, piTurn = turn\<rparr> s else s
      | MoForceRelayRebuild \<Rightarrow> forceRelayRebuild s
      | MoCloseCall \<Rightarrow> phone_close e True False None preview s
      | MoStartCall off \<Rightarrow> phone_start e off None s
      | MoTryIceRestart \<Rightarrow> snd (phone_restart e True False False s))"

definition do_media_ops :: "phone_env \<Rightarrow> bool \<Rightarrow> bool \<Rightarrow> media_op list \<Rightarrow> phone \<Rightarrow> phone" where
  "do_media_ops e turn preview ops s = fold (do_media_op e turn preview) ops s"

text \<open>A session without a connection that takes its offer for sent: what is left of the retry. What goes on
  on the phone itself, be it a timer, a button, a further call or retry, or the end of a call of the
  connection's interface, is a \<open>local_event\<close>; hanging up and the partner's signals are not.\<close>

definition dead_session :: "phone \<Rightarrow> bool" where
  "dead_session s \<longleftrightarrow> phPc s = None \<and> phOfferSent s \<and> \<not> phSecondary s \<and> phForceOnce s \<and> phSticky s \<and>
     list_all (\<lambda>j. ljStage j \<noteq> LoCreate) (phOffers s) \<and> list_all (\<lambda>st. st = StDone \<or> st = StOffer) (phStarts s)"

fun local_event :: "phone_event \<Rightarrow> bool" where
  "local_event (PhForce e on) = on"
| "local_event (PhClose e kl bye cl pv) = False"
| "local_event (PhSecondary on) = (\<not> on)"
| "local_event (PhReceive now sig) = False"
| "local_event (PhHandle e pv j) = False"
| "local_event (PhRematch e ok j) = False"
| "local_event (PhPolled e j) = False"
| "local_event (PhMedia e j) = False"
| "local_event (PhRolled e ok j) = False"
| "local_event (PhCamera j) = False"
| "local_event (PhSetOffer e ok j) = False"
| "local_event (PhSetAgain now ok j) = False"
| "local_event (PhBound j) = False"
| "local_event (PhCreated d j) = False"
| "local_event (PhCreateFailed j) = False"
| "local_event (PhLocalSet d j) = False"
| "local_event (PhAnswerGathered d j) = False"
| "local_event (PhSetAnswer ok j) = False"
| "local_event (PhCandidate c) = False"
| "local_event _ = True"

definition stays_dead :: "phone \<Rightarrow> phone \<Rightarrow> bool" where
  "stays_dead s t \<longleftrightarrow> dead_session t \<and> phSent t = phSent s"

lemma dead_start: "dead_session s \<Longrightarrow> stays_dead s (phone_start e off fr s)"
proof -
  assume s: "dead_session s"
  then have pc: "phPc s = None" and sec: "\<not> phSecondary s" and sent: "phOfferSent s" by (simp_all add: dead_session_def)
  have force: "(if fr = Some True then setForceRelay e True s else s) = s"
    using s by (simp add: setForceRelay_def Let_def dead_session_def)
  have drop: "dropDeadPc k a t = (False, t)" if "phPc t = None" for k a t
    using that by (simp add: dropDeadPc_def)
  have reset: "resetStuckExtraPc t = (False, t)" if "\<not> phSecondary t" for t
    using that by (simp add: resetStuckExtraPc_def shouldResetStuckExtraPc_def)
  have chk: "start_checks e off ok t = watch_conn t" if "phPc t = None" "phOfferSent t" for t ok
    using that by (simp add: start_checks_def Let_def)
  have "phone_start e off fr s = s \<or> phone_start e off fr s = watch_conn (s\<lparr>phStarting := False\<rparr>)"
    unfolding phone_start_def Let_def force
    using pc sec sent by (simp add: drop reset chk ice_is_def conn_is_def)
  with s show ?thesis by (auto simp: stays_dead_def dead_session_def watch_conn_def)
qed

lemma dead_restart:
  assumes "dead_session s"
  shows "stays_dead s (snd (phone_restart e f p eb s))"
proof -
  have "phPc s \<noteq> None" if "restart_gate (meNow e) f eb s = None"
    using that by (simp add: restart_gate_def split: if_splits)
  then have "restart_gate (meNow e) f eb s \<noteq> None" using assms by (auto simp: dead_session_def)
  with assms show ?thesis by (auto simp: phone_restart_def stays_dead_def Let_def)
qed

text \<open>An offer that was under way is stale, as its connection is gone; the others were made already.\<close>

lemma dead_offer_end:
  "dead_session s \<Longrightarrow> k < length (phOffers s) \<Longrightarrow> stays_dead s (end_offer k s)"
  by (auto simp: stays_dead_def dead_session_def end_offer_def upd_offer_def list_all_iff
      dest!: subsetD [OF set_update_subset_insert])

lemma dead_offers:
  assumes "dead_session s"
  shows "\<not> offer_at k LoCreate s" and "\<not> start_at k StConfig s" and "\<not> start_at k StMedia s"
    and "offer_at k LoLocal s \<Longrightarrow> stays_dead s (offer_local_done now k s)"
    and "offer_at k LoGather s \<Longrightarrow> stays_dead s (offer_gather_done now k s)"
  using assms dead_offer_end [OF assms, of k]
  by (auto simp: offer_at_def start_at_def offer_local_done_def offer_gather_done_def stale_offer_def
      dead_session_def list_all_length)

lemma dead_end_start: "dead_session s \<Longrightarrow> stays_dead s (end_start k (watch_conn s))"
  by (auto simp: stays_dead_def dead_session_def end_start_def start_to_def watch_conn_def list_all_iff
      dest!: subsetD [OF set_update_subset_insert])

lemma dead_timers:
  assumes "dead_session s"
  shows "stays_dead s (setForceRelay e True s)" and "stays_dead s (forceRelayRebuild s)"
    and "stays_dead s (phone_warm e pr s)" and "stays_dead s (warm_done ok s)" and "stays_dead s (phone_watchdog e s)"
    and "stays_dead s (watchdog_offer e (s\<lparr>phWatchCam := n\<rparr>))"
    and "stays_dead s (phone_conn_watch e s)" and "stays_dead s (phone_probe e s)"
    and "stays_dead s (phone_black_watch e r s)" and "stays_dead s (phone_connected s)"
proof -
  show "stays_dead s (setForceRelay e True s)" "stays_dead s (forceRelayRebuild s)" "stays_dead s (phone_warm e pr s)"
    "stays_dead s (warm_done ok s)"
    using assms by (simp_all add: stays_dead_def dead_session_def setForceRelay_def forceRelayRebuild_def phone_warm_def
        warm_done_def Let_def)
  show "stays_dead s (phone_watchdog e s)" "stays_dead s (watchdog_offer e (s\<lparr>phWatchCam := n\<rparr>))"
    using assms by (simp_all add: stays_dead_def dead_session_def phone_watchdog_def watchdog_offer_def Let_def)
  show "stays_dead s (phone_conn_watch e s)" "stays_dead s (phone_probe e s)"
    "stays_dead s (phone_black_watch e r s)" "stays_dead s (phone_connected s)"
    using assms by (simp_all add: stays_dead_def dead_session_def phone_conn_watch_def phone_probe_def
        phone_black_watch_def phone_connected_def Let_def)
qed

lemma dead_step: "dead_session s \<Longrightarrow> local_event ev \<Longrightarrow> stays_dead s (phone_step s ev)"
proof -
  assume s: "dead_session s" and ev: "local_event ev"
  have same: "stays_dead s s" using s by (simp add: stays_dead_def)
  show ?thesis
    using ev by (cases ev) (use s same in \<open>simp_all add: dead_timers dead_start dead_offers dead_restart dead_end_start\<close>,
      auto simp: stays_dead_def dead_session_def setIceConfig_def setHideIp_def)
qed

lemma dead_run: "dead_session s \<Longrightarrow> list_all local_event es \<Longrightarrow> stays_dead s (phone_run s es)"
proof (induction es arbitrary: s)
  case (Cons ev es)
  then have "stays_dead s (phone_step s ev)" by (simp add: dead_step)
  moreover from this Cons have "stays_dead (phone_step s ev) (phone_run (phone_step s ev) es)"
    by (simp add: stays_dead_def)
  ultimately show ?case by (simp add: phone_run_def stays_dead_def)
qed (simp add: phone_run_def stays_dead_def)

lemma media_ops_append: "do_media_ops e turn pv (xs @ ys) s = do_media_ops e turn pv ys (do_media_ops e turn pv xs s)"
  by (simp add: do_media_ops_def)

lemma retry_configured:
  "rdMedia d \<Longrightarrow> do_media_ops e turn pv (config_ops d servers) s = s\<lparr>phIce := Some \<lparr>piServers = servers, piTurn = turn\<rparr>\<rparr>"
  by (simp add: do_media_ops_def config_ops_def do_media_op_def setIceConfig_def)

lemma armed_nonempty: "armed_rung d rung = Some (r, l) \<Longrightarrow> l \<noteq> []"
  by (auto simp: armed_rung_def Let_def split: option.splits if_splits)

definition offered_session :: "phone \<Rightarrow> bool" where
  "offered_session s \<longleftrightarrow> phOfferSent s \<and> \<not> phSecondary s \<and>
     list_all (\<lambda>j. ljStage j \<noteq> LoCreate) (phOffers s) \<and> list_all (\<lambda>st. st = StDone \<or> st = StOffer) (phStarts s)"

definition turn_retry :: "retry_deps \<Rightarrow> bool" where
  "turn_retry d \<longleftrightarrow> rdMedia d \<and> rdCanForceRelay d \<and> rdThrows d = None \<and>
     (case rdIce d of None \<Rightarrow> False | Some a \<Rightarrow> iaHasTurn a \<and> (case iaServers a of None \<Rightarrow> False | Some l \<Rightarrow> l \<noteq> []))"

lemma hard_retry_ops:
  assumes "turn_retry d"
  obtains l where "l \<noteq> []" and "do_media_ops e True pv (fst (runConnectRetry d True rung)) s =
    phone_start e (rdForceOfferer d \<noteq> Some False) None
      (forceRelayRebuild (s\<lparr>phIce := Some \<lparr>piServers = Some l, piTurn = True\<rparr>\<rparr>))"
proof -
  from assms obtain a l where a: "rdIce d = Some a" "iaHasTurn a" "iaServers a = Some l" "l \<noteq> []" and d: "rdMedia d"
      "rdCanForceRelay d" "rdThrows d = None"
    by (auto simp: turn_retry_def split: option.splits)
  let ?l = "case armed_rung d rung of None \<Rightarrow> l | Some (r, l') \<Rightarrow> l'"
  have "?l \<noteq> []" using a(4) armed_nonempty [of d rung] by (auto split: option.split)
  moreover have "do_media_ops e True pv (fst (runConnectRetry d True rung)) s =
    phone_start e (rdForceOfferer d \<noteq> Some False) None
      (forceRelayRebuild (s\<lparr>phIce := Some \<lparr>piServers = Some ?l, piTurn = True\<rparr>\<rparr>))"
  proof (cases "armed_rung d rung")
    case None
    then show ?thesis using a d
      by (simp add: runConnectRetry_def Let_def media_ops_append retry_configured) (simp add: do_media_ops_def do_media_op_def)
  next
    case (Some p)
    then show ?thesis using a d
      by (cases p) (simp add: runConnectRetry_def Let_def media_ops_append retry_configured, simp add: do_media_ops_def do_media_op_def)
  qed
  ultimately show thesis by (rule that)
qed

text \<open>C13: A hard retry with TURN on a session that has sent its offer reports success and leaves it without a
  connection: the rebuild keeps \<open>offerSentThisCall\<close>, and \<open>startCall\<close> returns when it is set. No timer,
  button or further retry makes a connection or sends anything, until the user hangs up or the partner
  makes an offer.\<close>

theorem hard_retry_dead:
  assumes "turn_retry d" and "offered_session s" and "list_all local_event es"
  shows "let (ops, r) = runConnectRetry d True rung; s' = phone_run (do_media_ops e True pv ops s) es
         in rrOk r \<and> phPc s' = None \<and> phSent s' = phSent s"
proof -
  obtain l where l: "l \<noteq> []" and ops: "do_media_ops e True pv (fst (runConnectRetry d True rung)) s =
    phone_start e (rdForceOfferer d \<noteq> Some False) None
      (forceRelayRebuild (s\<lparr>phIce := Some \<lparr>piServers = Some l, piTurn = True\<rparr>\<rparr>))"
    using hard_retry_ops [OF assms(1)] .
  let ?t = "forceRelayRebuild (s\<lparr>phIce := Some \<lparr>piServers = Some l, piTurn = True\<rparr>\<rparr>)"
  have "dead_session ?t" "phSent ?t = phSent s"
    using assms(2) l by (simp_all add: dead_session_def offered_session_def forceRelayRebuild_def hasTurn_def
        turn_flag_def hasIceServers_def)
  with dead_start have t: "stays_dead s (do_media_ops e True pv (fst (runConnectRetry d True rung)) s)"
    unfolding ops by (simp add: stays_dead_def)
  then have "stays_dead s (phone_run (do_media_ops e True pv (fst (runConnectRetry d True rung)) s) es)"
    using dead_run [OF _ assms(3)] by (simp add: stays_dead_def)
  moreover have "rrOk (snd (runConnectRetry d True rung))"
    using assms(1) by (auto simp: turn_retry_def runConnectRetry_def Let_def)
  ultimately show ?thesis by (simp add: case_prod_unfold Let_def stays_dead_def dead_session_def)
qed

definition one_turn :: retry_deps where
  "one_turn = \<lparr>rdMedia = True, rdMedia2 = False,
     rdIce = Some \<lparr>iaServers = piServers with_turn, iaHasTurn = True\<rparr>, rdForceOfferer = None, rdCanForceRelay = True,
     rdThrows = None, rdSoftOk = True, rdStream = None\<rparr>"

definition tries :: "phone_event list" where
  "tries = [PhConnWatch (ready\<lparr>meNow := 40000\<rparr>), PhRestart (ready\<lparr>meNow := 50000\<rparr>) True, PhConfig with_turn, PhRebuild,
     PhStart (ready\<lparr>meNow := 60000\<rparr>) True (Some True)]"

theorem hard_retry_dead_witness:
  "(phPc failed_call \<noteq> None) \<and>
   (let (ops, r) = runConnectRetry one_turn True None; s' = phone_run (do_media_ops ready True True ops failed_call) tries
    in rrOk r \<and> phPc s' = None \<and> phSent s' = phSent failed_call)"
proof
  show "phPc failed_call \<noteq> None" by code_simp
  have "turn_retry one_turn" "offered_session failed_call" by code_simp+
  moreover have "list_all local_event tries" by (simp add: tries_def)
  ultimately show "let (ops, r) = runConnectRetry one_turn True None; s' = phone_run (do_media_ops ready True True ops failed_call) tries
    in rrOk r \<and> phPc s' = None \<and> phSent s' = phSent failed_call"
    by (rule hard_retry_dead)
qed

section \<open>A hang-up while an answer is being made\<close>

text \<open>
  Under a relay policy the answer waits for a candidate. The user hangs up in that time, and the next call
  begins, in which the phone is to offer. \<open>asked_to_offer\<close> are the events of that call on the phone itself:
  starting it as the offerer, any timer, button, retry and change of policy, the progress of offers,
  candidates, and signals that come in but are not handled yet.
\<close>

definition asked_to_offer :: "phone_event \<Rightarrow> bool" where
  "asked_to_offer ev = (case ev of PhStart e off fr \<Rightarrow> off | PhForce e on \<Rightarrow> True | PhCandidate c \<Rightarrow> True
     | PhReceive now sig \<Rightarrow> True | _ \<Rightarrow> local_event ev)"

definition offers_out :: "phone \<Rightarrow> phone_sent list" where
  "offers_out s = filter (\<lambda>m. is_phone_offer (snSignal m)) (phSent s)"

definition latched :: "nat \<Rightarrow> phone_sent list \<Rightarrow> phone \<Rightarrow> bool" where
  "latched g out s \<longleftrightarrow> phAnswered s \<and> \<not> phSecondary s \<and> phGen s = g \<and> offers_out s = out
     \<and> list_all (\<lambda>j. ljStage j = LoDone \<or> ljGen j \<noteq> g) (phOffers s)"

lemma latched_cong:
  "latched g out s \<Longrightarrow> phAnswered t = phAnswered s \<Longrightarrow> phSecondary t = phSecondary s \<Longrightarrow> phGen t = phGen s \<Longrightarrow>
     phSent t = phSent s \<Longrightarrow> phOffers t = phOffers s \<Longrightarrow> latched g out t"
  by (simp add: latched_def offers_out_def)

lemma latched_frame [simp]:
  "latched g out (s\<lparr>phPc := pc\<rparr>) = latched g out s" "latched g out (s\<lparr>phNextPc := n\<rparr>) = latched g out s"
  "latched g out (s\<lparr>phRelayPc := b\<rparr>) = latched g out s" "latched g out (s\<lparr>phWarmed := b\<rparr>) = latched g out s"
  "latched g out (s\<lparr>phPrimed := b\<rparr>) = latched g out s" "latched g out (s\<lparr>phHasRemote := b\<rparr>) = latched g out s"
  "latched g out (s\<lparr>phIsOfferer := b\<rparr>) = latched g out s" "latched g out (s\<lparr>phHubOfferer := b\<rparr>) = latched g out s"
  "latched g out (s\<lparr>phMaking := b\<rparr>) = latched g out s" "latched g out (s\<lparr>phLastOfferAt := i\<rparr>) = latched g out s"
  "latched g out (s\<lparr>phOfferSent := b\<rparr>) = latched g out s" "latched g out (s\<lparr>phWatch := b\<rparr>) = latched g out s"
  "latched g out (s\<lparr>phConnWatch := b\<rparr>) = latched g out s" "latched g out (s\<lparr>phGotAnswer := b\<rparr>) = latched g out s"
  "latched g out (s\<lparr>phStarting := b\<rparr>) = latched g out s" "latched g out (s\<lparr>phStartingAt := i\<rparr>) = latched g out s"
  "latched g out (s\<lparr>phRemoteOfferAt := i\<rparr>) = latched g out s" "latched g out (s\<lparr>phPendingOffer := i\<rparr>) = latched g out s"
  "latched g out (s\<lparr>phRestartCount := i\<rparr>) = latched g out s" "latched g out (s\<lparr>phRestartAt := i\<rparr>) = latched g out s"
  "latched g out (s\<lparr>phPendingIce := xs\<rparr>) = latched g out s" "latched g out (s\<lparr>phGotVideo := b\<rparr>) = latched g out s"
  "latched g out (s\<lparr>phCallStart := i\<rparr>) = latched g out s" "latched g out (s\<lparr>phMatchMark := i\<rparr>) = latched g out s"
  "latched g out (s\<lparr>phFrames := b\<rparr>) = latched g out s" "latched g out (s\<lparr>phWatchCam := n\<rparr>) = latched g out s"
  "latched g out (s\<lparr>phWarming := n\<rparr>) = latched g out s" "latched g out (s\<lparr>phStarts := sts\<rparr>) = latched g out s"
  "latched g out (s\<lparr>phInbox := js\<rparr>) = latched g out s" "latched g out (s\<lparr>phIce := c\<rparr>) = latched g out s"
  "latched g out (s\<lparr>phHideIp := b\<rparr>) = latched g out s" "latched g out (s\<lparr>phForceOnce := b\<rparr>) = latched g out s"
  "latched g out (s\<lparr>phSticky := b\<rparr>) = latched g out s"
  by (simp_all add: latched_def offers_out_def)

lemma latched_answered: "latched g out s \<Longrightarrow> phAnswered s" "latched g out s \<Longrightarrow> \<not> phSecondary s"
  "latched g out s \<Longrightarrow> was_answerer s" "latched g out s \<Longrightarrow> inAnsweredCall s"
  by (simp_all add: latched_def was_answerer_def inAnsweredCall_def)

lemma latched_drop: "latched g out s \<Longrightarrow> latched g out (snd (dropDeadPc k a s))"
  by (simp add: dropDeadPc_def split: option.split)

lemma latched_ensure: "latched g out s \<Longrightarrow> latched g out (ensurePc e s)"
  using latched_drop by (simp add: ensurePc_def Let_def)

lemma latched_policy: "latched g out s \<Longrightarrow> latched g out (ensureRelayPolicyPc e s)"
  by (simp add: ensureRelayPolicyPc_def Let_def latched_ensure latched_answered)

lemma latched_force: "latched g out s \<Longrightarrow> latched g out (setForceRelay e on s)"
  by (simp add: setForceRelay_def Let_def latched_ensure latched_policy latched_answered)

lemma latched_rebuild: "latched g out s \<Longrightarrow> latched g out (forceRelayRebuild s)"
  by (simp add: forceRelayRebuild_def)

lemma latched_warm: "latched g out s \<Longrightarrow> latched g out (phone_warm e pr s)" "latched g out s \<Longrightarrow> latched g out (warm_done ok s)"
  by (simp_all add: phone_warm_def warm_done_def Let_def latched_answered)

text \<open>Whatever asks for an offer is told that the phone was the answerer.\<close>

lemma latched_offer: "latched g out s \<Longrightarrow> phone_offer e r s = (Some PkWasAnswerer, s)"
  by (simp add: phone_offer_def latched_answered)

lemma latched_restart: "latched g out s \<Longrightarrow> latched g out (snd (phone_restart e f p eb s))"
  by (simp add: phone_restart_def Let_def latched_answered split: option.split)

lemma latched_timers:
  assumes "latched g out s"
  shows "latched g out (phone_watchdog e s)" "latched g out (watchdog_offer e (s\<lparr>phWatchCam := n\<rparr>))"
    "latched g out (phone_conn_watch e s)" "latched g out (phone_probe e s)" "latched g out (phone_black_watch e r s)"
    "latched g out (phone_connected s)"
  using assms latched_answered [OF assms]
  by (simp_all add: phone_watchdog_def watchdog_offer_def phone_conn_watch_def phone_probe_def phone_black_watch_def
      phone_connected_def Let_def latched_restart)

lemma latched_start_pc: "latched g out s \<Longrightarrow> latched g out (start_pc e k s)"
proof -
  assume s: "latched g out s"
  define u where "u = (if phPc s \<noteq> None \<and> \<not> phWarmed s
    then s\<lparr>phPc := None, phWarmed := False, phHasRemote := False, phPendingIce := []\<rparr> else s)"
  define v where "v = ensurePc e u"
  have "latched g out u" using s by (simp add: u_def)
  then have v: "latched g out v" unfolding v_def by (rule latched_ensure)
  have off: "phone_offer e False t = (Some PkWasAnswerer, t)" if "latched g out t" for t
    by (rule latched_offer [OF that])
  have vw: "latched g out (v\<lparr>phWarmed := False\<rparr>)" using v by simp
  show ?thesis
    unfolding start_pc_def u_def [symmetric] Let_def v_def [symmetric]
    using s v vw off [OF s] off [OF vw] by (simp add: start_to_def end_start_def watch_conn_def)
qed

lemma latched_start_policy: "latched g out s \<Longrightarrow> latched g out (start_policy e k s)"
  using latched_policy [of g out s e]
  by (simp add: start_policy_def Let_def start_to_def latched_start_pc latched_answered)

lemma latched_start: "latched g out s \<Longrightarrow> latched g out (phone_start e True fr s)"
proof -
  assume s: "latched g out s"
  have starts: "latched g out (start_begin e True t)" if "latched g out t" for t
    using that by (simp add: start_begin_def Let_def latched_start_policy)
  have checks: "latched g out (start_checks e True ok t)" if "latched g out t" for t ok
    using that starts [OF that] by (simp add: start_checks_def Let_def watch_conn_def)
  have reset: "resetStuckExtraPc t = (False, t)" if "latched g out t" for t
    using latched_answered(2) [OF that] by (simp add: resetStuckExtraPc_def shouldResetStuckExtraPc_def)
  define s1 where "s1 = (if fr = Some True then setForceRelay e True s else s)"
  have s1: "latched g out s1" using s by (simp add: s1_def latched_force)
  then have s2: "latched g out (s1\<lparr>phStarting := False\<rparr>)" by simp
  show ?thesis
    unfolding phone_start_def s1_def [symmetric] Let_def
    using s1 reset [OF s2] checks [OF s2] latched_answered(4) [OF s2] by simp
qed

lemma latched_offers:
  assumes s: "latched g out s" and k: "k < length (phOffers s)" and live: "ljStage (phOffers s ! k) \<noteq> LoDone"
  shows "stale_offer k s" "latched g out (end_offer k s)" "latched g out (offer_refused k s)"
proof -
  have old: "ljGen (phOffers s ! k) \<noteq> phGen s"
    using s k live by (auto simp: latched_def list_all_length)
  then show "stale_offer k s" by (simp add: stale_offer_def)
  have "list_all (\<lambda>j. ljStage j = LoDone \<or> ljGen j \<noteq> g) ((phOffers s)[k := (phOffers s ! k)\<lparr>ljStage := LoDone\<rparr>])"
    using s k by (auto simp: latched_def list_all_iff dest!: subsetD [OF set_update_subset_insert])
  with s k show "latched g out (end_offer k s)"
    unfolding end_offer_def upd_offer_def by simp (simp add: latched_def offers_out_def)
  with old show "latched g out (offer_refused k s)" by (simp add: offer_refused_def)
qed

lemma latched_sent: "latched g out s \<Longrightarrow> \<not> is_phone_offer m \<Longrightarrow> latched g out (send b r m s)"
  by (simp add: latched_def offers_out_def send_def)

lemma latched_step: "latched g out s \<Longrightarrow> asked_to_offer ev \<Longrightarrow> latched g out (phone_step s ev)"
proof -
  assume s: "latched g out s" and ev: "asked_to_offer ev"
  have offers: "offer_at k st s \<Longrightarrow> st \<noteq> LoDone \<Longrightarrow> stale_offer k s \<and> latched g out (end_offer k s) \<and> latched g out (offer_refused k s)" for k st
    using latched_offers [OF s] by (auto simp: offer_at_def)
  show ?thesis
  proof (cases ev)
    case (PhView v)
    with s show ?thesis by (simp split: option.split)
  next
    case (PhCandidate c)
    with s show ?thesis by (simp add: phone_candidate_def latched_sent is_phone_offer_def)
  next
    case (PhReceive now sig)
    with s show ?thesis by (simp add: phone_receive_def Let_def split: phone_remote.split)
  next
    case (PhSecondary on)
    with s ev show ?thesis by (simp add: asked_to_offer_def latched_def offers_out_def)
  next
    case (PhStart e off fr)
    with s ev show ?thesis by (simp add: asked_to_offer_def latched_start)
  next
    case (PhMade d k)
    with s offers [of k LoCreate] show ?thesis by (simp add: offer_made_def)
  next
    case (PhRefused k)
    with s offers [of k LoCreate] show ?thesis by simp
  next
    case (PhLocal now k)
    with s offers [of k LoLocal] show ?thesis by (simp add: offer_local_done_def)
  next
    case (PhGathered now k)
    with s offers [of k LoGather] show ?thesis by (simp add: offer_gather_done_def)
  qed (use s ev in \<open>simp_all add: asked_to_offer_def setIceConfig_def setHideIp_def latched_force latched_rebuild latched_warm
      latched_start_policy latched_start_pc latched_timers latched_restart end_start_def start_to_def watch_conn_def\<close>)
qed

lemma latched_run: "latched g out s \<Longrightarrow> list_all asked_to_offer es \<Longrightarrow> latched g out (phone_run s es)"
  unfolding phone_run_def by (induction es arbitrary: s) (simp_all add: latched_step)

text \<open>A hang-up keeps the handlers of the call that is over.\<close>

lemma close_keeps:
  "phInbox (phone_close e kl bye cl pv s) = phInbox s" "phOffers (phone_close e kl bye cl pv s) = phOffers s"
  "phGen (phone_close e kl bye cl pv s) = phGen s + 1" "\<not> phSecondary (phone_close e kl bye cl pv s)"
  "offers_out (phone_close e kl bye cl pv s) = offers_out s"
proof -
  have warm: "phInbox (phone_warm e pr t) = phInbox t \<and> phOffers (phone_warm e pr t) = phOffers t \<and>
      phGen (phone_warm e pr t) = phGen t \<and> phSecondary (phone_warm e pr t) = phSecondary t \<and> phSent (phone_warm e pr t) = phSent t" for pr t
    by (simp add: phone_warm_def ensurePc_def dropDeadPc_def Let_def split: option.split)
  then show "phInbox (phone_close e kl bye cl pv s) = phInbox s" "phOffers (phone_close e kl bye cl pv s) = phOffers s"
    "phGen (phone_close e kl bye cl pv s) = phGen s + 1" "\<not> phSecondary (phone_close e kl bye cl pv s)"
    "offers_out (phone_close e kl bye cl pv s) = offers_out s"
    by (simp_all add: phone_close_def Let_def send_def offers_out_def is_phone_offer_def)
qed

text \<open>C15: An answer has no test that its call is over. When the user hangs up while it waits for a relay
  candidate, it goes out into the next call, marked as begun in the old one, and in that whole call the
  phone, told to offer, never sends an offer, whatever timers and retries do, until it hangs up again or
  handles a signal of the partner.\<close>

theorem answer_after_hang_up:
  assumes "in_at j PiGather s" and "list_all (\<lambda>x. ljGen x \<le> phGen s) (phOffers s)" and "list_all asked_to_offer es"
    and "phone_sdp (phone_step s (PhClose e kl bye cl pv))
           (video_sdp (opt_text (dsSdp (case shown of None \<Rightarrow> pjMade (phInbox s ! j) | Some d \<Rightarrow> d)))) \<noteq> ''''"
  shows "let s1 = phone_step s (PhClose e kl bye cl pv); s2 = phone_step s1 (PhAnswerGathered shown j); s3 = phone_run s2 es
         in (\<exists>d. phSent s2 = \<lparr>snBegun = pjGen (phInbox s ! j), snGen = phGen s + 1, snRestart = False, snSignal = PsAnswer d\<rparr> # phSent s1) \<and>
            phGen s3 = phGen s + 1 \<and>
            filter (\<lambda>m. is_phone_offer (snSignal m)) (phSent s3) = filter (\<lambda>m. is_phone_offer (snSignal m)) (phSent s) \<and>
            phone_offer e' restart s3 = (Some PkWasAnswerer, s3)"
proof -
  define s1 where "s1 = phone_close e kl bye cl pv s"
  have c: "phInbox s1 = phInbox s" "phOffers s1 = phOffers s" "phGen s1 = phGen s + 1" "\<not> phSecondary s1"
    "offers_out s1 = offers_out s"
    unfolding s1_def by (rule close_keeps)+
  have waits: "in_at j PiGather s1" using assms(1) c(1) by (simp add: in_at_def)
  define ans where "ans = (case shown of None \<Rightarrow> pjMade (phInbox s ! j) | Some d \<Rightarrow> d)"
  define sdp where "sdp = phone_sdp s1 (video_sdp (opt_text (dsSdp ans)))"
  have sdp: "sdp \<noteq> ''''" using assms(4) by (simp add: sdp_def ans_def s1_def)
  define d where "d = \<lparr>dsType = (if dsType ans = '''' then ''answer'' else dsType ans), dsSdp = Some sdp\<rparr>"
  define s2 where "s2 = emit_answer shown j s1"
  have s2: "s2 = in_finish j (watch_conn (send (pjGen (phInbox s ! j)) False (PsAnswer d) (s1\<lparr>phAnswered := True, phIsOfferer := False\<rparr>)))"
    using sdp unfolding s2_def emit_answer_def Let_def c(1) ans_def [symmetric] sdp_def [symmetric] d_def by simp
  have sent: "phSent s2 = \<lparr>snBegun = pjGen (phInbox s ! j), snGen = phGen s + 1, snRestart = False, snSignal = PsAnswer d\<rparr> # phSent s1"
    unfolding s2 by (simp add: in_finish_def in_to_def upd_in_def watch_conn_def send_def c(3))
  have "latched (phGen s + 1) (offers_out s) (s1\<lparr>phAnswered := True, phIsOfferer := False\<rparr>)"
    using c assms(2) by (auto simp: latched_def offers_out_def list_all_iff)
  then have "latched (phGen s + 1) (offers_out s) s2"
    unfolding s2 by (simp add: in_finish_def in_to_def upd_in_def watch_conn_def latched_sent is_phone_offer_def)
  then have s3: "latched (phGen s + 1) (offers_out s) (phone_run s2 es)" by (rule latched_run [OF _ assms(3)])
  have steps: "phone_step s (PhClose e kl bye cl pv) = s1" "phone_step s1 (PhAnswerGathered shown j) = s2"
    using waits by (simp_all add: s1_def s2_def)
  show ?thesis
    unfolding Let_def steps using sent s3 latched_offer [OF s3, of e' restart]
    by (simp add: latched_def offers_out_def)
qed

definition waiting :: phone where
  "waiting = phone_run new_phone
     [PhConfig with_turn, PhHide True, PhReceive 1100 (RmOffer partner_offer), PhHandle ready True 0,
      PhSetOffer ready True 0, PhBound 0, PhCreated (own_desc ''answer'') 0, PhLocalSet None 0]"

definition next_call :: "phone_event list" where
  "next_call = [PhStart ready True None, PhWatchdog ready, PhConnWatch (ready\<lparr>meNow := 40000\<rparr>), PhRestart (ready\<lparr>meNow := 50000\<rparr>) True]"

theorem answer_after_hang_up_witness:
  "let s1 = phone_step waiting (PhClose ready True True None False);
       s2 = phone_step s1 (PhAnswerGathered None 0); s3 = phone_run s2 next_call
   in (\<exists>d. phSent s2 = \<lparr>snBegun = 0, snGen = 1, snRestart = False, snSignal = PsAnswer d\<rparr> # phSent s1) \<and>
      filter (\<lambda>m. is_phone_offer (snSignal m)) (phSent s3) = [] \<and> phone_offer ready False s3 = (Some PkWasAnswerer, s3)"
proof -
  have w: "in_at 0 PiGather waiting" "list_all (\<lambda>x. ljGen x \<le> phGen waiting) (phOffers waiting)"
    "list_all asked_to_offer next_call"
    "phone_sdp (phone_step waiting (PhClose ready True True None False))
       (video_sdp (opt_text (dsSdp (case None of None \<Rightarrow> pjMade (phInbox waiting ! 0) | Some d \<Rightarrow> d)))) \<noteq> ''''"
    by code_simp+
  have gens: "pjGen (phInbox waiting ! 0) = 0" "phGen waiting + 1 = 1"
    "filter (\<lambda>m. is_phone_offer (snSignal m)) (phSent waiting) = []" by code_simp+
  show ?thesis
    using answer_after_hang_up [OF w, of ready False] unfolding gens Let_def by blast
qed

end
