(* ===== verification/PhoneTracks.thy ===== *)
theory PhoneTracks
  imports Prelude Contracts
begin

text \<open>
  Who may stop which camera: the local tracks of the sessions of one phone (\<open>media/MediaSession.ts\<close>). In a call of
  several people the extra sessions adopt the stream of the first one, as clones or as the same tracks.
  Opening a camera and refreshing it are cut at their awaits; the answers of \<open>getUserMedia\<close>, whether a track
  can be cloned and whether a stream can be built are given with the event. Every stop is recorded.
\<close>

section \<open>Tracks, sessions, jobs\<close>

text \<open>A track, with the session that opened or cloned it; it is live until somebody stops it.\<close>

record cam_track =
  ctVideo :: bool
  ctBy :: nat
  ctLive :: bool

datatype facing = FacingUser | FacingEnvironment

record cam_session =
  csStream :: "nat list option"
  csOwned :: bool
  csSecondary :: bool
  csClones :: "nat list"
  csPending :: bool
  csAnswered :: bool
  csFacing :: facing

definition new_cam :: cam_session where
  "new_cam = \<lparr>csStream = None, csOwned = True, csSecondary = False, csClones = [], csPending = False,
     csAnswered = False, csFacing = FacingUser\<rparr>"

text \<open>The attempts of \<open>openLocalStream\<close>, and the stages of \<open>refreshLocalVideoTrack\<close>: the pause after the stop,
  video only, everything; the old video tracks and the old live audio tracks.\<close>

datatype gum_stage = GumSoft | GumMinimal | GumAudio | GumDone

datatype fresh_stage = FrPause | FrVideo "nat list" "nat list" | FrFull "nat list" "nat list" | FrDone

record cams =
  cmTracks :: "cam_track list"
  cmSessions :: "cam_session list"
  cmOwners :: "nat list"
  cmGums :: "(nat \<times> gum_stage) list"
  cmFresh :: "(nat \<times> fresh_stage) list"
  cmStops :: "(nat \<times> nat) list"

definition new_cams :: "nat \<Rightarrow> cams" where
  "new_cams n = \<lparr>cmTracks = [], cmSessions = replicate n new_cam, cmOwners = [], cmGums = [], cmFresh = [], cmStops = []\<rparr>"

definition cam_of :: "nat \<Rightarrow> cams \<Rightarrow> cam_session" where
  "cam_of i w = cmSessions w ! i"

definition upd_cam :: "nat \<Rightarrow> (cam_session \<Rightarrow> cam_session) \<Rightarrow> cams \<Rightarrow> cams" where
  "upd_cam i f w = w\<lparr>cmSessions := (cmSessions w)[i := f (cam_of i w)]\<rparr>"

definition is_video_track :: "cams \<Rightarrow> nat \<Rightarrow> bool" where
  "is_video_track w t = ctVideo (cmTracks w ! t)"

definition is_live :: "cams \<Rightarrow> nat \<Rightarrow> bool" where
  "is_live w t = ctLive (cmTracks w ! t)"

definition tracks_of :: "nat \<Rightarrow> cams \<Rightarrow> nat list" where
  "tracks_of i w = (case csStream (cam_of i w) of None \<Rightarrow> [] | Some ts \<Rightarrow> ts)"

definition video_of :: "nat \<Rightarrow> cams \<Rightarrow> nat list" where
  "video_of i w = filter (is_video_track w) (tracks_of i w)"

text \<open>\<open>t.stop()\<close> on each track.\<close>

definition stop_tracks :: "nat \<Rightarrow> nat list \<Rightarrow> cams \<Rightarrow> cams" where
  "stop_tracks i ts w = w\<lparr>cmTracks := fold (\<lambda>t xs. xs[t := (xs ! t)\<lparr>ctLive := False\<rparr>]) ts (cmTracks w),
     cmStops := map (\<lambda>t. (i, t)) (rev ts) @ cmStops w\<rparr>"

text \<open>New tracks of a session, video where \<open>True\<close>: their numbers and the world with them.\<close>

definition add_tracks :: "nat \<Rightarrow> bool list \<Rightarrow> cams \<Rightarrow> nat list \<times> cams" where
  "add_tracks i ks w =
     (let n = length (cmTracks w)
      in ([n..<n + length ks], w\<lparr>cmTracks := cmTracks w @ map (\<lambda>v. \<lparr>ctVideo = v, ctBy = i, ctLive = True\<rparr>) ks\<rparr>))"

section \<open>Opening the camera\<close>

definition liveLocalVideoTrack :: "nat \<Rightarrow> cams \<Rightarrow> bool" where
  "liveLocalVideoTrack i w = list_ex (is_live w) (video_of i w)"

definition other_owner :: "nat \<Rightarrow> cams \<Rightarrow> bool" where
  "other_owner i w \<longleftrightarrow> i \<notin> set (cmOwners w) \<and> cmOwners w \<noteq> []"

definition releaseOwnedClones :: "nat \<Rightarrow> cams \<Rightarrow> cams" where
  "releaseOwnedClones i w = stop_tracks i (csClones (cam_of i w)) (upd_cam i (\<lambda>s. s\<lparr>csClones := []\<rparr>) w)"

text \<open>\<open>ensureUserFacingPreview\<close>: \<open>shown\<close> is the facing mode the track reports, \<open>can\<close> whether it can switch.\<close>

definition ensureUserFacingPreview :: "facing option \<Rightarrow> bool \<Rightarrow> nat \<Rightarrow> cams \<Rightarrow> cams" where
  "ensureUserFacingPreview shown can i w =
     (if csSecondary (cam_of i w) \<or> video_of i w = [] then w
      else let now_facing = (case shown of Some f \<Rightarrow> f | None \<Rightarrow> csFacing (cam_of i w))
           in if now_facing \<noteq> FacingEnvironment then upd_cam i (\<lambda>s. s\<lparr>csFacing := now_facing\<rparr>) w
              else if \<not> can then w else upd_cam i (\<lambda>s. s\<lparr>csFacing := FacingUser\<rparr>) w)"

definition flipCamera :: "facing option \<Rightarrow> bool \<Rightarrow> nat \<Rightarrow> cams \<Rightarrow> cams" where
  "flipCamera shown can i w =
     (if csSecondary (cam_of i w) \<or> video_of i w = [] \<or> \<not> can then w
      else upd_cam i (\<lambda>s. s\<lparr>csFacing := (case shown of Some f \<Rightarrow> f
             | None \<Rightarrow> (if csFacing s = FacingEnvironment then FacingUser else FacingEnvironment))\<rparr>) w)"

definition ensureLocalStream :: "facing option \<Rightarrow> bool \<Rightarrow> nat \<Rightarrow> cams \<Rightarrow> cams" where
  "ensureLocalStream shown can i w =
     (let s = cam_of i w
      in if csStream s \<noteq> None then
           (if \<not> csSecondary s \<and> \<not> csAnswered s then ensureUserFacingPreview shown can i w else w)
         else if csPending s then w
         else if csSecondary s then w
         else if other_owner i w then w
         else (upd_cam i (\<lambda>x. x\<lparr>csPending := True\<rparr>) w)\<lparr>cmGums := cmGums w @ [(i, GumSoft)]\<rparr>)"

text \<open>An answer of \<open>getUserMedia\<close> to \<open>openLocalStream\<close>: tracks, or \<open>None\<close> when it is refused. The session may have
  hung up meanwhile, or another one may have opened the camera.\<close>

definition gum_done :: "nat \<Rightarrow> cams \<Rightarrow> cams" where
  "gum_done k w =
     (upd_cam (fst (cmGums w ! k)) (\<lambda>s. s\<lparr>csPending := False\<rparr>) w)
       \<lparr>cmGums := (cmGums w)[k := (fst (cmGums w ! k), GumDone)]\<rparr>"

definition tryGum :: "bool list \<Rightarrow> nat \<Rightarrow> cams \<Rightarrow> cams" where
  "tryGum kinds i w =
     (let (ts, w1) = add_tracks i kinds w;
          w2 = (upd_cam i (\<lambda>s. s\<lparr>csStream := Some ts, csOwned := True\<rparr>) w1)
                 \<lparr>cmOwners := (if i \<in> set (cmOwners w) then cmOwners w else cmOwners w @ [i])\<rparr>
      in upd_cam i (\<lambda>s. s\<lparr>csFacing := FacingUser\<rparr>) (releaseOwnedClones i (upd_cam i (\<lambda>s. s\<lparr>csSecondary := False\<rparr>) w2)))"

definition next_gum :: "gum_stage \<Rightarrow> gum_stage" where
  "next_gum g = (case g of GumSoft \<Rightarrow> GumMinimal | GumMinimal \<Rightarrow> GumAudio | _ \<Rightarrow> GumDone)"

definition gum_answer :: "bool list option \<Rightarrow> nat \<Rightarrow> cams \<Rightarrow> cams" where
  "gum_answer res k w =
     (let (i, g) = cmGums w ! k
      in case res of
           Some kinds \<Rightarrow> gum_done k (tryGum (if g = GumAudio then filter Not kinds else kinds) i w)
         | None \<Rightarrow> if g = GumAudio then gum_done k w
                   else w\<lparr>cmGums := (cmGums w)[k := (i, next_gum g)]\<rparr>)"

section \<open>Extra sessions\<close>

text \<open>\<open>tryBuildSecondaryOutbound\<close>: for each live track, video first, a clone or else the track itself. \<open>cl\<close> says
  which tracks can be cloned, \<open>ok\<close> that a stream can be built of them.\<close>

fun take_tracks :: "nat \<Rightarrow> (nat \<Rightarrow> bool) \<Rightarrow> nat list \<Rightarrow> cams \<Rightarrow> (nat list \<times> nat list) \<times> cams" where
  "take_tracks i cl [] w = (([], []), w)"
| "take_tracks i cl (t # ts) w =
     (if \<not> is_live w t then take_tracks i cl ts w
      else if cl t then
        (let (new, w1) = add_tracks i [is_video_track w t] w; ((cs, out), w2) = take_tracks i cl ts w1
         in ((new @ cs, new @ out), w2))
      else (let ((cs, out), w2) = take_tracks i cl ts w in ((cs, t # out), w2)))"

datatype built = NotBuilt | Built "nat list" "nat list" bool

definition tryBuildSecondaryOutbound :: "nat \<Rightarrow> (nat \<Rightarrow> bool) \<Rightarrow> bool \<Rightarrow> nat list \<Rightarrow> cams \<Rightarrow> built \<times> cams" where
  "tryBuildSecondaryOutbound i cl ok source w =
     (let videos = filter (is_video_track w) source; audios = filter (\<lambda>t. \<not> is_video_track w t) source;
          ((cs, out), w1) = take_tracks i cl (videos @ audios) w
      in if out = [] then (NotBuilt, w1)
         else if cs = [] then (NotBuilt, w1)
         else if ok then (Built out cs (length cs = length out), w1)
         else (NotBuilt, stop_tracks i cs w1))"

definition adoptLocalStream :: "nat \<Rightarrow> (nat \<Rightarrow> bool) \<Rightarrow> bool \<Rightarrow> nat list \<Rightarrow> cams \<Rightarrow> cams" where
  "adoptLocalStream i cl ok source w0 =
     (let w = releaseOwnedClones i (upd_cam i (\<lambda>s. s\<lparr>csSecondary := True\<rparr>) w0)
      in case tryBuildSecondaryOutbound i cl ok source w of
           (Built out cs ownsAll, w1) \<Rightarrow>
             upd_cam i (\<lambda>s. s\<lparr>csClones := cs, csOwned := ownsAll, csStream := Some out\<rparr>) w1
         | (NotBuilt, w1) \<Rightarrow> upd_cam i (\<lambda>s. s\<lparr>csOwned := False, csStream := Some source\<rparr>) w1)"

definition markAsPrimary :: "nat \<Rightarrow> cams \<Rightarrow> cams" where
  "markAsPrimary i w = upd_cam i (\<lambda>s. s\<lparr>csSecondary := False\<rparr>) w"

definition setMultiPeerAudio :: "bool \<Rightarrow> bool \<Rightarrow> nat \<Rightarrow> cams \<Rightarrow> cams" where
  "setMultiPeerAudio on secondary i w =
     upd_cam i (\<lambda>s. s\<lparr>csSecondary := on \<and> (csSecondary s \<or> secondary)\<rparr>) w"

section \<open>A fresh video track\<close>

definition outbound_dead :: "string \<Rightarrow> bool" where
  "outbound_dead why \<longleftrightarrow> js_starts why ''zero_f_'' \<or> js_starts why ''weak_''"

text \<open>The old stream is read when the new camera is asked for.\<close>

definition fresh_ask :: "nat \<Rightarrow> cams \<Rightarrow> fresh_stage" where
  "fresh_ask i w = FrVideo (video_of i w) (filter (\<lambda>t. \<not> is_video_track w t \<and> is_live w t) (tracks_of i w))"

definition refreshLocalVideoTrack :: "string \<Rightarrow> nat \<Rightarrow> cams \<Rightarrow> cams" where
  "refreshLocalVideoTrack why i w =
     (if csSecondary (cam_of i w) \<or> liveLocalVideoTrack i w \<and> \<not> outbound_dead why then w
      else if liveLocalVideoTrack i w \<and> outbound_dead why
      then (stop_tracks i (video_of i w) w)\<lparr>cmFresh := cmFresh w @ [(i, FrPause)]\<rparr>
      else w\<lparr>cmFresh := cmFresh w @ [(i, fresh_ask i w)]\<rparr>)"

definition fresh_to :: "nat \<Rightarrow> fresh_stage \<Rightarrow> cams \<Rightarrow> cams" where
  "fresh_to k st w = w\<lparr>cmFresh := (cmFresh w)[k := (fst (cmFresh w ! k), st)]\<rparr>"

definition fresh_paused :: "nat \<Rightarrow> cams \<Rightarrow> cams" where
  "fresh_paused k w = fresh_to k (fresh_ask (fst (cmFresh w ! k)) w) w"

text \<open>A camera is there. \<open>built\<close> says that a stream can be composed of the new video and the audio kept.\<close>

definition fresh_stream :: "bool \<Rightarrow> bool list \<Rightarrow> nat list \<Rightarrow> nat list \<Rightarrow> nat \<Rightarrow> cams \<Rightarrow> cams" where
  "fresh_stream built kinds oldVideo oldAudio i w =
     (let (ts, w1) = add_tracks i kinds w
      in case filter (is_video_track w1) ts of
           [] \<Rightarrow> stop_tracks i ts w1
         | newV # _ \<Rightarrow>
             let w2 = stop_tracks i oldVideo w1;
                 freshAudio = filter (\<lambda>t. \<not> is_video_track w1 t) ts;
                 newAudio = (if freshAudio \<noteq> [] then freshAudio else oldAudio);
                 w3 = (if built then stop_tracks i (filter (\<lambda>t. t \<noteq> newV \<and> t \<notin> set newAudio) ts) w2 else w2)
             in releaseOwnedClones i
                  (upd_cam i (\<lambda>s. s\<lparr>csStream := Some (if built then newV # newAudio else ts), csOwned := True,
                     csSecondary := False\<rparr>) w3))"

definition fresh_answer :: "bool list option \<Rightarrow> bool \<Rightarrow> nat \<Rightarrow> cams \<Rightarrow> cams" where
  "fresh_answer res built k w =
     (let (i, st) = cmFresh w ! k
      in case st of
           FrVideo ov oa \<Rightarrow> (case res of None \<Rightarrow> fresh_to k (FrFull ov oa) w
             | Some kinds \<Rightarrow> fresh_to k FrDone (fresh_stream built (filter (\<lambda>v. v) kinds) ov oa i w))
         | FrFull ov oa \<Rightarrow> (case res of None \<Rightarrow> fresh_to k FrDone w
             | Some kinds \<Rightarrow> fresh_to k FrDone (fresh_stream built kinds ov oa i w))
         | _ \<Rightarrow> w)"

section \<open>The end of a call\<close>

definition close_local :: "bool \<Rightarrow> nat \<Rightarrow> cams \<Rightarrow> cams" where
  "close_local keepLocal i w =
     (let s = cam_of i w; mayStopLocal = (\<not> keepLocal \<and> csOwned s \<and> \<not> csSecondary s)
      in if \<not> keepLocal then
           (let w1 = releaseOwnedClones i w;
                w2 = (if mayStopLocal
                      then (stop_tracks i (tracks_of i w1) w1)\<lparr>cmOwners := filter (\<lambda>j. j \<noteq> i) (cmOwners w1)\<rparr> else w1)
            in upd_cam i (\<lambda>x. x\<lparr>csStream := None, csPending := False, csFacing := FacingUser, csOwned := True,
                 csSecondary := False, csAnswered := False\<rparr>) w2)
         else if csSecondary s \<or> \<not> csOwned s then
           upd_cam i (\<lambda>x. x\<lparr>csStream := None, csPending := False, csOwned := True, csSecondary := False,
             csAnswered := False\<rparr>) (releaseOwnedClones i w)
         else upd_cam i (\<lambda>x. x\<lparr>csAnswered := False\<rparr>) w)"

section \<open>Steps\<close>

text \<open>\<open>CmAdopt i j\<close>: session \<open>i\<close> is given the stream of session \<open>j\<close>.\<close>

datatype cam_event =
    CmEnsure nat "facing option" bool
  | CmGum "bool list option" nat
  | CmFlip nat "facing option" bool
  | CmFace nat "facing option" bool
  | CmAdopt nat nat "nat \<Rightarrow> bool" bool
  | CmPrimary nat
  | CmMulti nat bool bool
  | CmRefresh nat string
  | CmPaused nat
  | CmFresh "bool list option" bool nat
  | CmAnswered nat
  | CmClose nat bool

definition live_gum :: "nat \<Rightarrow> cams \<Rightarrow> bool" where
  "live_gum k w \<longleftrightarrow> k < length (cmGums w) \<and> snd (cmGums w ! k) \<noteq> GumDone"

definition live_fresh :: "nat \<Rightarrow> cams \<Rightarrow> bool" where
  "live_fresh k w \<longleftrightarrow> k < length (cmFresh w)"

fun cam_step :: "cams \<Rightarrow> cam_event \<Rightarrow> cams" where
  "cam_step w (CmEnsure i f c) = (if i < length (cmSessions w) then ensureLocalStream f c i w else w)"
| "cam_step w (CmGum res k) = (if live_gum k w then gum_answer res k w else w)"
| "cam_step w (CmFlip i f c) = (if i < length (cmSessions w) then flipCamera f c i w else w)"
| "cam_step w (CmFace i f c) = (if i < length (cmSessions w) then ensureUserFacingPreview f c i w else w)"
| "cam_step w (CmAdopt i j cl ok) =
     (if i < length (cmSessions w) \<and> j < length (cmSessions w)
      then (case csStream (cam_of j w) of None \<Rightarrow> w | Some ts \<Rightarrow> adoptLocalStream i cl ok ts w) else w)"
| "cam_step w (CmPrimary i) = (if i < length (cmSessions w) then markAsPrimary i w else w)"
| "cam_step w (CmMulti i on sec) = (if i < length (cmSessions w) then setMultiPeerAudio on sec i w else w)"
| "cam_step w (CmRefresh i why) = (if i < length (cmSessions w) then refreshLocalVideoTrack why i w else w)"
| "cam_step w (CmPaused k) =
     (if live_fresh k w \<and> snd (cmFresh w ! k) = FrPause then fresh_paused k w else w)"
| "cam_step w (CmFresh res b k) = (if live_fresh k w then fresh_answer res b k w else w)"
| "cam_step w (CmAnswered i) = (if i < length (cmSessions w) then upd_cam i (\<lambda>s. s\<lparr>csAnswered := True\<rparr>) w else w)"
| "cam_step w (CmClose i kl) = (if i < length (cmSessions w) then close_local kl i w else w)"

definition cam_run :: "cams \<Rightarrow> cam_event list \<Rightarrow> cams" where
  "cam_run w es = foldl cam_step w es"

section \<open>Nobody stops another's track\<close>

definition own :: "cams \<Rightarrow> nat \<Rightarrow> nat list \<Rightarrow> bool" where
  "own w i ts \<longleftrightarrow> list_all (\<lambda>t. t < length (cmTracks w) \<and> ctBy (cmTracks w ! t) = i) ts"

definition session_ok :: "nat set \<Rightarrow> cams \<Rightarrow> nat \<Rightarrow> cam_session \<Rightarrow> bool" where
  "session_ok A w i s \<longleftrightarrow> own w i (csClones s) \<and>
     (csOwned s \<longrightarrow> own w i (case csStream s of None \<Rightarrow> [] | Some ts \<Rightarrow> ts)) \<and> (i \<notin> A \<longrightarrow> csOwned s)"

definition job_ok :: "nat set \<Rightarrow> cams \<Rightarrow> nat \<times> fresh_stage \<Rightarrow> bool" where
  "job_ok A w j \<longleftrightarrow> fst j < length (cmSessions w) \<and> fst j \<notin> A \<and>
     (case snd j of FrVideo ov oa \<Rightarrow> own w (fst j) (ov @ oa) | FrFull ov oa \<Rightarrow> own w (fst j) (ov @ oa) | _ \<Rightarrow> True)"

definition tracks_ok :: "nat set \<Rightarrow> cams \<Rightarrow> bool" where
  "tracks_ok A w \<longleftrightarrow>
     (\<forall>i < length (cmSessions w). session_ok A w i (cam_of i w)) \<and> list_all (job_ok A w) (cmFresh w) \<and>
     list_all (\<lambda>g. fst g < length (cmSessions w)) (cmGums w) \<and> list_all (\<lambda>(i, t). own w i [t]) (cmStops w)"

lemma own_tracks: "cmTracks w' = cmTracks w \<Longrightarrow> own w' = own w"
  by (simp add: own_def fun_eq_iff)

lemma ok_cong:
  assumes "cmTracks w' = cmTracks w" "length (cmSessions w') = length (cmSessions w)"
  shows "session_ok A w' = session_ok A w" and "job_ok A w' = job_ok A w"
  using own_tracks [OF assms(1)] assms(2)
  by (auto simp: session_ok_def job_ok_def fun_eq_iff split: fresh_stage.splits)

text \<open>Tracks are only added, and keep who made them.\<close>

definition grows :: "cams \<Rightarrow> cams \<Rightarrow> bool" where
  "grows w w' \<longleftrightarrow> length (cmTracks w) \<le> length (cmTracks w') \<and> length (cmSessions w') = length (cmSessions w) \<and>
     (\<forall>t < length (cmTracks w). ctBy (cmTracks w' ! t) = ctBy (cmTracks w ! t))"

lemma own_grows: "own w i ts \<Longrightarrow> grows w w' \<Longrightarrow> own w' i ts"
  by (auto simp: own_def grows_def list_all_iff)

lemma own_append [simp]: "own w i (xs @ ys) \<longleftrightarrow> own w i xs \<and> own w i ys"
  by (simp add: own_def)

lemma own_Nil [simp]: "own w i []"
  by (simp add: own_def)

lemma own_Cons: "own w i (t # ts) \<longleftrightarrow> own w i [t] \<and> own w i ts"
  by (simp add: own_def)

lemma own_filter: "own w i ts \<Longrightarrow> own w i (filter P ts)"
  by (auto simp: own_def list_all_iff)

lemma stopped_tracks:
  "length (fold (\<lambda>t xs. xs[t := (xs ! t)\<lparr>ctLive := False\<rparr>]) ts xs) = length xs"
  "n < length xs \<Longrightarrow> ctBy (fold (\<lambda>t xs. xs[t := (xs ! t)\<lparr>ctLive := False\<rparr>]) ts xs ! n) = ctBy (xs ! n)"
proof -
  show len: "length (fold (\<lambda>t xs. xs[t := (xs ! t)\<lparr>ctLive := False\<rparr>]) ts xs) = length xs" for xs
    by (induction ts arbitrary: xs) simp_all
  show "n < length xs \<Longrightarrow> ctBy (fold (\<lambda>t xs. xs[t := (xs ! t)\<lparr>ctLive := False\<rparr>]) ts xs ! n) = ctBy (xs ! n)" for xs
  proof (induction ts arbitrary: xs)
    case (Cons a ts)
    moreover have "ctBy (xs[a := (xs ! a)\<lparr>ctLive := False\<rparr>] ! n) = ctBy (xs ! n)"
      using Cons.prems by (cases "a = n") simp_all
    ultimately show ?case by simp
  qed simp
qed

lemma grows_stop: "grows w (stop_tracks i ts w)"
  by (simp add: grows_def stop_tracks_def stopped_tracks)

lemma grows_add: "grows w (snd (add_tracks i ks w))"
  by (simp add: grows_def add_tracks_def Let_def nth_append)

lemma added_own: "own (snd (add_tracks i ks w)) i (fst (add_tracks i ks w))"
  by (auto simp: own_def add_tracks_def Let_def list_all_iff nth_append)

text \<open>The invariant under the building blocks of the operations.\<close>

lemma session_ok_grows: "session_ok A w i s \<Longrightarrow> grows w w' \<Longrightarrow> session_ok A w' i s"
  by (auto simp: session_ok_def intro: own_grows)

lemma job_ok_grows: "job_ok A w j \<Longrightarrow> grows w w' \<Longrightarrow> job_ok A w' j"
  by (auto simp: job_ok_def grows_def [of w w'] dest: own_grows [of w _ _ w'] split: fresh_stage.splits)

lemma tracks_ok_grows:
  assumes "tracks_ok A w" "grows w w'" "cmSessions w' = cmSessions w" "cmFresh w' = cmFresh w" "cmGums w' = cmGums w"
    and "list_all (\<lambda>(i, t). own w' i [t]) (cmStops w')"
  shows "tracks_ok A w'"
  using assms by (auto simp: tracks_ok_def cam_of_def list_all_iff intro: session_ok_grows job_ok_grows)

lemma stops_grow: "tracks_ok A w \<Longrightarrow> grows w w' \<Longrightarrow> list_all (\<lambda>(i, t). own w' i [t]) (cmStops w)"
  by (auto simp: tracks_ok_def list_all_iff intro: own_grows)

lemma tracks_ok_stop:
  assumes "tracks_ok A w" "own w i ts"
  shows "tracks_ok A (stop_tracks i ts w)"
proof (rule tracks_ok_grows [OF assms(1) grows_stop])
  let ?w = "stop_tracks i ts w"
  have "own ?w i ts" by (rule own_grows [OF assms(2) grows_stop])
  moreover have "list_all (\<lambda>(i, t). own ?w i [t]) (cmStops w)" by (rule stops_grow [OF assms(1) grows_stop])
  moreover have "cmStops ?w = map (\<lambda>t. (i, t)) (rev ts) @ cmStops w" by (simp add: stop_tracks_def)
  ultimately show "list_all (\<lambda>(i, t). own ?w i [t]) (cmStops ?w)"
    by (auto simp: own_def list_all_iff)
qed (simp_all add: stop_tracks_def)

lemma tracks_ok_add:
  assumes "tracks_ok A w"
  shows "tracks_ok A (snd (add_tracks i ks w))"
proof (rule tracks_ok_grows [OF assms grows_add])
  have same: "cmStops (snd (add_tracks i ks w)) = cmStops w" by (simp add: add_tracks_def Let_def)
  show "list_all (\<lambda>(j, t). own (snd (add_tracks i ks w)) j [t]) (cmStops (snd (add_tracks i ks w)))"
    unfolding same by (rule stops_grow [OF assms grows_add])
qed (simp_all add: add_tracks_def Let_def)

lemma tracks_ok_upd:
  assumes "tracks_ok A w" "i < length (cmSessions w)" "session_ok A w i (f (cam_of i w))"
  shows "tracks_ok A (upd_cam i f w)"
proof -
  have same: "own (upd_cam i f w) = own w" "session_ok A (upd_cam i f w) = session_ok A w"
      "job_ok A (upd_cam i f w) = job_ok A w"
    using own_tracks [of "upd_cam i f w" w] ok_cong [of "upd_cam i f w" w A] by (simp_all add: upd_cam_def)
  have "session_ok A w j (cam_of j (upd_cam i f w))" if "j < length (cmSessions w)" for j
    using assms that by (cases "j = i") (auto simp: tracks_ok_def upd_cam_def cam_of_def)
  with assms(1) show ?thesis
    unfolding tracks_ok_def same by (simp add: upd_cam_def)
qed

lemma sizes [simp]:
  "length (cmSessions (upd_cam i f w)) = length (cmSessions w)" "cmSessions (stop_tracks i ts w) = cmSessions w"
  "cmSessions (snd (add_tracks i ks w)) = cmSessions w" "cmTracks (upd_cam i f w) = cmTracks w"
  "length (cmSessions (releaseOwnedClones i w)) = length (cmSessions w)"
  by (simp_all add: upd_cam_def stop_tracks_def add_tracks_def Let_def releaseOwnedClones_def)

lemma cam_of_simps [simp]:
  "cam_of j (stop_tracks i ts w) = cam_of j w" "cam_of j (snd (add_tracks i ks w)) = cam_of j w"
  "i < length (cmSessions w) \<Longrightarrow> cam_of i (upd_cam i f w) = f (cam_of i w)"
  by (simp_all add: cam_of_def upd_cam_def)

lemma the_session: "tracks_ok A w \<Longrightarrow> i < length (cmSessions w) \<Longrightarrow> session_ok A w i (cam_of i w)"
  by (simp add: tracks_ok_def)

lemma own_upd [simp]: "own (upd_cam i f w) = own w"
  by (rule own_tracks) simp

lemma session_upd [simp]: "session_ok A (upd_cam i f w) = session_ok A w"
  by (simp add: session_ok_def fun_eq_iff)

lemma tracks_ok_release:
  assumes "tracks_ok A w" "i < length (cmSessions w)"
  shows "tracks_ok A (releaseOwnedClones i w)"
  unfolding releaseOwnedClones_def using assms the_session [OF assms]
  by (intro tracks_ok_stop tracks_ok_upd) (simp_all add: session_ok_def)

lemma released:
  assumes "i < length (cmSessions w)"
  shows "cam_of i (releaseOwnedClones i w) = (cam_of i w)\<lparr>csClones := []\<rparr>" and "grows w (releaseOwnedClones i w)"
  using assms grows_stop [of "upd_cam i (\<lambda>s. s\<lparr>csClones := []\<rparr>) w" i "csClones (cam_of i w)"]
  by (simp_all add: releaseOwnedClones_def grows_def)

lemma tracks_ok_frame:
  "tracks_ok A (w\<lparr>cmOwners := os\<rparr>) = tracks_ok A w"
  "tracks_ok A w \<Longrightarrow> list_all (\<lambda>g. fst g < length (cmSessions w)) gs \<Longrightarrow> tracks_ok A (w\<lparr>cmGums := gs\<rparr>)"
  "tracks_ok A w \<Longrightarrow> list_all (job_ok A w) js \<Longrightarrow> tracks_ok A (w\<lparr>cmFresh := js\<rparr>)"
  using ok_cong [of "w\<lparr>cmOwners := os\<rparr>" w A] ok_cong [of "w\<lparr>cmGums := gs\<rparr>" w A] ok_cong [of "w\<lparr>cmFresh := js\<rparr>" w A]
    own_tracks [of "w\<lparr>cmOwners := os\<rparr>" w] own_tracks [of "w\<lparr>cmGums := gs\<rparr>" w] own_tracks [of "w\<lparr>cmFresh := js\<rparr>" w]
  by (simp_all add: tracks_ok_def cam_of_def)

text \<open>Cloning.\<close>

lemma taken:
  assumes "tracks_ok A w" "take_tracks i cl ts w = ((cs, out), w')"
  shows "tracks_ok A w' \<and> own w' i cs \<and> grows w w' \<and> cmSessions w' = cmSessions w \<and> length cs \<le> length out \<and>
    (length cs = length out \<longrightarrow> cs = out)"
  using assms
proof (induction ts arbitrary: w cs out)
  case (Cons t ts)
  show ?case
  proof (cases "is_live w t \<and> cl t")
    case True
    let ?n = "fst (add_tracks i [is_video_track w t] w)" and ?w1 = "snd (add_tracks i [is_video_track w t] w)"
    obtain cs1 out1 w2 where r0: "take_tracks i cl ts ?w1 = ((cs1, out1), w2)" by (metis surj_pair)
    with Cons.prems(2) True have r: "take_tracks i cl ts ?w1 = ((cs1, out1), w')" "cs = ?n @ cs1" "out = ?n @ out1"
      by (auto simp: case_prod_unfold Let_def)
    from Cons.IH [OF tracks_ok_add [OF Cons.prems(1)] r(1)] grows_add [of w i "[is_video_track w t]"]
    show ?thesis
      using own_grows [OF added_own [of i "[is_video_track w t]" w], of w'] r(2,3) by (auto simp: grows_def)
  next
    case False
    with Cons show ?thesis by (fastforce simp: Let_def split: if_splits prod.splits)
  qed
qed (auto simp: grows_def)

lemma tracks_ok_built:
  assumes "tracks_ok A w" "tryBuildSecondaryOutbound i cl ok source w = (b, w')"
  shows "tracks_ok A w' \<and> cmSessions w' = cmSessions w \<and>
    (case b of NotBuilt \<Rightarrow> True | Built out cs ownsAll \<Rightarrow> own w' i cs \<and> (ownsAll \<longrightarrow> own w' i out))"
proof -
  let ?ts = "filter (is_video_track w) source @ filter (\<lambda>t. \<not> is_video_track w t) source"
  obtain cs out w1 where t: "take_tracks i cl ?ts w = ((cs, out), w1)" by (metis surj_pair)
  note k = taken [OF assms(1) t]
  from assms(2) t have "(b, w') = (if out = [] then (NotBuilt, w1) else if cs = [] then (NotBuilt, w1)
      else if ok then (Built out cs (length cs = length out), w1) else (NotBuilt, stop_tracks i cs w1))"
    by (simp add: tryBuildSecondaryOutbound_def Let_def)
  with k tracks_ok_stop [of A w1 i cs] show ?thesis by (auto split: if_splits)
qed

section \<open>The operations keep the invariant\<close>

lemma ok_ensure: "tracks_ok A w \<Longrightarrow> i < length (cmSessions w) \<Longrightarrow> tracks_ok A (ensureUserFacingPreview f c i w)"
  using the_session [of A w i] by (auto simp: ensureUserFacingPreview_def Let_def session_ok_def intro!: tracks_ok_upd)

lemma ok_flip: "tracks_ok A w \<Longrightarrow> i < length (cmSessions w) \<Longrightarrow> tracks_ok A (flipCamera f c i w)"
  using the_session [of A w i] by (auto simp: flipCamera_def session_ok_def intro!: tracks_ok_upd)

lemma ok_open: "tracks_ok A w \<Longrightarrow> i < length (cmSessions w) \<Longrightarrow> tracks_ok A (ensureLocalStream f c i w)"
proof -
  assume w: "tracks_ok A w" and i: "i < length (cmSessions w)"
  have "tracks_ok A (upd_cam i (\<lambda>x. x\<lparr>csPending := True\<rparr>) w)"
    using the_session [OF w i] by (intro tracks_ok_upd w i) (simp add: session_ok_def)
  then have "tracks_ok A ((upd_cam i (\<lambda>x. x\<lparr>csPending := True\<rparr>) w)\<lparr>cmGums := cmGums w @ [(i, GumSoft)]\<rparr>)"
    using w i by (intro tracks_ok_frame) (simp_all add: tracks_ok_def)
  with w i show ?thesis by (simp add: ensureLocalStream_def Let_def ok_ensure)
qed

lemma ok_gum: "tracks_ok A w \<Longrightarrow> i < length (cmSessions w) \<Longrightarrow> tracks_ok A (tryGum kinds i w)"
proof -
  assume w: "tracks_ok A w" and i: "i < length (cmSessions w)"
  let ?ts = "fst (add_tracks i kinds w)" and ?w1 = "snd (add_tracks i kinds w)"
  have w1: "tracks_ok A ?w1" by (rule tracks_ok_add [OF w])
  let ?o = "if i \<in> set (cmOwners w) then cmOwners w else cmOwners w @ [i]"
  let ?w2 = "(upd_cam i (\<lambda>s. s\<lparr>csStream := Some ?ts, csOwned := True\<rparr>) ?w1)\<lparr>cmOwners := ?o\<rparr>"
  have "tracks_ok A (upd_cam i (\<lambda>s. s\<lparr>csStream := Some ?ts, csOwned := True\<rparr>) ?w1)"
    using the_session [OF w1] i added_own [of i kinds w] by (intro tracks_ok_upd w1) (simp_all add: session_ok_def)
  then have w2: "tracks_ok A ?w2" by (simp only: tracks_ok_frame)
  have len: "i < length (cmSessions ?w2)" using i by simp
  have w3: "tracks_ok A (upd_cam i (\<lambda>s. s\<lparr>csSecondary := False\<rparr>) ?w2)"
    using the_session [OF w2 len] by (intro tracks_ok_upd w2 len) (simp add: session_ok_def)
  have w4: "tracks_ok A (releaseOwnedClones i (upd_cam i (\<lambda>s. s\<lparr>csSecondary := False\<rparr>) ?w2))"
    using len by (intro tracks_ok_release w3) simp
  have "tracks_ok A (upd_cam i (\<lambda>s. s\<lparr>csFacing := FacingUser\<rparr>) (releaseOwnedClones i (upd_cam i (\<lambda>s. s\<lparr>csSecondary := False\<rparr>) ?w2)))"
    using the_session [OF w4] len by (intro tracks_ok_upd w4) (simp_all add: session_ok_def)
  then show ?thesis by (simp add: tryGum_def case_prod_unfold Let_def add_tracks_def)
qed

lemma ok_gum_done:
  assumes "tracks_ok A w" "live_gum k w"
  shows "tracks_ok A (gum_done k w)"
proof -
  have k: "k < length (cmGums w)" "fst (cmGums w ! k) < length (cmSessions w)"
    using assms by (auto simp: live_gum_def tracks_ok_def list_all_length)
  have "tracks_ok A (upd_cam (fst (cmGums w ! k)) (\<lambda>s. s\<lparr>csPending := False\<rparr>) w)"
    using the_session [OF assms(1) k(2)] k by (intro tracks_ok_upd assms(1)) (simp_all add: session_ok_def)
  then show ?thesis
    unfolding gum_done_def using assms(1) k
    by (intro tracks_ok_frame(2)) (auto simp: tracks_ok_def list_all_length nth_list_update)
qed

lemma ok_gum_answer:
  assumes "tracks_ok A w" "live_gum k w"
  shows "tracks_ok A (gum_answer res k w)"
proof -
  obtain i g where j: "cmGums w ! k = (i, g)" by fastforce
  have k: "k < length (cmGums w)" "i < length (cmSessions w)"
    using assms j by (auto simp: live_gum_def tracks_ok_def list_all_length)
  have "cmGums (tryGum kinds i w) = cmGums w" for kinds
    by (simp add: tryGum_def case_prod_unfold Let_def upd_cam_def releaseOwnedClones_def stop_tracks_def add_tracks_def)
  then have "live_gum k (tryGum kinds i w)" for kinds
    using assms(2) by (simp add: live_gum_def)
  then have opened: "tracks_ok A (gum_done k (tryGum kinds i w))" for kinds
    by (intro ok_gum_done ok_gum assms(1) k)
  have "tracks_ok A (w\<lparr>cmGums := (cmGums w)[k := (i, next_gum g)]\<rparr>)"
    using assms(1) k by (intro tracks_ok_frame) (auto simp: tracks_ok_def list_all_length nth_list_update)
  with opened ok_gum_done [OF assms] show ?thesis
    by (simp add: gum_answer_def j split: option.split)
qed

lemma ok_adopt:
  assumes "tracks_ok A w" "i < length (cmSessions w)" "i \<in> A"
  shows "tracks_ok A (adoptLocalStream i cl ok source w)"
proof -
  let ?u = "upd_cam i (\<lambda>s. s\<lparr>csSecondary := True\<rparr>) w"
  let ?w = "releaseOwnedClones i ?u"
  have "tracks_ok A ?u"
    using the_session [OF assms(1,2)] by (intro tracks_ok_upd assms(1,2)) (simp add: session_ok_def)
  then have w: "tracks_ok A ?w" using assms(2) by (intro tracks_ok_release) simp_all
  obtain b w' where t: "tryBuildSecondaryOutbound i cl ok source ?w = (b, w')" by fastforce
  note k = tracks_ok_built [OF w t]
  have len: "i < length (cmSessions w')" using k assms(2) by simp
  have set: "tracks_ok A (upd_cam i f w')" if "session_ok A w' i (f (cam_of i w'))" for f
    using k len that by (intro tracks_ok_upd) simp_all
  show ?thesis
    using k the_session [of A w' i] len assms(3) unfolding adoptLocalStream_def Let_def t
    by (cases b) (auto intro!: set simp: session_ok_def)
qed

lemma ok_primary: "tracks_ok A w \<Longrightarrow> i < length (cmSessions w) \<Longrightarrow> tracks_ok A (markAsPrimary i w)"
    "tracks_ok A w \<Longrightarrow> i < length (cmSessions w) \<Longrightarrow> tracks_ok A (setMultiPeerAudio on sec i w)"
    "tracks_ok A w \<Longrightarrow> i < length (cmSessions w) \<Longrightarrow> tracks_ok A (upd_cam i (\<lambda>s. s\<lparr>csAnswered := on\<rparr>) w)"
  using the_session [of A w i]
  by (auto simp: markAsPrimary_def setMultiPeerAudio_def session_ok_def intro!: tracks_ok_upd)

lemma own_stream:
  assumes "tracks_ok A w" "i < length (cmSessions w)" "csOwned (cam_of i w)"
  shows "own w i (tracks_of i w)" and "own w i (video_of i w)"
  using the_session [OF assms(1,2)] assms(3)
  by (auto simp: session_ok_def tracks_of_def video_of_def intro: own_filter)

lemma ask_ok:
  assumes "tracks_ok A w" "i < length (cmSessions w)" "i \<notin> A"
  shows "job_ok A w (i, fresh_ask i w)" and "own w i (video_of i w)"
proof -
  have "csOwned (cam_of i w)" using the_session [OF assms(1,2)] assms(3) by (simp add: session_ok_def)
  from own_stream [OF assms(1,2) this] show "job_ok A w (i, fresh_ask i w)" "own w i (video_of i w)"
    using assms(2,3) by (auto simp: job_ok_def fresh_ask_def intro: own_filter)
qed

lemma jobs_add: "tracks_ok A w \<Longrightarrow> job_ok A w j \<Longrightarrow> tracks_ok A (w\<lparr>cmFresh := cmFresh w @ [j]\<rparr>)"
  by (rule tracks_ok_frame) (simp_all add: tracks_ok_def)

lemma jobs_upd: "tracks_ok A w \<Longrightarrow> k < length (cmFresh w) \<Longrightarrow> job_ok A w (fst (cmFresh w ! k), st) \<Longrightarrow> tracks_ok A (fresh_to k st w)"
  unfolding fresh_to_def by (rule tracks_ok_frame) (auto simp: tracks_ok_def list_all_length nth_list_update)

lemma ok_refresh:
  assumes "tracks_ok A w" "i < length (cmSessions w)" "i \<notin> A"
  shows "tracks_ok A (refreshLocalVideoTrack why i w)"
proof -
  have stopped: "tracks_ok A (stop_tracks i (video_of i w) w)"
    by (intro tracks_ok_stop assms(1) ask_ok(2) [OF assms])
  have "tracks_ok A ((stop_tracks i (video_of i w) w)\<lparr>cmFresh := cmFresh w @ [(i, FrPause)]\<rparr>)"
    using jobs_add [OF stopped, of "(i, FrPause)"] assms(2,3) by (simp add: job_ok_def) (simp add: stop_tracks_def)
  with jobs_add [OF assms(1) ask_ok(1) [OF assms]] assms(1) show ?thesis
    by (simp add: refreshLocalVideoTrack_def)
qed

lemma ok_fresh_stream:
  assumes "tracks_ok A w" "i < length (cmSessions w)" "i \<notin> A" "own w i ov" "own w i oa"
  shows "tracks_ok A (fresh_stream built kinds ov oa i w)"
proof -
  let ?ts = "fst (add_tracks i kinds w)" and ?w1 = "snd (add_tracks i kinds w)"
  have w1: "tracks_ok A ?w1" and ts: "own ?w1 i ?ts" and old: "own ?w1 i ov" "own ?w1 i oa"
    using assms by (auto intro: tracks_ok_add added_own own_grows [OF _ grows_add])
  show ?thesis
  proof (cases "filter (is_video_track ?w1) ?ts")
    case Nil
    then show ?thesis using tracks_ok_stop [OF w1 ts] by (simp add: fresh_stream_def case_prod_unfold Let_def)
  next
    case (Cons newV rest)
    let ?w2 = "stop_tracks i ov ?w1"
    let ?fa = "filter (\<lambda>t. \<not> is_video_track ?w1 t) ?ts"
    let ?na = "if ?fa \<noteq> [] then ?fa else oa"
    let ?un = "filter (\<lambda>t. t \<noteq> newV \<and> t \<notin> set ?na) ?ts"
    let ?w3 = "if built then stop_tracks i ?un ?w2 else ?w2"
    let ?st = "if built then newV # ?na else ?ts"
    let ?f = "\<lambda>s. s\<lparr>csStream := Some ?st, csOwned := True, csSecondary := False\<rparr>"
    have w2: "tracks_ok A ?w2" by (rule tracks_ok_stop [OF w1 old(1)])
    have g2: "grows ?w1 ?w2" by (rule grows_stop)
    have w3: "tracks_ok A ?w3"
      using w2 tracks_ok_stop [OF w2, of i ?un] own_grows [OF own_filter [OF ts] g2] by simp
    have g3: "own ?w1 i xs \<Longrightarrow> own ?w3 i xs" for xs
      using own_grows [OF _ g2] own_grows [OF _ grows_stop] by auto
    have "newV \<in> set (filter (is_video_track ?w1) ?ts)" unfolding Cons by simp
    then have "newV \<in> set ?ts" by simp
    then have "own ?w1 i ?st"
      using ts old(2) own_filter [OF ts] by (auto simp: own_def list_all_iff)
    from g3 [OF this] have "tracks_ok A (upd_cam i ?f ?w3)"
      using the_session [OF w3, of i] assms(2,3) by (intro tracks_ok_upd w3) (auto simp: session_ok_def)
    then have "tracks_ok A (releaseOwnedClones i (upd_cam i ?f ?w3))"
      using assms(2) by (intro tracks_ok_release) simp_all
    with Cons show ?thesis by (simp add: fresh_stream_def case_prod_unfold Let_def)
  qed
qed

lemma fresh_stream_jobs: "cmFresh (fresh_stream built kinds ov oa i w) = cmFresh w"
  "length (cmSessions (fresh_stream built kinds ov oa i w)) = length (cmSessions w)"
  by (auto simp: fresh_stream_def case_prod_unfold Let_def releaseOwnedClones_def stop_tracks_def upd_cam_def
      add_tracks_def split: list.split)

lemma ok_fresh_answer:
  assumes "tracks_ok A w" "live_fresh k w"
  shows "tracks_ok A (fresh_answer res built k w)"
proof -
  obtain i st where j: "cmFresh w ! k = (i, st)" by fastforce
  have k: "k < length (cmFresh w)" and job: "job_ok A w (i, st)"
    using assms j by (auto simp: live_fresh_def tracks_ok_def list_all_length)
  then have i: "i < length (cmSessions w)" "i \<notin> A" by (simp_all add: job_ok_def)
  have ended: "tracks_ok A (fresh_to k FrDone (fresh_stream built kinds ov oa i w))" if "own w i ov" "own w i oa" for kinds ov oa
    using ok_fresh_stream [OF assms(1) i that] i k j
    by (intro jobs_upd) (simp_all add: fresh_stream_jobs job_ok_def)
  have moved: "tracks_ok A (fresh_to k s w)" if "job_ok A w (i, s)" for s
    using jobs_upd [OF assms(1) k] that j by simp
  show ?thesis
    using job by (cases st; cases res) (auto simp: fresh_answer_def j job_ok_def assms(1) intro!: ended moved)
qed

lemma ok_paused:
  assumes "tracks_ok A w" "live_fresh k w"
  shows "tracks_ok A (fresh_paused k w)"
proof -
  have k: "k < length (cmFresh w)" and job: "job_ok A w (cmFresh w ! k)"
    using assms by (auto simp: live_fresh_def tracks_ok_def list_all_length)
  then have "job_ok A w (fst (cmFresh w ! k), fresh_ask (fst (cmFresh w ! k)) w)"
    by (intro ask_ok assms(1)) (simp_all add: job_ok_def)
  then show ?thesis unfolding fresh_paused_def by (intro jobs_upd assms(1) k)
qed

lemma ok_close:
  assumes "tracks_ok A w" "i < length (cmSessions w)"
  shows "tracks_ok A (close_local kl i w)"
proof -
  let ?w1 = "releaseOwnedClones i w"
  have w1: "tracks_ok A ?w1" by (rule tracks_ok_release [OF assms])
  have len: "i < length (cmSessions ?w1)" using assms(2) by simp
  have cleared: "tracks_ok A (upd_cam i f v)" if "tracks_ok A v" "i < length (cmSessions v)"
    "\<And>s. csStream (f s) = None" "\<And>s. csOwned (f s)" "\<And>s. csClones (f s) = csClones s" for f v
    using the_session [OF that(1,2)] that by (intro tracks_ok_upd) (simp_all add: session_ok_def)
  have stopped: "tracks_ok A ((stop_tracks i (tracks_of i ?w1) ?w1)\<lparr>cmOwners := os\<rparr>)" if "csOwned (cam_of i w)" for os
    using own_stream(1) [OF w1 len] that tracks_ok_stop [OF w1, of i "tracks_of i ?w1"]
    by (simp add: tracks_ok_frame released [OF assms(2)])
  show ?thesis
    using w1 stopped assms len ok_primary(3) [OF assms, of False]
    by (auto simp: close_local_def Let_def intro!: cleared)
qed

text \<open>The sessions of \<open>A\<close> may adopt streams, the others may refresh the camera.\<close>

definition allowed_cam :: "nat set \<Rightarrow> cam_event \<Rightarrow> bool" where
  "allowed_cam A ev = (case ev of CmAdopt i j cl ok \<Rightarrow> i \<in> A | CmRefresh i why \<Rightarrow> i \<notin> A | _ \<Rightarrow> True)"

lemma ok_step: "tracks_ok A w \<Longrightarrow> allowed_cam A ev \<Longrightarrow> tracks_ok A (cam_step w ev)"
  by (cases ev) (auto simp: allowed_cam_def ok_open ok_gum_answer ok_flip ok_ensure ok_adopt ok_primary ok_refresh
      ok_paused ok_fresh_answer ok_close split: option.split)

interpretation cameras: event_machine "\<lambda>w ev. if allowed_cam A ev then cam_step w ev else w" "tracks_ok A" for A
  by unfold_locales (simp add: ok_step)

lemma allowed_run: "list_all (allowed_cam A) es \<Longrightarrow> foldl (\<lambda>w ev. if allowed_cam A ev then cam_step w ev else w) w es = cam_run w es"
  unfolding cam_run_def by (induction es arbitrary: w) simp_all

text \<open>C12: As long as no session that was given the stream of another one refreshes its camera, no session ever stops
  a track that it did not open or clone itself, whatever the order of opening, adopting, promoting, refreshing
  and closing.\<close>

theorem stops_own_tracks:
  assumes "list_all (allowed_cam A) es"
  shows "let w = cam_run (new_cams n) es
         in list_all (\<lambda>(i, t). t < length (cmTracks w) \<and> ctBy (cmTracks w ! t) = i) (cmStops w)"
proof -
  have "tracks_ok A (new_cams n)"
    by (simp add: tracks_ok_def new_cams_def session_ok_def new_cam_def cam_of_def)
  from cameras.inv_run [OF this, of es] have "tracks_ok A (cam_run (new_cams n) es)"
    by (simp only: allowed_run [OF assms])
  then show ?thesis by (simp add: tracks_ok_def own_def case_prod_unfold Let_def list_all_iff)
qed

text \<open>A call of three: the second session adopts the first one's tracks and hangs up.\<close>

definition third_leaves :: "cam_event list" where
  "third_leaves =
     [CmEnsure 0 None True, CmGum (Some [True, False]) 0, CmAdopt 1 0 (\<lambda>_. False) True, CmAdopt 2 0 (\<lambda>t. t = 0) True,
      CmClose 1 False, CmClose 2 True, CmRefresh 0 ''zero_f_2000'']"

theorem stops_own_tracks_witness:
  "let w = cam_run (new_cams 3) third_leaves
   in list_all (\<lambda>(i, t). t < length (cmTracks w) \<and> ctBy (cmTracks w ! t) = i) (cmStops w) \<and>
      cmStops w = [(0, 0), (2, 2)]"
proof -
  have "list_all (allowed_cam {1, 2}) third_leaves" by (simp add: third_leaves_def allowed_cam_def)
  note stops_own_tracks [OF this, of 3]
  moreover have "cmStops (cam_run (new_cams 3) third_leaves) = [(0, 0), (2, 2)]" by code_simp
  ultimately show ?thesis by (simp add: Let_def)
qed

section \<open>The promoted session\<close>

text \<open>
  When the first partner leaves, the first session is closed with its preview kept and the second one is
  promoted. If its encoder sends nothing, it refreshes its camera. A session that shares the tracks of
  another then stops them, since the refresh does not ask who owns the stream.
\<close>

lemma nth_upd: "n < length ys \<Longrightarrow> (ys[a := f (ys ! a)]) ! n = (if a = n then f (ys ! n) else ys ! n)"
  by (cases "a = n") simp_all

lemma live_stop:
  "t < length (cmTracks w) \<Longrightarrow> is_live (stop_tracks i xs w) t \<longleftrightarrow> is_live w t \<and> t \<notin> set xs"
proof -
  have "n < length ys \<Longrightarrow> ctLive (fold (\<lambda>t xs. xs[t := (xs ! t)\<lparr>ctLive := False\<rparr>]) xs ys ! n)
      \<longleftrightarrow> ctLive (ys ! n) \<and> n \<notin> set xs" for n ys
    by (induction xs arbitrary: ys) (auto simp: nth_upd)
  then show "t < length (cmTracks w) \<Longrightarrow> ?thesis" by (simp add: is_live_def stop_tracks_def)
qed

lemma video_stop:
  "t < length (cmTracks w) \<Longrightarrow> is_video_track (stop_tracks i xs w) t = is_video_track w t"
proof -
  have "n < length ys \<Longrightarrow> ctVideo (fold (\<lambda>t xs. xs[t := (xs ! t)\<lparr>ctLive := False\<rparr>]) xs ys ! n) = ctVideo (ys ! n)" for n ys
    by (induction xs arbitrary: ys) (auto simp: nth_upd)
  then show "t < length (cmTracks w) \<Longrightarrow> ?thesis" by (simp add: is_video_track_def stop_tracks_def)
qed

lemma live_add: "t < length (cmTracks w) \<Longrightarrow> is_live (snd (add_tracks i ks w)) t = is_live w t"
  by (simp add: is_live_def add_tracks_def Let_def nth_append)

lemma live_upd [simp]: "is_live (upd_cam i f w) = is_live w" "is_video_track (upd_cam i f w) = is_video_track w"
  by (simp_all add: fun_eq_iff is_live_def is_video_track_def)

lemma cam_of_other: "j \<noteq> i \<Longrightarrow> cam_of j (upd_cam i f w) = cam_of j w"
  by (simp add: cam_of_def upd_cam_def)

lemma track_count [simp]:
  "length (cmTracks (stop_tracks i xs w)) = length (cmTracks w)"
  "length (cmTracks (snd (add_tracks i ks w))) = length (cmTracks w) + length ks"
  "cmStops (upd_cam i f w) = cmStops w" "cmStops (snd (add_tracks i ks w)) = cmStops w"
  "set (cmStops (stop_tracks i xs w)) = Pair i ` set xs \<union> set (cmStops w)"
  "cmFresh (upd_cam i f w) = cmFresh w" "cmFresh (stop_tracks i xs w) = cmFresh w"
  by (auto simp: stop_tracks_def stopped_tracks add_tracks_def Let_def upd_cam_def)

text \<open>What a release of clones and a fresh video track leave, of the tracks that were there.\<close>

definition only_stops :: "nat \<Rightarrow> cams \<Rightarrow> cams \<Rightarrow> bool" where
  "only_stops i w w' \<longleftrightarrow> length (cmTracks w) \<le> length (cmTracks w') \<and> length (cmSessions w') = length (cmSessions w)
     \<and> set (cmStops w) \<subseteq> set (cmStops w') \<and> (\<forall>t < length (cmTracks w). is_live w' t \<longrightarrow> is_live w t)
     \<and> (\<forall>j. j \<noteq> i \<longrightarrow> csStream (cam_of j w') = csStream (cam_of j w))"

lemma only_stops_refl [simp]: "only_stops i w w"
  by (simp add: only_stops_def)

lemma only_stops_trans: "only_stops i w w1 \<Longrightarrow> only_stops i w1 w2 \<Longrightarrow> only_stops i w w2"
  unfolding only_stops_def by (simp add: order_less_le_trans) blast

lemma only_stops_ops:
  "only_stops i w w1 \<Longrightarrow> only_stops i w (stop_tracks i xs w1)"
  "only_stops i w w1 \<Longrightarrow> only_stops i w (upd_cam i f w1)"
  "only_stops i w w1 \<Longrightarrow> only_stops i w (snd (add_tracks i ks w1))"
  "only_stops i w w1 \<Longrightarrow> only_stops i w (releaseOwnedClones i w1)"
  "only_stops i w w1 \<Longrightarrow> only_stops i w (w1\<lparr>cmFresh := js\<rparr>)"
  "only_stops i w w1 \<Longrightarrow> only_stops i w (w1\<lparr>cmOwners := os\<rparr>)"
proof -
  have stop: "only_stops i w1 (stop_tracks i xs w1)" for xs w1 by (auto simp: only_stops_def live_stop)
  have upd: "only_stops i w1 (upd_cam i f w1)" for f w1 by (simp add: only_stops_def cam_of_other)
  have add: "only_stops i w1 (snd (add_tracks i ks w1))" by (simp add: only_stops_def live_add)
  have frame: "only_stops i w1 (w1\<lparr>cmFresh := js\<rparr>)" "only_stops i w1 (w1\<lparr>cmOwners := os\<rparr>)"
    by (simp_all add: only_stops_def is_live_def cam_of_def)
  show "only_stops i w w1 \<Longrightarrow> only_stops i w (stop_tracks i xs w1)"
    "only_stops i w w1 \<Longrightarrow> only_stops i w (upd_cam i f w1)"
    "only_stops i w w1 \<Longrightarrow> only_stops i w (snd (add_tracks i ks w1))"
    "only_stops i w w1 \<Longrightarrow> only_stops i w (releaseOwnedClones i w1)"
    "only_stops i w w1 \<Longrightarrow> only_stops i w (w1\<lparr>cmFresh := js\<rparr>)"
    "only_stops i w w1 \<Longrightarrow> only_stops i w (w1\<lparr>cmOwners := os\<rparr>)"
    unfolding releaseOwnedClones_def
    using only_stops_trans stop upd add frame only_stops_trans [OF upd stop] by blast+
qed

lemma fresh_video:
  "fresh_stream True [True] ov oa i w =
     releaseOwnedClones i
       (upd_cam i (\<lambda>s. s\<lparr>csStream := Some (length (cmTracks w) # oa), csOwned := True, csSecondary := False\<rparr>)
         (stop_tracks i [] (stop_tracks i ov (snd (add_tracks i [True] w)))))"
  by (simp add: fresh_stream_def add_tracks_def Let_def is_video_track_def nth_append)

text \<open>C16: A session that shares the stream of another one without being marked as an extra (promotion clears
  the mark) ends that stream: a refresh because nothing arrives stops its camera, and when the refreshing
  session then gets a new camera and hangs up, every track of the other session's stream is dead, each
  live one stopped by the refreshing session, while the other session still holds the stream.\<close>

theorem promoted_refresh:
  assumes "i < length (cmSessions w)" and "j \<noteq> i" and "\<not> csSecondary (cam_of i w)"
    and "csStream (cam_of i w) = Some ts" and "csStream (cam_of j w) = Some ts"
    and "list_all (\<lambda>t. t < length (cmTracks w)) ts"
    and "liveLocalVideoTrack i w" and "outbound_dead why"
  shows "let k = length (cmFresh w); w1 = cam_step w (CmRefresh i why);
             w2 = cam_run w1 [CmPaused k, CmFresh (Some [True]) True k, CmClose i False]
         in list_all (\<lambda>t. \<not> is_live w1 t) (filter (is_video_track w) ts)
            \<and> csStream (cam_of j w2) = Some ts \<and> list_all (\<lambda>t. \<not> is_live w2 t) ts
            \<and> list_all (\<lambda>t. (i, t) \<in> set (cmStops w2)) (filter (is_live w) ts)"
proof -
  define k where "k = length (cmFresh w)"
  let ?vs = "filter (is_video_track w) ts" and ?as = "filter (\<lambda>t. \<not> is_video_track w t \<and> is_live w t) ts"
  have range: "t < length (cmTracks w)" if "t \<in> set ts" for t
    using assms(6) that by (simp add: list_all_iff)
  have vs: "video_of i w = ?vs" and tr: "tracks_of i w = ts"
    using assms(4) by (simp_all add: video_of_def tracks_of_def)
  define w1 where "w1 = (stop_tracks i ?vs w)\<lparr>cmFresh := cmFresh w @ [(i, FrPause)]\<rparr>"
  have step1: "cam_step w (CmRefresh i why) = w1"
    using assms(1,3,7,8) by (simp add: refreshLocalVideoTrack_def w1_def vs)
  have os1: "only_stops i w w1"
    unfolding w1_def by (intro only_stops_ops only_stops_refl)
  have same1: "is_live w1 = is_live (stop_tracks i ?vs w)" "is_video_track w1 = is_video_track (stop_tracks i ?vs w)"
    "cam_of i w1 = cam_of i w" "set (cmStops w1) = Pair i ` set ?vs \<union> set (cmStops w)"
    by (auto simp: w1_def is_live_def is_video_track_def cam_of_def fun_eq_iff stop_tracks_def)
  have ask: "fresh_ask i w1 = FrVideo ?vs ?as"
    using range by (auto simp: fresh_ask_def video_of_def tracks_of_def same1 assms(4) live_stop video_stop
        intro!: filter_cong)
  define w2 where "w2 = fresh_to k (FrVideo ?vs ?as) w1"
  have job1: "cmFresh w1 ! k = (i, FrPause)" "k < length (cmFresh w1)" by (simp_all add: w1_def k_def)
  then have step2: "cam_step w1 (CmPaused k) = w2"
    by (simp add: live_fresh_def fresh_paused_def ask w2_def)
  have os2: "only_stops i w1 w2"
    unfolding w2_def fresh_to_def by (intro only_stops_ops only_stops_refl)
  define f where "f = (\<lambda>s :: cam_session. s\<lparr>csStream := Some (length (cmTracks w2) # ?as), csOwned := True, csSecondary := False\<rparr>)"
  define u where "u = upd_cam i f (stop_tracks i [] (stop_tracks i ?vs (snd (add_tracks i [True] w2))))"
  define w3 where "w3 = fresh_to k FrDone (releaseOwnedClones i u)"
  have job2: "cmFresh w2 ! k = (i, FrVideo ?vs ?as)" "k < length (cmFresh w2)"
    using job1 by (simp_all add: w2_def fresh_to_def)
  then have step3: "cam_step w2 (CmFresh (Some [True]) True k) = w3"
    by (simp add: live_fresh_def fresh_answer_def fresh_video w3_def u_def f_def)
  have os3: "only_stops i w2 w3"
    unfolding w3_def u_def fresh_to_def by (intro only_stops_ops only_stops_refl)
  have len: "i < length (cmSessions w2)" "i < length (cmSessions u)"
    using assms(1) os1 os2 by (simp_all add: only_stops_def u_def)
  have cam3: "cam_of i w3 = (f (cam_of i w2))\<lparr>csClones := []\<rparr>"
  proof -
    have "cam_of i w3 = cam_of i (releaseOwnedClones i u)" by (simp add: w3_def fresh_to_def cam_of_def)
    also have "\<dots> = (cam_of i u)\<lparr>csClones := []\<rparr>" by (rule released(1) [OF len(2)])
    finally show ?thesis using len(1) by (simp add: u_def)
  qed
  have len3: "i < length (cmSessions w3)" using len os3 by (simp add: only_stops_def)
  let ?r = "releaseOwnedClones i w3"
  have tr3: "tracks_of i ?r = length (cmTracks w2) # ?as"
    by (simp add: tracks_of_def released(1) [OF len3] cam3 f_def)
  define w4 where "w4 = cam_step w3 (CmClose i False)"
  define z where "z = stop_tracks i (length (cmTracks w2) # ?as) ?r"
  have step4: "w4 = upd_cam i (\<lambda>x. x\<lparr>csStream := None, csPending := False, csFacing := FacingUser, csOwned := True,
      csSecondary := False, csAnswered := False\<rparr>) (z\<lparr>cmOwners := filter (\<lambda>j. j \<noteq> i) (cmOwners ?r)\<rparr>)"
    using len3 by (simp add: w4_def close_local_def Let_def cam3 f_def tr3 z_def)
  have osr: "only_stops i w ?r"
    by (rule only_stops_ops(4), rule only_stops_trans [OF os1 only_stops_trans [OF os2 os3]])
  have osz: "only_stops i ?r w4"
    unfolding step4 z_def by (intro only_stops_ops only_stops_refl)
  have live4: "is_live w4 = is_live z" "set (cmStops w4) = set (cmStops z)"
    by (simp_all add: step4 is_live_def fun_eq_iff)
  have dead1: "\<not> is_live w1 t" if "t \<in> set ?vs" for t
    using that range by (simp add: same1 live_stop)
  have dead: "\<not> is_live w4 t" if t: "t \<in> set ts" for t
  proof (cases "is_video_track w t \<or> \<not> is_live w t")
    case True
    then have "\<not> is_live w1 t" using dead1 t os1 range [OF t] by (auto simp: only_stops_def)
    moreover have "only_stops i w1 w4"
      by (rule only_stops_trans [OF only_stops_trans [OF os2 os3] only_stops_trans [OF only_stops_ops(4) [OF only_stops_refl] osz]])
    ultimately show ?thesis using range [OF t] os1 by (auto simp: only_stops_def)
  next
    case False
    with t range [OF t] osr show ?thesis by (simp add: live4 z_def live_stop only_stops_def)
  qed
  have stopped: "(i, t) \<in> set (cmStops w4)" if "t \<in> set ts" "is_live w t" for t
  proof (cases "is_video_track w t")
    case True
    with that have "(i, t) \<in> set (cmStops w1)" by (simp add: same1)
    moreover have "only_stops i w1 w4"
      by (rule only_stops_trans [OF only_stops_trans [OF os2 os3] only_stops_trans [OF only_stops_ops(4) [OF only_stops_refl] osz]])
    ultimately show ?thesis by (auto simp: only_stops_def)
  next
    case False
    with that show ?thesis by (simp add: live4 z_def)
  qed
  have "only_stops i w w4" by (rule only_stops_trans [OF osr osz])
  then have "csStream (cam_of j w4) = Some ts" using assms(2,5) by (simp add: only_stops_def)
  with dead stopped dead1 show ?thesis
    unfolding cam_run_def Let_def step1 k_def [symmetric] foldl.simps step2 step3 w4_def [symmetric]
    by (auto simp: list_all_iff)
qed

text \<open>The first session opened the camera, the second one adopted it as it is and was promoted.\<close>

definition promoted :: "bool \<Rightarrow> cam_event list" where
  "promoted clones =
     [CmEnsure 0 None True, CmGum (Some [True, False]) 0, CmAdopt 1 0 (\<lambda>_. clones) True, CmClose 0 True, CmPrimary 1]"

theorem promoted_refresh_witness:
  "let w = cam_run (new_cams 2) (promoted False); w1 = cam_step w (CmRefresh 1 ''zero_f_2000'');
       w2 = cam_run w1 [CmPaused 0, CmFresh (Some [True]) True 0, CmClose 1 False]
   in \<not> is_live w1 0 \<and> csStream (cam_of 0 w2) = Some [0, 1] \<and> \<not> is_live w2 0 \<and> \<not> is_live w2 1"
proof -
  let ?w = "cam_run (new_cams 2) (promoted False)"
  have w: "1 < length (cmSessions ?w)" "(0::nat) \<noteq> 1" "\<not> csSecondary (cam_of 1 ?w)" "csStream (cam_of 1 ?w) = Some [0, 1]"
    "csStream (cam_of 0 ?w) = Some [0, 1]" "list_all (\<lambda>t. t < length (cmTracks ?w)) [0, 1]"
    "liveLocalVideoTrack 1 ?w" "outbound_dead ''zero_f_2000''"
    by code_simp+
  have k: "length (cmFresh ?w) = 0" "filter (is_video_track ?w) [0, 1] = [0]" by code_simp+
  show ?thesis
    using promoted_refresh [OF w] unfolding k Let_def by simp
qed

text \<open>With clones the refreshed session keeps its cloned microphone in the new stream and stops it right after.\<close>

lemma promoted_clone_muted:
  "let w = cam_run (new_cams 2) (promoted True @ [CmRefresh 1 ''zero_f_2000'', CmPaused 0, CmFresh (Some [True]) True 0])
   in csStream (cam_of 1 w) = Some [4, 3] \<and> \<not> is_video_track w 3 \<and> \<not> is_live w 3"
  by code_simp

section \<open>A camera after the hang-up\<close>

text \<open>C17: A hang-up does not end a request for the camera: when the user agrees after it, the session takes the new
  tracks and they are live, in a session that has no call.\<close>

theorem camera_after_hang_up:
  assumes "live_gum k w" and "cmGums w ! k = (i, g)" and "g \<noteq> GumAudio" and "i < length (cmSessions w)"
  shows "let w' = cam_step (cam_step w (CmClose i False)) (CmGum (Some [True, False]) k); n = length (cmTracks w)
         in csStream (cam_of i w') = Some [n, n + 1] \<and> is_live w' n \<and> is_live w' (n + 1) \<and> i \<in> set (cmOwners w')"
proof -
  let ?c = "close_local False i w"
  have c: "cmGums ?c = cmGums w" "length (cmTracks ?c) = length (cmTracks w)" "length (cmSessions ?c) = length (cmSessions w)"
      "csClones (cam_of i ?c) = []"
    using assms(4) by (auto simp: close_local_def Let_def releaseOwnedClones_def stop_tracks_def upd_cam_def stopped_tracks cam_of_def)
  let ?v = "tryGum [True, False] i ?c"
  have v: "csStream (cam_of i ?v) = Some [length (cmTracks ?c), length (cmTracks ?c) + 1]" "i \<in> set (cmOwners ?v)"
      "cmTracks ?v = cmTracks ?c @ [\<lparr>ctVideo = True, ctBy = i, ctLive = True\<rparr>, \<lparr>ctVideo = False, ctBy = i, ctLive = True\<rparr>]"
      "cmGums ?v = cmGums ?c" "length (cmSessions ?v) = length (cmSessions ?c)"
    using c assms(4) by (auto simp: tryGum_def add_tracks_def Let_def releaseOwnedClones_def stop_tracks_def upd_cam_def cam_of_def)
  have "live_gum k ?c" using assms(1) c(1) by (simp add: live_gum_def)
  moreover have "gum_answer (Some [True, False]) k ?c = gum_done k ?v"
    using assms(2,3) c(1) by (simp add: gum_answer_def)
  ultimately show ?thesis
    using assms(2,4) c v by (simp add: Let_def gum_done_def is_live_def nth_append cam_of_def upd_cam_def)
qed

theorem camera_after_hang_up_witness:
  "let w = cam_run (new_cams 1) [CmEnsure 0 None True];
       w' = cam_step (cam_step w (CmClose 0 False)) (CmGum (Some [True, False]) 0); n = length (cmTracks w)
   in csStream (cam_of 0 w') = Some [n, n + 1] \<and> is_live w' n \<and> is_live w' (n + 1) \<and> 0 \<in> set (cmOwners w')"
proof -
  let ?w = "cam_run (new_cams 1) [CmEnsure 0 None True]"
  have w: "live_gum 0 ?w" "cmGums ?w ! 0 = (0, GumSoft)" "GumSoft \<noteq> GumAudio" "0 < length (cmSessions ?w)" by code_simp+
  show ?thesis using camera_after_hang_up [OF w] by (simp only: Let_def)
qed

text \<open>Two sessions that ask at once both open a camera: the owner is written down when the camera is there.\<close>

lemma two_owners:
  "cmOwners (cam_run (new_cams 2) [CmEnsure 0 None True, CmEnsure 1 None True, CmGum (Some [True]) 0, CmGum (Some [True]) 1]) = [0, 1]"
  by code_simp

text \<open>A hang-up and a new call within one request: the first camera is never stopped.\<close>

lemma camera_lost:
  "let w = cam_run (new_cams 1) [CmEnsure 0 None True, CmClose 0 False, CmEnsure 0 None True, CmGum (Some [True]) 0,
             CmGum (Some [True]) 1, CmClose 0 False]
   in is_live w 0 \<and> \<not> is_live w 1 \<and> csStream (cam_of 0 w) = None"
  by code_simp

end
