(* ===== verification/Spec2Isabelle.thy ===== *)
theory Spec2Isabelle
  imports Peers RelayLadder Hubs Debate MatchPeers HubClient Quality Recovery Stage HubLobby Signals
    Histories Links PageProfile DeviceIdentity PhoneCalls PhoneTracks
begin

text \<open>
  A verification development for ruletka, a random video chat: web pages (\<open>ui/\<close>) and a phone
  client (\<open>mobile/\<close>) that find each other through a matchmaking hub or through a shared lobby
  document, and then talk over WebRTC.

  How the parts interact. Two clients meet in the lobby (\<open>ui/protocol.js\<close>) or on a hub
  (\<open>ui/hubs.js\<close>, \<open>mobile/src/hub/HubClient.ts\<close>). A match brings a list of peers, from which the
  phone picks the partner, the extras and their names (\<open>matchPeers.ts\<close>, \<open>matchContinuity.ts\<close>,
  \<open>flagTrust.ts\<close>). The call is set up from the ICE configuration the hub serves, filtered by the
  user's privacy choices (\<open>ui/webrtc.js\<close>), its quality is adapted to the network, and a call that
  fails is retried over a ladder of relays (\<open>ui/live.js\<close>, \<open>connectRetry.ts\<close>). During a call the
  partners may hold a debate whose messages travel between them (\<open>debate.ts\<close>).

  Theories, in the order they build on each other:
  \<^item> \<open>Prelude\<close>, \<open>JsMap\<close>, \<open>JsVal\<close>, \<open>Json\<close>: strings as lists of code units below 256, the string methods
    the sources use, insertion-ordered maps, dynamic values, \<open>JSON.stringify\<close> and \<open>JSON.parse\<close> on them
    (the parser's fuel is twice the length of the text plus two, shown to be enough by the round trip).
  \<^item> \<open>Contracts\<close>: the interfaces as locales: machines with an invariant or a quantity that never goes
    down, last-writer-wins stores, choices that fail open. Each is interpreted in the theories below
    on the definitions of the code.
  \<^item> \<open>Lobby\<close>, \<open>Pairing\<close>, \<open>Peers\<close>: \<open>ui/protocol.js\<close> and the two-pane demo of \<open>ui/app.js\<close>. The lobby as a
    record of maps, its upserts and cleanup, the pairing rule, and the \<open>Peer\<close> state machine with its
    runs (the demo's loop runs 25 rounds, as in the source).
  \<^item> \<open>Lines\<close>, \<open>IceServers\<close>, \<open>SdpFilters\<close>, \<open>IcePolicy\<close>, \<open>RelayLadder\<close>: the configuration side of
    \<open>ui/webrtc.js\<close> and the call recovery of \<open>ui/live.js\<close>. The state is one record with the
    configuration objects and the warm connections in lists, so that sharing and closing are visible.
  \<^item> \<open>Offers\<close>, \<open>Signals\<close>: the negotiation of \<open>class RouletteWebRtc\<close> in \<open>ui/webrtc.js\<close>. The fields of the
    object and the page's match stamps are one record, each async method is cut at its awaits, and the
    calls and handlers in progress are lists, so that they interleave as in the page. What the browser's
    connection shows is an event, and so is what the page and its other connections write on it from
    outside: the stamps, the roles, the kicks of the first seconds (\<open>page_step\<close>, from \<open>armOfferKickWatch\<close>,
    \<open>kickSoloWebRtc\<close> and \<open>joinPeers\<close> of \<open>ui/live.js\<close>). \<open>demo_close\<close> has fuel to show that no amount of it is enough.
  \<^item> \<open>PhoneIce\<close>, \<open>PhoneSession\<close>, \<open>PhoneCalls\<close>: the same side of the phone, \<open>class MediaSession\<close> in
    \<open>mobile/src/media/MediaSession.ts\<close>: servers, candidates and descriptions; the relay policy, \<open>startCall\<close>,
    offers, restarts, timers, \<open>closeCall\<close> and remote signals as steps of one record; what runs of them keep
    (the locale \<open>session_law\<close>, with three interpretations), and what \<open>connectRetry.ts\<close> does to a session.
  \<^item> \<open>PhoneTracks\<close>: who opens, shares, refreshes and stops the camera tracks of the phone's sessions.
  \<^item> \<open>Hubs\<close>: \<open>ui/hubs.js\<close>, the choice of a healthy hub and the failover between sibling domains.
  \<^item> \<open>HubClient\<close>: \<open>mobile/src/hub/HubClient.ts\<close>. Sockets are kept in a list, so late events of abandoned
    sockets are steps of their own.
  \<^item> \<open>Debate\<close>: \<open>mobile/src/media/debate.ts\<close>, two ends that exchange messages over clocks of their own.
  \<^item> \<open>PeerIds\<close>, \<open>MatchPeers\<close>: \<open>flagTrust.ts\<close>, \<open>matchContinuity.ts\<close> and \<open>matchPeers.ts\<close>.
  \<^item> \<open>Quality\<close>: tiers, adaptation, playout and codec order of \<open>ui/webrtc.js\<close>, the outbound budget of
    \<open>ui/live.js\<close> and the phone's \<open>adaptiveQuality.ts\<close>.
  \<^item> \<open>Recovery\<close>: \<open>connectRetry.ts\<close>, \<open>useAutoConnectRetry.ts\<close>, \<open>connectUi.ts\<close>, \<open>connectSteps.ts\<close>,
    \<open>partnerReconnect.ts\<close> and their guards in \<open>mobile/app/live.tsx\<close>.
  \<^item> \<open>Stage\<close>, \<open>HubLobby\<close>: \<open>stageStreams.ts\<close>, \<open>pipLayout.ts\<close>, \<open>hubLobby.ts\<close>, \<open>hubBan.ts\<close>.
  \<^item> \<open>Prefs\<close>, \<open>Histories\<close>, \<open>Links\<close>: what the phone remembers (\<open>prefs/store.ts\<close>, \<open>identity/store.ts\<close>,
    \<open>pipPrefs.ts\<close>, \<open>calls/\<close>, \<open>safety/\<close>, \<open>unread.ts\<close>) and what its links open (\<open>friendInvite.ts\<close>,
    \<open>+native-intent.ts\<close>, \<open>hubs/directory.ts\<close>). A store is a record of its keys; the lists are read and
    written in two steps that overlap (\<open>io_step\<close>, with the locale \<open>local_store\<close>).
  \<^item> \<open>DeviceIdentity\<close>: \<open>ui/identity.js\<close> and \<open>fillPublicGeo.ts\<close>.
  \<^item> \<open>Backup\<close>, \<open>PageProfile\<close>: the encrypted profile file of both clients (\<open>profileBackup.ts\<close>,
    \<open>app/settings.tsx\<close>, \<open>ui/live.js\<close>), with base64 and JSON written out and the ciphers as arguments.

  What the lemmas show. For each component: an invariant of its runs (lobby, warm connections,
  hub client, quality links, debate sessions), the exact effect of its operations on every branch
  (filters, pairing, cleanup, retries, layouts), that no warm connection leaks or is handed out twice, agreement between copies of one rule in the two
  clients (tiers, ladder, counts), a refinement (the two ends of a debate follow one timetable),
  which signals and candidates can leave a page or a phone in any run (offers, answers, relay-only calls),
  that no session stops another's camera, how retries, restarts and hang-ups end on the phone,
  round trips (messages, names of hubs, corners), and that what waits ends (debates, invitations,
  reconnects, the partner wait, the first-frame hold, the wait for a relay candidate). A profile moves
  between clients unchanged. Some theorems state what the code does where that is not what its comments say or what it means to do; the manifest lists them as findings.

  Conventions. Times are integers in milliseconds, given to each operation; round trips, losses and
  lengths are rationals, without floating-point rounding. Browser and device interfaces, network
  answers and random choices are arguments or events. An absent or null id is the empty string.

  Not modelled: the live screens beyond the functions above (they drive the DOM and React state); of the
  media classes the binding of tracks to senders, statistics, painting and data channels, which drive
  native WebRTC objects; rendering and styles, translation tables, service worker,
  notifications and other device services, analytics, and vendored libraries.
\<close>

end
